(* ===== verification/Prelude.thy ===== *)
theory Prelude
  imports Main "HOL-Library.Word"
begin

text \<open>
  Shared vocabulary of the development: Python exceptions as values, the result type every
  handler returns, and the table algebra that the SQL statements embedded in the Python sources
  are translated to (SELECT as filter, UPDATE as map, DELETE as filter, INSERT at the end of the
  table), with the lemmas about looking a row up by its key that all component theories share.
\<close>

named_theorems rows
  \<comment> \<open>looking a row up by key after INSERT, UPDATE and DELETE\<close>

subsection \<open>Names of the model's types\<close>

type_synonym bytes = string      \<comment> \<open>a char is one byte\<close>
type_synonym uuid = "128 word"
type_synonym micros = int        \<comment> \<open>a point in time, in microseconds since the epoch\<close>

abbreviation second :: micros where "second \<equiv> 1000000"
abbreviation hour :: micros where "hour \<equiv> 3600000000"
abbreviation day :: micros where "day \<equiv> 86400000000"

subsection \<open>Exceptions as values\<close>

text \<open>The \<open>detail\<close> of an HTTPException is a string or one of the dictionaries the code builds.\<close>

datatype detail =
    Msg string
  | VersionConflict int
  | QuotaExceeded string int int int int
  | LocationDenied "string option"

datatype exc =
    HTTPException nat detail "(string \<times> string) list"
  | ValueError string
  | RuntimeError string
  | TypeError
  | KeyError
  | InvalidTag
  | UniqueViolation
  | ForeignKeyViolation
  | InFailedSqlTransaction
  | StringDataRightTruncation   \<comment> \<open>a value longer than its VARCHAR column\<close>
  | InvalidTextRepresentation   \<comment> \<open>a value that is no uuid or no inet\<close>
  | ServiceError   \<comment> \<open>any exception raised by an external service client\<close>

abbreviation http :: "nat \<Rightarrow> string \<Rightarrow> exc" where
  "http st m \<equiv> HTTPException st (Msg m) []"

type_synonym 'a res = "exc + 'a"

definition bind_res :: "'a res \<Rightarrow> ('a \<Rightarrow> 'b res) \<Rightarrow> 'b res" where
  "bind_res m f = (case m of Inl e \<Rightarrow> Inl e | Inr x \<Rightarrow> f x)"

lemma bind_res_simps [simp]:
  "bind_res (Inl e) f = Inl e"
  "bind_res (Inr x) f = f x"
  by (simp_all add: bind_res_def)

lemma bind_res_eq_Inr: "bind_res m f = Inr y \<longleftrightarrow> (\<exists>x. m = Inr x \<and> f x = Inr y)"
  by (cases m) simp_all

definition ok :: "'a res \<Rightarrow> bool" where
  "ok r = (case r of Inl _ \<Rightarrow> False | Inr _ \<Rightarrow> True)"

lemma ok_simps [simp]: "\<not> ok (Inl e)" "ok (Inr x)"
  by (simp_all add: ok_def)

lemma ok_iff: "ok r \<longleftrightarrow> (\<exists>x. r = Inr x)"
  by (cases r) simp_all

subsection \<open>Tables\<close>

definition sql_select :: "('r \<Rightarrow> bool) \<Rightarrow> 'r list \<Rightarrow> 'r list" where
  "sql_select p t = filter p t"

definition sql_update :: "('r \<Rightarrow> bool) \<Rightarrow> ('r \<Rightarrow> 'r) \<Rightarrow> 'r list \<Rightarrow> 'r list" where
  "sql_update p f t = map (\<lambda>r. if p r then f r else r) t"

definition sql_delete :: "('r \<Rightarrow> bool) \<Rightarrow> 'r list \<Rightarrow> 'r list" where
  "sql_delete p t = filter (\<lambda>r. \<not> p r) t"

definition sql_insert :: "'r \<Rightarrow> 'r list \<Rightarrow> 'r list" where
  "sql_insert r t = t @ [r]"

definition fetchone :: "'r list \<Rightarrow> 'r option" where
  "fetchone t = (case t of [] \<Rightarrow> None | r # _ \<Rightarrow> Some r)"

lemma fetchone_simps [simp]: "fetchone [] = None" "fetchone (r # t) = Some r"
  by (simp_all add: fetchone_def)

text \<open>SELECT ... WHERE key = k, then fetchone.\<close>

definition row_of :: "('r \<Rightarrow> 'k) \<Rightarrow> 'r list \<Rightarrow> 'k \<Rightarrow> 'r option" where
  "row_of key t k = fetchone (sql_select (\<lambda>r. key r = k) t)"

lemma row_of_Nil [simp, rows]: "row_of key [] k = None"
  by (simp add: row_of_def sql_select_def)

lemma row_of_Cons [simp]: "row_of key (r # t) k = (if key r = k then Some r else row_of key t k)"
  by (simp add: row_of_def sql_select_def)

lemma row_of_Some: "row_of key t k = Some r \<Longrightarrow> r \<in> set t \<and> key r = k"
  by (induction t) (auto split: if_splits)

lemma row_of_None: "row_of key t k = None \<longleftrightarrow> k \<notin> key ` set t"
  by (induction t) auto

lemma row_of_None_notin: "row_of key t k = None \<Longrightarrow> r \<in> set t \<Longrightarrow> key r \<noteq> k"
  by (auto simp: row_of_None)

lemma row_of_insert [rows]:
  "row_of key (sql_insert r t) k =
     (case row_of key t k of None \<Rightarrow> if key r = k then Some r else None | Some r' \<Rightarrow> Some r')"
  by (induction t) (auto simp: sql_insert_def)

lemma row_of_update:
  assumes "\<And>r. key (f r) = key r"
  shows "row_of key (sql_update (\<lambda>r. key r = k) f t) k' =
     (if k = k' then map_option f (row_of key t k) else row_of key t k')"
  using assms by (induction t) (auto simp: sql_update_def)

lemma row_of_update_where:
  assumes "\<And>r. key (f r) = key r" and "\<And>r. key r = k' \<Longrightarrow> p r = q"
  shows "row_of key (sql_update p f t) k' =
     (if q then map_option f (row_of key t k') else row_of key t k')"
  using assms by (induction t) (auto simp: sql_update_def)

lemma row_of_delete [rows]:
  "row_of key (sql_delete (\<lambda>r. key r = k) t) k' = (if k = k' then None else row_of key t k')"
  by (induction t) (auto simp: sql_delete_def)

lemma row_of_delete_where:
  assumes "\<And>r. key r = k \<Longrightarrow> p r = q"
  shows "row_of key (sql_delete p t) k = (if q then None else row_of key t k)"
  using assms by (induction t) (auto simp: sql_delete_def)

lemma row_of_distinct:
  "distinct (map key t) \<Longrightarrow> r \<in> set t \<Longrightarrow> row_of key t (key r) = Some r"
  by (induction t) auto

lemma set_sql [rows]:
  "set (sql_insert r t) = insert r (set t)"
  "set (sql_delete p t) = {r \<in> set t. \<not> p r}"
  "set (sql_select p t) = {r \<in> set t. p r}"
  by (auto simp: sql_insert_def sql_delete_def sql_select_def)

lemma set_sql_update: "r \<in> set (sql_update p f t) \<longleftrightarrow>
    (\<exists>r' \<in> set t. r = (if p r' then f r' else r'))"
  by (auto simp: sql_update_def)

lemma distinct_insert: "distinct (map key (sql_insert r t)) \<longleftrightarrow>
    key r \<notin> key ` set t \<and> distinct (map key t)"
  by (auto simp: sql_insert_def)

lemma distinct_delete: "distinct (map key t) \<Longrightarrow> distinct (map key (sql_delete p t))"
  by (induction t) (auto simp: sql_delete_def)

lemma map_sql_update:
  assumes "\<And>r. key (f r) = key r"
  shows "map key (sql_update p f t) = map key t"
  using assms by (induction t) (auto simp: sql_update_def)

lemma bex_sql_update:
  "(\<And>r. Q (f r) = Q r) \<Longrightarrow> (\<exists>r \<in> set (sql_update p f t). Q r) \<longleftrightarrow> (\<exists>r \<in> set t. Q r)"
  by (auto simp: sql_update_def)

lemma image_sql_update:
  "(\<And>r. g (f r) = g r) \<Longrightarrow> g ` set (sql_update p f t) = g ` set t"
  by (induction t) (auto simp: sql_update_def)

lemma sql_select_insert: "sql_select p (sql_insert r t) = sql_select p t @ (if p r then [r] else [])"
  by (simp add: sql_select_def sql_insert_def)

subsection \<open>ORDER BY and aggregates\<close>

definition order_desc :: "('r \<Rightarrow> int) \<Rightarrow> 'r list \<Rightarrow> 'r list" where
  "order_desc f t = rev (sort_key f t)"

lemma insort_key_append:
  "f x \<le> f r \<Longrightarrow> insort_key f x (ys @ [r]) = insort_key f x ys @ [r]"
  by (induction ys) auto

lemma sort_key_append_max:
  "(\<And>x. x \<in> set t \<Longrightarrow> f x \<le> f r) \<Longrightarrow> sort_key f (t @ [r]) = sort_key f t @ [r]"
  by (induction t) (auto simp: insort_key_append)

lemma order_desc_insert_max:
  assumes "\<And>x. x \<in> set t \<Longrightarrow> f x < f r"
  shows "order_desc f (t @ [r]) = r # order_desc f t"
proof -
  have "sort_key f (t @ [r]) = sort_key f t @ [r]"
    using assms by (intro sort_key_append_max) (auto intro: less_imp_le)
  then show ?thesis by (simp add: order_desc_def)
qed

lemma set_order_desc [simp]: "set (order_desc f t) = set t"
  by (simp add: order_desc_def)

lemma order_desc_eq_Nil [simp]: "order_desc f t = [] \<longleftrightarrow> t = []"
  by (metis set_empty set_order_desc)

text \<open>COALESCE(MAX(x), 0).\<close>

definition coalesce_max :: "int list \<Rightarrow> int" where
  "coalesce_max xs = (case xs of [] \<Rightarrow> 0 | x # ys \<Rightarrow> fold max ys x)"

lemma fold_max_start: "(x :: int) \<le> fold max ys x"
  by (induction ys arbitrary: x) (auto intro: order_trans [OF max.cobounded2])

lemma fold_max_ge: "(y :: int) \<in> set ys \<Longrightarrow> y \<le> fold max ys x"
proof (induction ys arbitrary: x)
  case (Cons z ys)
  show ?case
  proof (cases "y = z")
    case True
    have "y \<le> max z x" using True by simp
    also have "\<dots> \<le> fold max ys (max z x)" by (rule fold_max_start)
    finally show ?thesis by simp
  next
    case False
    with Cons show ?thesis by simp
  qed
qed simp

lemma coalesce_max_ge: "x \<in> set xs \<Longrightarrow> x \<le> coalesce_max xs"
  by (cases xs) (auto simp: coalesce_max_def fold_max_ge fold_max_start)

lemma coalesce_max_Nil [simp]: "coalesce_max [] = 0"
  by (simp add: coalesce_max_def)

definition sum_of :: "('r \<Rightarrow> int) \<Rightarrow> 'r list \<Rightarrow> int" where
  "sum_of f t = sum_list (map f t)"

text \<open>\<open>dict.fromkeys\<close> as the code uses it: keep the first occurrence of each value, in order.\<close>

fun dedup :: "'a list \<Rightarrow> 'a list" where
  "dedup [] = []"
| "dedup (x # xs) = x # filter (\<lambda>y. y \<noteq> x) (dedup xs)"

lemma set_dedup [simp]: "set (dedup xs) = set xs"
  by (induction xs) auto

lemma distinct_dedup [simp]: "distinct (dedup xs)"
  by (induction xs) auto

subsection \<open>Runs\<close>

text \<open>
  The interface of a step relation whose steps keep the good states and a promise between the state before
  and after: along any run both hold.
\<close>

locale stepwise =
  fixes step :: "'s \<Rightarrow> 's \<Rightarrow> bool"
    and good :: "'s \<Rightarrow> bool"
    and promise :: "'s \<Rightarrow> 's \<Rightarrow> bool"
  assumes keep: "good s \<Longrightarrow> step s s' \<Longrightarrow> good s' \<and> promise s s'"
    and stay: "good s \<Longrightarrow> promise s s"
    and chain: "promise s1 s2 \<Longrightarrow> promise s2 s3 \<Longrightarrow> promise s1 s3"
begin

lemma reach:
  assumes "step\<^sup>*\<^sup>* s s'" and "good s" shows "good s' \<and> promise s s'"
  using assms
proof (induction rule: rtranclp_induct)
  case base
  then show ?case by (simp add: stay)
next
  case (step s1 s2)
  from step.IH [OF step.prems] have "good s1" "promise s s1" by simp_all
  with keep [OF this(1) step.hyps(2)] show ?case using chain by blast
qed

end

end
