(* ===== verification/Py_Lib.thy ===== *)
theory Py_Lib
  imports Prelude
begin

text \<open>
  The pieces of Python's standard library that the sources compute with: decimal and
  hexadecimal integers (\<open>int\<close>, \<open>str\<close>), \<open>str.rsplit\<close>, \<open>uuid.UUID\<close>, \<open>struct.pack(">I")\<close>,
  \<open>base64\<close> (CPython 3.11, the version of the Dockerfile) and UTF-8.  A Python \<open>str\<close> is
  represented by its UTF-8 bytes, so \<open>str.encode\<close> is the identity and \<open>bytes.decode\<close> is a
  validity check; \<open>int\<close> of a non-ASCII digit is not modelled (it is rejected here).
\<close>

subsection \<open>Digits in a base, most significant first\<close>

fun digits_be :: "nat \<Rightarrow> nat \<Rightarrow> nat \<Rightarrow> nat list" where
  "digits_be b 0 n = []"
| "digits_be b (Suc w) n = digits_be b w (n div b) @ [n mod b]"

definition from_be :: "nat \<Rightarrow> nat list \<Rightarrow> nat" where
  "from_be b ds = foldl (\<lambda>acc d. acc * b + d) 0 ds"

lemma length_digits_be [simp]: "length (digits_be b w n) = w"
  by (induction w arbitrary: n) auto

lemma set_digits_be: "0 < b \<Longrightarrow> d \<in> set (digits_be b w n) \<Longrightarrow> d < b"
  by (induction w arbitrary: n) auto

lemma from_be_append: "from_be b (ds @ [d]) = from_be b ds * b + d"
  by (simp add: from_be_def)

lemma from_be_digits: "0 < b \<Longrightarrow> from_be b (digits_be b w n) = n mod b ^ w"
proof (induction w arbitrary: n)
  case 0
  then show ?case by (simp add: from_be_def)
next
  case (Suc w)
  then have "from_be b (digits_be b (Suc w) n) = (n div b) mod b ^ w * b + n mod b"
    by (simp add: from_be_append)
  also have "\<dots> = n mod (b * b ^ w)"
    by (simp add: mod_mult2_eq mult.commute)
  finally show ?case by simp
qed

fun nat_digits :: "nat \<Rightarrow> nat list" where
  "nat_digits n = (if n < 10 then [n] else nat_digits (n div 10) @ [n mod 10])"

declare nat_digits.simps [simp del]

lemma nat_digits_props:
  "nat_digits n \<noteq> [] \<and> (\<forall>d \<in> set (nat_digits n). d < 10) \<and> from_be 10 (nat_digits n) = n"
proof (induction n rule: nat_digits.induct)
  case (1 n)
  show ?case
  proof (cases "n < 10")
    case True
    then show ?thesis by (simp add: nat_digits.simps [of n] from_be_def)
  next
    case False
    with 1 show ?thesis by (auto simp: nat_digits.simps [of n] from_be_append)
  qed
qed

subsection \<open>str(int) and int(str, base)\<close>

definition digit_char :: "nat \<Rightarrow> char" where
  "digit_char d = char_of (if d < 10 then 48 + d else 87 + d)"

definition digit_val :: "char \<Rightarrow> nat option" where
  "digit_val c =
     (let k = of_char c :: nat in
      if 48 \<le> k \<and> k \<le> 57 then Some (k - 48)
      else if 97 \<le> k \<and> k \<le> 122 then Some (k - 87)
      else if 65 \<le> k \<and> k \<le> 90 then Some (k - 55)
      else None)"

lemma of_char_digit_char: "d < 16 \<Longrightarrow> (of_char (digit_char d) :: nat) = (if d < 10 then 48 + d else 87 + d)"
  by (simp add: digit_char_def)

lemma digit_val_digit_char [simp]: "d < 16 \<Longrightarrow> digit_val (digit_char d) = Some d"
  by (auto simp: digit_val_def of_char_digit_char Let_def)

lemma digit_char_neq:
  assumes "d < 16"
  shows "digit_char d \<noteq> CHR ''.''" "digit_char d \<noteq> CHR ''-''" "digit_char d \<noteq> CHR ''+''"
    "digit_char d \<noteq> CHR ''_''" "digit_char d \<noteq> CHR ''x''" "digit_char d \<noteq> CHR ''X''"
    "digit_char d \<noteq> CHR '':''" "digit_char d \<noteq> CHR ''{''" "digit_char d \<noteq> CHR ''}''"
    "digit_char d \<noteq> CHR '' ''" "digit_char d \<noteq> CHR '',''"
  using assms of_char_digit_char [OF assms] by (auto split: if_splits)

definition py_str_int :: "int \<Rightarrow> string" where
  "py_str_int i =
     (if i < 0 then CHR ''-'' # map digit_char (nat_digits (nat (- i)))
      else map digit_char (nat_digits (nat i)))"

definition is_space :: "char \<Rightarrow> bool" where
  "is_space c = (let k = of_char c :: nat in (9 \<le> k \<and> k \<le> 13) \<or> k = 32)"

definition py_strip :: "string \<Rightarrow> string" where
  "py_strip s = rev (dropWhile is_space (rev (dropWhile is_space s)))"

text \<open>The digits of \<open>int(s, base)\<close>: single underscores may stand between digits.\<close>

fun py_digits :: "nat \<Rightarrow> bool \<Rightarrow> nat \<Rightarrow> string \<Rightarrow> nat option" where
  "py_digits b prev acc [] = (if prev then Some acc else None)"
| "py_digits b prev acc (c # cs) =
     (if c = CHR ''_'' then (if prev then py_digits b False acc cs else None)
      else case digit_val c of
        None \<Rightarrow> None
      | Some d \<Rightarrow> if d < b then py_digits b True (acc * b + d) cs else None)"

definition drop_prefix16 :: "string \<Rightarrow> string" where
  "drop_prefix16 s =
     (case s of
        c1 # c2 # rest \<Rightarrow>
          if c1 = CHR ''0'' \<and> (c2 = CHR ''x'' \<or> c2 = CHR ''X'')
          then (case rest of c # cs \<Rightarrow> if c = CHR ''_'' then cs else rest | [] \<Rightarrow> rest)
          else s
      | _ \<Rightarrow> s)"

definition py_int :: "nat \<Rightarrow> string \<Rightarrow> int option" where
  "py_int b s =
     (let t = py_strip s;
          neg = (case t of c # _ \<Rightarrow> c = CHR ''-'' | [] \<Rightarrow> False);
          u = (case t of c # cs \<Rightarrow> if c = CHR ''-'' \<or> c = CHR ''+'' then cs else t | [] \<Rightarrow> t);
          v = (if b = 16 then drop_prefix16 u else u)
      in map_option (\<lambda>n. if neg then - int n else int n) (py_digits b False 0 v))"

lemma py_digits_map:
  assumes "\<forall>d \<in> set ds. d < b" and "b \<le> 16"
  shows "py_digits b prev acc (map digit_char ds) =
     (if ds = [] \<and> \<not> prev then None else Some (foldl (\<lambda>a d. a * b + d) acc ds))"
  using assms
proof (induction ds arbitrary: prev acc)
  case (Cons d ds)
  then have d: "d < 16" "d < b" by auto
  from Cons d show ?case by (simp add: digit_char_neq)
qed simp

lemma is_space_digit_char: "d < 16 \<Longrightarrow> \<not> is_space (digit_char d)"
  by (auto simp: is_space_def of_char_digit_char Let_def)

lemma py_strip_no_space:
  assumes "\<And>c. c \<in> set s \<Longrightarrow> \<not> is_space c"
  shows "py_strip s = s"
proof -
  have "dropWhile is_space s = s" using assms by (cases s) auto
  moreover have "dropWhile is_space (rev s) = rev s" using assms by (cases "rev s") auto
  ultimately show ?thesis by (simp add: py_strip_def)
qed

lemma py_int_digits:
  assumes "\<forall>d \<in> set ds. d < 10" and "ds \<noteq> []"
  shows "py_int 10 (map digit_char ds) = Some (int (from_be 10 ds))"
    and "py_int 10 (CHR ''-'' # map digit_char ds) = Some (- int (from_be 10 ds))"
proof -
  from assms obtain d ds' where ds: "ds = d # ds'" "d < 16" by (cases ds) auto
  have p: "py_digits 10 False 0 (map digit_char ds) = Some (from_be 10 ds)"
    using assms by (simp add: py_digits_map from_be_def)
  have nospace: "\<not> is_space c" if "c \<in> set (map digit_char ds)" for c
    using that assms(1) is_space_digit_char by fastforce
  have "py_strip (map digit_char ds) = map digit_char ds"
    using nospace by (rule py_strip_no_space)
  then show "py_int 10 (map digit_char ds) = Some (int (from_be 10 ds))"
    using p ds by (simp add: py_int_def Let_def digit_char_neq)
  have "\<not> is_space CHR ''-''" by (simp add: is_space_def)
  then have "py_strip (CHR ''-'' # map digit_char ds) = CHR ''-'' # map digit_char ds"
    using nospace by (intro py_strip_no_space) auto
  then show "py_int 10 (CHR ''-'' # map digit_char ds) = Some (- int (from_be 10 ds))"
    using p by (simp add: py_int_def Let_def)
qed

lemma py_int_str: "py_int 10 (py_str_int i) = Some i"
  using nat_digits_props [of "nat i"] nat_digits_props [of "nat (- i)"]
  by (auto simp: py_str_int_def py_int_digits)

lemma digits_no_dot: "\<forall>d \<in> set ds. d < 16 \<Longrightarrow> CHR ''.'' \<notin> set (map digit_char ds)"
  by (induction ds) (auto simp: digit_char_neq(1) [symmetric])

lemma py_str_int_no_dot: "CHR ''.'' \<notin> set (py_str_int i)"
proof -
  have "CHR ''.'' \<notin> set (map digit_char (nat_digits n))" for n
    using nat_digits_props [of n] by (intro digits_no_dot) auto
  then show ?thesis by (simp add: py_str_int_def)
qed

lemma py_str_int_eq_iff [simp]: "py_str_int i = py_str_int j \<longleftrightarrow> i = j"
  by (metis option.inject py_int_str)

subsection \<open>str.rsplit(sep, maxsplit)\<close>

definition rbreak :: "char \<Rightarrow> string \<Rightarrow> (string \<times> string) option" where
  "rbreak c s =
     (case dropWhile (\<lambda>x. x \<noteq> c) (rev s) of
        [] \<Rightarrow> None
      | _ # a \<Rightarrow> Some (rev a, rev (takeWhile (\<lambda>x. x \<noteq> c) (rev s))))"

fun rsplit :: "char \<Rightarrow> nat \<Rightarrow> string \<Rightarrow> string list" where
  "rsplit c 0 s = [s]"
| "rsplit c (Suc n) s = (case rbreak c s of None \<Rightarrow> [s] | Some (a, b) \<Rightarrow> rsplit c n a @ [b])"

lemma rbreak_last: "c \<notin> set b \<Longrightarrow> rbreak c (a @ c # b) = Some (a, b)"
proof -
  assume nc: "c \<notin> set b"
  have t: "takeWhile (\<lambda>x. x \<noteq> c) (rev b @ c # rev a) = rev b"
    using nc by (subst takeWhile_append2) auto
  have d: "dropWhile (\<lambda>x. x \<noteq> c) (rev b @ c # rev a) = c # rev a"
    using nc by (subst dropWhile_append2) auto
  show ?thesis using t d by (simp add: rbreak_def)
qed

lemma rbreak_Some: "rbreak c s = Some (a, b) \<Longrightarrow> s = a @ c # b \<and> c \<notin> set b"
proof -
  assume r: "rbreak c s = Some (a, b)"
  then obtain x xs where d: "dropWhile (\<lambda>x. x \<noteq> c) (rev s) = x # xs" and a: "a = rev xs"
      and b: "b = rev (takeWhile (\<lambda>x. x \<noteq> c) (rev s))"
    by (auto simp: rbreak_def split: list.splits)
  have "x = c" using d by (metis (mono_tags) hd_dropWhile list.discI list.sel(1))
  have "rev s = rev b @ c # xs"
    using takeWhile_dropWhile_id [of "\<lambda>x. x \<noteq> c" "rev s"] d b \<open>x = c\<close> by simp
  then have "s = a @ c # b" using a by (metis append_assoc append_Cons append_Nil rev_append rev_rev_ident rev.simps(2))
  moreover have "c \<notin> set b" using b set_takeWhileD by fastforce
  ultimately show ?thesis by simp
qed

subsection \<open>struct.pack(">I", n) and uuid.UUID\<close>

definition byte_of :: "nat \<Rightarrow> char" where
  "byte_of n = char_of n"

definition be_bytes :: "nat \<Rightarrow> nat \<Rightarrow> bytes" where
  "be_bytes w n = map byte_of (digits_be 256 w n)"

definition from_bytes :: "bytes \<Rightarrow> nat" where
  "from_bytes bs = from_be 256 (map of_char bs)"

lemma length_be_bytes [simp]: "length (be_bytes w n) = w"
  by (simp add: be_bytes_def)

lemma from_bytes_be_bytes: "from_bytes (be_bytes w n) = n mod 256 ^ w"
proof -
  have "map (of_char \<circ> byte_of) (digits_be 256 w n) = digits_be 256 w n"
    using set_digits_be [of 256] by (intro map_idI) (auto simp: byte_of_def)
  then show ?thesis by (simp add: from_bytes_def be_bytes_def from_be_digits)
qed

lemma digits_be_from_be: "\<forall>d \<in> set ds. d < b \<Longrightarrow> digits_be b (length ds) (from_be b ds) = ds"
  by (induction ds rule: rev_induct) (auto simp: from_be_append)

lemma be_bytes_from_bytes: "length bs = w \<Longrightarrow> be_bytes w (from_bytes bs) = bs"
proof -
  assume "length bs = w"
  then have "digits_be 256 w (from_bytes bs) = map of_char bs"
    using digits_be_from_be [of "map of_char bs" 256] by (auto simp: from_bytes_def)
  then show ?thesis by (simp add: be_bytes_def byte_of_def comp_def)
qed

lemma from_be_lt: "\<forall>d \<in> set ds. d < b \<Longrightarrow> from_be b ds < b ^ length ds"
proof (induction ds rule: rev_induct)
  case (snoc d ds)
  then have "Suc (from_be b ds) * b \<le> b ^ length ds * b" by (intro mult_le_mono1) auto
  with snoc show ?case by (simp add: from_be_append mult.commute)
qed (simp add: from_be_def)

lemma from_bytes_lt: "from_bytes bs < 256 ^ length bs"
  using from_be_lt [of "map of_char bs" 256] by (auto simp: from_bytes_def)

text \<open>\<open>struct.pack\<close> raises struct.error when the value needs more than 32 bits.\<close>

definition pack_I :: "nat \<Rightarrow> bytes option" where
  "pack_I n = (if n < 2 ^ 32 then Some (be_bytes 4 n) else None)"

definition hex_fixed :: "nat \<Rightarrow> nat \<Rightarrow> string" where
  "hex_fixed w n = map digit_char (digits_be 16 w n)"

text \<open>\<open>str(uuid)\<close>: 8-4-4-4-12 lower-case hexadecimal digits.\<close>

definition uuid_str :: "uuid \<Rightarrow> string" where
  "uuid_str u =
     (let h = hex_fixed 32 (unat u) in
      take 8 h @ ''-'' @ take 4 (drop 8 h) @ ''-'' @ take 4 (drop 12 h) @ ''-'' @
      take 4 (drop 16 h) @ ''-'' @ drop 20 h)"

function remove_all :: "string \<Rightarrow> string \<Rightarrow> string" where
  "remove_all p [] = []"
| "remove_all p (c # cs) =
     (if take (length p) (c # cs) = p then remove_all p (drop (length p - 1) cs)
      else c # remove_all p cs)"
  by pat_completeness auto
termination by (relation "measure (\<lambda>(p, s). length s)") auto

definition strip_braces :: "string \<Rightarrow> string" where
  "strip_braces s =
     rev (dropWhile (\<lambda>c. c = CHR ''{'' \<or> c = CHR ''}'')
       (rev (dropWhile (\<lambda>c. c = CHR ''{'' \<or> c = CHR ''}'') s)))"

text \<open>\<open>uuid.UUID(hex)\<close>; None stands for its ValueError.\<close>

definition parse_uuid :: "string \<Rightarrow> uuid option" where
  "parse_uuid s =
     (let h = remove_all ''uuid:'' (remove_all ''urn:'' s);
          g = filter (\<lambda>c. c \<noteq> CHR ''-'') (strip_braces h)
      in if length g \<noteq> 32 then None
         else case py_int 16 g of
           None \<Rightarrow> None
         | Some i \<Rightarrow> if 0 \<le> i \<and> i < 2 ^ 128 then Some (of_int i) else None)"

lemma remove_all_absent:
  assumes "CHR '':'' \<in> set p" and "CHR '':'' \<notin> set s"
  shows "remove_all p s = s"
  using assms(2)
proof (induction s)
  case (Cons c cs)
  have "take (length p) (c # cs) \<noteq> p"
    using assms(1) Cons.prems by (metis in_set_takeD)
  with Cons show ?case by auto
qed simp

lemma strip_braces_absent:
  assumes "\<And>c. c \<in> set s \<Longrightarrow> c \<noteq> CHR ''{'' \<and> c \<noteq> CHR ''}''"
  shows "strip_braces s = s"
proof -
  have "dropWhile (\<lambda>c. c = CHR ''{'' \<or> c = CHR ''}'') s = s"
    using assms by (cases s) auto
  moreover have "dropWhile (\<lambda>c. c = CHR ''{'' \<or> c = CHR ''}'') (rev s) = rev s"
    using assms by (cases "rev s") auto
  ultimately show ?thesis by (simp add: strip_braces_def)
qed

lemma set_hex_fixed: "c \<in> set (hex_fixed w n) \<Longrightarrow> \<exists>d<16. c = digit_char d"
  using set_digits_be [of 16] by (auto simp: hex_fixed_def)

lemma length_hex_fixed [simp]: "length (hex_fixed w n) = w"
  by (simp add: hex_fixed_def)

lemma hex_fixed_neq:
  assumes "c \<in> set (hex_fixed w n)"
  shows "c \<noteq> CHR ''.'' \<and> c \<noteq> CHR ''-'' \<and> c \<noteq> CHR '':'' \<and> c \<noteq> CHR ''{'' \<and> c \<noteq> CHR ''}''
    \<and> c \<noteq> CHR ''x'' \<and> c \<noteq> CHR ''X'' \<and> c \<noteq> CHR ''+'' \<and> \<not> is_space c"
  using set_hex_fixed [OF assms] by (auto simp: digit_char_neq is_space_digit_char)

lemma py_int16_hex: "0 < w \<Longrightarrow> py_int 16 (hex_fixed w n) = Some (int (n mod 16 ^ w))"
proof -
  assume w: "0 < w"
  let ?h = "hex_fixed w n"
  have strip: "py_strip ?h = ?h"
    using hex_fixed_neq by (intro py_strip_no_space) blast
  obtain c cs where h: "?h = c # cs" using w by (metis length_hex_fixed length_0_conv less_irrefl list.exhaust)
  have c: "c \<noteq> CHR ''-''" "c \<noteq> CHR ''+''"
    using hex_fixed_neq [of c w n] h by auto
  have "drop_prefix16 ?h = ?h"
    using hex_fixed_neq [of _ w n] h
    by (auto simp: drop_prefix16_def split: list.splits)
  moreover have "py_digits 16 False 0 ?h = Some (n mod 16 ^ w)"
    using w from_be_digits [of 16 w n] set_digits_be [of 16 _ w n]
    by (cases "digits_be 16 w n = []")
      (auto simp: hex_fixed_def py_digits_map from_be_def simp flip: length_0_conv)
  ultimately show ?thesis
    using strip c h by (simp add: py_int_def Let_def)
qed

lemma parse_uuid_str: "parse_uuid (uuid_str u) = Some u"
proof -
  let ?h = "hex_fixed 32 (unat u)"
  let ?s = "uuid_str u"
  have sub: "c \<in> set ?s \<Longrightarrow> c \<in> set ?h \<or> c = CHR ''-''" for c
    by (auto simp: uuid_str_def Let_def dest: in_set_takeD in_set_dropD)
  have colon: "CHR '':'' \<notin> set ?s" using sub hex_fixed_neq by blast
  have braces: "strip_braces ?s = ?s"
    using sub hex_fixed_neq by (intro strip_braces_absent) fastforce
  have keep: "filter (\<lambda>c. c \<noteq> CHR ''-'') (take k (drop j ?h)) = take k (drop j ?h)" for j k
    using hex_fixed_neq by (intro filter_True) (meson in_set_dropD in_set_takeD)
  have parts: "take 8 ?h @ take 4 (drop 8 ?h) @ take 4 (drop 12 ?h) @ take 4 (drop 16 ?h) @ drop 20 ?h = ?h"
  proof -
    have "drop n ?h = take 4 (drop n ?h) @ drop (n + 4) ?h" for n
      by (metis append_take_drop_id drop_drop add.commute)
    from this [of 8] this [of 12] this [of 16] show ?thesis
      by (simp add: append_eq_conv_conj)
  qed
  have "filter (\<lambda>c. c \<noteq> CHR ''-'') ?s = ?h"
    using keep [of 8 0] keep [of 4 8] keep [of 4 12] keep [of 4 16] keep [of 12 20] parts
    by (simp add: uuid_str_def Let_def)
  moreover have "unat u < 2 ^ 128" "uint u < 2 ^ 128"
    using unsigned_less [of u] uint_bounded [of u] by simp_all
  ultimately show ?thesis
    using colon braces
    by (simp add: parse_uuid_def Let_def remove_all_absent py_int16_hex)
qed

lemma uuid_str_no_dot: "CHR ''.'' \<notin> set (uuid_str u)"
proof -
  have "c \<in> set (uuid_str u) \<Longrightarrow> c \<in> set (hex_fixed 32 (unat u)) \<or> c = CHR ''-''" for c
    by (auto simp: uuid_str_def Let_def dest: in_set_takeD in_set_dropD)
  then show ?thesis using hex_fixed_neq by blast
qed

lemma uuid_str_eq_iff [simp]: "uuid_str u = uuid_str v \<longleftrightarrow> u = v"
  by (metis option.inject parse_uuid_str)

subsection \<open>base64\<close>

text \<open>
  The alphabet of RFC 4648, \<open>base64.b64encode\<close>, and the decoding loop of
  \<open>binascii.a2b_base64\<close> with its state: the position in the current quadruple, the bits left
  over, the padding characters counted and whether padding has been seen.
  \<open>strict\<close> is the \<open>validate=True\<close> of the call.
\<close>

definition b64_char :: "nat \<Rightarrow> char" where
  "b64_char v = char_of
     (if v < 26 then 65 + v else if v < 52 then 71 + v else if v < 62 then v - 4
      else if v = 62 then 43 else 47)"

definition b64_val :: "char \<Rightarrow> nat option" where
  "b64_val c =
     (let k = of_char c :: nat in
      if 65 \<le> k \<and> k \<le> 90 then Some (k - 65)
      else if 97 \<le> k \<and> k \<le> 122 then Some (k - 71)
      else if 48 \<le> k \<and> k \<le> 57 then Some (k + 4)
      else if k = 43 then Some 62
      else if k = 47 then Some 63
      else None)"

lemma b64_val_char [simp]: "v < 64 \<Longrightarrow> b64_val (b64_char v) = Some v"
  by (auto simp: b64_val_def b64_char_def Let_def)

lemma b64_char_pad [simp]: "v < 64 \<Longrightarrow> b64_char v \<noteq> CHR ''=''"
proof
  assume "v < 64" and "b64_char v = CHR ''=''"
  then have "b64_val (CHR ''='') = Some v" using b64_val_char by metis
  then show False by (simp add: b64_val_def)
qed

fun b64encode :: "bytes \<Rightarrow> string" where
  "b64encode [] = []"
| "b64encode [a] =
     (let x = of_char a :: nat in [b64_char (x div 4), b64_char (x mod 4 * 16), CHR ''='', CHR ''=''])"
| "b64encode [a, b] =
     (let x = of_char a :: nat; y = of_char b in
      [b64_char (x div 4), b64_char (x mod 4 * 16 + y div 16), b64_char (y mod 16 * 4), CHR ''=''])"
| "b64encode (a # b # c # r) =
     (let x = of_char a :: nat; y = of_char b; z = of_char c in
      b64_char (x div 4) # b64_char (x mod 4 * 16 + y div 16) #
      b64_char (y mod 16 * 4 + z div 64) # b64_char (z mod 64) # b64encode r)"

fun a2b :: "bool \<Rightarrow> nat \<Rightarrow> nat \<Rightarrow> nat \<Rightarrow> bool \<Rightarrow> string \<Rightarrow> bytes option" where
  "a2b strict quad left pads started [] = (if quad = 0 then Some [] else None)"
| "a2b strict quad left pads started (ch # rest) =
     (if ch = CHR ''='' then
        (if 2 \<le> quad then
           (if 4 \<le> quad + Suc pads then (if strict \<and> rest \<noteq> [] then None else Some [])
            else a2b strict quad left (Suc pads) True rest)
         else a2b strict quad left pads True rest)
      else case b64_val ch of
        None \<Rightarrow> if strict then None else a2b strict quad left pads started rest
      | Some v \<Rightarrow>
          if strict \<and> started then None
          else if quad = 0 then a2b strict 1 v 0 started rest
          else if quad = 1 then
            map_option ((#) (byte_of (left * 4 + v div 16))) (a2b strict 2 (v mod 16) 0 started rest)
          else if quad = 2 then
            map_option ((#) (byte_of (left * 16 + v div 4))) (a2b strict 3 (v mod 4) 0 started rest)
          else
            map_option ((#) (byte_of (left * 64 + v))) (a2b strict 0 0 0 started rest))"

definition b64decode :: "bool \<Rightarrow> string \<Rightarrow> bytes option" where
  "b64decode strict s =
     (if strict \<and> (case s of c # _ \<Rightarrow> c = CHR ''='' | [] \<Rightarrow> False) then None
      else a2b strict 0 0 0 False s)"

lemma byte_of_of_char [simp]: "byte_of (of_char c) = c"
  by (simp add: byte_of_def)

lemma of_char_lt: "(of_char c :: nat) < 256"
  by simp

lemma div_mod_join:
  fixes x :: nat
  assumes "y < k"
  shows "x div m * m + (x mod m * k + y) div k = x"
  using assms by simp

lemma b64_bytes:
  fixes c :: char
  defines "x \<equiv> of_char c :: nat"
  shows "y < 16 \<Longrightarrow> byte_of (x div 4 * 4 + (x mod 4 * 16 + y) div 16) = c"
    and "z < 4 \<Longrightarrow> byte_of (x div 16 * 16 + (x mod 16 * 4 + z) div 4) = c"
    and "byte_of (x div 64 * 64 + x mod 64) = c"
proof -
  show "y < 16 \<Longrightarrow> byte_of (x div 4 * 4 + (x mod 4 * 16 + y) div 16) = c"
    by (simp only: div_mod_join) (simp add: x_def)
  show "z < 4 \<Longrightarrow> byte_of (x div 16 * 16 + (x mod 16 * 4 + z) div 4) = c"
    by (simp only: div_mod_join) (simp add: x_def)
  show "byte_of (x div 64 * 64 + x mod 64) = c"
    by (simp only: div_mult_mod_eq) (simp add: x_def)
qed

lemma b64_bounds:
  fixes x y z :: nat
  assumes "x < 256" "y < 256" "z < 256"
  shows "x div 4 < 64" "x mod 4 * 16 + y div 16 < 64"
    "y mod 16 * 4 + z div 64 < 64" "z mod 64 < 64" "y div 16 < 16" "z div 64 < 4"
    "(x mod 4 * 16 + y div 16) mod 16 = y div 16" "(y mod 16 * 4 + z div 64) mod 4 = z div 64"
proof -
  show y: "y div 16 < 16" and z: "z div 64 < 4" and "x div 4 < 64" and "z mod 64 < 64"
    using assms by (simp_all add: less_mult_imp_div_less)
  have "x mod 4 < 4" "y mod 16 < 16" by simp_all
  with y z show "x mod 4 * 16 + y div 16 < 64" "y mod 16 * 4 + z div 64 < 64" by linarith+
  show "(x mod 4 * 16 + y div 16) mod 16 = y div 16" "(y mod 16 * 4 + z div 64) mod 4 = z div 64"
    using y z by simp_all
qed

lemma a2b_quad:
  "a2b strict 0 0 p False (b64encode (a # b # c # r)) =
     map_option (\<lambda>t. a # b # c # t) (a2b strict 0 0 0 False (b64encode r))"
  using b64_bounds [OF of_char_lt [of a] of_char_lt [of b] of_char_lt [of c]]
    b64_bytes(1) [of "of_char b div 16" a] b64_bytes(2) [of "of_char c div 64" b] b64_bytes(3) [of c]
  by (simp add: Let_def option.map_comp comp_def)

lemma a2b_b64encode: "a2b strict 0 0 p False (b64encode bs) = Some bs"
proof (induction bs arbitrary: p rule: b64encode.induct)
  case (2 a)
  show ?case
    using b64_bounds [OF of_char_lt [of a] zero_less_numeral zero_less_numeral] b64_bytes(1) [of 0 a]
    by (simp add: Let_def)
next
  case (3 a b)
  show ?case
    using b64_bounds [OF of_char_lt [of a] of_char_lt [of b] zero_less_numeral]
      b64_bytes(1) [of "of_char b div 16" a] b64_bytes(2) [of 0 b]
    by (simp add: Let_def)
next
  case (4 a b c r)
  then show ?case unfolding a2b_quad by simp
qed simp

lemma b64decode_encode [simp]: "b64decode strict (b64encode bs) = Some bs"
proof -
  have "\<not> (case b64encode bs of c # _ \<Rightarrow> c = CHR ''='' | [] \<Rightarrow> False)"
    by (cases bs rule: b64encode.cases) (simp_all add: Let_def less_mult_imp_div_less)
  then show ?thesis by (simp add: b64decode_def a2b_b64encode)
qed

subsection \<open>UTF-8\<close>

definition cont_byte :: "nat \<Rightarrow> bool" where
  "cont_byte b = (128 \<le> b \<and> b < 192)"

fun utf8_ok :: "nat list \<Rightarrow> bool" where
  "utf8_ok [] = True"
| "utf8_ok (a # r) =
     (if a < 128 then utf8_ok r
      else if 194 \<le> a \<and> a < 224 then
        (case r of b # r' \<Rightarrow> cont_byte b \<and> utf8_ok r' | _ \<Rightarrow> False)
      else if 224 \<le> a \<and> a < 240 then
        (case r of b # c # r' \<Rightarrow>
           cont_byte b \<and> (a = 224 \<longrightarrow> 160 \<le> b) \<and> (a = 237 \<longrightarrow> b < 160) \<and> cont_byte c \<and> utf8_ok r'
         | _ \<Rightarrow> False)
      else if 240 \<le> a \<and> a < 245 then
        (case r of b # c # d # r' \<Rightarrow>
           cont_byte b \<and> (a = 240 \<longrightarrow> 144 \<le> b) \<and> (a = 244 \<longrightarrow> b < 144) \<and>
           cont_byte c \<and> cont_byte d \<and> utf8_ok r'
         | _ \<Rightarrow> False)
      else False)"

definition py_decode :: "bytes \<Rightarrow> string option" where
  "py_decode bs = (if utf8_ok (map of_char bs) then Some bs else None)"

text \<open>A string of the model stands for a Python \<open>str\<close> when it is the UTF-8 form of one.\<close>

definition is_text :: "string \<Rightarrow> bool" where
  "is_text s = utf8_ok (map of_char s)"

lemma py_decode_text [simp]: "is_text s \<Longrightarrow> py_decode s = Some s"
  by (simp add: py_decode_def is_text_def)

text \<open>\<open>len(str)\<close>: the code points, that is the bytes that are no continuation bytes.\<close>

definition py_len :: "string \<Rightarrow> nat" where
  "py_len s = length (filter (\<lambda>c. \<not> cont_byte (of_char c)) s)"

text \<open>\<open>s[:n]\<close>: the first n characters.\<close>

fun py_take :: "nat \<Rightarrow> string \<Rightarrow> string" where
  "py_take n [] = []"
| "py_take n (c # cs) =
     (if cont_byte (of_char c) then c # py_take n cs
      else case n of 0 \<Rightarrow> [] | Suc m \<Rightarrow> c # py_take m cs)"

end
