(* ===== verification/Crypto.thy ===== *)
theory Crypto
  imports Py_Lib
begin

text \<open>
  The envelope encryption of app/helper.py: a per-secret data key (DEK) is wrapped with the
  master key (KEK), the content is encrypted with the DEK, and everything is stored in base64.
  ChaCha20-Poly1305, SHA-256 and HMAC-SHA256 are the fields of the record \<open>crypto\<close>; what the
  code relies on about the cipher is \<open>aead_ok\<close> and \<open>aead_exact\<close>.  Random bytes (the keys and
  nonces of \<open>generate_key\<close> and \<open>os.urandom\<close>) are arguments.
\<close>

record crypto =
  aead_enc :: "bytes \<Rightarrow> bytes \<Rightarrow> bytes \<Rightarrow> bytes \<Rightarrow> bytes"         \<comment> \<open>key, nonce, data, associated data\<close>
  aead_dec :: "bytes \<Rightarrow> bytes \<Rightarrow> bytes \<Rightarrow> bytes \<Rightarrow> bytes option"  \<comment> \<open>None: the call raises\<close>
  sha256 :: "bytes \<Rightarrow> nat"
  hmac_sha256 :: "bytes \<Rightarrow> bytes \<Rightarrow> nat"                               \<comment> \<open>key, message\<close>
  kek :: bytes

text \<open>Decrypting what was encrypted, with the same key, nonce and associated data, gives it back.\<close>

definition aead_ok :: "crypto \<Rightarrow> bool" where
  "aead_ok C \<longleftrightarrow> (\<forall>k n p a. length k = 32 \<and> length n = 12 \<longrightarrow>
     aead_dec C k n (aead_enc C k n p a) a = Some p)"

text \<open>
  The cipher is deterministic and the tag covers the whole ciphertext: a ciphertext that is
  accepted is the encryption of the plaintext it decrypts to.
\<close>

definition aead_exact :: "crypto \<Rightarrow> bool" where
  "aead_exact C \<longleftrightarrow> (\<forall>k n c a p. length k = 32 \<and> length n = 12 \<and> aead_dec C k n c a = Some p \<longrightarrow>
     c = aead_enc C k n p a)"

text \<open>The tag adds 16 bytes.\<close>

definition aead_len :: "crypto \<Rightarrow> bool" where
  "aead_len C \<longleftrightarrow> (\<forall>k n p a. length (aead_enc C k n p a) = length p + 16)"

lemma aead_decD [simp]:
  "aead_ok C \<Longrightarrow> length k = 32 \<Longrightarrow> length n = 12 \<Longrightarrow> aead_dec C k n (aead_enc C k n p a) a = Some p"
  by (simp add: aead_ok_def)

lemma aead_exactD:
  "aead_exact C \<Longrightarrow> length k = 32 \<Longrightarrow> length n = 12 \<Longrightarrow> aead_dec C k n c a = Some p \<Longrightarrow>
   c = aead_enc C k n p a"
  unfolding aead_exact_def by blast

text \<open>\<open>hexdigest()\<close> of a 256-bit digest.\<close>

definition hexdigest :: "nat \<Rightarrow> string" where
  "hexdigest d = hex_fixed 64 d"

lemma hexdigest_no_dot: "CHR ''.'' \<notin> set (hexdigest d)"
  using hex_fixed_neq by (auto simp: hexdigest_def)

lemma hexdigest_not_Nil [simp]: "hexdigest d \<noteq> []"
  by (metis hexdigest_def length_hex_fixed list.size(3) zero_neq_numeral)

definition sha256_hash :: "crypto \<Rightarrow> string \<Rightarrow> string" where
  "sha256_hash C password = hexdigest (sha256 C password)"

subsection \<open>app/helper.py\<close>

text \<open>The constructor of ChaCha20Poly1305 refuses a key that is not 32 bytes long.\<close>

definition chacha :: "bytes \<Rightarrow> bytes res" where
  "chacha key = (if length key = 32 then Inr key
     else Inl (ValueError ''ChaCha20Poly1305 key must be 32 bytes.''))"

definition load_kek :: "string \<Rightarrow> nat \<Rightarrow> bytes \<Rightarrow> bytes res" where
  "load_kek raw key_bytes generated =
     (if raw \<noteq> [] then
        (case b64decode False raw of
           None \<Rightarrow> Inl (ValueError ''binascii.Error'')
         | Some key \<Rightarrow>
             if length key \<noteq> key_bytes
             then Inl (ValueError (''SECRET_ENCRYPTION_KEY must decode to '' @ py_str_int (int key_bytes) @ '' bytes; got '' @
               py_str_int (int (length key))))
             else Inr key)
      else Inr generated)"

definition wrap_dek :: "crypto \<Rightarrow> bytes \<Rightarrow> bytes \<Rightarrow> string \<times> string" where
  "wrap_dek C nonce dek = (b64encode (aead_enc C (kek C) nonce dek []), b64encode nonce)"

definition unwrap_dek :: "crypto \<Rightarrow> string \<Rightarrow> string \<Rightarrow> bytes res" where
  "unwrap_dek C wrapped_dek_b64 nonce_b64 =
     (case b64decode False wrapped_dek_b64 of
        None \<Rightarrow> Inl (ValueError ''binascii.Error'')
      | Some wrapped \<Rightarrow> (case b64decode False nonce_b64 of
        None \<Rightarrow> Inl (ValueError ''binascii.Error'')
      | Some nonce \<Rightarrow> (case aead_dec C (kek C) nonce wrapped [] of
        None \<Rightarrow> Inl (ValueError ''DEK unwrap failed - wrong KEK or corrupt data'')
      | Some dek \<Rightarrow> Inr dek)))"

definition encrypt_content :: "crypto \<Rightarrow> bytes \<Rightarrow> string \<Rightarrow> bytes \<Rightarrow> (string \<times> string) res" where
  "encrypt_content C nonce content dek =
     bind_res (chacha dek) (\<lambda>key.
       Inr (b64encode (aead_enc C key nonce content []), b64encode nonce))"

definition decrypt_content :: "crypto \<Rightarrow> string \<Rightarrow> string \<Rightarrow> bytes \<Rightarrow> string res" where
  "decrypt_content C encrypted_b64 nonce_b64 dek =
     bind_res (chacha dek) (\<lambda>key.
     case b64decode False encrypted_b64 of
       None \<Rightarrow> Inl (ValueError ''binascii.Error'')
     | Some encrypted \<Rightarrow> (case b64decode False nonce_b64 of
       None \<Rightarrow> Inl (ValueError ''binascii.Error'')
     | Some nonce \<Rightarrow> (case aead_dec C key nonce encrypted [] of
       None \<Rightarrow> Inl (ValueError ''Content decryption failed'')
     | Some plain \<Rightarrow> (case py_decode plain of
       None \<Rightarrow> Inl (ValueError ''Content decryption failed'')
     | Some text \<Rightarrow> Inr text))))"

definition validate_client_encrypted :: "string \<Rightarrow> string \<Rightarrow> unit res" where
  "validate_client_encrypted ciphertext_b64 nonce_b64 =
     (case b64decode True nonce_b64 of
        None \<Rightarrow> Inl (ValueError ''nonce_b64 is not valid base64'')
      | Some nonce \<Rightarrow>
          if length nonce \<noteq> 12 then Inl (ValueError (''nonce must be 12 bytes; got '' @ py_str_int (int (length nonce))))
          else (case b64decode True ciphertext_b64 of
            None \<Rightarrow> Inl (ValueError ''ciphertext_b64 is not valid base64'')
          | Some _ \<Rightarrow> Inr ()))"

subsection \<open>Round trips\<close>

lemma wrap_unwrap:
  assumes "aead_ok C" "length (kek C) = 32" "length nonce = 12"
  shows "unwrap_dek C (fst (wrap_dek C nonce dek)) (snd (wrap_dek C nonce dek)) = Inr dek"
  using assms by (simp add: wrap_dek_def unwrap_dek_def)

lemma encrypt_content_ok:
  "length dek = 32 \<Longrightarrow> encrypt_content C nonce content dek =
     Inr (b64encode (aead_enc C dek nonce content []), b64encode nonce)"
  by (simp add: encrypt_content_def chacha_def)

lemma encrypt_content_Inr:
  "encrypt_content C nonce content dek = Inr (ct, n) \<longleftrightarrow>
     length dek = 32 \<and> ct = b64encode (aead_enc C dek nonce content []) \<and> n = b64encode nonce"
  by (auto simp: encrypt_content_def chacha_def)

lemma decrypt_encrypt_content:
  assumes "aead_ok C" "length nonce = 12" "is_text content"
    and "encrypt_content C nonce content dek = Inr (ct, n)"
  shows "decrypt_content C ct n dek = Inr content"
  using assms by (simp add: decrypt_content_def encrypt_content_Inr chacha_def)

lemma validate_client_encrypted_ok:
  "validate_client_encrypted ct n = Inr () \<longleftrightarrow>
     (\<exists>nonce c. b64decode True n = Some nonce \<and> length nonce = 12 \<and> b64decode True ct = Some c)"
  by (auto simp: validate_client_encrypted_def split: option.splits if_splits)

subsection \<open>A concrete cipher for witnesses\<close>

text \<open>
  The hypotheses on the cipher can hold: appending key, nonce and associated data to the
  plaintext (cut or padded to 16 bytes) and checking them satisfies all three.
\<close>

definition pad16 :: "bytes \<Rightarrow> bytes" where
  "pad16 t = take 16 (t @ replicate 16 (CHR ''0''))"

lemma length_pad16 [simp]: "length (pad16 t) = 16"
  by (simp add: pad16_def)

definition tag_crypto :: crypto where
  "tag_crypto = \<lparr>aead_enc = (\<lambda>k n p a. p @ pad16 (take 2 k @ drop 10 n @ drop 16 a)),
     aead_dec = (\<lambda>k n c a.
       let p = take (length c - 16) c in
       if c = p @ pad16 (take 2 k @ drop 10 n @ drop 16 a) then Some p else None),
     sha256 = (\<lambda>s. from_bytes s), hmac_sha256 = (\<lambda>k s. from_bytes (k @ s)),
     kek = replicate 32 (CHR ''k'')\<rparr>"

lemma tag_crypto_laws: "aead_ok tag_crypto" "aead_exact tag_crypto" "aead_len tag_crypto"
  by (auto simp: aead_ok_def aead_exact_def aead_len_def tag_crypto_def Let_def split: if_splits)

lemma kek_tag_crypto [simp]: "kek tag_crypto = replicate 32 (CHR ''k'')"
  by (simp add: tag_crypto_def)

end
