(* ===== verification/Database.thy ===== *)
theory Database
  imports Prelude
begin

text \<open>
  The PostgreSQL schema of database/migrations: one record per table, one field per column the
  code reads or writes, and the triggers and foreign-key actions as functions that the SQL
  statements of the Python sources call.  A table is the list of its rows in insertion order.
\<close>

subsection \<open>Rows\<close>

record user_row =
  u_id :: uuid
  u_email :: string
  u_username :: string
  u_password_hash :: string
  u_role :: string
  u_active :: bool
  u_verified :: bool
  u_created :: micros
  u_updated :: micros
  u_delete_after :: "micros option"

record session_row =
  ss_id :: uuid
  ss_user :: uuid
  ss_token_hash :: string
  ss_agent :: string
  ss_ip :: string
  ss_expires :: micros
  ss_revoked :: bool

datatype payload = Text | File

record secret_row =
  s_id :: uuid
  s_content :: "string option"
  s_nonce :: "string option"
  s_protected :: bool
  s_password_hash :: "string option"
  s_ttl :: int
  s_created :: micros
  s_expires :: micros
  s_viewed :: bool
  s_owner :: "uuid option"
  s_max_views :: int
  s_view_count :: int
  s_signed_token :: "string option"
  s_notify :: bool
  s_notify_email :: "string option"
  s_webhook :: "string option"
  s_email_restricted :: bool
  s_version :: int
  s_updated :: micros
  s_payload :: payload

record key_row =
  k_secret :: uuid
  k_wrapped :: string
  k_nonce :: string
  k_version :: int
  k_rotated :: "micros option"

record version_row =
  v_secret :: uuid
  v_version :: int
  v_payload :: payload
  v_content :: "string option"
  v_nonce :: "string option"
  v_key :: "int option"
  v_size :: int
  v_created_by :: "uuid option"
  v_note :: "string option"
  v_created :: micros
  v_object :: "string option"
  v_encrypted_size :: int
  v_filename :: "string option"
  v_filename_nonce :: "string option"
  v_media :: "string option"
  v_digest :: "string option"
  v_clamav :: "string option"

record recipient_row =
  r_secret :: uuid
  r_email :: string

record policy_row =
  p_secret :: uuid
  p_cidrs :: "string list"
  p_countries :: "string list"
  p_mode :: string
  p_fail_closed :: bool
  p_version :: int

record tracking_row =
  t_secret :: uuid
  t_owner :: uuid
  t_retain :: micros

record view_row =
  w_secret :: uuid
  w_viewer :: "uuid option"
  w_email :: "string option"
  w_verified :: bool
  w_version :: "int option"
  w_at :: micros

datatype severity = Info | Warning | Critical

text \<open>\<open>a_severity\<close> is the column; the severity in the JSON metadata is \<open>a_meta_severity\<close>.\<close>

record audit_row =
  a_action :: string
  a_actor :: "uuid option"
  a_ip :: "string option"
  a_severity :: severity
  a_secret :: "uuid option"
  a_meta_severity :: "severity option"
  a_created :: micros

record pending_row =
  pu_id :: uuid
  pu_user :: uuid
  pu_secret :: uuid
  pu_object :: string
  pu_reservation :: uuid
  pu_size :: int
  pu_expires :: micros

record outbox_row =
  o_id :: int
  o_object :: string
  o_user :: "uuid option"
  o_bytes :: int
  o_attempts :: int
  o_next :: micros
  o_processed :: "micros option"
  o_error :: "string option"

record verification_row =
  ev_user :: uuid
  ev_email :: string
  ev_hash :: string
  ev_expires :: micros
  ev_requested :: micros

record quota_row =
  q_user :: uuid
  q_secrets :: "int option"
  q_bytes :: "int option"

record database =
  users :: "user_row list"
  sessions :: "session_row list"
  secrets :: "secret_row list"
  secret_keys :: "key_row list"
  secret_versions :: "version_row list"
  secret_recipients :: "recipient_row list"
  access_policies :: "policy_row list"
  secret_tracking :: "tracking_row list"
  secret_views :: "view_row list"
  audit_logs :: "audit_row list"
  pending_uploads :: "pending_row list"
  deletion_outbox :: "outbox_row list"
  email_verifications :: "verification_row list"
  user_quotas :: "quota_row list"

definition empty_db :: database where
  "empty_db = \<lparr>users = [], sessions = [], secrets = [], secret_keys = [], secret_versions = [],
     secret_recipients = [], access_policies = [], secret_tracking = [], secret_views = [],
     audit_logs = [], pending_uploads = [], deletion_outbox = [], email_verifications = [],
     user_quotas = []\<rparr>"

subsection \<open>Reading one row\<close>

definition secret_of :: "database \<Rightarrow> uuid \<Rightarrow> secret_row option" where
  "secret_of db sid = row_of s_id (secrets db) sid"

definition policy_of :: "database \<Rightarrow> uuid \<Rightarrow> policy_row option" where
  "policy_of db sid = row_of p_secret (access_policies db) sid"

definition user_of :: "database \<Rightarrow> uuid \<Rightarrow> user_row option" where
  "user_of db uid = row_of u_id (users db) uid"

definition version_of :: "database \<Rightarrow> uuid \<Rightarrow> int \<Rightarrow> version_row option" where
  "version_of db sid v = row_of (\<lambda>r. (v_secret r, v_version r)) (secret_versions db) (sid, v)"

definition key_of :: "database \<Rightarrow> uuid \<Rightarrow> int \<Rightarrow> key_row option" where
  "key_of db sid v = row_of (\<lambda>r. (k_secret r, k_version r)) (secret_keys db) (sid, v)"

lemmas row_lookup_defs = secret_of_def policy_of_def user_of_def version_of_def key_of_def

text \<open>
  The foreign keys to secrets that cascade: keys, versions, recipients and policies belong to a
  secret that exists.  Ids are unique.
\<close>

definition secret_ids :: "database \<Rightarrow> uuid set" where
  "secret_ids db = s_id ` set (secrets db)"

definition refs_ok :: "database \<Rightarrow> bool" where
  "refs_ok db \<longleftrightarrow> k_secret ` set (secret_keys db) \<subseteq> secret_ids db \<and>
     v_secret ` set (secret_versions db) \<subseteq> secret_ids db \<and>
     r_secret ` set (secret_recipients db) \<subseteq> secret_ids db \<and>
     p_secret ` set (access_policies db) \<subseteq> secret_ids db"

lemma secret_of_None_iff: "secret_of db sid = None \<longleftrightarrow> sid \<notin> secret_ids db"
  by (simp add: secret_of_def row_of_None secret_ids_def)

subsection \<open>DELETE FROM secrets: the object trigger and the foreign keys\<close>

text \<open>
  \<open>enqueue_secret_objects_for_deletion\<close> runs before the row goes: every stored object of the
  secret is put in the outbox, once per object key.
\<close>

fun enqueue_objects :: "micros \<Rightarrow> uuid option \<Rightarrow> version_row list \<Rightarrow> outbox_row list \<Rightarrow> outbox_row list" where
  "enqueue_objects clock owner [] box = box"
| "enqueue_objects clock owner (v # vs) box =
     (case v_object v of
        None \<Rightarrow> enqueue_objects clock owner vs box
      | Some key \<Rightarrow>
          enqueue_objects clock owner vs
            (if key \<in> o_object ` set box then box
             else sql_insert \<lparr>o_id = coalesce_max (map o_id box) + 1, o_object = key, o_user = owner,
                    o_bytes = v_size v, o_attempts = 0, o_next = clock, o_processed = None,
                    o_error = None\<rparr> box))"

fun enqueue_secrets :: "micros \<Rightarrow> version_row list \<Rightarrow> secret_row list \<Rightarrow> outbox_row list \<Rightarrow> outbox_row list" where
  "enqueue_secrets clock vs [] box = box"
| "enqueue_secrets clock vs (s # ss) box =
     enqueue_secrets clock vs ss
       (enqueue_objects clock (s_owner s) (sql_select (\<lambda>v. v_secret v = s_id s) vs) box)"

text \<open>The rows that reference a deleted secret: ON DELETE CASCADE, and SET NULL in the audit log.\<close>

definition delete_secrets :: "micros \<Rightarrow> (secret_row \<Rightarrow> bool) \<Rightarrow> database \<Rightarrow> database" where
  "delete_secrets clock p db =
     (let dead = sql_select p (secrets db); ids = map s_id dead in
      db\<lparr>secrets := sql_delete p (secrets db),
         secret_keys := sql_delete (\<lambda>k. k_secret k \<in> set ids) (secret_keys db),
         secret_versions := sql_delete (\<lambda>v. v_secret v \<in> set ids) (secret_versions db),
         secret_recipients := sql_delete (\<lambda>r. r_secret r \<in> set ids) (secret_recipients db),
         access_policies := sql_delete (\<lambda>q. p_secret q \<in> set ids) (access_policies db),
         audit_logs := sql_update (\<lambda>a. a_secret a \<in> Some ` set ids) (\<lambda>a. a\<lparr>a_secret := None\<rparr>)
                         (audit_logs db),
         deletion_outbox := enqueue_secrets clock (secret_versions db) dead (deletion_outbox db)\<rparr>)"

subsection \<open>UPDATE secrets SET view_count: the burn trigger\<close>

text \<open>
  \<open>delete_secret_if_fully_viewed\<close>, AFTER UPDATE OF view_count: an audit entry, whose reference to
  the secret the deletion then sets to null, and the deletion.
\<close>

definition update_view_count :: "micros \<Rightarrow> uuid \<Rightarrow> int \<Rightarrow> bool \<Rightarrow> database \<Rightarrow> database" where
  "update_view_count clock sid count viewed db =
     (let db1 = db\<lparr>secrets := sql_update (\<lambda>s. s_id s = sid)
                      (\<lambda>s. s\<lparr>s_view_count := count, s_viewed := viewed\<rparr>) (secrets db)\<rparr> in
      case secret_of db1 sid of
        None \<Rightarrow> db1
      | Some s \<Rightarrow>
          if s_max_views s \<le> s_view_count s then
            delete_secrets clock (\<lambda>s. s_id s = sid)
              (db1\<lparr>audit_logs := sql_insert
                 \<lparr>a_action = ''secret_deleted'', a_actor = None, a_ip = None, a_severity = Info,
                  a_secret = Some sid, a_meta_severity = None, a_created = clock\<rparr> (audit_logs db1)\<rparr>)
          else db1)"

subsection \<open>DELETE FROM users, UPDATE sessions, UPDATE users\<close>

definition delete_users :: "(user_row \<Rightarrow> bool) \<Rightarrow> database \<Rightarrow> database" where
  "delete_users p db =
     (let ids = set (map u_id (sql_select p (users db)));
          tracked = set (map t_secret (sql_select (\<lambda>t. t_owner t \<in> ids) (secret_tracking db))) in
      db\<lparr>users := sql_delete p (users db),
         sessions := sql_delete (\<lambda>s. ss_user s \<in> ids) (sessions db),
         secrets := sql_update (\<lambda>s. s_owner s \<in> Some ` ids) (\<lambda>s. s\<lparr>s_owner := None\<rparr>) (secrets db),
         secret_versions := sql_update (\<lambda>v. v_created_by v \<in> Some ` ids)
                              (\<lambda>v. v\<lparr>v_created_by := None\<rparr>) (secret_versions db),
         secret_tracking := sql_delete (\<lambda>t. t_owner t \<in> ids) (secret_tracking db),
         secret_views := sql_update (\<lambda>w. w_viewer w \<in> Some ` ids) (\<lambda>w. w\<lparr>w_viewer := None\<rparr>)
                           (sql_delete (\<lambda>w. w_secret w \<in> tracked) (secret_views db)),
         audit_logs := sql_update (\<lambda>a. a_actor a \<in> Some ` ids) (\<lambda>a. a\<lparr>a_actor := None\<rparr>) (audit_logs db),
         pending_uploads := sql_delete (\<lambda>u. pu_user u \<in> ids) (pending_uploads db),
         deletion_outbox := sql_update (\<lambda>b. o_user b \<in> Some ` ids) (\<lambda>b. b\<lparr>o_user := None\<rparr>)
                              (deletion_outbox db),
         email_verifications := sql_delete (\<lambda>e. ev_user e \<in> ids) (email_verifications db),
         user_quotas := sql_delete (\<lambda>q. q_user q \<in> ids) (user_quotas db)\<rparr>)"

text \<open>\<open>UPDATE sessions SET revoked = TRUE\<close>: the trigger \<open>delete_session_if_invalid\<close> deletes the rows.\<close>

definition revoke_sessions :: "(session_row \<Rightarrow> bool) \<Rightarrow> database \<Rightarrow> database" where
  "revoke_sessions p db = db\<lparr>sessions := sql_delete p (sessions db)\<rparr>"

text \<open>
  \<open>UPDATE users SET is_active = NOT is_active\<close> with the triggers \<open>schedule_user_deletion\<close> and
  \<open>set_users_updated_at\<close>.
\<close>

definition toggle_user :: "micros \<Rightarrow> user_row \<Rightarrow> user_row" where
  "toggle_user now u =
     (let active = \<not> u_active u in
      u\<lparr>u_active := active,
        u_delete_after := (if active then None else Some (now + 2 * day)),
        u_updated := now\<rparr>)"

subsection \<open>INSERT INTO audit_logs\<close>

text \<open>
  The values of the enum audit_action after all migrations, and the INSERT of
  \<open>audit_service.log\<close>: it fails (None) when the action is no enum value, the address is no inet,
  or a reference dangles.  The statement gives no severity, so the column takes its default.
\<close>

definition audit_actions :: "string list" where
  "audit_actions = [''secret_created'', ''secret_viewed'', ''secret_deleted'', ''user_registered'',
     ''user_login'', ''user_logout'', ''user_removed'', ''key_rotated'', ''secret_expired'',
     ''token_refresh'', ''admin_role_change'', ''admin_cleanup'', ''admin_user_toggle'',
     ''rate_limit_hit'', ''invalid_token'', ''secret_updated'', ''secret_version_restored'',
     ''file_uploaded'', ''malware_detected'', ''admin_quota_update'']"

record audit_entry =
  ae_action :: string
  ae_actor :: "uuid option"
  ae_ip :: "string option"
  ae_secret :: "uuid option"
  ae_severity :: severity

definition insert_audit :: "(string \<Rightarrow> bool) \<Rightarrow> micros \<Rightarrow> audit_entry \<Rightarrow> database \<Rightarrow> database option" where
  "insert_audit inet_ok clock e db =
     (if ae_action e \<notin> set audit_actions
        \<or> (case ae_ip e of None \<Rightarrow> False | Some ip \<Rightarrow> \<not> inet_ok ip)
        \<or> (case ae_actor e of None \<Rightarrow> False | Some u \<Rightarrow> user_of db u = None)
        \<or> (case ae_secret e of None \<Rightarrow> False | Some s \<Rightarrow> secret_of db s = None)
      then None
      else Some (db\<lparr>audit_logs := sql_insert
             \<lparr>a_action = ae_action e, a_actor = ae_actor e, a_ip = ae_ip e, a_severity = Info,
              a_secret = ae_secret e, a_meta_severity = Some (ae_severity e), a_created = clock\<rparr>
             (audit_logs db)\<rparr>))"

end
