(* ===== verification/Permissions.thy ===== *)
theory Permissions
  imports Prelude
begin

text \<open>
  Role-based access control of app/core/permissions.py: the role order, the role dependency and
  the ownership check.  \<open>current_user\<close> is the dictionary \<open>get_current_user\<close> returns.
\<close>

datatype role = READONLY | USER | ADMIN

definition role_value :: "role \<Rightarrow> nat" where
  "role_value r = (case r of READONLY \<Rightarrow> 0 | USER \<Rightarrow> 1 | ADMIN \<Rightarrow> 2)"

instantiation role :: linorder
begin

definition less_eq_role :: "role \<Rightarrow> role \<Rightarrow> bool" where
  "less_eq_role a b \<longleftrightarrow> role_value a \<le> role_value b"

definition less_role :: "role \<Rightarrow> role \<Rightarrow> bool" where
  "less_role a b \<longleftrightarrow> role_value a < role_value b"

instance
  by standard (auto simp: less_eq_role_def less_role_def role_value_def split: role.splits)

end

definition upper_char :: "char \<Rightarrow> char" where
  "upper_char c = (let k = of_char c :: nat in if 97 \<le> k \<and> k \<le> 122 then char_of (k - 32) else c)"

text \<open>\<open>Role.from_str\<close>: None stands for its ValueError.\<close>

definition role_from_str :: "string \<Rightarrow> role option" where
  "role_from_str r =
     (let n = map upper_char r in
      if n = ''READONLY'' then Some READONLY
      else if n = ''USER'' then Some USER
      else if n = ''ADMIN'' then Some ADMIN
      else None)"

definition role_name :: "role \<Rightarrow> string" where
  "role_name r = (case r of READONLY \<Rightarrow> ''readonly'' | USER \<Rightarrow> ''user'' | ADMIN \<Rightarrow> ''admin'')"

record current_user =
  cu_id :: uuid
  cu_email :: string
  cu_username :: string
  cu_role :: string
  cu_active :: bool
  cu_verified :: bool

definition require_role :: "role \<Rightarrow> current_user \<Rightarrow> current_user res" where
  "require_role minimum_role user =
     (if \<not> cu_active user then Inl (http 403 ''Account is deactivated'')
      else case role_from_str (cu_role user) of
        None \<Rightarrow> Inl (http 403 ''Invalid role assigned to account'')
      | Some r \<Rightarrow>
          if role_value r < role_value minimum_role
          then Inl (http 403 (''Requires '' @ [CHR 0x27] @ role_name minimum_role @ [CHR 0x27] @ '' role or higher''))
          else Inr user)"

definition require_owns_secret :: "uuid option \<Rightarrow> current_user \<Rightarrow> unit res" where
  "require_owns_secret secret_owner_id user =
     (let r = (case role_from_str (cu_role user) of Some r \<Rightarrow> r | None \<Rightarrow> READONLY) in
      if role_value ADMIN \<le> role_value r then Inr ()
      else case secret_owner_id of
        None \<Rightarrow> Inl (http 403 ''This secret was created anonymously and cannot be managed'')
      | Some o' \<Rightarrow>
          if o' \<noteq> cu_id user
          then Inl (http 403 ''You do not have permission to access this secret'')
          else Inr ())"

definition is_admin :: "current_user \<Rightarrow> bool" where
  "is_admin u \<longleftrightarrow> role_from_str (cu_role u) = Some ADMIN"

lemma role_from_str_name [simp]: "role_from_str (role_name r) = Some r"
proof -
  have "role_from_str (role_name READONLY) = Some READONLY"
    "role_from_str (role_name USER) = Some USER"
    "role_from_str (role_name ADMIN) = Some ADMIN" by code_simp+
  then show ?thesis by (cases r) simp_all
qed

lemma require_role_Inr:
  "require_role m u = Inr u' \<longleftrightarrow>
     u' = u \<and> cu_active u \<and> (\<exists>r. role_from_str (cu_role u) = Some r \<and> m \<le> r)"
  by (auto simp: require_role_def less_eq_role_def split: option.splits)

lemma require_owns_Inr:
  "require_owns_secret own u = Inr () \<longleftrightarrow> is_admin u \<or> own = Some (cu_id u)"
  by (auto simp: require_owns_secret_def is_admin_def role_value_def Let_def
      split: option.splits role.splits)

lemma require_owns_Inl: "require_owns_secret own u = Inl e \<Longrightarrow> \<exists>m. e = http 403 m"
  by (auto simp: require_owns_secret_def Let_def split: option.splits if_splits)

text \<open>the role dependency lets a user through exactly when the account is active and its stored
  role is known and at least the required one; every refusal is a 403, and whoever passes for a
  role passes for every lower one.\<close>

theorem require_role_correct:
  "(ok (require_role m u) \<longleftrightarrow> cu_active u \<and> (\<exists>r. role_from_str (cu_role u) = Some r \<and> m \<le> r)) \<and>
   (\<forall>e. require_role m u = Inl e \<longrightarrow> (\<exists>d. e = http 403 d)) \<and>
   (ok (require_role m u) \<and> m' \<le> m \<longrightarrow> ok (require_role m' u))"
proof -
  have "\<exists>d. e = http 403 d" if "require_role m u = Inl e" for e
    using that by (auto simp: require_role_def split: option.splits if_splits)
  moreover have "ok (require_role k u) \<longleftrightarrow>
      cu_active u \<and> (\<exists>r. role_from_str (cu_role u) = Some r \<and> k \<le> r)" for k
    by (auto simp: ok_iff require_role_Inr)
  ultimately show ?thesis by (auto intro: order_trans)
qed

definition sample_user :: current_user where
  "sample_user = \<lparr>cu_id = 1, cu_email = ''a@x.io'', cu_username = ''alice'', cu_role = ''user'',
     cu_active = True, cu_verified = True\<rparr>"

theorem require_role_correct_witness:
  "ok (require_role USER sample_user) \<and> \<not> ok (require_role ADMIN sample_user)"
proof -
  have r: "role_from_str ''user'' = Some USER"
    using role_from_str_name [of USER] by (simp add: role_name_def)
  show ?thesis
    using require_role_correct [of USER sample_user READONLY] require_role_correct [of ADMIN sample_user USER] r
    by (auto simp: sample_user_def less_eq_role_def role_value_def)
qed

text \<open>a secret may be managed by its owner and by administrators only: the ownership check
  succeeds for no one else, whatever the stored role says.\<close>

theorem require_owns_secret_iff:
  "require_owns_secret own u =
     (if is_admin u \<or> own = Some (cu_id u) then Inr ()
      else if own = None then Inl (http 403 ''This secret was created anonymously and cannot be managed'')
      else Inl (http 403 ''You do not have permission to access this secret''))"
  by (auto simp: require_owns_secret_def is_admin_def role_value_def Let_def
      split: option.splits role.splits)

end
