(* ===== verification/Platform.thy ===== *)
theory Platform
  imports Crypto Database Permissions
begin

text \<open>
  What a handler reads besides the database: the settings of app/core/config.py that the
  modelled code uses, the request (client address and the readings of the three clocks: Python's,
  the transaction's NOW() and clock_timestamp()), and the code that is not under src/ and is a
  parameter here: the cipher and digests, PostgreSQL's inet syntax, Python's ipaddress parser and
  printer, the GeoIP reader, and the renderer of QR codes.  One handler call reads each clock once.
\<close>

record settings =
  VIEW_HISTORY_RETENTION_DAYS :: int
  MAX_SECRET_VERSIONS :: int
  MAX_FILE_BYTES :: nat
  DEFAULT_MAX_ACTIVE_SECRETS :: int
  DEFAULT_MAX_FILE_STORAGE_BYTES :: int
  SIGNED_URL_SECRET :: string
  BASE_URL :: string
  TRUSTED_PROXY_CIDRS :: "string list"
  GEOIP_DATABASE_PATH :: string
  JWT_SECRET_KEY :: string
  JWT_ACCESS_TOKEN_EXPIRE_MINUTES :: int
  JWT_REFRESH_TOKEN_EXPIRE_DAYS :: int
  SMTP_USERNAME :: string
  SMTP_PASSWORD :: string
  SMTP_FROM :: string

datatype ip = V4 "32 word" | V6 "128 word"

text \<open>A network: its address (host bits cleared) and prefix length.\<close>

datatype ipnet = Net4 "32 word" nat | Net6 "128 word" nat

record platform =
  cfg :: settings
  cr :: crypto
  inet_ok :: "string \<Rightarrow> bool"
  ip_parse :: "string \<Rightarrow> ip option"           \<comment> \<open>ipaddress.ip_address; None: ValueError\<close>
  ip_str :: "ip \<Rightarrow> string"
  net_parse :: "string \<Rightarrow> ipnet option"       \<comment> \<open>ipaddress.ip_network(., strict=False)\<close>
  geoip_is_file :: bool
  geoip_country :: "string \<Rightarrow> string option" \<comment> \<open>None: no entry, or an entry without a code\<close>
  qr_png :: "string \<Rightarrow> bytes"                  \<comment> \<open>the PNG that qrcode renders for a text\<close>

text \<open>What the code relies on in ipaddress: the printed form of an address parses to it.\<close>

definition ip_text_ok :: "platform \<Rightarrow> bool" where
  "ip_text_ok P \<longleftrightarrow> (\<forall>a. ip_parse P (ip_str P a) = Some a)"

record request =
  rq_ip :: string
  rq_agent :: string
  rq_now :: micros      \<comment> \<open>datetime.now(), time.time()\<close>
  rq_txn :: micros      \<comment> \<open>NOW()\<close>
  rq_clock :: micros    \<comment> \<open>clock_timestamp()\<close>

text \<open>\<open>generate_qr_code\<close> of app/helper.py: the rendered image in base64.\<close>

definition generate_qr_code :: "platform \<Rightarrow> string \<Rightarrow> string" where
  "generate_qr_code P url = b64encode (qr_png P url)"

subsection \<open>Parameters for witnesses\<close>

definition demo_settings :: settings where
  "demo_settings = \<lparr>VIEW_HISTORY_RETENTION_DAYS = 30, MAX_SECRET_VERSIONS = 100, MAX_FILE_BYTES = 1000,
     DEFAULT_MAX_ACTIVE_SECRETS = 100, DEFAULT_MAX_FILE_STORAGE_BYTES = 5000,
     SIGNED_URL_SECRET = ''url-key'', BASE_URL = ''https://x.io'', TRUSTED_PROXY_CIDRS = [],
     GEOIP_DATABASE_PATH = [], JWT_SECRET_KEY = ''jwt-key'', JWT_ACCESS_TOKEN_EXPIRE_MINUTES = 15, JWT_REFRESH_TOKEN_EXPIRE_DAYS = 30,
     SMTP_USERNAME = ''u'', SMTP_PASSWORD = ''p'', SMTP_FROM = ''noreply@x.io''\<rparr>"

text \<open>
  Addresses written as a letter for the family and 32 hexadecimal digits: one concrete pair of
  parser and printer that satisfies \<open>ip_text_ok\<close>.
\<close>

definition demo_ip_str :: "ip \<Rightarrow> string" where
  "demo_ip_str a = (case a of V4 w \<Rightarrow> CHR ''4'' # hex_fixed 32 (unat w)
                            | V6 w \<Rightarrow> CHR ''6'' # hex_fixed 32 (unat w))"

definition demo_ip_parse :: "string \<Rightarrow> ip option" where
  "demo_ip_parse s =
     (case s of [] \<Rightarrow> None
      | c # cs \<Rightarrow> (case py_int 16 cs of None \<Rightarrow> None
         | Some i \<Rightarrow> if c = CHR ''4'' then Some (V4 (word_of_int i))
                     else if c = CHR ''6'' then Some (V6 (word_of_int i)) else None))"

definition demo_net_parse :: "string \<Rightarrow> ipnet option" where
  "demo_net_parse s =
     map_option (\<lambda>a. case a of V4 w \<Rightarrow> Net4 w 32 | V6 w \<Rightarrow> Net6 w 128) (demo_ip_parse s)"

definition demo_platform :: platform where
  "demo_platform = \<lparr>cfg = demo_settings, cr = tag_crypto, inet_ok = (\<lambda>s. s \<noteq> ''unknown''),
     ip_parse = demo_ip_parse, ip_str = demo_ip_str, net_parse = demo_net_parse,
     geoip_is_file = False, geoip_country = (\<lambda>_. None), qr_png = (\<lambda>url. CHR 0x89 # ''PNG'' @ url)\<rparr>"

lemma demo_platform_sel [simp]:
  "cfg demo_platform = demo_settings" "cr demo_platform = tag_crypto"
  "inet_ok demo_platform = (\<lambda>s. s \<noteq> ''unknown'')"
  "ip_parse demo_platform = demo_ip_parse" "ip_str demo_platform = demo_ip_str"
  "net_parse demo_platform = demo_net_parse"
  by (simp_all add: demo_platform_def)

lemma demo_settings_sel [simp]:
  "MAX_SECRET_VERSIONS demo_settings = 100" "VIEW_HISTORY_RETENTION_DAYS demo_settings = 30"
  "SIGNED_URL_SECRET demo_settings = ''url-key''" "TRUSTED_PROXY_CIDRS demo_settings = []"
  by (simp_all add: demo_settings_def)

lemma demo_ip_parse_str [simp]: "demo_ip_parse (demo_ip_str a) = Some a"
proof (cases a)
  case (V4 w)
  have "unat w < 2 ^ 32" using unsigned_less [of w] by simp
  then have "unat w < 16 ^ 32" by (simp add: less_trans)
  with V4 show ?thesis by (simp add: demo_ip_parse_def demo_ip_str_def py_int16_hex)
next
  case (V6 w)
  have "unat w < 16 ^ 32" using unsigned_less [of w] by simp
  with V6 show ?thesis by (simp add: demo_ip_parse_def demo_ip_str_def py_int16_hex)
qed

lemma demo_ip_str_not_Nil [simp]: "demo_ip_str a \<noteq> []"
  by (simp add: demo_ip_str_def split: ip.splits)

lemma demo_ip_text_ok: "ip_text_ok demo_platform"
  by (simp add: ip_text_ok_def)

definition demo_request :: request where
  "demo_request = \<lparr>rq_ip = ''10.0.0.1'', rq_agent = ''cli'', rq_now = 1000 * second,
     rq_txn = 1000 * second, rq_clock = 1000 * second\<rparr>"

end
