(* ===== verification/Quota.thy ===== *)
theory Quota
  imports Platform
begin

text \<open>
  app/services/quota_service.py: per-user counters in Redis, changed by four Lua scripts, each
  atomic.  The store holds the usage hash of every user, the reservation hashes and the sorted set
  of reservations by expiry time (in seconds).  A missing Redis client is None.
\<close>

record reservation_hash =
  rh_secrets :: int
  rh_bytes :: int
  rh_user :: uuid
  rh_committed :: int

record quota_store =
  qs_usage :: "uuid \<rightharpoonup> int \<times> int"
  qs_hash :: "uuid \<rightharpoonup> reservation_hash"
  qs_zset :: "(uuid \<times> int) list"

record reservation =
  re_id :: uuid
  re_user :: uuid
  re_secrets :: int
  re_bytes :: int

definition zadd :: "uuid \<Rightarrow> int \<Rightarrow> (uuid \<times> int) list \<Rightarrow> (uuid \<times> int) list" where
  "zadd m score z = filter (\<lambda>e. fst e \<noteq> m) z @ [(m, score)]"

definition zrem :: "uuid \<Rightarrow> (uuid \<times> int) list \<Rightarrow> (uuid \<times> int) list" where
  "zrem m z = filter (\<lambda>e. fst e \<noteq> m) z"

text \<open>HGET of the two counters, with the script's \<open>or '0'\<close>.\<close>

definition usage_or_0 :: "quota_store \<Rightarrow> uuid \<Rightarrow> int \<times> int" where
  "usage_or_0 st u = (case qs_usage st u of None \<Rightarrow> (0, 0) | Some c \<Rightarrow> c)"

definition incr_usage :: "uuid \<Rightarrow> int \<Rightarrow> int \<Rightarrow> quota_store \<Rightarrow> quota_store" where
  "incr_usage u ds db' st =
     (let (s, b) = usage_or_0 st u in st\<lparr>qs_usage := (qs_usage st)(u \<mapsto> (s + ds, b + db'))\<rparr>)"

subsection \<open>The scripts\<close>

text \<open>The four numbers a script returns.\<close>

type_synonym reply = "int \<times> int \<times> int \<times> int"

definition lua_reserve ::
  "uuid \<Rightarrow> uuid \<Rightarrow> int \<Rightarrow> int \<Rightarrow> int \<Rightarrow> int \<Rightarrow> int \<Rightarrow> int \<Rightarrow> int \<Rightarrow> quota_store \<Rightarrow> reply \<times> quota_store" where
  "lua_reserve u rid secret_delta byte_delta secret_limit byte_limit expires_at durable_secrets durable_bytes st =
     (let st1 = (if qs_usage st u = None
                 then st\<lparr>qs_usage := (qs_usage st)(u \<mapsto> (durable_secrets, durable_bytes))\<rparr> else st);
          (current_secrets, current_bytes) = usage_or_0 st1 u in
      if secret_limit < current_secrets + secret_delta then ((0, 1, current_secrets, current_bytes), st1)
      else if byte_limit < current_bytes + byte_delta then ((0, 2, current_secrets, current_bytes), st1)
      else
        ((1, 0, current_secrets + secret_delta, current_bytes + byte_delta),
         (incr_usage u secret_delta byte_delta st1)
           \<lparr>qs_hash := (qs_hash st1)(rid \<mapsto> \<lparr>rh_secrets = secret_delta, rh_bytes = byte_delta,
                            rh_user = u, rh_committed = 0\<rparr>),
            qs_zset := zadd rid expires_at (qs_zset st1)\<rparr>))"

definition lua_release :: "uuid \<Rightarrow> uuid \<Rightarrow> quota_store \<Rightarrow> int \<times> quota_store" where
  "lua_release u rid st =
     (case qs_hash st rid of
        None \<Rightarrow> (0, st)
      | Some h \<Rightarrow>
          (let st1 = (if rh_committed h = 0 then incr_usage u (- rh_secrets h) (- rh_bytes h) st else st) in
           (1, st1\<lparr>qs_hash := (qs_hash st1)(rid := None), qs_zset := zrem rid (qs_zset st1)\<rparr>)))"

definition lua_commit :: "uuid \<Rightarrow> quota_store \<Rightarrow> int \<times> quota_store" where
  "lua_commit rid st =
     (case qs_hash st rid of
        None \<Rightarrow> (0, st)
      | Some h \<Rightarrow> (1, st\<lparr>qs_hash := (qs_hash st)(rid := None), qs_zset := zrem rid (qs_zset st)\<rparr>))"

fun sum_uncommitted :: "(uuid \<rightharpoonup> reservation_hash) \<Rightarrow> uuid \<Rightarrow> (uuid \<times> int) list \<Rightarrow> int \<times> int" where
  "sum_uncommitted h u [] = (0, 0)"
| "sum_uncommitted h u ((rid, score) # z) =
     (let (s, b) = sum_uncommitted h u z in
      case h rid of
        None \<Rightarrow> (s, b)
      | Some r \<Rightarrow> if rh_user r = u \<and> rh_committed r = 0 then (s + rh_secrets r, b + rh_bytes r) else (s, b))"

definition lua_reconcile :: "uuid \<Rightarrow> int \<Rightarrow> int \<Rightarrow> quota_store \<Rightarrow> (int \<times> int) \<times> quota_store" where
  "lua_reconcile u durable_secrets durable_bytes st =
     (let (s, b) = sum_uncommitted (qs_hash st) u (qs_zset st);
          c = (durable_secrets + s, durable_bytes + b) in
      (c, st\<lparr>qs_usage := (qs_usage st)(u \<mapsto> c)\<rparr>))"

subsection \<open>The service functions\<close>

definition limits_for_user :: "platform \<Rightarrow> database \<Rightarrow> uuid \<Rightarrow> int \<times> int" where
  "limits_for_user P db u =
     (let row = row_of q_user (user_quotas db) u in
      (case row of
         Some q \<Rightarrow> (case q_secrets q of Some m \<Rightarrow> m | None \<Rightarrow> DEFAULT_MAX_ACTIVE_SECRETS (cfg P))
       | None \<Rightarrow> DEFAULT_MAX_ACTIVE_SECRETS (cfg P),
       case row of
         Some q \<Rightarrow> (case q_bytes q of Some m \<Rightarrow> m | None \<Rightarrow> DEFAULT_MAX_FILE_STORAGE_BYTES (cfg P))
       | None \<Rightarrow> DEFAULT_MAX_FILE_STORAGE_BYTES (cfg P)))"

definition durable_usage :: "database \<Rightarrow> uuid \<Rightarrow> int \<times> int" where
  "durable_usage db u =
     (let owned = sql_select (\<lambda>s. s_owner s = Some u) (secrets db);
          ids = set (map s_id owned);
          secrets_count = int (length owned);
          active_bytes = sum_of v_size
            (sql_select (\<lambda>v. v_secret v \<in> ids \<and> v_object v \<noteq> None) (secret_versions db));
          pending_bytes = sum_of o_bytes
            (sql_select (\<lambda>b. o_user b = Some u \<and> o_processed b = None) (deletion_outbox db))
      in (secrets_count, active_bytes + pending_bytes))"

abbreviation quota_unavailable :: exc where
  "quota_unavailable \<equiv> http 503 ''Quota service unavailable''"

definition reconcile_user ::
  "database \<Rightarrow> uuid \<Rightarrow> quota_store option \<Rightarrow> (int \<times> int) res \<times> quota_store option" where
  "reconcile_user db u redis =
     (case redis of
        None \<Rightarrow> (Inl quota_unavailable, None)
      | Some st \<Rightarrow>
          (let (s, b) = durable_usage db u; (c, st') = lua_reconcile u s b st in (Inr c, Some st')))"

definition reserve ::
  "platform \<Rightarrow> database \<Rightarrow> micros \<Rightarrow> uuid \<Rightarrow> uuid \<Rightarrow> int \<Rightarrow> int \<Rightarrow> quota_store option \<Rightarrow>
   reservation res \<times> quota_store option" where
  "reserve P db now rid u secret_n file_bytes redis =
     (case redis of
        None \<Rightarrow> (Inl quota_unavailable, None)
      | Some st \<Rightarrow>
          (let (durable_secrets, durable_bytes) = durable_usage db u;
               (secret_limit, byte_limit) = limits_for_user P db u;
               ((granted, which, cur_secrets, cur_bytes), st') =
                 lua_reserve u rid secret_n file_bytes secret_limit byte_limit
                   (now div second + 600) durable_secrets durable_bytes st in
           if granted = 0 then
             (Inl (HTTPException 409
                (QuotaExceeded (if which = 1 then ''MAX_ACTIVE_SECRETS'' else ''MAX_FILE_STORAGE'')
                   cur_secrets cur_bytes secret_limit byte_limit) []), Some st')
           else (Inr \<lparr>re_id = rid, re_user = u, re_secrets = secret_n, re_bytes = file_bytes\<rparr>, Some st')))"

text \<open>\<open>commit\<close> raises RuntimeError without a client, \<open>release\<close> swallows everything.\<close>

definition commit :: "reservation \<Rightarrow> quota_store option \<Rightarrow> unit res \<times> quota_store option" where
  "commit r redis =
     (case redis of
        None \<Rightarrow> (Inl (RuntimeError ''Redis client is not initialized.''), None)
      | Some st \<Rightarrow> (Inr (), Some (snd (lua_commit (re_id r) st))))"

definition release :: "reservation \<Rightarrow> quota_store option \<Rightarrow> quota_store option" where
  "release r redis =
     (case redis of None \<Rightarrow> None | Some st \<Rightarrow> Some (snd (lua_release (re_user r) (re_id r) st)))"

text \<open>The loop of the reaper over the members whose score is in 0..now.\<close>

fun reap_keys :: "uuid list \<Rightarrow> quota_store \<Rightarrow> int \<times> quota_store" where
  "reap_keys [] st = (0, st)"
| "reap_keys (rid # ks) st =
     (case qs_hash st rid of
        Some h \<Rightarrow> (let (n, st') = reap_keys ks (snd (lua_release (rh_user h) rid st)) in (n + 1, st'))
      | None \<Rightarrow> reap_keys ks (st\<lparr>qs_zset := zrem rid (qs_zset st)\<rparr>))"

definition reap_expired_reservations :: "micros \<Rightarrow> quota_store option \<Rightarrow> int res \<times> quota_store option" where
  "reap_expired_reservations now redis =
     (case redis of
        None \<Rightarrow> (Inl (RuntimeError ''Redis client is not initialized.''), None)
      | Some st \<Rightarrow>
          (let keys = map fst (filter (\<lambda>e. 0 \<le> snd e \<and> snd e \<le> now div second) (qs_zset st));
               (n, st') = reap_keys keys st in
           (Inr n, Some st')))"

definition usage :: "platform \<Rightarrow> database \<Rightarrow> uuid \<Rightarrow> quota_store option \<Rightarrow>
    (int \<times> int \<times> int \<times> int) res \<times> quota_store option" where
  "usage P db u redis =
     (case reconcile_user db u redis of
        (Inl e, redis') \<Rightarrow> (Inl e, redis')
      | (Inr (s, b), redis') \<Rightarrow>
          (let (ms, mb) = limits_for_user P db u in (Inr (s, b, ms, mb), redis')))"

subsection \<open>Outstanding reservations\<close>

text \<open>What a reservation holds for a user, by counter (\<open>sel\<close> is \<open>rh_secrets\<close> or \<open>rh_bytes\<close>).\<close>

definition held :: "(reservation_hash \<Rightarrow> int) \<Rightarrow> uuid \<Rightarrow> (uuid \<rightharpoonup> reservation_hash) \<Rightarrow> uuid \<Rightarrow> int" where
  "held sel u h rid = (case h rid of None \<Rightarrow> 0
     | Some r \<Rightarrow> if rh_user r = u \<and> rh_committed r = 0 then sel r else 0)"

definition outstanding :: "(reservation_hash \<Rightarrow> int) \<Rightarrow> uuid \<Rightarrow> quota_store \<Rightarrow> int" where
  "outstanding sel u st = sum_list (map (\<lambda>e. held sel u (qs_hash st) (fst e)) (qs_zset st))"

lemma sum_uncommitted_eq:
  "sum_uncommitted h u z =
     (sum_list (map (\<lambda>e. held rh_secrets u h (fst e)) z), sum_list (map (\<lambda>e. held rh_bytes u h (fst e)) z))"
  by (induction z) (auto simp: held_def split: option.splits prod.splits)

text \<open>
  Well-formed store: the sorted set names exactly the reservations that have a hash, once, none is
  committed, and their amounts are not negative.
\<close>

definition quota_wf :: "quota_store \<Rightarrow> bool" where
  "quota_wf st \<longleftrightarrow> distinct (map fst (qs_zset st)) \<and> fst ` set (qs_zset st) = dom (qs_hash st) \<and>
     (\<forall>r \<in> ran (qs_hash st). rh_committed r = 0 \<and> 0 \<le> rh_secrets r \<and> 0 \<le> rh_bytes r)"

lemma held_upd: "held sel u (h(rid := x)) rid' = (if rid = rid' then held sel u (\<lambda>_. x) rid else held sel u h rid')"
  by (simp add: held_def)

lemma sum_held_absent:
  "rid \<notin> fst ` set z \<Longrightarrow>
   sum_list (map (\<lambda>e. held sel u (h(rid := x)) (fst e)) z) = sum_list (map (\<lambda>e. held sel u h (fst e)) z)"
  by (rule arg_cong [where f = sum_list]) (auto simp: held_upd)

lemma zrem_absent: "rid \<notin> fst ` set z \<Longrightarrow> zrem rid z = z"
  by (induction z) (auto simp: zrem_def)

lemma sum_held_zrem:
  assumes "distinct (map fst z)" and "rid \<in> fst ` set z"
  shows "sum_list (map (\<lambda>e. held sel u (h(rid := None)) (fst e)) (zrem rid z)) =
    sum_list (map (\<lambda>e. held sel u h (fst e)) z) - held sel u h rid"
  using assms
proof (induction z)
  case (Cons e z)
  show ?case
  proof (cases "fst e = rid")
    case True
    with Cons.prems have "rid \<notin> fst ` set z" by auto
    with True show ?thesis
      using zrem_absent [of rid z] sum_held_absent [of rid z sel u h None] by (simp add: zrem_def del: fun_upd_apply)
  next
    case False
    then have "held sel u (h(rid := None)) (fst e) = held sel u h (fst e)" by (simp add: held_def)
    with False Cons show ?thesis by (auto simp: zrem_def simp del: fun_upd_apply)
  qed
qed simp

lemma outstanding_nonneg:
  "quota_wf st \<Longrightarrow> sel = rh_secrets \<or> sel = rh_bytes \<Longrightarrow> 0 \<le> outstanding sel u st"
proof -
  assume wf: "quota_wf st" and sel: "sel = rh_secrets \<or> sel = rh_bytes"
  have "0 \<le> held sel u (qs_hash st) rid" for rid
  proof (cases "qs_hash st rid")
    case (Some r)
    then have "r \<in> ran (qs_hash st)" by (rule ranI)
    with wf have "0 \<le> rh_secrets r" "0 \<le> rh_bytes r" unfolding quota_wf_def by auto
    with sel Some show ?thesis by (auto simp: held_def)
  qed (simp add: held_def)
  then show ?thesis unfolding outstanding_def by (intro sum_list_nonneg) auto
qed

subsection \<open>Each script on a well-formed store\<close>

lemma usage_or_0_incr:
  "usage_or_0 (incr_usage u a b st) u' =
     (if u = u' then (fst (usage_or_0 st u) + a, snd (usage_or_0 st u) + b) else usage_or_0 st u')"
  by (simp add: incr_usage_def usage_or_0_def split_beta)

lemma incr_usage_frame [simp]:
  "qs_hash (incr_usage u a b st) = qs_hash st" "qs_zset (incr_usage u a b st) = qs_zset st"
  by (simp_all add: incr_usage_def split_beta)

lemma reserve_store:
  assumes "lua_reserve u rid ds bs sl bl ex dus dub st = ((granted, x, y, z), st')"
  obtains "granted = 0" "qs_hash st' = qs_hash st" "qs_zset st' = qs_zset st"
  | "granted = 1" "qs_zset st' = zadd rid ex (qs_zset st)"
    "qs_hash st' = (qs_hash st)(rid \<mapsto> \<lparr>rh_secrets = ds, rh_bytes = bs, rh_user = u, rh_committed = 0\<rparr>)"
  using assms
  by (cases "granted = 0") (auto simp: lua_reserve_def Let_def split_beta split: if_splits)

lemma quota_wf_cong: "qs_hash st' = qs_hash st \<Longrightarrow> qs_zset st' = qs_zset st \<Longrightarrow> quota_wf st \<Longrightarrow> quota_wf st'"
  by (simp add: quota_wf_def)

lemma zadd_absent: "rid \<notin> fst ` set z \<Longrightarrow> zadd rid ex z = z @ [(rid, ex)]"
  using zrem_absent [of rid z] by (simp add: zadd_def zrem_def)

lemma quota_wf_absent: "quota_wf st \<Longrightarrow> qs_hash st rid = None \<Longrightarrow> rid \<notin> fst ` set (qs_zset st)"
  by (auto simp: quota_wf_def)

lemma ran_upd_subset: "ran (m(k \<mapsto> v)) \<subseteq> insert v (ran m)"
  by (auto simp: ran_def)

lemma reserve_wf:
  assumes wf: "quota_wf st" and new: "qs_hash st rid = None" "0 \<le> ds" "0 \<le> bs"
    and r: "lua_reserve u rid ds bs sl bl ex dus dub st = ((granted, x, y, z), st')"
  shows "quota_wf st'"
  using r
proof (rule reserve_store)
  assume "qs_hash st' = qs_hash st" "qs_zset st' = qs_zset st"
  with wf show ?thesis by (rule quota_wf_cong [rotated 2])
next
  let ?r = "\<lparr>rh_secrets = ds, rh_bytes = bs, rh_user = u, rh_committed = 0\<rparr>"
  assume st': "qs_zset st' = zadd rid ex (qs_zset st)" "qs_hash st' = (qs_hash st)(rid \<mapsto> ?r)"
  have notin: "rid \<notin> fst ` set (qs_zset st)" using wf new(1) by (rule quota_wf_absent)
  have "ran (qs_hash st') \<subseteq> insert ?r (ran (qs_hash st))" unfolding st' by (rule ran_upd_subset)
  then have "\<forall>r \<in> ran (qs_hash st'). rh_committed r = 0 \<and> 0 \<le> rh_secrets r \<and> 0 \<le> rh_bytes r"
    using wf new unfolding quota_wf_def by fastforce
  moreover have "distinct (map fst (qs_zset st'))" "fst ` set (qs_zset st') = dom (qs_hash st')"
    using wf notin st' by (auto simp: quota_wf_def zadd_absent)
  ultimately show ?thesis by (simp add: quota_wf_def)
qed

lemma release_wf: "quota_wf st \<Longrightarrow> quota_wf (snd (lua_release u rid st))"
  by (auto simp: lua_release_def quota_wf_def Let_def zrem_def distinct_map_filter dom_def ran_def
      split: option.splits if_splits)

lemma commit_wf: "quota_wf st \<Longrightarrow> quota_wf (snd (lua_commit rid st))"
  by (auto simp: lua_commit_def quota_wf_def zrem_def distinct_map_filter dom_def ran_def
      split: option.splits if_splits)

lemma outstanding_remove:
  assumes "quota_wf st"
  shows "outstanding sel u (st'\<lparr>qs_hash := (qs_hash st)(rid := None), qs_zset := zrem rid (qs_zset st)\<rparr>) =
    outstanding sel u st - held sel u (qs_hash st) rid"
proof (cases "qs_hash st rid")
  case None
  then have "rid \<notin> fst ` set (qs_zset st)" using assms by (auto simp: quota_wf_def)
  then show ?thesis using None sum_held_absent [of rid "qs_zset st" sel u "qs_hash st" None]
    by (simp add: outstanding_def zrem_absent held_def [of sel u "qs_hash st" rid] del: fun_upd_apply)
next
  case (Some r)
  then have "rid \<in> fst ` set (qs_zset st)" using assms by (auto simp: quota_wf_def)
  then show ?thesis using assms by (simp add: outstanding_def sum_held_zrem quota_wf_def)
qed

lemma sum_held_append:
  "rid \<notin> fst ` set z \<Longrightarrow>
   sum_list (map (\<lambda>e. held sel u (h(rid \<mapsto> r)) (fst e)) (z @ [(rid, ex)])) =
   sum_list (map (\<lambda>e. held sel u h (fst e)) z) + (if rh_user r = u \<and> rh_committed r = 0 then sel r else 0)"
proof -
  have "held sel u (h(rid \<mapsto> r)) rid = (if rh_user r = u \<and> rh_committed r = 0 then sel r else 0)"
    by (simp add: held_def)
  moreover assume "rid \<notin> fst ` set z"
  ultimately show ?thesis
    using sum_held_absent [of rid z sel u h "Some r"] by (simp del: fun_upd_apply)
qed

lemma outstanding_reserve:
  assumes "quota_wf st" "qs_hash st rid = None"
    and "lua_reserve u rid ds bs sl bl ex dus dub st = ((granted, x, y, z), st')"
  shows "outstanding rh_secrets u' st' = outstanding rh_secrets u' st + (if granted = 1 \<and> u = u' then ds else 0)"
    and "outstanding rh_bytes u' st' = outstanding rh_bytes u' st + (if granted = 1 \<and> u = u' then bs else 0)"
  using assms(3)
  by (rule reserve_store; insert quota_wf_absent [OF assms(1,2)];
      simp add: outstanding_def zadd_absent sum_held_append del: fun_upd_apply map_append)+

subsection \<open>The stores that requests can lead to\<close>

text \<open>
  Steps of any number of concurrent requests: each script call is one atomic step, a reservation
  id is fresh, and \<open>release\<close> names the user of the reservation.  \<open>base u\<close> is what the counters of
  \<open>u\<close> have settled to: the durable usage they were initialised or last reconciled with, plus what
  was committed since.
\<close>

definition empty_store :: quota_store where
  "empty_store = \<lparr>qs_usage = Map.empty, qs_hash = Map.empty, qs_zset = []\<rparr>"

definition init_base :: "uuid \<Rightarrow> int \<Rightarrow> int \<Rightarrow> quota_store \<Rightarrow> (uuid \<Rightarrow> int \<times> int) \<Rightarrow> (uuid \<Rightarrow> int \<times> int)" where
  "init_base u s b st base = (if qs_usage st u = None then base(u := (s, b)) else base)"

definition settle :: "reservation_hash option \<Rightarrow> (uuid \<Rightarrow> int \<times> int) \<Rightarrow> (uuid \<Rightarrow> int \<times> int)" where
  "settle h base = (case h of None \<Rightarrow> base
     | Some r \<Rightarrow> base(rh_user r := (fst (base (rh_user r)) + rh_secrets r, snd (base (rh_user r)) + rh_bytes r)))"

inductive quota_reach :: "quota_store \<Rightarrow> (uuid \<Rightarrow> int \<times> int) \<Rightarrow> bool" where
  start: "quota_reach empty_store base"
| reserve: "quota_reach st base \<Longrightarrow> qs_hash st rid = None \<Longrightarrow> 0 \<le> ds \<Longrightarrow> 0 \<le> bs \<Longrightarrow>
     quota_reach (snd (lua_reserve u rid ds bs sl bl ex dus dub st)) (init_base u dus dub st base)"
| release: "quota_reach st base \<Longrightarrow> (\<And>h. qs_hash st rid = Some h \<Longrightarrow> rh_user h = u) \<Longrightarrow>
     quota_reach (snd (lua_release u rid st)) base"
| commit: "quota_reach st base \<Longrightarrow>
     quota_reach (snd (lua_commit rid st)) (settle (qs_hash st rid) base)"
| reconcile: "quota_reach st base \<Longrightarrow>
     quota_reach (snd (lua_reconcile u s b st)) (base(u := (s, b)))"

definition accounted :: "quota_store \<Rightarrow> (uuid \<Rightarrow> int \<times> int) \<Rightarrow> bool" where
  "accounted st base \<longleftrightarrow> (\<forall>u.
     (qs_usage st u = None \<longrightarrow> outstanding rh_secrets u st = 0 \<and> outstanding rh_bytes u st = 0) \<and>
     (\<forall>c. qs_usage st u = Some c \<longrightarrow>
        c = (fst (base u) + outstanding rh_secrets u st, snd (base u) + outstanding rh_bytes u st)))"

text \<open>A hash exists only for a user who has a counter.\<close>

definition users_counted :: "quota_store \<Rightarrow> bool" where
  "users_counted st \<longleftrightarrow> (\<forall>r \<in> ran (qs_hash st). qs_usage st (rh_user r) \<noteq> None)"

lemma reserve_usage:
  assumes "lua_reserve u rid ds bs sl bl ex dus dub st = ((granted, x, y, z), st')"
  shows "qs_usage st' = (qs_usage st)(u \<mapsto>
    (let c = (case qs_usage st u of None \<Rightarrow> (dus, dub) | Some c \<Rightarrow> c) in
     if granted = 1 then (fst c + ds, snd c + bs) else c))"
  using assms
  by (auto simp: lua_reserve_def Let_def split_beta usage_or_0_def incr_usage_def fun_eq_iff
      split: if_splits option.splits)

lemma accountedD:
  "accounted st base \<Longrightarrow> qs_usage st u = None \<Longrightarrow>
     outstanding rh_secrets u st = 0 \<and> outstanding rh_bytes u st = 0"
  "accounted st base \<Longrightarrow> qs_usage st u = Some c \<Longrightarrow>
     c = (fst (base u) + outstanding rh_secrets u st, snd (base u) + outstanding rh_bytes u st)"
  unfolding accounted_def by blast+

lemma reserve_accounted:
  assumes wf: "quota_wf st" and acc: "accounted st base" and new: "qs_hash st rid = None"
    and r: "lua_reserve u rid ds bs sl bl ex dus dub st = ((granted, x, y, z), st')"
  shows "accounted st' (init_base u dus dub st base)"
  unfolding accounted_def
proof (intro allI conjI impI)
  fix u' c
  note out = outstanding_reserve [OF wf new r, of u'] and us = reserve_usage [OF r]
  from acc have a: "qs_usage st u' = None \<Longrightarrow> outstanding rh_secrets u' st = 0 \<and> outstanding rh_bytes u' st = 0"
    "qs_usage st u' = Some c' \<Longrightarrow>
       c' = (fst (base u') + outstanding rh_secrets u' st, snd (base u') + outstanding rh_bytes u' st)" for c'
    using accountedD by blast+
  show "outstanding rh_secrets u' st' = 0" "outstanding rh_bytes u' st' = 0" if "qs_usage st' u' = None"
    using that us out a(1) by (auto simp: Let_def split: if_splits)
  show "c = (fst (init_base u dus dub st base u') + outstanding rh_secrets u' st',
             snd (init_base u dus dub st base u') + outstanding rh_bytes u' st')"
    if "qs_usage st' u' = Some c"
    using that us out a by (auto simp: Let_def init_base_def split: if_splits option.splits)
qed

lemma held_other: "rh_user r \<noteq> u \<Longrightarrow> h rid = Some r \<Longrightarrow> held sel u h rid = 0"
  by (simp add: held_def)

lemma held_mine: "h rid = Some r \<Longrightarrow> rh_committed r = 0 \<Longrightarrow> held sel (rh_user r) h rid = sel r"
  by (simp add: held_def)

lemma wf_uncommitted: "quota_wf st \<Longrightarrow> qs_hash st rid = Some r \<Longrightarrow> rh_committed r = 0"
  by (auto simp: quota_wf_def ran_def)

lemma outstanding_cong: "qs_hash st' = qs_hash st \<Longrightarrow> qs_zset st' = qs_zset st \<Longrightarrow>
    outstanding sel u st' = outstanding sel u st"
  by (simp add: outstanding_def)

lemma outstanding_out:
  assumes "quota_wf st" "qs_hash st rid = Some r"
    "qs_hash st' = (qs_hash st)(rid := None)" "qs_zset st' = zrem rid (qs_zset st)"
  shows "outstanding sel u st' = outstanding sel u st - (if rh_user r = u then sel r else 0)"
proof -
  have "outstanding sel u st' =
      outstanding sel u (st\<lparr>qs_hash := (qs_hash st)(rid := None), qs_zset := zrem rid (qs_zset st)\<rparr>)"
    using assms by (simp add: outstanding_def)
  also have "\<dots> = outstanding sel u st - held sel u (qs_hash st) rid"
    by (rule outstanding_remove [OF assms(1)])
  finally show ?thesis
    using assms(2) wf_uncommitted [OF assms(1,2)] by (simp add: held_def)
qed

lemma release_present:
  assumes "quota_wf st" "qs_hash st rid = Some r"
  shows "qs_hash (snd (lua_release u rid st)) = (qs_hash st)(rid := None)"
    and "qs_zset (snd (lua_release u rid st)) = zrem rid (qs_zset st)"
    and "qs_usage (snd (lua_release u rid st)) =
      (qs_usage st)(u \<mapsto> (fst (usage_or_0 st u) - rh_secrets r, snd (usage_or_0 st u) - rh_bytes r))"
  using assms(2) wf_uncommitted [OF assms]
  by (simp_all add: lua_release_def Let_def incr_usage_def split_beta)

lemma commit_present:
  assumes "qs_hash st rid = Some r"
  shows "qs_hash (snd (lua_commit rid st)) = (qs_hash st)(rid := None)"
    and "qs_zset (snd (lua_commit rid st)) = zrem rid (qs_zset st)"
    and "qs_usage (snd (lua_commit rid st)) = qs_usage st"
  using assms by (simp_all add: lua_commit_def)

lemma reconcile_store:
  "qs_hash (snd (lua_reconcile u s b st)) = qs_hash st"
  "qs_zset (snd (lua_reconcile u s b st)) = qs_zset st"
  "qs_usage (snd (lua_reconcile u s b st)) =
     (qs_usage st)(u \<mapsto> (s + outstanding rh_secrets u st, b + outstanding rh_bytes u st))"
  by (simp_all add: lua_reconcile_def sum_uncommitted_eq outstanding_def Let_def)

lemma reach_inv:
  "quota_reach st base \<Longrightarrow> quota_wf st \<and> users_counted st \<and> accounted st base"
proof (induction rule: quota_reach.induct)
  case (start base)
  then show ?case
    by (simp add: empty_store_def quota_wf_def users_counted_def accounted_def outstanding_def)
next
  case (reserve st base rid ds bs u sl bl ex dus dub)
  obtain g x y z st' where r: "lua_reserve u rid ds bs sl bl ex dus dub st = ((g, x, y, z), st')"
    by (metis surj_pair)
  have "users_counted st'"
    using r
  proof (rule reserve_store)
    assume "qs_hash st' = qs_hash st"
    then show ?thesis using reserve.IH reserve_usage [OF r] by (auto simp: users_counted_def)
  next
    let ?r = "\<lparr>rh_secrets = ds, rh_bytes = bs, rh_user = u, rh_committed = 0\<rparr>"
    assume h: "qs_hash st' = (qs_hash st)(rid \<mapsto> ?r)"
    have "ran (qs_hash st') \<subseteq> insert ?r (ran (qs_hash st))" unfolding h by (rule ran_upd_subset)
    then show ?thesis using reserve.IH reserve_usage [OF r] by (auto simp: users_counted_def)
  qed
  with r reserve.IH reserve.hyps show ?case
    using reserve_wf [OF _ _ _ _ r] reserve_accounted [OF _ _ _ r] by simp
next
  case (release st base rid u)
  show ?case
  proof (cases "qs_hash st rid")
    case None
    with release.IH show ?thesis by (simp add: lua_release_def)
  next
    case (Some r)
    let ?st = "snd (lua_release u rid st)"
    note p = release_present [OF conjunct1 [OF release.IH] Some, of u]
    have u: "rh_user r = u" using release.hyps Some by simp
    have c: "qs_usage st u \<noteq> None" using release.IH Some u by (auto simp: users_counted_def ran_def)
    have out: "outstanding sel u' ?st = outstanding sel u' st - (if u = u' then sel r else 0)" for sel u'
      using outstanding_out [OF conjunct1 [OF release.IH] Some p(1,2)] u by simp
    have "accounted ?st base"
      unfolding accounted_def
    proof (intro allI conjI impI)
      fix u' c'
      show "outstanding rh_secrets u' ?st = 0" "outstanding rh_bytes u' ?st = 0" if "qs_usage ?st u' = None"
        using that out accountedD(1) [of st base u'] release.IH p(3) by (auto split: if_splits)
      show "c' = (fst (base u') + outstanding rh_secrets u' ?st, snd (base u') + outstanding rh_bytes u' ?st)"
        if "qs_usage ?st u' = Some c'"
        using that out accountedD(2) [of st base u'] release.IH p(3) c
        by (auto simp: usage_or_0_def split: if_splits option.splits)
    qed
    moreover have "users_counted ?st"
      using release.IH p by (auto simp: users_counted_def ran_def)
    ultimately show ?thesis using release.IH release_wf by blast
  qed
next
  case (commit st base rid)
  show ?case
  proof (cases "qs_hash st rid")
    case None
    with commit.IH show ?thesis by (simp add: lua_commit_def settle_def)
  next
    case (Some r)
    let ?st = "snd (lua_commit rid st)"
    note p = commit_present [OF Some]
    have c: "qs_usage st (rh_user r) \<noteq> None" using commit.IH Some by (auto simp: users_counted_def ran_def)
    have out: "outstanding sel u' ?st = outstanding sel u' st - (if rh_user r = u' then sel r else 0)" for sel u'
      using outstanding_out [OF conjunct1 [OF commit.IH] Some p(1,2)] by simp
    have "accounted ?st (settle (qs_hash st rid) base)"
      unfolding accounted_def
    proof (intro allI conjI impI)
      fix u' c'
      show "outstanding rh_secrets u' ?st = 0" "outstanding rh_bytes u' ?st = 0" if "qs_usage ?st u' = None"
        using that out accountedD(1) [of st base u'] commit.IH p(3) c by auto
      show "c' = (fst (settle (qs_hash st rid) base u') + outstanding rh_secrets u' ?st,
                  snd (settle (qs_hash st rid) base u') + outstanding rh_bytes u' ?st)"
        if "qs_usage ?st u' = Some c'"
        using that out accountedD(2) [of st base u'] commit.IH p(3) Some by (auto simp: settle_def)
    qed
    moreover have "users_counted ?st"
      using commit.IH p by (auto simp: users_counted_def ran_def)
    ultimately show ?thesis using commit.IH commit_wf by blast
  qed
next
  case (reconcile st base u s b)
  let ?st = "snd (lua_reconcile u s b st)"
  have o: "outstanding sel u' ?st = outstanding sel u' st" for sel u'
    by (rule outstanding_cong) (simp_all add: reconcile_store)
  have "accounted ?st (base(u := (s, b)))"
    using reconcile.IH by (auto simp: accounted_def o reconcile_store)
  moreover have "users_counted ?st"
    using reconcile.IH by (auto simp: users_counted_def reconcile_store)
  ultimately show ?case
    using reconcile.IH quota_wf_cong [of ?st st] by (simp add: reconcile_store del: fun_upd_apply)
qed

subsection \<open>The reaper\<close>

text \<open>Reaping a list of reservations is a sequence of release steps.\<close>

lemma reap_keys_wf:
  assumes "quota_reach st base" "distinct ks" "set ks \<subseteq> dom (qs_hash st)"
    "reap_keys ks st = (n, st')"
  shows "quota_reach st' base \<and> n = int (length ks) \<and>
    qs_hash st' = qs_hash st |` (- set ks) \<and> qs_zset st' = filter (\<lambda>e. fst e \<notin> set ks) (qs_zset st)"
  using assms
proof (induction ks arbitrary: st n)
  case Nil
  then show ?case by (simp add: restrict_map_def)
next
  case (Cons rid ks)
  obtain r where r: "qs_hash st rid = Some r" using Cons.prems(3) by auto
  let ?st = "snd (lua_release (rh_user r) rid st)"
  obtain m where m: "reap_keys ks ?st = (m, st')" "n = m + 1"
    using Cons.prems(4) r by (auto split: prod.splits)
  have wf: "quota_wf st" using reach_inv [OF Cons.prems(1)] by simp
  note p = release_present(1,2) [OF wf r, of "rh_user r"]
  have "quota_reach ?st base"
    using Cons.prems(1) r by (intro quota_reach.release) auto
  moreover have "set ks \<subseteq> dom (qs_hash ?st)" "distinct ks"
    using Cons.prems(2,3) p by auto
  ultimately have "quota_reach st' base \<and> m = int (length ks) \<and>
      qs_hash st' = qs_hash ?st |` (- set ks) \<and> qs_zset st' = filter (\<lambda>e. fst e \<notin> set ks) (qs_zset ?st)"
    using Cons.IH m by blast
  then show ?case
    using p m(2) by (auto simp: zrem_def restrict_map_def fun_eq_iff conj_commute intro!: filter_cong)
qed

lemma expired_keys:
  assumes "quota_wf st"
  shows "distinct (map fst (filter p (qs_zset st)))" "fst ` set (filter p (qs_zset st)) \<subseteq> dom (qs_hash st)"
    "filter (\<lambda>e. fst e \<notin> fst ` set (filter p (qs_zset st))) (qs_zset st) = filter (\<lambda>e. \<not> p e) (qs_zset st)"
proof -
  have d: "distinct (map fst (qs_zset st))" "fst ` set (qs_zset st) = dom (qs_hash st)"
    using assms by (auto simp: quota_wf_def)
  show "distinct (map fst (filter p (qs_zset st)))" using d(1) by (rule distinct_map_filter)
  show "fst ` set (filter p (qs_zset st)) \<subseteq> dom (qs_hash st)" using d(2) by auto
  have "fst e \<notin> fst ` set (filter p (qs_zset st)) \<longleftrightarrow> \<not> p e" if e: "e \<in> set (qs_zset st)" for e
  proof -
    have "e = e'" if "e' \<in> set (qs_zset st)" "fst e = fst e'" for e'
      using d(1) e that by (meson distinct_map inj_onD)
    note eq = this
    have "p e" if "e' \<in> set (filter p (qs_zset st))" "fst e = fst e'" for e'
    proof -
      from that(1) have "e' \<in> set (qs_zset st)" "p e'" by simp_all
      with eq that(2) show ?thesis by metis
    qed
    moreover have "e \<in> set (filter p (qs_zset st))" if "p e" using e that by simp
    ultimately show ?thesis by blast
  qed
  then show "filter (\<lambda>e. fst e \<notin> fst ` set (filter p (qs_zset st))) (qs_zset st) =
      filter (\<lambda>e. \<not> p e) (qs_zset st)"
    by (intro filter_cong refl)
qed

text \<open>C6: however the requests of any number of users interleave (reserving, committing, releasing,
  reconciling, being reaped), the counters of a user are what has settled (the durable usage last
  read plus what was committed since) plus what the user's open reservations hold, and never less
  than what has settled.\<close>

theorem quota_counters_exact:
  assumes "quota_reach st base" and "qs_usage st u = Some (s, b)"
  shows "s = fst (base u) + outstanding rh_secrets u st \<and> b = snd (base u) + outstanding rh_bytes u st \<and>
    fst (base u) \<le> s \<and> snd (base u) \<le> b"
proof -
  have "quota_wf st" "accounted st base" using reach_inv [OF assms(1)] by auto
  then show ?thesis
    using accountedD(2) [OF _ assms(2)] outstanding_nonneg [of st rh_secrets u]
      outstanding_nonneg [of st rh_bytes u] by auto
qed

definition sample_store :: quota_store where
  "sample_store = snd (lua_reserve 1 7 1 50 2 100 1600 0 0 empty_store)"

lemma sample_store_eq:
  "sample_store = \<lparr>qs_usage = [1 \<mapsto> (1, 50)],
     qs_hash = [7 \<mapsto> \<lparr>rh_secrets = 1, rh_bytes = 50, rh_user = 1, rh_committed = 0\<rparr>],
     qs_zset = [(7, 1600)]\<rparr>"
  by (simp add: sample_store_def lua_reserve_def empty_store_def usage_or_0_def incr_usage_def zadd_def)

lemma sample_store_reach: "quota_reach sample_store ((\<lambda>_. (0, 0))(1 := (0, 0)))"
proof -
  have "quota_reach (snd (lua_reserve 1 7 1 50 2 100 1600 0 0 empty_store))
      (init_base 1 0 0 empty_store (\<lambda>_. (0, 0)))"
    by (intro quota_reach.reserve quota_reach.start) (simp_all add: empty_store_def)
  then show ?thesis by (simp add: sample_store_def init_base_def empty_store_def)
qed

theorem quota_counters_exact_witness:
  "outstanding rh_secrets 1 sample_store = 1 \<and> outstanding rh_bytes 1 sample_store = 50"
  using quota_counters_exact [OF sample_store_reach, of 1 1 50] by (simp add: sample_store_eq)

text \<open>a reservation is granted exactly when both counters (the stored ones, or the durable
  usage for a user without any) stay within the user's limits; a grant moves exactly the reserved
  amounts, and a refusal is a 409 that names the limit that was hit and moves nothing.\<close>

theorem reserve_decision:
  assumes "reserve P db now rid u n bytes (Some st) = (r, Some st')"
    and "(s, b) = (case qs_usage st u of None \<Rightarrow> durable_usage db u | Some c \<Rightarrow> c)"
    and "(max_s, max_b) = limits_for_user P db u"
  shows "r = (if max_s < s + n
              then Inl (HTTPException 409 (QuotaExceeded ''MAX_ACTIVE_SECRETS'' s b max_s max_b) [])
              else if max_b < b + bytes
              then Inl (HTTPException 409 (QuotaExceeded ''MAX_FILE_STORAGE'' s b max_s max_b) [])
              else Inr \<lparr>re_id = rid, re_user = u, re_secrets = n, re_bytes = bytes\<rparr>) \<and>
    qs_usage st' = (qs_usage st)(u \<mapsto> (if ok r then (s + n, b + bytes) else (s, b))) \<and>
    qs_hash st' = (if ok r then (qs_hash st)(rid \<mapsto> \<lparr>rh_secrets = n, rh_bytes = bytes, rh_user = u,
                                                     rh_committed = 0\<rparr>) else qs_hash st)"
  using assms
  by (cases "durable_usage db u"; cases "limits_for_user P db u")
    (auto simp: reserve_def lua_reserve_def usage_or_0_def incr_usage_def Let_def split_beta fun_eq_iff
      split: if_splits option.splits)

theorem reserve_decision_witness:
  "fst (reserve demo_platform empty_db 0 9 1 0 4960 (Some sample_store)) =
     Inl (HTTPException 409 (QuotaExceeded ''MAX_FILE_STORAGE'' 1 50 100 5000) [])"
proof -
  obtain r st' where r: "reserve demo_platform empty_db 0 9 1 0 4960 (Some sample_store) = (r, Some st')"
    by (cases "reserve demo_platform empty_db 0 9 1 0 4960 (Some sample_store)")
      (auto simp: reserve_def split_beta Let_def split: if_splits)
  have "limits_for_user demo_platform empty_db 1 = (100, 5000)"
    by (simp add: limits_for_user_def empty_db_def demo_settings_def)
  with r show ?thesis
    using reserve_decision [OF r, of 1 50 100 5000] by (simp add: sample_store_eq)
qed

text \<open>a reservation is settled at most once: committing it and releasing it both remove it, and
  when it is gone (committed, released, or reaped after its ten minutes) a late commit or release
  succeeds and changes nothing, so an upload that commits after the reaper ran is not counted until
  the next reconciliation.\<close>

theorem settled_once:
  "qs_hash (snd (lua_commit (re_id r) st)) (re_id r) = None \<and>
   qs_hash (snd (lua_release (re_user r) (re_id r) st)) (re_id r) = None \<and>
   (qs_hash st (re_id r) = None \<longrightarrow>
      commit r (Some st) = (Inr (), Some st) \<and> release r (Some st) = Some st)"
  by (auto simp: commit_def release_def lua_commit_def lua_release_def Let_def split: option.splits)

theorem settled_once_witness:
  "commit \<lparr>re_id = 7, re_user = 1, re_secrets = 1, re_bytes = 50\<rparr>
     (Some (snd (lua_release 1 7 sample_store))) = (Inr (), Some (snd (lua_release 1 7 sample_store)))"
  using settled_once [of "\<lparr>re_id = 7, re_user = 1, re_secrets = 1, re_bytes = 50\<rparr>" sample_store]
    settled_once [of "\<lparr>re_id = 7, re_user = 1, re_secrets = 1, re_bytes = 50\<rparr>"
      "snd (lua_release 1 7 sample_store)"] by simp

text \<open>the reaper removes exactly the reservations whose expiry time has come, reports how many,
  and gives back exactly what they held: afterwards every counter is again what has settled plus
  what the reservations that are left hold.\<close>

theorem reap_correct:
  assumes "quota_reach st base" and "reap_expired_reservations now (Some st) = (r, Some st')"
  shows "r = Inr (int (length (filter (\<lambda>e. 0 \<le> snd e \<and> snd e \<le> now div second) (qs_zset st)))) \<and>
    qs_zset st' = filter (\<lambda>e. \<not> (0 \<le> snd e \<and> snd e \<le> now div second)) (qs_zset st) \<and>
    dom (qs_hash st') = fst ` set (qs_zset st') \<and>
    (\<forall>u s b. qs_usage st' u = Some (s, b) \<longrightarrow>
       s = fst (base u) + outstanding rh_secrets u st' \<and> b = snd (base u) + outstanding rh_bytes u st')"
proof -
  define p where "p = (\<lambda>e :: uuid \<times> int. 0 \<le> snd e \<and> snd e \<le> now div second)"
  have wf: "quota_wf st" using reach_inv [OF assms(1)] by simp
  obtain n where n: "reap_keys (map fst (filter p (qs_zset st))) st = (n, st')" "r = Inr n"
    using assms(2) by (auto simp: reap_expired_reservations_def Let_def p_def split: prod.splits)
  have w: "quota_reach st' base \<and> n = int (length (map fst (filter p (qs_zset st)))) \<and>
      qs_hash st' = qs_hash st |` (- set (map fst (filter p (qs_zset st)))) \<and>
      qs_zset st' = filter (\<lambda>e. fst e \<notin> set (map fst (filter p (qs_zset st)))) (qs_zset st)"
    using expired_keys(1,2) [OF wf, of p] by (intro reap_keys_wf [OF assms(1) _ _ n(1)]) auto
  have inv: "quota_wf st'" "accounted st' base" using reach_inv w by blast+
  have z: "qs_zset st' = filter (\<lambda>e. \<not> p e) (qs_zset st)"
    using w expired_keys(3) [OF wf, of p] by simp
  have "\<forall>u s b. qs_usage st' u = Some (s, b) \<longrightarrow>
       s = fst (base u) + outstanding rh_secrets u st' \<and> b = snd (base u) + outstanding rh_bytes u st'"
    using accountedD(2) [OF inv(2)] by fastforce
  moreover have "dom (qs_hash st') = fst ` set (qs_zset st')" using inv(1) by (simp add: quota_wf_def)
  ultimately show ?thesis using z w n(2) by (simp add: p_def)
qed

theorem reap_correct_witness:
  "fst (reap_expired_reservations (1600 * second) (Some sample_store)) = Inr 1"
proof -
  obtain r st' where r: "reap_expired_reservations (1600 * second) (Some sample_store) = (r, Some st')"
    by (cases "reap_expired_reservations (1600 * second) (Some sample_store)")
      (auto simp: reap_expired_reservations_def split_beta Let_def)
  show ?thesis using reap_correct [OF sample_store_reach r] r by (simp add: sample_store_eq)
qed

subsection \<open>The keys in Redis\<close>

text \<open>
  The usage hash of a user and the hash of a reservation are named by texts.  The model names them by
  identifier: the texts are different for different identifiers and kinds, and the reaper, which has the text
  only, finds the identifier in it.
\<close>

definition usage_key :: "uuid \<Rightarrow> string" where
  "usage_key u = ''phantom:quota:'' @ uuid_str u @ '':usage''"

definition reservation_key :: "uuid \<Rightarrow> string" where
  "reservation_key rid = ''phantom:quota:reservation:'' @ uuid_str rid"

definition RESERVATIONS :: string where
  "RESERVATIONS = ''phantom:quota:reservations''"

lemma uuid_str_no_colon: "CHR '':'' \<notin> set (uuid_str u)"
proof -
  have "c \<in> set (uuid_str u) \<Longrightarrow> c \<in> set (hex_fixed 32 (unat u)) \<or> c = CHR ''-''" for c
    by (auto simp: uuid_str_def Let_def dest: in_set_takeD in_set_dropD)
  then show ?thesis using hex_fixed_neq by blast
qed

lemma length_uuid_str [simp]: "length (uuid_str u) = 36"
  by (simp add: uuid_str_def Let_def)

lemma quota_keys:
  "usage_key u = usage_key v \<longleftrightarrow> u = v" "reservation_key r = reservation_key r' \<longleftrightarrow> r = r'"
  "usage_key u \<noteq> reservation_key r" "usage_key u \<noteq> RESERVATIONS" "reservation_key r \<noteq> RESERVATIONS"
proof -
  have "length (usage_key u) = 56" "length (reservation_key r) = 62" "length RESERVATIONS = 26"
    by (simp_all add: usage_key_def reservation_key_def RESERVATIONS_def)
  then have "length (usage_key u) \<noteq> length (reservation_key r)" "length (usage_key u) \<noteq> length RESERVATIONS"
    "length (reservation_key r) \<noteq> length RESERVATIONS" by simp_all
  then show "usage_key u \<noteq> reservation_key r" "usage_key u \<noteq> RESERVATIONS" "reservation_key r \<noteq> RESERVATIONS"
    by auto
qed (simp_all add: usage_key_def reservation_key_def)

lemma reaped_identifier: "parse_uuid (last (rsplit CHR '':'' 1 (reservation_key rid))) = Some rid"
proof -
  have "reservation_key rid = ''phantom:quota:reservation'' @ CHR '':'' # uuid_str rid" by (simp add: reservation_key_def)
  then have "rbreak CHR '':'' (reservation_key rid) = Some (''phantom:quota:reservation'', uuid_str rid)"
    using rbreak_last [OF uuid_str_no_colon] by metis
  then show ?thesis by (simp add: parse_uuid_str)
qed

end
