(* ===== verification/Key_Service.thy ===== *)
theory Key_Service
  imports Platform
begin

text \<open>
  app/services/key_service.py: the wrapped data keys of a secret, numbered from 1.  A new key gets
  the next number; reading without a number takes the latest.  \<open>rotate_key\<close> re-encrypts the current
  content under a new key.  The locale \<open>key_store\<close> is what the version and retrieval code relies
  on; it is interpreted on these functions.
\<close>

text \<open>The random values one handler call draws.\<close>

record randomness =
  rd_uuid :: uuid
  rd_dek :: bytes
  rd_dek_nonce :: bytes
  rd_nonce :: bytes

definition rand_ok :: "randomness \<Rightarrow> bool" where
  "rand_ok rd \<longleftrightarrow> length (rd_dek rd) = 32 \<and> length (rd_dek_nonce rd) = 12 \<and> length (rd_nonce rd) = 12"

definition keys_of :: "database \<Rightarrow> uuid \<Rightarrow> key_row list" where
  "keys_of db sid = sql_select (\<lambda>k. k_secret k = sid) (secret_keys db)"

definition max_key_version :: "database \<Rightarrow> uuid \<Rightarrow> int" where
  "max_key_version db sid = coalesce_max (map k_version (keys_of db sid))"

definition add_key :: "uuid \<Rightarrow> string \<Rightarrow> string \<Rightarrow> int \<Rightarrow> micros option \<Rightarrow> database \<Rightarrow> database" where
  "add_key sid wrapped nonce version rotated db =
     db\<lparr>secret_keys := sql_insert \<lparr>k_secret = sid, k_wrapped = wrapped, k_nonce = nonce,
          k_version = version, k_rotated = rotated\<rparr> (secret_keys db)\<rparr>"

definition create_key_for_secret ::
  "crypto \<Rightarrow> randomness \<Rightarrow> uuid \<Rightarrow> database \<Rightarrow> (bytes \<times> string \<times> string) \<times> database" where
  "create_key_for_secret C rd sid db =
     (let (wrapped, nonce) = wrap_dek C (rd_dek_nonce rd) (rd_dek rd) in
      ((rd_dek rd, wrapped, nonce), add_key sid wrapped nonce 1 None db))"

definition create_version_key ::
  "crypto \<Rightarrow> micros \<Rightarrow> randomness \<Rightarrow> uuid \<Rightarrow> database \<Rightarrow> (bytes \<times> int) \<times> database" where
  "create_version_key C clock rd sid db =
     (let (wrapped, nonce) = wrap_dek C (rd_dek_nonce rd) (rd_dek rd);
          version = max_key_version db sid + 1 in
      ((rd_dek rd, version), add_key sid wrapped nonce version (Some clock) db))"

definition get_dek_for_secret :: "crypto \<Rightarrow> database \<Rightarrow> uuid \<Rightarrow> int option \<Rightarrow> bytes res" where
  "get_dek_for_secret C db sid key_version =
     (let row = (case key_version of
                   None \<Rightarrow> fetchone (order_desc k_version (keys_of db sid))
                 | Some v \<Rightarrow> fetchone (sql_select (\<lambda>k. k_version k = v) (keys_of db sid)))
      in case row of
           None \<Rightarrow> Inl (ValueError (''No encryption key found for secret '' @ uuid_str sid))
         | Some k \<Rightarrow> unwrap_dek C (k_wrapped k) (k_nonce k))"

definition set_content :: "uuid \<Rightarrow> string \<Rightarrow> string \<Rightarrow> database \<Rightarrow> database" where
  "set_content sid ct nonce db =
     db\<lparr>secrets := sql_update (\<lambda>s. s_id s = sid)
          (\<lambda>s. s\<lparr>s_content := Some ct, s_nonce := Some nonce\<rparr>) (secrets db)\<rparr>"

definition set_current_version_row :: "uuid \<Rightarrow> string \<Rightarrow> string \<Rightarrow> int \<Rightarrow> database \<Rightarrow> database" where
  "set_current_version_row sid ct nonce key_version db =
     db\<lparr>secret_versions := sql_update
          (\<lambda>v. v_secret v = sid \<and> Some (v_version v) = map_option s_version (secret_of db sid))
          (\<lambda>v. v\<lparr>v_content := Some ct, v_nonce := Some nonce, v_key := Some key_version\<rparr>)
          (secret_versions db)\<rparr>"

text \<open>
  The body of the transaction: an error rolls everything back.  A file secret has no content:
  \<open>base64.b64decode(None)\<close> raises TypeError.
\<close>

definition rotate_key :: "crypto \<Rightarrow> micros \<Rightarrow> randomness \<Rightarrow> uuid \<Rightarrow> database \<Rightarrow> int res \<times> database" where
  "rotate_key C clock rd sid db =
     (case secret_of db sid of
        None \<Rightarrow> (Inl (ValueError (''Secret '' @ uuid_str sid @ '' not found'')), db)
      | Some s \<Rightarrow>
     (case get_dek_for_secret C db sid None of
        Inl e \<Rightarrow> (Inl e, db)
      | Inr old_dek \<Rightarrow>
     (case (s_content s, s_nonce s) of
        (Some old_ciphertext, Some old_nonce) \<Rightarrow>
          (case decrypt_content C old_ciphertext old_nonce old_dek of
             Inl e \<Rightarrow> (Inl e, db)
           | Inr plaintext \<Rightarrow>
               (let ((new_dek, new_version), db1) = create_version_key C clock rd sid db in
                case encrypt_content C (rd_nonce rd) plaintext new_dek of
                  Inl e \<Rightarrow> (Inl e, db)
                | Inr (ct, nonce) \<Rightarrow>
                    (Inr new_version,
                     set_current_version_row sid ct nonce new_version (set_content sid ct nonce db1))))
      | _ \<Rightarrow> (Inl TypeError, db))))"

subsection \<open>How a new key changes what can be read\<close>

lemma keys_of_add_key:
  "keys_of (add_key sid w n v r db) sid' =
     keys_of db sid' @ (if sid = sid' then
       [\<lparr>k_secret = sid, k_wrapped = w, k_nonce = n, k_version = v, k_rotated = r\<rparr>] else [])"
  by (simp add: keys_of_def add_key_def sql_select_insert)

lemma key_le_max: "k \<in> set (keys_of db sid) \<Longrightarrow> k_version k \<le> max_key_version db sid"
  unfolding max_key_version_def by (rule coalesce_max_ge) simp

lemma select_version_none:
  "max_key_version db sid < v \<Longrightarrow> sql_select (\<lambda>k. k_version k = v) (keys_of db sid) = []"
  using key_le_max by (fastforce simp: sql_select_def filter_empty_conv)

lemma unwrap_wrap:
  assumes "aead_ok C" "length (kek C) = 32" "length n = 12"
  shows "unwrap_dek C (fst (wrap_dek C n dek)) (snd (wrap_dek C n dek)) = Inr dek"
  using assms by (rule wrap_unwrap)

text \<open>
  The interface of the key service: \<open>latest\<close> and \<open>at\<close> read a key, \<open>next_key\<close> makes one.
  A client that re-encrypts under the new key can read it as the latest and by its number, and
  every key that could be read before can still be read.
\<close>

locale key_store =
  fixes latest :: "'st \<Rightarrow> 'i \<Rightarrow> bytes res"
    and at :: "'st \<Rightarrow> 'i \<Rightarrow> int \<Rightarrow> bytes res"
    and next_key :: "'r \<Rightarrow> 'i \<Rightarrow> 'st \<Rightarrow> (bytes \<times> int) \<times> 'st"
    and good :: "'r \<Rightarrow> bool"
  assumes latest_next: "good r \<Longrightarrow> next_key r i st = ((dek, v), st') \<Longrightarrow> latest st' i = Inr dek"
    and at_next: "good r \<Longrightarrow> next_key r i st = ((dek, v), st') \<Longrightarrow> at st' i v = Inr dek"
    and at_kept: "next_key r i st = ((dek, v), st') \<Longrightarrow> at st j w = Inr k \<Longrightarrow> at st' j w = Inr k"
    and next_fresh: "next_key r i st = ((dek, v), st') \<Longrightarrow> at st i v = Inr k \<Longrightarrow> False"
begin

definition reissue :: "'r list \<Rightarrow> 'i \<Rightarrow> 'st \<Rightarrow> 'st" where
  "reissue rs i st = fold (\<lambda>r st. snd (next_key r i st)) rs st"

text \<open>Any number of new keys keeps every old one readable under its number.\<close>

lemma at_reissue: "at st j w = Inr k \<Longrightarrow> at (reissue rs i st) j w = Inr k"
proof (induction rs arbitrary: st)
  case (Cons r rs)
  obtain dek v st' where n: "next_key r i st = ((dek, v), st')" by (metis surj_pair)
  from Cons.IH [OF at_kept [OF n Cons.prems]] n show ?case by (simp add: reissue_def)
qed (simp add: reissue_def)

text \<open>The key after the last reissue is the one of its random value, and its number was unused.\<close>

lemma latest_reissue:
  assumes "good r" and "next_key r i (reissue rs i st) = ((dek, v), st')"
  shows "latest (reissue (rs @ [r]) i st) i = Inr dek \<and> at (reissue (rs @ [r]) i st) i v = Inr dek \<and>
    \<not> ok (at (reissue rs i st) i v)"
  using assms latest_next at_next next_fresh
  by (fastforce simp: reissue_def ok_iff)

end

lemma create_version_key_eq:
  "create_version_key C clock rd sid db =
     ((rd_dek rd, max_key_version db sid + 1),
      add_key sid (fst (wrap_dek C (rd_dek_nonce rd) (rd_dek rd)))
        (snd (wrap_dek C (rd_dek_nonce rd) (rd_dek rd))) (max_key_version db sid + 1) (Some clock) db)"
  by (simp add: create_version_key_def split_beta Let_def)

lemma get_dek_new_key:
  assumes "aead_ok C" "length (kek C) = 32" "rand_ok rd"
    and c: "create_version_key C clock rd sid db = ((dek, v), db')"
  shows "get_dek_for_secret C db' sid None = Inr dek" and "get_dek_for_secret C db' sid (Some v) = Inr dek"
proof -
  have u: "unwrap_dek C (fst (wrap_dek C (rd_dek_nonce rd) (rd_dek rd)))
      (snd (wrap_dek C (rd_dek_nonce rd) (rd_dek rd))) = Inr dek"
    using assms wrap_unwrap [of C "rd_dek_nonce rd" "rd_dek rd"]
    by (auto simp: create_version_key_eq rand_ok_def)
  let ?row = "\<lparr>k_secret = sid, k_wrapped = fst (wrap_dek C (rd_dek_nonce rd) (rd_dek rd)),
    k_nonce = snd (wrap_dek C (rd_dek_nonce rd) (rd_dek rd)), k_version = max_key_version db sid + 1,
    k_rotated = Some clock\<rparr>"
  have keys: "keys_of db' sid = keys_of db sid @ [?row]" and v: "v = max_key_version db sid + 1"
    using c by (auto simp: create_version_key_eq keys_of_add_key)
  have "k_version k < max_key_version db sid + 1" if "k \<in> set (keys_of db sid)" for k
    using key_le_max [OF that] by simp
  then have "order_desc k_version (keys_of db sid @ [?row]) = ?row # order_desc k_version (keys_of db sid)"
    by (intro order_desc_insert_max) simp
  then show "get_dek_for_secret C db' sid None = Inr dek"
    using u by (simp add: get_dek_for_secret_def keys)
  have "sql_select (\<lambda>k. k_version k = v) (keys_of db sid) = []"
    using v by (intro select_version_none) simp
  then show "get_dek_for_secret C db' sid (Some v) = Inr dek"
    using u v by (simp add: get_dek_for_secret_def keys sql_select_def)
qed

lemma get_dek_kept:
  assumes "create_version_key C clock rd sid db = ((dek, v), db')"
    and "get_dek_for_secret C db j (Some w) = Inr k"
  shows "get_dek_for_secret C db' j (Some w) = Inr k"
  using assms
  by (auto simp: create_version_key_eq get_dek_for_secret_def keys_of_add_key sql_select_def fetchone_def
      split: list.splits option.splits)

lemma get_dek_fresh:
  "create_version_key C clock rd sid db = ((dek, v), db') \<Longrightarrow> get_dek_for_secret C db sid (Some v) \<noteq> Inr k"
  by (auto simp: create_version_key_eq get_dek_for_secret_def select_version_none)

interpretation ks: key_store
  "\<lambda>db sid. get_dek_for_secret C db sid None" "\<lambda>db sid v. get_dek_for_secret C db sid (Some v)"
  "create_version_key C clock" "\<lambda>rd. aead_ok C \<and> length (kek C) = 32 \<and> rand_ok rd" for C clock
  by unfold_locales (auto dest: get_dek_new_key get_dek_kept get_dek_fresh)

end
