(* ===== verification/Audit_Log.thy ===== *)
theory Audit_Log
  imports Platform
begin

text \<open>
  app/services/audit_service.py.  \<open>log\<close> swallows every exception of its INSERT.  On its own
  connection a failed INSERT leaves the database as it was.  On the caller's connection it leaves
  the caller's transaction aborted: later statements of it raise, and its COMMIT rolls back.
\<close>

definition audit_log :: "platform \<Rightarrow> request \<Rightarrow> audit_entry \<Rightarrow> database \<Rightarrow> database" where
  "audit_log P rq e db =
     (case insert_audit (inet_ok P) (rq_clock rq) e db of None \<Rightarrow> db | Some db' \<Rightarrow> db')"

text \<open>A transaction: its working state, and whether a statement of it has failed.\<close>

datatype txn = Txn (txn_db: database) (txn_aborted: bool)

definition audit_log_conn :: "platform \<Rightarrow> request \<Rightarrow> audit_entry \<Rightarrow> database \<Rightarrow> txn" where
  "audit_log_conn P rq e db =
     (case insert_audit (inet_ok P) (rq_clock rq) e db of
        None \<Rightarrow> Txn db True
      | Some db' \<Rightarrow> Txn db' False)"

text \<open>COMMIT: an aborted transaction is rolled back to the state it started from.\<close>

definition commit_txn :: "database \<Rightarrow> txn \<Rightarrow> database" where
  "commit_txn db0 t = (if txn_aborted t then db0 else txn_db t)"

text \<open>A statement in a transaction.\<close>

definition exec_txn :: "(database \<Rightarrow> database) \<Rightarrow> txn \<Rightarrow> database res" where
  "exec_txn f t = (if txn_aborted t then Inl InFailedSqlTransaction else Inr (f (txn_db t)))"

subsection \<open>When the INSERT succeeds\<close>

definition audit_accepts :: "platform \<Rightarrow> audit_entry \<Rightarrow> database \<Rightarrow> bool" where
  "audit_accepts P e db \<longleftrightarrow> ae_action e \<in> set audit_actions \<and>
     (\<forall>i. ae_ip e = Some i \<longrightarrow> inet_ok P i) \<and>
     (\<forall>u. ae_actor e = Some u \<longrightarrow> user_of db u \<noteq> None) \<and>
     (\<forall>s. ae_secret e = Some s \<longrightarrow> secret_of db s \<noteq> None)"

definition audit_row_of :: "request \<Rightarrow> audit_entry \<Rightarrow> audit_row" where
  "audit_row_of rq e =
     \<lparr>a_action = ae_action e, a_actor = ae_actor e, a_ip = ae_ip e, a_severity = Info,
      a_secret = ae_secret e, a_meta_severity = Some (ae_severity e), a_created = rq_clock rq\<rparr>"

lemma insert_audit_eq:
  "insert_audit (inet_ok P) (rq_clock rq) e db =
     (if audit_accepts P e db
      then Some (db\<lparr>audit_logs := sql_insert (audit_row_of rq e) (audit_logs db)\<rparr>) else None)"
  by (auto simp: insert_audit_def audit_accepts_def audit_row_of_def split: option.splits)

lemma audit_log_eq:
  "audit_log P rq e db =
     (if audit_accepts P e db then db\<lparr>audit_logs := sql_insert (audit_row_of rq e) (audit_logs db)\<rparr> else db)"
  by (simp add: audit_log_def insert_audit_eq)

lemma audit_log_conn_eq:
  "audit_log_conn P rq e db =
     (if audit_accepts P e db
      then Txn (db\<lparr>audit_logs := sql_insert (audit_row_of rq e) (audit_logs db)\<rparr>) False
      else Txn db True)"
  by (simp add: audit_log_conn_def insert_audit_eq)

text \<open>Everything but the audit table is left alone.\<close>

lemma audit_log_frame [simp]:
  "secrets (audit_log P rq e db) = secrets db"
  "users (audit_log P rq e db) = users db"
  "secret_keys (audit_log P rq e db) = secret_keys db"
  "secret_versions (audit_log P rq e db) = secret_versions db"
  "access_policies (audit_log P rq e db) = access_policies db"
  "secret_recipients (audit_log P rq e db) = secret_recipients db"
  "secret_tracking (audit_log P rq e db) = secret_tracking db"
  "secret_views (audit_log P rq e db) = secret_views db"
  "sessions (audit_log P rq e db) = sessions db"
  "deletion_outbox (audit_log P rq e db) = deletion_outbox db"
  "pending_uploads (audit_log P rq e db) = pending_uploads db"
  by (simp_all add: audit_log_eq)

lemma row_lookup_audit [simp]:
  "secret_of (db\<lparr>audit_logs := l\<rparr>) sid = secret_of db sid"
  "policy_of (db\<lparr>audit_logs := l\<rparr>) sid = policy_of db sid"
  "user_of (db\<lparr>audit_logs := l\<rparr>) uid = user_of db uid"
  "version_of (db\<lparr>audit_logs := l\<rparr>) sid v = version_of db sid v"
  "key_of (db\<lparr>audit_logs := l\<rparr>) sid v = key_of db sid v"
  by (simp_all add: row_lookup_defs)

lemma row_lookup_audit_log [simp]:
  "secret_of (audit_log P rq e db) sid = secret_of db sid"
  "policy_of (audit_log P rq e db) sid = policy_of db sid"
  "user_of (audit_log P rq e db) uid = user_of db uid"
  "version_of (audit_log P rq e db) sid v = version_of db sid v"
  "key_of (audit_log P rq e db) sid v = key_of db sid v"
  by (simp_all add: audit_log_eq)

text \<open>
  Every entry's severity column is the default: the severity a caller passes is only in the
  metadata, and no code path writes the column.
\<close>

definition severity_default :: "database \<Rightarrow> bool" where
  "severity_default db \<longleftrightarrow> (\<forall>a \<in> set (audit_logs db). a_severity a = Info)"

lemma severity_default_log: "severity_default db \<Longrightarrow> severity_default (audit_log P rq e db)"
  by (auto simp: severity_default_def audit_log_eq audit_row_of_def rows)

lemma severity_default_log_conn:
  "severity_default db \<Longrightarrow> severity_default (txn_db (audit_log_conn P rq e db))"
  by (auto simp: severity_default_def audit_log_conn_eq audit_row_of_def rows)

lemma severity_default_delete: "severity_default db \<Longrightarrow> severity_default (delete_secrets clock p db)"
  by (auto simp: severity_default_def delete_secrets_def Let_def set_sql_update)

lemma severity_default_burn: "severity_default db \<Longrightarrow> severity_default (update_view_count clock sid n v db)"
  by (auto simp: update_view_count_def Let_def split: option.split intro!: severity_default_delete)
    (auto simp: severity_default_def rows)

end
