(* ===== verification/Schemas.thy ===== *)
theory Schemas
  imports Platform
begin

text \<open>
  The request bodies of app/schemas.py, app/schemas_access.py and app/schemas_versioning.py: their
  field bounds and validators.  The format of e-mail addresses, URLs and networks is pydantic's and
  not modelled.  Strings are UTF-8; \<open>lower()\<close> is modelled for ASCII, and \<open>upper()\<close> for ASCII and for
  the ten characters whose upper case is ASCII.
\<close>

definition lower_char :: "char \<Rightarrow> char" where
  "lower_char c = (let k = of_char c :: nat in if 65 \<le> k \<and> k \<le> 90 then char_of (k + 32) else c)"

definition str_lower :: "string \<Rightarrow> string" where
  "str_lower s = map lower_char s"

text \<open>\<open>str.upper()\<close>: sharp s, dotless i, long s and the Latin ligatures become ASCII letters.\<close>

definition special_upper :: "(nat list \<times> string) list" where
  "special_upper =
     [([195, 159], ''SS''), ([196, 177], ''I''), ([197, 191], ''S''),
      ([239, 172, 128], ''FF''), ([239, 172, 129], ''FI''), ([239, 172, 130], ''FL''),
      ([239, 172, 131], ''FFI''), ([239, 172, 132], ''FFL''), ([239, 172, 133], ''ST''),
      ([239, 172, 134], ''ST'')]"

definition special_at :: "string \<Rightarrow> (nat list \<times> string) option" where
  "special_at s = find (\<lambda>(k, u). take (length k) (map of_char s) = k) special_upper"

fun str_upper_fuel :: "nat \<Rightarrow> string \<Rightarrow> string" where
  "str_upper_fuel 0 s = []"
| "str_upper_fuel (Suc f) [] = []"
| "str_upper_fuel (Suc f) (c # cs) =
     (case special_at (c # cs) of
        Some (k, u) \<Rightarrow> u @ str_upper_fuel f (drop (length k) (c # cs))
      | None \<Rightarrow> upper_char c # str_upper_fuel f cs)"

text \<open>Every step consumes a character, so the length is enough.\<close>

definition str_upper :: "string \<Rightarrow> string" where
  "str_upper s = str_upper_fuel (length s) s"

definition is_upper_letter :: "char \<Rightarrow> bool" where
  "is_upper_letter c = (let k = of_char c :: nat in 65 \<le> k \<and> k \<le> 90)"

definition is_alpha_ascii :: "char \<Rightarrow> bool" where
  "is_alpha_ascii c = (let k = of_char c :: nat in (65 \<le> k \<and> k \<le> 90) \<or> (97 \<le> k \<and> k \<le> 122))"

text \<open>\<open>len(value) != 2 or not value.isalpha() or not value.isascii()\<close>\<close>

definition bad_country :: "string \<Rightarrow> bool" where
  "bad_country v \<longleftrightarrow> py_len v \<noteq> 2 \<or> \<not> list_all is_alpha_ascii v"

definition country_codes :: "string list \<Rightarrow> string list res" where
  "country_codes values =
     (let normalized = dedup (map str_upper values) in
      if list_ex bad_country normalized
      then Inl (ValueError ''Countries must be ISO 3166-1 alpha-2 codes'') else Inr normalized)"

record secret_create =
  sc_content :: string
  sc_ttl :: int
  sc_password_protected :: bool
  sc_access_password :: "string option"
  sc_max_views :: int
  sc_allowed_emails :: "string list option"
  sc_notify :: bool
  sc_notify_email :: "string option"
  sc_webhook :: "string option"
  sc_client_encrypted :: bool
  sc_client_nonce :: "string option"
  sc_cidrs :: "string list"
  sc_countries :: "string list"
  sc_mode :: string
  sc_fail_closed :: bool

text \<open>The truth value of an optional string.\<close>

definition truthy :: "string option \<Rightarrow> bool" where
  "truthy x = (case x of None \<Rightarrow> False | Some s \<Rightarrow> s \<noteq> [])"

lemma truthy_simps [simp]: "\<not> truthy None" "truthy (Some s) \<longleftrightarrow> s \<noteq> []"
  by (simp_all add: truthy_def)

definition len_within :: "nat \<Rightarrow> nat \<Rightarrow> string \<Rightarrow> bool" where
  "len_within lo hi s \<longleftrightarrow> lo \<le> py_len s \<and> py_len s \<le> hi"

definition create_fields_ok :: "secret_create \<Rightarrow> bool" where
  "create_fields_ok b \<longleftrightarrow>
     len_within 1 10000 (sc_content b) \<and> 1 \<le> sc_ttl b \<and> sc_ttl b \<le> 168 \<and>
     (case sc_access_password b of None \<Rightarrow> True | Some p \<Rightarrow> len_within 4 128 p) \<and>
     1 \<le> sc_max_views b \<and> sc_max_views b \<le> 100 \<and>
     (case sc_allowed_emails b of None \<Rightarrow> True | Some es \<Rightarrow> 1 \<le> length es \<and> length es \<le> 100) \<and>
     (case sc_webhook b of None \<Rightarrow> True | Some u \<Rightarrow> py_len u \<le> 512) \<and>
     length (sc_cidrs b) \<le> 100 \<and> length (sc_countries b) \<le> 100 \<and>
     (sc_mode b = ''all'' \<or> sc_mode b = ''any'')"

definition check_consistency :: "secret_create \<Rightarrow> secret_create res" where
  "check_consistency b0 =
     (let b = b0\<lparr>sc_allowed_emails := map_option (\<lambda>es. dedup (map str_lower es)) (sc_allowed_emails b0)\<rparr> in
      if sc_notify b \<and> \<not> truthy (sc_notify_email b)
      then Inl (ValueError ''notify_email is required when notify_on_view is True'')
      else if sc_password_protected b \<and> \<not> truthy (sc_access_password b)
      then Inl (ValueError ''access_password is required when password_protected is True'')
      else if \<not> sc_password_protected b \<and> truthy (sc_access_password b)
      then Inl (ValueError ''Set password_protected=True when supplying an access_password'')
      else if sc_client_encrypted b \<and> \<not> truthy (sc_client_nonce b)
      then Inl (ValueError ''client_nonce is required when client_encrypted is True'')
      else Inr b)"

text \<open>A body as the endpoint receives it: field bounds, the country validator, the model validator.\<close>

definition validate_create :: "secret_create \<Rightarrow> secret_create res" where
  "validate_create b =
     (if \<not> create_fields_ok b then Inl (ValueError ''field bounds'')
      else bind_res (country_codes (sc_countries b)) (\<lambda>cs. check_consistency (b\<lparr>sc_countries := cs\<rparr>)))"

record secret_update =
  su_content :: string
  su_expected :: int
  su_note :: "string option"

definition update_fields_ok :: "secret_update \<Rightarrow> bool" where
  "update_fields_ok b \<longleftrightarrow> len_within 1 10000 (su_content b) \<and> 1 \<le> su_expected b \<and>
     (case su_note b of None \<Rightarrow> True | Some n \<Rightarrow> py_len n \<le> 500)"

record policy_update =
  lp_cidrs :: "string list"
  lp_countries :: "string list"
  lp_mode :: string
  lp_fail_closed :: bool

definition validate_policy :: "policy_update \<Rightarrow> policy_update res" where
  "validate_policy b =
     (if length (lp_cidrs b) \<le> 100 \<and> length (lp_countries b) \<le> 100 \<and> (lp_mode b = ''all'' \<or> lp_mode b = ''any'')
      then bind_res (country_codes (lp_countries b)) (\<lambda>cs. Inr (b\<lparr>lp_countries := cs\<rparr>))
      else Inl (ValueError ''field bounds''))"

definition username_char :: "char \<Rightarrow> bool" where
  "username_char c \<longleftrightarrow> is_alpha_ascii c \<or> (let k = of_char c :: nat in 48 \<le> k \<and> k \<le> 57) \<or> c = CHR ''_'' \<or> c = CHR ''-''"

text \<open>The characters of a verification code: 64 lower-case hexadecimal digits.\<close>

definition code_ok :: "string \<Rightarrow> bool" where
  "code_ok c \<longleftrightarrow> length c = 64 \<and>
     list_all (\<lambda>x. let k = of_char x :: nat in (48 \<le> k \<and> k \<le> 57) \<or> (97 \<le> k \<and> k \<le> 102)) c"

subsection \<open>What validation guarantees\<close>

lemma validate_createD:
  assumes "validate_create b = Inr b'"
  shows "create_fields_ok b" "country_codes (sc_countries b) = Inr (sc_countries b')"
    "sc_content b' = sc_content b" "sc_ttl b' = sc_ttl b" "sc_max_views b' = sc_max_views b"
    "sc_password_protected b' \<longleftrightarrow> truthy (sc_access_password b')"
    "sc_client_encrypted b' \<longrightarrow> truthy (sc_client_nonce b')"
    "sc_notify b' \<longrightarrow> truthy (sc_notify_email b')"
    "sc_allowed_emails b' = map_option (\<lambda>es. dedup (map str_lower es)) (sc_allowed_emails b)"
  using assms
  by (auto simp: validate_create_def check_consistency_def bind_res_eq_Inr Let_def split: if_splits)

end
