(* ===== verification/Signed_Token.thy ===== *)
theory Signed_Token
  imports Crypto
begin

text \<open>
  The signed share links of app/core/security.py (\<open>create_signed_token\<close>,
  \<open>verify_signed_token\<close>): \<open>id.timestamp.policy_version.signature\<close>, and the older form without
  a policy version, which counts as version 1.  Times are microseconds; the timestamp in a token
  is in seconds.
\<close>

text \<open>\<open>int(x)\<close> of a float number of seconds truncates towards zero.\<close>

definition trunc_seconds :: "micros \<Rightarrow> int" where
  "trunc_seconds t = (if t < 0 then - ((- t) div second) else t div second)"

definition sign_payload :: "crypto \<Rightarrow> string \<Rightarrow> string \<Rightarrow> string" where
  "sign_payload C key payload = hexdigest (hmac_sha256 C key payload)"

definition token_payload :: "string \<Rightarrow> string \<Rightarrow> int \<Rightarrow> string" where
  "token_payload secret_id ts policy_version =
     secret_id @ ''.'' @ ts @ ''.'' @ py_str_int policy_version"

definition create_signed_token ::
  "crypto \<Rightarrow> string \<Rightarrow> micros \<Rightarrow> uuid \<Rightarrow> int \<Rightarrow> int \<Rightarrow> micros option \<Rightarrow> string" where
  "create_signed_token C key now secret_id expires_in_hours policy_version expires_at =
     (let ts = (case expires_at of
                  Some t \<Rightarrow> trunc_seconds t
                | None \<Rightarrow> trunc_seconds now + expires_in_hours * 3600);
          payload = token_payload (uuid_str secret_id) (py_str_int ts) policy_version
      in payload @ ''.'' @ sign_payload C key payload)"

text \<open>The fields of a token: id, timestamp, policy version, signature and the signed payload.\<close>

definition split_token :: "string \<Rightarrow> (string \<times> string \<times> int \<times> string \<times> string) option" where
  "split_token token =
     (case rsplit (CHR ''.'') 3 token of
        [secret_id, ts_str, policy_str, sig] \<Rightarrow>
          map_option (\<lambda>pv. (secret_id, ts_str, pv, sig, token_payload secret_id ts_str pv))
            (py_int 10 policy_str)
      | [secret_id, ts_str, sig] \<Rightarrow> Some (secret_id, ts_str, 1, sig, secret_id @ ''.'' @ ts_str)
      | _ \<Rightarrow> None)"

text \<open>\<open>hmac.compare_digest\<close> of two strings raises TypeError unless both are ASCII.\<close>

definition is_ascii :: "string \<Rightarrow> bool" where
  "is_ascii s = list_all (\<lambda>c. (of_char c :: nat) < 128) s"

definition verify_signed_token :: "crypto \<Rightarrow> string \<Rightarrow> micros \<Rightarrow> string \<Rightarrow> int option \<Rightarrow> string res" where
  "verify_signed_token C key now token expected_policy_version =
     (case split_token token of
        None \<Rightarrow> Inl (http 403 ''Invalid share token'')
      | Some (secret_id, ts_str, policy_version, sig, payload) \<Rightarrow>
          (case py_int 10 ts_str of
             None \<Rightarrow> Inl (http 403 ''Invalid share token'')
           | Some ts \<Rightarrow>
               if ts * second < now then Inl (http 403 ''Share token has expired'')
               else if \<not> is_ascii sig then Inl TypeError
               else if sig \<noteq> sign_payload C key payload
               then Inl (http 403 ''Invalid share token signature'')
               else if expected_policy_version \<noteq> None \<and> Some policy_version \<noteq> expected_policy_version
               then Inl (http 403 ''Share token policy is no longer current'')
               else Inr secret_id))"

subsection \<open>Splitting a token that was created\<close>

lemma rsplit4:
  assumes "CHR ''.'' \<notin> set b" "CHR ''.'' \<notin> set c" "CHR ''.'' \<notin> set d" "CHR ''.'' \<notin> set a"
  shows "rsplit (CHR ''.'') 3 (a @ ''.'' @ b @ ''.'' @ c @ ''.'' @ d) = [a, b, c, d]"
proof -
  have "rbreak (CHR ''.'') (a @ ''.'' @ b @ ''.'' @ c @ ''.'' @ d) = Some (a @ ''.'' @ b @ ''.'' @ c, d)"
    using rbreak_last [OF assms(3), of "a @ ''.'' @ b @ ''.'' @ c"] by simp
  moreover have "rbreak (CHR ''.'') (a @ ''.'' @ b @ ''.'' @ c) = Some (a @ ''.'' @ b, c)"
    using rbreak_last [OF assms(2), of "a @ ''.'' @ b"] by simp
  moreover have "rbreak (CHR ''.'') (a @ ''.'' @ b) = Some (a, b)"
    using rbreak_last [OF assms(1), of a] by simp
  ultimately show ?thesis by (simp add: numeral_3_eq_3)
qed

lemma sign_payload_no_dot: "CHR ''.'' \<notin> set (sign_payload C key p)"
  by (simp add: sign_payload_def hexdigest_no_dot)

lemma split_token_created:
  "split_token (token_payload (uuid_str u) (py_str_int ts) pv @ ''.'' @ sign_payload C key p) =
     Some (uuid_str u, py_str_int ts, pv, sign_payload C key p,
           token_payload (uuid_str u) (py_str_int ts) pv)"
  using rsplit4 [OF py_str_int_no_dot [of ts] py_str_int_no_dot [of pv]
      sign_payload_no_dot [of C key p] uuid_str_no_dot [of u]]
  by (simp add: split_token_def token_payload_def py_int_str)

lemma hex_ascii: "is_ascii (hex_fixed w n)"
proof -
  have "(of_char c :: nat) < 128" if "c \<in> set (hex_fixed w n)" for c
    using set_hex_fixed [OF that] by (auto simp: of_char_digit_char)
  then show ?thesis by (simp add: is_ascii_def list_all_iff)
qed

lemma sign_payload_ascii [simp]: "is_ascii (sign_payload C key p)"
  by (simp add: sign_payload_def hexdigest_def hex_ascii)

text \<open>How verification answers a token this server signed for a time \<open>ts\<close> and a policy version.\<close>

lemma verify_signed:
  "verify_signed_token C key now
     (token_payload (uuid_str u) (py_str_int ts) pv @ ''.'' @
      sign_payload C key (token_payload (uuid_str u) (py_str_int ts) pv)) expected =
   (if ts * second < now then Inl (http 403 ''Share token has expired'')
    else if expected \<noteq> None \<and> expected \<noteq> Some pv
    then Inl (http 403 ''Share token policy is no longer current'')
    else Inr (uuid_str u))"
  unfolding verify_signed_token_def split_token_created by (auto simp: py_int_str)

lemma verify_signed_token_Inr:
  "verify_signed_token C key now token expected = Inr sid \<longleftrightarrow>
     (\<exists>ts_str ts pv sig payload.
        split_token token = Some (sid, ts_str, pv, sig, payload) \<and> py_int 10 ts_str = Some ts \<and>
        now \<le> ts * second \<and> sig = sign_payload C key payload \<and>
        (expected = None \<or> expected = Some pv))"
  by (auto simp: verify_signed_token_def split: option.splits if_splits)

lemma split_token_payload:
  assumes "split_token token = Some (sid, ts_str, pv, sig, payload)"
  shows "payload = token_payload sid ts_str pv \<or> pv = 1 \<and> payload = sid @ ''.'' @ ts_str"
  using assms by (auto simp: split_token_def split: list.splits)

text \<open>a token created for a secret is accepted until its timestamp, exactly for the policy
  version it was made for, and gives back the secret's id; later it is refused as expired, and for
  another policy version as no longer current.\<close>

theorem verify_created_token:
  "verify_signed_token C key now
     (create_signed_token C key now0 u hours pv expires_at) expected =
   (let ts = (case expires_at of Some t \<Rightarrow> trunc_seconds t | None \<Rightarrow> trunc_seconds now0 + hours * 3600) in
    if ts * second < now then Inl (http 403 ''Share token has expired'')
    else if expected \<noteq> None \<and> expected \<noteq> Some pv
    then Inl (http 403 ''Share token policy is no longer current'')
    else Inr (uuid_str u))"
  by (simp add: create_signed_token_def Let_def verify_signed del: append.simps)

text \<open>whatever token is accepted carries the server's HMAC over its own id and timestamp (and
  policy version), has not passed its timestamp, and is for the expected policy version; the older
  three-part form is accepted for version 1 only.\<close>

theorem verify_signed_token_sound:
  assumes "verify_signed_token C key now token (Some v) = Inr sid"
  shows "\<exists>ts_str ts payload. py_int 10 ts_str = Some ts \<and> now \<le> ts * second \<and>
    split_token token = Some (sid, ts_str, v, sign_payload C key payload, payload) \<and>
    (payload = token_payload sid ts_str v \<or> v = 1 \<and> payload = sid @ ''.'' @ ts_str)"
proof -
  from assms obtain ts_str ts payload where "py_int 10 ts_str = Some ts" "now \<le> ts * second"
    and s: "split_token token = Some (sid, ts_str, v, sign_payload C key payload, payload)"
    by (auto simp: verify_signed_token_Inr)
  with split_token_payload [OF s] show ?thesis by blast
qed

theorem verify_signed_token_sound_witness:
  "\<exists>token payload ts_str. verify_signed_token tag_crypto ''key'' 0 token (Some 2) = Inr (uuid_str 5) \<and>
     split_token token = Some (uuid_str 5, ts_str, 2, sign_payload tag_crypto ''key'' payload, payload)"
proof -
  let ?t = "token_payload (uuid_str 5) (py_str_int 10) 2 @ ''.'' @
    sign_payload tag_crypto ''key'' (token_payload (uuid_str 5) (py_str_int 10) 2)"
  have v: "verify_signed_token tag_crypto ''key'' 0 ?t (Some 2) = Inr (uuid_str 5)"
    unfolding verify_signed by simp
  show ?thesis using v verify_signed_token_sound [OF v] by blast
qed

end
