(* ===== verification/World.thy ===== *)
theory World
  imports Quota Key_Service Audit_Log Schemas Signed_Token
begin

text \<open>
  The state the handlers share: the database and Redis.  Redis holds the quota store and plain
  string keys with an expiry time (the expiry sentinels and the locks of
  app/services/cleanup_service.py); a client that was not initialised is None.
\<close>

type_synonym redis_keys = "string \<rightharpoonup> string \<times> micros"

record world =
  wd_db :: database
  wd_quota :: "quota_store option"
  wd_keys :: redis_keys

definition redis_get :: "micros \<Rightarrow> redis_keys \<Rightarrow> string \<Rightarrow> string option" where
  "redis_get now ks key =
     (case ks key of None \<Rightarrow> None | Some (v, until) \<Rightarrow> if now < until then Some v else None)"

definition redis_setex :: "micros \<Rightarrow> string \<Rightarrow> int \<Rightarrow> string \<Rightarrow> redis_keys \<Rightarrow> redis_keys" where
  "redis_setex now key ttl v ks = ks(key \<mapsto> (v, now + ttl * second))"

text \<open>\<open>schedule_expiry\<close> of app/services/cleanup_service.py.\<close>

definition schedule_expiry :: "micros \<Rightarrow> string \<Rightarrow> int \<Rightarrow> world \<Rightarrow> unit res \<times> world" where
  "schedule_expiry now secret_id ttl_seconds w =
     (case wd_quota w of
        None \<Rightarrow> (Inl (RuntimeError ''Redis client is not initialized.''), w)
      | Some _ \<Rightarrow> (Inr (), w\<lparr>wd_keys := redis_setex now (''phantom:expiry:'' @ secret_id) ttl_seconds secret_id
                             (wd_keys w)\<rparr>))"

definition secret_keys_exist :: "database \<Rightarrow> uuid \<Rightarrow> bool" where
  "secret_keys_exist db sid \<longleftrightarrow> keys_of db sid \<noteq> []"

text \<open>INSERT INTO secret_versions: the primary key (secret_id, version) and the references.\<close>

definition insert_version :: "version_row \<Rightarrow> database \<Rightarrow> database res" where
  "insert_version r db =
     (if version_of db (v_secret r) (v_version r) \<noteq> None then Inl UniqueViolation
      else if secret_of db (v_secret r) = None
        \<or> (case v_created_by r of None \<Rightarrow> False | Some u \<Rightarrow> user_of db u = None)
      then Inl ForeignKeyViolation
      else Inr (db\<lparr>secret_versions := sql_insert r (secret_versions db)\<rparr>))"

lemma insert_version_Inr:
  "insert_version r db = Inr db' \<longleftrightarrow>
     version_of db (v_secret r) (v_version r) = None \<and> secret_of db (v_secret r) \<noteq> None \<and>
     (\<forall>u. v_created_by r = Some u \<longrightarrow> user_of db u \<noteq> None) \<and>
     db' = db\<lparr>secret_versions := sql_insert r (secret_versions db)\<rparr>"
  by (auto simp: insert_version_def split: option.splits)

text \<open>The citext type compares without case.\<close>

definition citext_eq :: "string \<Rightarrow> string \<Rightarrow> bool" where
  "citext_eq a b \<longleftrightarrow> str_lower a = str_lower b"

definition is_recipient :: "database \<Rightarrow> uuid \<Rightarrow> string \<Rightarrow> bool" where
  "is_recipient db sid email \<longleftrightarrow>
     sql_select (\<lambda>r. r_secret r = sid \<and> citext_eq (r_email r) email) (secret_recipients db) \<noteq> []"

text \<open>The row a text version inserts.\<close>

definition text_version ::
  "uuid \<Rightarrow> int \<Rightarrow> string \<Rightarrow> string option \<Rightarrow> int option \<Rightarrow> string \<Rightarrow> uuid option \<Rightarrow> string option \<Rightarrow> micros \<Rightarrow> version_row" where
  "text_version sid n ct nonce key_version plaintext actor note clock =
     \<lparr>v_secret = sid, v_version = n, v_payload = Text, v_content = Some ct, v_nonce = nonce,
      v_key = key_version, v_size = int (length plaintext), v_created_by = actor, v_note = note,
      v_created = clock, v_object = None, v_encrypted_size = 0, v_filename = None,
      v_filename_nonce = None, v_media = None, v_digest = None, v_clamav = None\<rparr>"

end
