(* ===== verification/Client_IP.thy ===== *)
theory Client_IP
  imports Platform
begin

unbundle bit_operations_syntax

text \<open>
  Client address resolution of app/core/client_ip.py: \<open>X-Forwarded-For\<close> counts only when the
  direct peer is a trusted proxy, and then the rightmost address that is no trusted proxy is the
  client.  Addresses and networks are words with masks; their text form is the parser and printer
  of \<open>platform\<close>.
\<close>

definition prefix_mask :: "nat \<Rightarrow> nat \<Rightarrow> 'a::len word" where
  "prefix_mask width len = NOT (mask (width - len))"

text \<open>\<open>address in network\<close>\<close>

definition in_net :: "ip \<Rightarrow> ipnet \<Rightarrow> bool" where
  "in_net a n = (case (a, n) of
      (V4 w, Net4 b l) \<Rightarrow> w AND prefix_mask 32 l = b
    | (V6 w, Net6 b l) \<Rightarrow> w AND prefix_mask 128 l = b
    | _ \<Rightarrow> False)"

definition unmap_ipv4 :: "ip \<Rightarrow> ip" where
  "unmap_ipv4 a = (case a of V4 w \<Rightarrow> V4 w
     | V6 w \<Rightarrow> if drop_bit 32 w = 65535 then V4 (ucast w) else V6 w)"

definition is_str_space :: "char \<Rightarrow> bool" where
  "is_str_space c = (let k = of_char c :: nat in (9 \<le> k \<and> k \<le> 13) \<or> (28 \<le> k \<and> k \<le> 32))"

definition str_strip :: "string \<Rightarrow> string" where
  "str_strip s = rev (dropWhile is_str_space (rev (dropWhile is_str_space s)))"

definition normalize_ip :: "platform \<Rightarrow> string \<Rightarrow> string option" where
  "normalize_ip P value =
     map_option (\<lambda>a. ip_str P (unmap_ipv4 a))
       (ip_parse P (takeWhile (\<lambda>c. c \<noteq> CHR ''%'') (str_strip value)))"

fun split_on :: "char \<Rightarrow> string \<Rightarrow> string list" where
  "split_on c [] = [[]]"
| "split_on c (x # xs) =
     (if x = c then [] # split_on c xs
      else case split_on c xs of [] \<Rightarrow> [[x]] | p # ps \<Rightarrow> (x # p) # ps)"

fun all_some :: "'a option list \<Rightarrow> 'a list option" where
  "all_some [] = Some []"
| "all_some (x # xs) = (case x of None \<Rightarrow> None | Some a \<Rightarrow> map_option ((#) a) (all_some xs))"

definition trusted_ip :: "ipnet list \<Rightarrow> ip \<Rightarrow> bool" where
  "trusted_ip trusted a = list_ex (in_net a) trusted"

text \<open>The loop over the reversed chain; None stands for the ValueError of a second parse.\<close>

fun first_untrusted :: "platform \<Rightarrow> ipnet list \<Rightarrow> string list \<Rightarrow> string \<Rightarrow> string option" where
  "first_untrusted P trusted [] dflt = Some dflt"
| "first_untrusted P trusted (v # vs) dflt =
     (case ip_parse P v of
        None \<Rightarrow> None
      | Some a \<Rightarrow> if \<not> trusted_ip trusted a then Some v else first_untrusted P trusted vs dflt)"

definition resolve_chain :: "platform \<Rightarrow> ipnet list \<Rightarrow> string \<Rightarrow> string \<Rightarrow> string res" where
  "resolve_chain P trusted normalized_peer forwarded_for =
     (case all_some (map (normalize_ip P) (split_on (CHR '','') forwarded_for)) of
        None \<Rightarrow> Inr normalized_peer
      | Some ch \<Rightarrow>
          (let chain = ch @ [normalized_peer] in
           case first_untrusted P trusted (rev chain) (hd chain) of
             None \<Rightarrow> Inl (ValueError ''not an IP address'')
           | Some v \<Rightarrow> Inr v))"

definition resolve_client_ip :: "platform \<Rightarrow> string option \<Rightarrow> string option \<Rightarrow> string res" where
  "resolve_client_ip P peer forwarded_for =
     (case peer of
        None \<Rightarrow> Inr ''unknown''
      | Some peer' \<Rightarrow>
     (if peer' = [] then Inr ''unknown'' else
      case normalize_ip P peer' of
        None \<Rightarrow> Inr ''unknown''
      | Some normalized_peer \<Rightarrow>
     (case (ip_parse P normalized_peer, all_some (map (net_parse P) (TRUSTED_PROXY_CIDRS (cfg P)))) of
        (Some peer_address, Some trusted) \<Rightarrow>
          (case forwarded_for of
             None \<Rightarrow> Inr normalized_peer
           | Some ff \<Rightarrow>
               if ff = [] \<or> \<not> trusted_ip trusted peer_address then Inr normalized_peer
               else resolve_chain P trusted normalized_peer ff)
      | _ \<Rightarrow> Inr ''unknown'')))"

subsection \<open>What the resolution depends on\<close>

lemma normalize_ip_parses:
  "ip_text_ok P \<Longrightarrow> normalize_ip P v = Some n \<Longrightarrow> \<exists>a. ip_parse P n = Some a"
  by (auto simp: normalize_ip_def ip_text_ok_def)

lemma all_some_normalize:
  assumes "ip_text_ok P"
  shows "all_some (map (normalize_ip P) vs) = Some ns \<Longrightarrow> n \<in> set ns \<Longrightarrow> \<exists>a. ip_parse P n = Some a"
proof (induction vs arbitrary: ns)
  case (Cons v vs)
  then obtain m ms where m: "normalize_ip P v = Some m"
      "all_some (map (normalize_ip P) vs) = Some ms" "ns = m # ms"
    by (auto split: option.splits)
  from normalize_ip_parses [OF assms m(1)] Cons.IH [OF m(2)] Cons.prems(2) m(3)
  show ?case by auto
qed simp

lemma first_untrusted_skip:
  assumes "\<And>v. v \<in> set post \<Longrightarrow> \<exists>a. ip_parse P v = Some a \<and> trusted_ip trusted a"
  shows "first_untrusted P trusted (post @ rest) d = first_untrusted P trusted rest d"
  using assms
proof (induction post)
  case (Cons v vs)
  obtain a where "ip_parse P v = Some a" "trusted_ip trusted a"
    using Cons.prems [of v] by auto
  moreover have "first_untrusted P trusted (vs @ rest) d = first_untrusted P trusted rest d"
    using Cons.prems by (intro Cons.IH) simp
  ultimately show ?case by simp
qed simp

lemma first_untrusted_total:
  assumes "\<And>v. v \<in> set vs \<Longrightarrow> \<exists>a. ip_parse P v = Some a"
  shows "\<exists>r. first_untrusted P trusted vs d = Some r \<and>
    (r \<in> set vs \<and> (\<exists>a. ip_parse P r = Some a \<and> \<not> trusted_ip trusted a) \<or>
     r = d \<and> (\<forall>v \<in> set vs. \<exists>a. ip_parse P v = Some a \<and> trusted_ip trusted a))"
  using assms
proof (induction vs)
  case (Cons v vs)
  obtain a where a: "ip_parse P v = Some a" using Cons.prems [of v] by auto
  obtain r where r: "first_untrusted P trusted vs d = Some r"
    "r \<in> set vs \<and> (\<exists>a. ip_parse P r = Some a \<and> \<not> trusted_ip trusted a) \<or>
     r = d \<and> (\<forall>v \<in> set vs. \<exists>a. ip_parse P v = Some a \<and> trusted_ip trusted a)"
    using Cons.IH Cons.prems by auto
  show ?case
  proof (cases "trusted_ip trusted a")
    case True
    with a r show ?thesis by (intro exI [of _ r]) auto
  next
    case False
    with a show ?thesis by (intro exI [of _ v]) auto
  qed
qed simp

text \<open>a peer that is no trusted proxy cannot choose its address: the header is ignored.\<close>

theorem resolve_untrusted_peer:
  assumes "ip_text_ok P" and "peer \<noteq> []" and "normalize_ip P peer = Some n" and "ip_parse P n = Some a"
    and "all_some (map (net_parse P) (TRUSTED_PROXY_CIDRS (cfg P))) = Some nets"
    and "\<not> trusted_ip nets a"
  shows "resolve_client_ip P (Some peer) header = Inr n"
  using assms by (auto simp: resolve_client_ip_def split: list.splits option.splits)

lemma demo_str_chars: "c \<in> set (demo_ip_str a) \<Longrightarrow> \<not> is_str_space c \<and> c \<noteq> CHR ''%''"
proof -
  assume "c \<in> set (demo_ip_str a)"
  then consider "c = CHR ''4''" | "c = CHR ''6''" | d where "d < 16" "c = digit_char d"
    using set_hex_fixed by (auto simp: demo_ip_str_def split: ip.splits)
  then show ?thesis
  proof cases
    case 3
    then show ?thesis
      using of_char_digit_char [of d]
      by (auto simp: is_str_space_def Let_def split: if_splits)
  qed (simp_all add: is_str_space_def)
qed

lemma demo_normalize: "normalize_ip demo_platform (demo_ip_str (V4 w)) = Some (demo_ip_str (V4 w))"
proof -
  let ?s = "demo_ip_str (V4 w)"
  have keep: "dropWhile is_str_space t = t" if "set t \<subseteq> set ?s" for t
    using that demo_str_chars [of "hd t" "V4 w"] by (cases t) auto
  have "dropWhile is_str_space ?s = ?s" "dropWhile is_str_space (rev ?s) = rev ?s"
    using keep by simp_all
  then have "str_strip ?s = ?s" by (simp add: str_strip_def)
  moreover have t: "takeWhile (\<lambda>c. c \<noteq> CHR ''%'') ?s = ?s"
    using demo_str_chars by (intro takeWhile_eq_all_conv [THEN iffD2]) blast
  ultimately show ?thesis
    by (simp add: normalize_ip_def unmap_ipv4_def t del: takeWhile_eq_all_conv)
qed

theorem resolve_untrusted_peer_witness:
  "resolve_client_ip demo_platform (Some (demo_ip_str (V4 7))) (Some ''1.2.3.4'') = Inr (demo_ip_str (V4 7))"
  by (intro resolve_untrusted_peer [of _ _ _ "V4 7" "[]"])
    (simp_all add: demo_ip_text_ok demo_normalize trusted_ip_def)

text \<open>behind trusted proxies the result is the rightmost address of the header that is no
  trusted proxy; whatever stands to its left has no influence.\<close>

theorem resolve_rightmost_untrusted:
  assumes "ip_text_ok P" and "peer \<noteq> []" "ff \<noteq> []" and "normalize_ip P peer = Some n"
    and "all_some (map (net_parse P) (TRUSTED_PROXY_CIDRS (cfg P))) = Some nets"
    and "all_some (map (normalize_ip P) (split_on (CHR '','') ff)) = Some (pre @ v # post)"
    and "\<exists>a. ip_parse P v = Some a \<and> \<not> trusted_ip nets a"
    and "\<forall>w \<in> set (n # post). \<exists>a. ip_parse P w = Some a \<and> trusted_ip nets a"
  shows "resolve_client_ip P (Some peer) (Some ff) = Inr v"
proof -
  obtain a where a: "ip_parse P n = Some a" "trusted_ip nets a" using assms(8) by auto
  obtain b where b: "ip_parse P v = Some b" "\<not> trusted_ip nets b" using assms(7) by auto
  have "first_untrusted P nets ((n # rev post) @ v # rev pre) x = first_untrusted P nets (v # rev pre) x" for x
    using assms(8) by (intro first_untrusted_skip) auto
  then have "first_untrusted P nets (rev ((pre @ v # post) @ [n])) x = Some v" for x
    using b by simp
  then have "resolve_chain P nets n ff = Inr v"
    unfolding resolve_chain_def Let_def assms(6) option.case by simp
  then show ?thesis using assms a by (simp add: resolve_client_ip_def)
qed

lemma resolve_chain_total:
  assumes "ip_text_ok P" and "ip_parse P n = Some b"
  shows "\<exists>v. resolve_chain P nets n ff = Inr v \<and> (\<exists>a. ip_parse P v = Some a)"
proof (cases "all_some (map (normalize_ip P) (split_on (CHR '','') ff))")
  case None
  then show ?thesis using assms(2) by (simp add: resolve_chain_def)
next
  case (Some ch)
  have all: "\<exists>a. ip_parse P v = Some a" if "v \<in> set (rev (ch @ [n]))" for v
    using that all_some_normalize [OF assms(1) Some] assms(2) by auto
  then have "\<exists>a. ip_parse P (hd (ch @ [n])) = Some a" by (cases ch) auto
  with first_untrusted_total [OF all, of "rev (ch @ [n])" nets "hd (ch @ [n])"] Some
  show ?thesis by (auto simp: resolve_chain_def Let_def)
qed

lemma split_on_single: "c \<notin> set s \<Longrightarrow> split_on c s = [s]"
  by (induction s) auto

lemma split_on_append: "c \<notin> set a \<Longrightarrow> split_on c (a @ c # b) = a # split_on c b"
  by (induction a) auto

definition demo_proxy :: platform where
  "demo_proxy = demo_platform\<lparr>cfg := demo_settings\<lparr>TRUSTED_PROXY_CIDRS := [demo_ip_str (V4 9)]\<rparr>\<rparr>"

theorem resolve_rightmost_untrusted_witness:
  "resolve_client_ip demo_proxy (Some (demo_ip_str (V4 9)))
     (Some (demo_ip_str (V4 5) @ '','' @ demo_ip_str (V4 7))) = Inr (demo_ip_str (V4 7))"
proof -
  have comma: "CHR '','' \<notin> set (demo_ip_str a)" for a
    using set_hex_fixed [of "CHR '',''"] digit_char_neq(11) [symmetric]
    by (auto simp: demo_ip_str_def split: ip.splits)
  have norm: "normalize_ip demo_proxy (demo_ip_str (V4 w)) = Some (demo_ip_str (V4 w))" for w
    using demo_normalize [of w] by (simp add: demo_proxy_def normalize_ip_def)
  have split: "split_on (CHR '','') (demo_ip_str (V4 5) @ '','' @ demo_ip_str (V4 7)) =
      [demo_ip_str (V4 5), demo_ip_str (V4 7)]"
    using split_on_append [OF comma, of "V4 5" "demo_ip_str (V4 7)"] split_on_single [OF comma]
    by simp
  have nets: "all_some (map (net_parse demo_proxy) (TRUSTED_PROXY_CIDRS (cfg demo_proxy))) = Some [Net4 9 32]"
    by (simp add: demo_proxy_def demo_net_parse_def)
  show ?thesis
  proof (rule resolve_rightmost_untrusted [OF _ _ _ norm nets])
    show "all_some (map (normalize_ip demo_proxy)
        (split_on (CHR '','') (demo_ip_str (V4 5) @ '','' @ demo_ip_str (V4 7)))) =
        Some ([demo_ip_str (V4 5)] @ demo_ip_str (V4 7) # [])"
      unfolding split by (simp add: norm)
  qed (simp_all add: ip_text_ok_def demo_proxy_def trusted_ip_def in_net_def prefix_mask_def)
qed

lemma resolve_client_ip_parses:
  assumes "ip_text_ok P"
  shows "\<exists>v. resolve_client_ip P peer header = Inr v \<and> (v = ''unknown'' \<or> (\<exists>a. ip_parse P v = Some a))"
proof -
  have "\<exists>v. resolve_chain P nets n ff = Inr v \<and> (v = ''unknown'' \<or> (\<exists>a. ip_parse P v = Some a))"
    if "ip_parse P n = Some b" for nets n ff b
    using resolve_chain_total [OF assms that] by blast
  then show ?thesis
    using normalize_ip_parses [OF assms]
    unfolding resolve_client_ip_def by (auto split: option.split)
qed

text \<open>the resolution always gives an address or \<open>unknown\<close> and raises nothing: the middleware
  that calls it on every request cannot fail on a header.\<close>

theorem resolve_client_ip_total:
  assumes "ip_text_ok P"
  shows "\<exists>v. resolve_client_ip P peer header = Inr v \<and> (v = ''unknown'' \<or> (\<exists>a. ip_parse P v = Some a))"
  using assms by (rule resolve_client_ip_parses)

theorem resolve_client_ip_total_witness:
  "\<exists>v. resolve_client_ip demo_platform (Some (demo_ip_str (V4 7))) (Some '',,'') = Inr v"
  using resolve_client_ip_total [OF demo_ip_text_ok] by blast

end
