(* ===== verification/Location_Policy.thy ===== *)
theory Location_Policy
  imports Client_IP Signed_Token Audit_Log
begin

text \<open>
  app/services/location_policy_service.py: the CIDR and country rules of a secret and
  \<open>authorize\<close>, which every retrieval passes before it touches the secret.  The GeoIP database is the
  parameter \<open>geoip_country\<close> of \<open>platform\<close>.  Stored networks are the text that was inserted.
\<close>

definition country_for_ip :: "platform \<Rightarrow> string \<Rightarrow> string option" where
  "country_for_ip P client_ip =
     (if GEOIP_DATABASE_PATH (cfg P) = [] \<or> \<not> geoip_is_file P then None else geoip_country P client_ip)"

text \<open>\<open>any(address in ip_network(value) ...)\<close> stops at the first match; a bad network raises.\<close>

fun any_in_network :: "platform \<Rightarrow> ip \<Rightarrow> string list \<Rightarrow> bool res" where
  "any_in_network P a [] = Inr False"
| "any_in_network P a (value # vs) =
     (case net_parse P value of
        None \<Rightarrow> Inl (ValueError ''not an IP network'')
      | Some n \<Rightarrow> if in_net a n then Inr True else any_in_network P a vs)"

definition cidr_checks :: "platform \<Rightarrow> ip \<Rightarrow> string list \<Rightarrow> bool list res" where
  "cidr_checks P address allowed_cidrs =
     (if allowed_cidrs = [] then Inr []
      else bind_res (any_in_network P address allowed_cidrs) (\<lambda>b. Inr [b]))"

text \<open>Allowed, country, denial reason.\<close>

definition evaluate ::
  "platform \<Rightarrow> string \<Rightarrow> string list \<Rightarrow> string list \<Rightarrow> string \<Rightarrow> bool \<Rightarrow>
   (bool \<times> string option \<times> string option) res" where
  "evaluate P client_ip allowed_cidrs allowed_countries mode geoip_fail_closed =
     (if allowed_cidrs = [] \<and> allowed_countries = [] then Inr (True, None, None) else
      case normalize_ip P client_ip of
        None \<Rightarrow> Inr (False, None, Some ''CLIENT_IP_INVALID'')
      | Some normalized \<Rightarrow>
     (case ip_parse P normalized of
        None \<Rightarrow> Inr (False, None, Some ''CLIENT_IP_INVALID'')
      | Some address \<Rightarrow>
      bind_res (cidr_checks P address allowed_cidrs) (\<lambda>checks.
        let country = (if allowed_countries = [] then None else country_for_ip P normalized) in
        if allowed_countries \<noteq> [] \<and> country = None \<and> geoip_fail_closed
        then Inr (False, None, Some ''GEOIP_LOOKUP_FAILED'')
        else
          (let all_checks = checks @
                 (if allowed_countries = [] then []
                  else [case country of None \<Rightarrow> True
                        | Some c \<Rightarrow> if c = [] then True else c \<in> set allowed_countries]);
               allowed = (if mode = ''all'' then list_all id all_checks else list_ex id all_checks) in
           if allowed then Inr (True, country, None)
           else Inr (False, country,
                  Some (if allowed_cidrs \<noteq> [] \<and> allowed_countries \<noteq> [] then ''LOCATION_NOT_ALLOWED''
                        else if allowed_cidrs \<noteq> [] then ''CIDR_NOT_ALLOWED''
                        else ''COUNTRY_NOT_ALLOWED''))))))"

text \<open>The test of a share token: None is an absent or empty token.\<close>

definition check_share_token :: "platform \<Rightarrow> request \<Rightarrow> uuid \<Rightarrow> string option \<Rightarrow> int \<Rightarrow> unit res" where
  "check_share_token P rq secret_id token policy_version =
     (case token of
        None \<Rightarrow> Inr ()
      | Some t \<Rightarrow>
          if t = [] then Inr ()
          else bind_res (verify_signed_token (cr P) (SIGNED_URL_SECRET (cfg P)) (rq_now rq) t (Some policy_version))
            (\<lambda>sid. case parse_uuid sid of
                None \<Rightarrow> Inl (ValueError ''badly formed hexadecimal UUID string'')
              | Some u \<Rightarrow> if u \<noteq> secret_id then Inl (http 403 ''Share token does not match this secret'')
                           else Inr ()))"

definition authorize ::
  "platform \<Rightarrow> request \<Rightarrow> uuid \<Rightarrow> string option \<Rightarrow> database \<Rightarrow> int res \<times> database" where
  "authorize P rq secret_id token db =
     (case policy_of db secret_id of
        None \<Rightarrow> (Inl (http 404 ''Secret not found''), db)
      | Some row \<Rightarrow>
     (case check_share_token P rq secret_id token (p_version row) of
        Inl e \<Rightarrow> (Inl e, db)
      | Inr _ \<Rightarrow>
     (case evaluate P (rq_ip rq) (p_cidrs row) (map str_strip (p_countries row)) (p_mode row)
             (p_fail_closed row) of
        Inl e \<Rightarrow> (Inl e, db)
      | Inr (allowed, country, reason) \<Rightarrow>
          if \<not> allowed then
            (Inl (HTTPException 403 (LocationDenied reason) []),
             audit_log P rq \<lparr>ae_action = ''invalid_token'', ae_actor = None, ae_ip = Some (rq_ip rq),
               ae_secret = Some secret_id, ae_severity = Warning\<rparr> db)
          else (Inr (p_version row), db))))"

subsection \<open>The rules in closed form\<close>

definition in_networks :: "platform \<Rightarrow> ip \<Rightarrow> string list \<Rightarrow> bool" where
  "in_networks P a cidrs \<longleftrightarrow> (\<exists>v \<in> set cidrs. \<exists>n. net_parse P v = Some n \<and> in_net a n)"

definition country_accepted :: "platform \<Rightarrow> string \<Rightarrow> string list \<Rightarrow> bool" where
  "country_accepted P ipt countries \<longleftrightarrow>
     (case country_for_ip P ipt of None \<Rightarrow> True | Some c \<Rightarrow> c = [] \<or> c \<in> set countries)"

definition location_allowed ::
  "platform \<Rightarrow> string \<Rightarrow> string list \<Rightarrow> string list \<Rightarrow> string \<Rightarrow> bool \<Rightarrow> bool" where
  "location_allowed P client_ip cidrs countries mode fail_closed \<longleftrightarrow>
     cidrs = [] \<and> countries = [] \<or>
     (\<exists>n a. normalize_ip P client_ip = Some n \<and> ip_parse P n = Some a \<and>
        (countries \<noteq> [] \<and> fail_closed \<longrightarrow> country_for_ip P n \<noteq> None) \<and>
        (if mode = ''all''
         then (cidrs = [] \<or> in_networks P a cidrs) \<and> (countries = [] \<or> country_accepted P n countries)
         else (cidrs \<noteq> [] \<and> in_networks P a cidrs) \<or> (countries \<noteq> [] \<and> country_accepted P n countries)))"

lemma any_in_network_parsed:
  "(\<And>v. v \<in> set cidrs \<Longrightarrow> net_parse P v \<noteq> None) \<Longrightarrow>
   any_in_network P a cidrs = Inr (in_networks P a cidrs)"
proof (induction cidrs)
  case (Cons v vs)
  then obtain n where n: "net_parse P v = Some n" by fastforce
  from Cons have "any_in_network P a vs = Inr (in_networks P a vs)" by simp
  with n show ?case by (auto simp: in_networks_def)
qed (simp add: in_networks_def)

lemma evaluate_allowed:
  assumes "\<And>v. v \<in> set cidrs \<Longrightarrow> net_parse P v \<noteq> None"
  shows "\<exists>country reason. evaluate P client_ip cidrs countries mode fc =
     Inr (location_allowed P client_ip cidrs countries mode fc, country, reason) \<and>
     (reason = None \<longleftrightarrow> location_allowed P client_ip cidrs countries mode fc)"
proof (cases "cidrs = [] \<and> countries = []")
  case True
  then show ?thesis by (simp add: evaluate_def location_allowed_def)
next
  case ne: False
  show ?thesis
  proof (cases "normalize_ip P client_ip")
    case None
    with ne show ?thesis by (auto simp: evaluate_def location_allowed_def)
  next
    case (Some n)
    show ?thesis
    proof (cases "ip_parse P n")
      case None
      with ne Some show ?thesis by (auto simp: evaluate_def location_allowed_def)
    next
      case a: (Some a)
      have c: "cidr_checks P a cidrs = Inr (if cidrs = [] then [] else [in_networks P a cidrs])"
        using any_in_network_parsed [of cidrs P a] assms by (simp add: cidr_checks_def)
      from ne Some a c show ?thesis
        by (cases "country_for_ip P n"; cases "cidrs = []"; cases "countries = []")
          (auto simp: evaluate_def location_allowed_def country_accepted_def Let_def)
    qed
  qed
qed

lemma evaluate_cong_no_error:
  "(\<And>v. v \<in> set cidrs \<Longrightarrow> net_parse P v \<noteq> None) \<Longrightarrow> ok (evaluate P client_ip cidrs countries mode fc)"
  using evaluate_allowed [of cidrs P client_ip countries mode fc] by auto

lemma authorize_frame:
  assumes "authorize P rq sid token db = (r, db')"
  shows "secrets db' = secrets db" "secret_versions db' = secret_versions db"
    "secret_keys db' = secret_keys db" "access_policies db' = access_policies db"
    "secret_views db' = secret_views db" "secret_recipients db' = secret_recipients db"
    "secret_tracking db' = secret_tracking db" "users db' = users db" "sessions db' = sessions db"
    "deletion_outbox db' = deletion_outbox db" "pending_uploads db' = pending_uploads db"
  using assms by (auto simp: authorize_def split: option.splits sum.splits prod.splits if_splits)

lemma authorize_Inr:
  assumes "authorize P rq sid token db = (Inr v, db')"
  shows "db' = db" "\<exists>row. policy_of db sid = Some row \<and> v = p_version row \<and>
      check_share_token P rq sid token v = Inr () \<and>
      (\<exists>country reason. evaluate P (rq_ip rq) (p_cidrs row) (map str_strip (p_countries row)) (p_mode row)
         (p_fail_closed row) = Inr (True, country, reason))"
  using assms by (auto simp: authorize_def split: option.splits sum.splits prod.splits if_splits)

text \<open>A link made for a secret and a policy version, as the check sees it.\<close>

lemma check_created_token:
  "check_share_token P rq sid
     (Some (create_signed_token (cr P) (SIGNED_URL_SECRET (cfg P)) now0 u hours pv expires_at)) v =
   (let ts = (case expires_at of Some t \<Rightarrow> trunc_seconds t | None \<Rightarrow> trunc_seconds now0 + hours * 3600) in
    if ts * second < rq_now rq then Inl (http 403 ''Share token has expired'')
    else if v \<noteq> pv then Inl (http 403 ''Share token policy is no longer current'')
    else if u \<noteq> sid then Inl (http 403 ''Share token does not match this secret'')
    else Inr ())"
  by (auto simp: check_share_token_def create_signed_token_def token_payload_def Let_def
      verify_signed [unfolded token_payload_def, simplified] parse_uuid_str)

text \<open>C10: with stored networks that parse, the location rules decide exactly this: no rules allow
  everyone; otherwise the client address must be valid, a country must be known when the policy
  fails closed, and in mode \<open>all\<close> both rules that are set must accept the address, in any other mode
  one of them; a refusal always names a reason.\<close>

theorem evaluate_correct:
  assumes "\<forall>v \<in> set cidrs. net_parse P v \<noteq> None"
  shows "\<exists>country reason. evaluate P client_ip cidrs countries mode fail_closed =
      Inr (location_allowed P client_ip cidrs countries mode fail_closed, country, reason) \<and>
    (reason = None \<longleftrightarrow> location_allowed P client_ip cidrs countries mode fail_closed)"
  using assms by (intro evaluate_allowed) blast

theorem evaluate_correct_witness:
  "\<exists>country reason. evaluate demo_platform (demo_ip_str (V4 5)) [demo_ip_str (V4 5)] [] ''all'' True =
      Inr (True, country, reason)"
proof -
  have n: "normalize_ip demo_platform (demo_ip_str (V4 5)) = Some (demo_ip_str (V4 5))" by code_simp
  have "net_parse demo_platform (demo_ip_str (V4 5)) = Some (Net4 5 32)"
    by (simp add: demo_net_parse_def)
  moreover have "in_net (V4 5) (Net4 5 32)" by code_simp
  ultimately have "location_allowed demo_platform (demo_ip_str (V4 5)) [demo_ip_str (V4 5)] [] ''all'' True"
    using n by (auto simp: location_allowed_def in_networks_def)
  moreover have "\<forall>v \<in> set [demo_ip_str (V4 5)]. net_parse demo_platform v \<noteq> None"
    by (simp add: demo_net_parse_def)
  ultimately show ?thesis
    using evaluate_correct [of "[demo_ip_str (V4 5)]" demo_platform "demo_ip_str (V4 5)" "[]" "''all''" True]
    by auto
qed


definition sample_policy :: policy_row where
  "sample_policy = \<lparr>p_secret = 5, p_cidrs = [], p_countries = [], p_mode = ''all'', p_fail_closed = True,
     p_version = 3\<rparr>"


end
