(* ===== verification/Secrets.thy ===== *)
theory Secrets
  imports World Location_Policy
begin

text \<open>
  app/routers/secrets.py: creating a text secret, retrieving it (authorisation on one connection,
  then everything else in one transaction that holds the row), its metadata, the owner's list,
  deletion and key rotation.  A handler gets the user its dependency produced.
\<close>

subsection \<open>Create\<close>

definition secret_password_hash :: "crypto \<Rightarrow> secret_create \<Rightarrow> string option" where
  "secret_password_hash C body =
     (if sc_password_protected body \<and> truthy (sc_access_password body)
      then map_option (sha256_hash C) (sc_access_password body) else None)"

text \<open>
  The INSERT with the defaults of the table, the generated id and the trigger that computes
  \<open>expires_at\<close> from NOW() and the lifetime.
\<close>

definition insert_secret ::
  "platform \<Rightarrow> request \<Rightarrow> uuid \<Rightarrow> string \<Rightarrow> string option \<Rightarrow> secret_create \<Rightarrow> uuid option \<Rightarrow> database \<Rightarrow> database res" where
  "insert_secret P rq sid content nonce body owner db =
     (if secret_of db sid \<noteq> None then Inl UniqueViolation
      else if (case owner of None \<Rightarrow> False | Some u \<Rightarrow> user_of db u = None) then Inl ForeignKeyViolation
      else Inr (db\<lparr>secrets := sql_insert
        \<lparr>s_id = sid, s_content = Some content, s_nonce = nonce,
         s_protected = sc_password_protected body, s_password_hash = secret_password_hash (cr P) body,
         s_ttl = sc_ttl body, s_created = rq_txn rq, s_expires = rq_txn rq + sc_ttl body * hour,
         s_viewed = False, s_owner = owner, s_max_views = sc_max_views body, s_view_count = 0,
         s_signed_token = None, s_notify = sc_notify body,
         s_notify_email = (if truthy (sc_notify_email body) then sc_notify_email body else None),
         s_webhook = (if truthy (sc_webhook body) then sc_webhook body else None),
         s_email_restricted = (sc_allowed_emails body \<noteq> None), s_version = 1,
         s_updated = rq_clock rq, s_payload = Text\<rparr> (secrets db)\<rparr>))"

text \<open>What encryption leaves to store: content, nonce, the wrapped key, the key's number.\<close>

definition encrypt_body ::
  "platform \<Rightarrow> randomness \<Rightarrow> secret_create \<Rightarrow>
   (string \<times> string option \<times> (string \<times> string) option) res" where
  "encrypt_body P rd body =
     (if sc_client_encrypted body then
        (case (case sc_client_nonce body of
                 None \<Rightarrow> Inl (ValueError ''nonce_b64 is not valid base64'')
               | Some n \<Rightarrow> validate_client_encrypted (sc_content body) n) of
           Inl (ValueError m) \<Rightarrow> Inl (http 400 m)
         | Inl e \<Rightarrow> Inl e
         | Inr _ \<Rightarrow> Inr (sc_content body, sc_client_nonce body, None))
      else
        (let wrapped = wrap_dek (cr P) (rd_dek_nonce rd) (rd_dek rd) in
         bind_res (encrypt_content (cr P) (rd_nonce rd) (sc_content body) (rd_dek rd))
           (\<lambda>(ct, nonce). Inr (ct, Some nonce, Some wrapped))))"

definition insert_recipients :: "uuid \<Rightarrow> string list \<Rightarrow> database \<Rightarrow> database" where
  "insert_recipients sid emails db =
     db\<lparr>secret_recipients := secret_recipients db @ map (\<lambda>e. \<lparr>r_secret = sid, r_email = e\<rparr>) emails\<rparr>"

definition insert_policy :: "uuid \<Rightarrow> string list \<Rightarrow> string list \<Rightarrow> string \<Rightarrow> bool \<Rightarrow> database \<Rightarrow> database" where
  "insert_policy sid cidrs countries mode fail_closed db =
     db\<lparr>access_policies := sql_insert
       \<lparr>p_secret = sid, p_cidrs = cidrs, p_countries = countries, p_mode = mode,
        p_fail_closed = fail_closed, p_version = 1\<rparr> (access_policies db)\<rparr>"

text \<open>INSERT ... SELECT id, owner_id, expires_at + n days FROM secrets.\<close>

definition insert_tracking :: "platform \<Rightarrow> uuid \<Rightarrow> database \<Rightarrow> database res" where
  "insert_tracking P sid db =
     (case secret_of db sid of
        None \<Rightarrow> Inr db
      | Some s \<Rightarrow>
          (case s_owner s of
             None \<Rightarrow> Inr db
           | Some own \<Rightarrow>
               if row_of t_secret (secret_tracking db) sid \<noteq> None then Inl UniqueViolation
               else Inr (db\<lparr>secret_tracking := sql_insert
                 \<lparr>t_secret = sid, t_owner = own,
                  t_retain = s_expires s + VIEW_HISTORY_RETENTION_DAYS (cfg P) * day\<rparr> (secret_tracking db)\<rparr>)))"

definition set_signed_token :: "uuid \<Rightarrow> string \<Rightarrow> database \<Rightarrow> database" where
  "set_signed_token sid token db =
     db\<lparr>secrets := sql_update (\<lambda>s. s_id s = sid) (\<lambda>s. s\<lparr>s_signed_token := Some token\<rparr>) (secrets db)\<rparr>"

text \<open>The statements of the transaction before the audit entry; the id and the token come out.\<close>

definition create_rows ::
  "platform \<Rightarrow> request \<Rightarrow> randomness \<Rightarrow> secret_create \<Rightarrow> uuid \<Rightarrow> database \<Rightarrow> (string \<times> database) res" where
  "create_rows P rq rd body owner db =
     bind_res (encrypt_body P rd body) (\<lambda>(content, nonce, wrapped).
     bind_res (insert_secret P rq (rd_uuid rd) content nonce body (Some owner) db) (\<lambda>db1.
       let db2 = (case wrapped of None \<Rightarrow> db1 | Some (w, n) \<Rightarrow> add_key (rd_uuid rd) w n 1 None db1) in
     bind_res (insert_version
         (text_version (rd_uuid rd) 1 content nonce (if wrapped = None then None else Some 1)
           (sc_content body) (Some owner) None (rq_clock rq)) db2) (\<lambda>db3.
       let db4 = (case sc_allowed_emails body of None \<Rightarrow> db3 | Some es \<Rightarrow> insert_recipients (rd_uuid rd) es db3);
           db5 = insert_policy (rd_uuid rd) (sc_cidrs body) (sc_countries body) (sc_mode body)
                   (sc_fail_closed body) db4 in
     bind_res (insert_tracking P (rd_uuid rd) db5) (\<lambda>db6.
       let token = create_signed_token (cr P) (SIGNED_URL_SECRET (cfg P)) (rq_now rq) (rd_uuid rd) (sc_ttl body) 1 None
       in Inr (token, set_signed_token (rd_uuid rd) token db6)))))"

record create_response =
  cp_id :: uuid
  cp_url :: string
  cp_token :: string
  cp_expires :: micros
  cp_qr :: string

text \<open>
  Reserve, the transaction, then commit or release of the reservation; the response needs the
  expiry time of the stored row.
\<close>

definition create_secret ::
  "platform \<Rightarrow> request \<Rightarrow> randomness \<Rightarrow> uuid \<Rightarrow> secret_create \<Rightarrow> current_user \<Rightarrow> world \<Rightarrow>
   create_response res \<times> world" where
  "create_secret P rq rd rid body user w =
     (let owner = cu_id user in
      case reserve P (wd_db w) (rq_now rq) rid owner 1 0 (wd_quota w) of
        (Inl e, q) \<Rightarrow> (Inl e, w\<lparr>wd_quota := q\<rparr>)
      | (Inr reservation, q) \<Rightarrow>
     (case create_rows P rq rd body owner (wd_db w) of
        Inl e \<Rightarrow> (Inl e, w\<lparr>wd_quota := release reservation q\<rparr>)
      | Inr (token, db1) \<Rightarrow>
          (let db2 = commit_txn (wd_db w) (audit_log_conn P rq
                 \<lparr>ae_action = ''secret_created'', ae_actor = Some owner, ae_ip = Some (rq_ip rq),
                  ae_secret = Some (rd_uuid rd), ae_severity = Info\<rparr> db1) in
     (case commit reservation q of
        (Inl e, q') \<Rightarrow> (Inl e, w\<lparr>wd_db := db2, wd_quota := q'\<rparr>)
      | (Inr _, q') \<Rightarrow>
          (let sid = uuid_str (rd_uuid rd);
               share_url = BASE_URL (cfg P) @ ''/api/secrets/'' @ sid @ ''?token='' @ token;
               w2 = snd (schedule_expiry (rq_now rq) sid (sc_ttl body * 3600) (w\<lparr>wd_db := db2, wd_quota := q'\<rparr>)) in
           case secret_of db2 (rd_uuid rd) of
             None \<Rightarrow> (Inl (ValueError ''expires_at''), w2)
           | Some s \<Rightarrow>
               (Inr \<lparr>cp_id = rd_uuid rd,
                     cp_url = share_url,
                     cp_token = token, cp_expires = s_expires s, cp_qr = generate_qr_code P share_url\<rparr>, w2))))))"

subsection \<open>Retrieve\<close>

record secret_content =
  ct_content :: string
  ct_created :: micros
  ct_expires :: micros
  ct_remaining :: int
  ct_client_encrypted :: bool
  ct_version :: int

text \<open>The background task \<open>notify_secret_viewed(secret_id, email, webhook, viewer_ip)\<close>.\<close>

record view_notice =
  vn_secret :: uuid
  vn_email :: "string option"
  vn_webhook :: "string option"
  vn_ip :: string

text \<open>The guards on the locked row, up to the password.\<close>

definition check_recipient :: "database \<Rightarrow> uuid \<Rightarrow> current_user option \<Rightarrow> unit res" where
  "check_recipient db sid user =
     (case user of
        None \<Rightarrow> Inl (http 401 ''Log in with a verified recipient email to access this secret'')
      | Some u \<Rightarrow>
          if \<not> cu_verified u then Inl (http 403 ''Verify your email before accessing this secret'')
          else if \<not> is_recipient db sid (cu_email u)
          then Inl (http 403 ''Your email is not allowed to access this secret'') else Inr ())"

definition check_password :: "crypto \<Rightarrow> secret_row \<Rightarrow> string option \<Rightarrow> unit res" where
  "check_password C s access_password =
     (if \<not> s_protected s then Inr ()
      else if \<not> truthy access_password then Inl (http 401 ''Password required'')
      else if map_option (sha256_hash C) access_password \<noteq> s_password_hash s
      then Inl (http 401 ''Invalid password'') else Inr ())"

definition retrieve_guards ::
  "platform \<Rightarrow> request \<Rightarrow> int \<Rightarrow> uuid \<Rightarrow> string option \<Rightarrow> current_user option \<Rightarrow> database \<Rightarrow> secret_row res" where
  "retrieve_guards P rq policy_version sid access_password user db =
     (case (secret_of db sid, policy_of db sid) of
        (Some s, Some p) \<Rightarrow>
          if p_version p \<noteq> policy_version then Inl (http 403 ''Share token policy is no longer current'')
          else if s_expires s < rq_now rq then Inl (http 410 ''Secret has expired'')
          else if s_max_views s \<le> s_view_count s then Inl (http 410 ''Secret has reached its maximum view count'')
          else if s_payload s \<noteq> Text
          then Inl (http 409 ''This secret contains a file; use the file download endpoint'')
          else
            bind_res (if s_email_restricted s then check_recipient db sid user else Inr ()) (\<lambda>_.
            bind_res (check_password (cr P) s access_password) (\<lambda>_. Inr s))
      | _ \<Rightarrow> Inl (http 404 ''Secret not found or has expired''))"

text \<open>
  Decryption: with a server key, under the latest one; every failure is a 500.  Without one the
  stored ciphertext is for the client.
\<close>

definition read_content :: "platform \<Rightarrow> database \<Rightarrow> secret_row \<Rightarrow> (string option \<times> bool) res" where
  "read_content P db s =
     (if secret_keys_exist db (s_id s) then
        (case bind_res (get_dek_for_secret (cr P) db (s_id s) None) (\<lambda>dek.
               case (s_content s, s_nonce s) of
                 (Some c, Some n) \<Rightarrow> decrypt_content (cr P) c n dek
               | _ \<Rightarrow> Inl TypeError) of
           Inl e \<Rightarrow> (case e of HTTPException _ _ _ \<Rightarrow> Inl e | _ \<Rightarrow> Inl (http 500 ''Failed to decrypt secret''))
         | Inr p \<Rightarrow> Inr (Some p, False))
      else Inr (s_content s, True))"

text \<open>
  INSERT INTO secret_views ... SELECT ... FROM secret_tracking: one row when the secret is tracked.
\<close>

definition record_view ::
  "request \<Rightarrow> uuid \<Rightarrow> current_user option \<Rightarrow> int \<Rightarrow> database \<Rightarrow> (int \<times> database) res" where
  "record_view rq sid user version db =
     (case row_of t_secret (secret_tracking db) sid of
        None \<Rightarrow> Inr (0, db)
      | Some _ \<Rightarrow>
          if (case user of None \<Rightarrow> False | Some u \<Rightarrow> user_of db (cu_id u) = None) then Inl ForeignKeyViolation
          else Inr (1, db\<lparr>secret_views := sql_insert
            \<lparr>w_secret = sid, w_viewer = map_option cu_id user, w_email = map_option cu_email user,
             w_verified = (case user of None \<Rightarrow> False | Some u \<Rightarrow> cu_verified u),
             w_version = Some version, w_at = rq_clock rq\<rparr> (secret_views db)\<rparr>))"

definition viewed_entry :: "request \<Rightarrow> uuid \<Rightarrow> current_user option \<Rightarrow> audit_entry" where
  "viewed_entry rq sid user =
     \<lparr>ae_action = ''secret_viewed'', ae_actor = map_option cu_id user, ae_ip = Some (rq_ip rq),
      ae_secret = Some sid, ae_severity = Info\<rparr>"

text \<open>The transaction: an error rolls back to the state it started from.\<close>

definition retrieve_locked ::
  "platform \<Rightarrow> request \<Rightarrow> int \<Rightarrow> uuid \<Rightarrow> string option \<Rightarrow> current_user option \<Rightarrow> database \<Rightarrow>
   (secret_content \<times> view_notice option) res \<times> database" where
  "retrieve_locked P rq policy_version sid access_password user db =
     (case retrieve_guards P rq policy_version sid access_password user db of
        Inl e \<Rightarrow> (Inl e, db)
      | Inr s \<Rightarrow>
     (case read_content P db s of
        Inl e \<Rightarrow> (Inl e, db)
      | Inr (plaintext, client_encrypted) \<Rightarrow>
     (let new_view_count = s_view_count s + 1;
          is_now_fully_viewed = (s_max_views s \<le> new_view_count) in
      case record_view rq sid user (s_version s) db of
        Inl e \<Rightarrow> (Inl e, db)
      | Inr (rowcount, db1) \<Rightarrow>
          if s_email_restricted s \<and> rowcount \<noteq> 1 then (Inl (http 500 ''Unable to record secret access''), db)
          else
     (case exec_txn (update_view_count (rq_clock rq) sid new_view_count is_now_fully_viewed)
             (audit_log_conn P rq (viewed_entry rq sid user) db1) of
        Inl e \<Rightarrow> (Inl e, db)
      | Inr db3 \<Rightarrow>
          (case plaintext of
             None \<Rightarrow> (Inl (ValueError ''content''), db3)
           | Some text \<Rightarrow>
               (Inr (\<lparr>ct_content = text, ct_created = s_created s, ct_expires = s_expires s,
                      ct_remaining = max 0 (s_max_views s - new_view_count),
                      ct_client_encrypted = client_encrypted, ct_version = s_version s\<rparr>,
                     if s_notify s then Some \<lparr>vn_secret = sid, vn_email = s_notify_email s,
                       vn_webhook = s_webhook s, vn_ip = rq_ip rq\<rparr> else None), db3))))))"

definition retrieve_secret ::
  "platform \<Rightarrow> request \<Rightarrow> string \<Rightarrow> string option \<Rightarrow> string option \<Rightarrow> current_user option \<Rightarrow> database \<Rightarrow>
   (secret_content \<times> view_notice option) res \<times> database" where
  "retrieve_secret P rq secret_id access_password token user db =
     (case parse_uuid secret_id of
        None \<Rightarrow> (Inl (http 403 ''Invalid share token''), db)
      | Some sid \<Rightarrow>
     (case authorize P rq sid token db of
        (Inl (ValueError _), db1) \<Rightarrow> (Inl (http 403 ''Invalid share token''), db1)
      | (Inl e, db1) \<Rightarrow> (Inl e, db1)
      | (Inr policy_version, db1) \<Rightarrow> retrieve_locked P rq policy_version sid access_password user db1))"

text \<open>The two endpoints: the POST body may carry the token, a query token wins when it is not empty.\<close>

definition get_secret ::
  "platform \<Rightarrow> request \<Rightarrow> string \<Rightarrow> string option \<Rightarrow> string option \<Rightarrow> string option \<Rightarrow> current_user option \<Rightarrow>
   database \<Rightarrow> (secret_content \<times> view_notice option) res \<times> database" where
  "get_secret P rq secret_id access_password signed_token token user db =
     retrieve_secret P rq secret_id access_password (if truthy token then token else signed_token) user db"

definition get_secret_browser ::
  "platform \<Rightarrow> request \<Rightarrow> string \<Rightarrow> string option \<Rightarrow> string option \<Rightarrow> current_user option \<Rightarrow>
   database \<Rightarrow> (secret_content \<times> view_notice option) res \<times> database" where
  "get_secret_browser P rq secret_id token access_password user db =
     retrieve_secret P rq secret_id access_password token user db"

subsection \<open>Info and list\<close>

record info_response =
  si_created :: micros
  si_expires :: micros
  si_protected :: bool
  si_viewed :: bool
  si_view_count :: int
  si_max_views :: int
  si_version :: int
  si_payload :: payload
  si_location :: bool
  si_policy_version :: int

definition secret_info :: "uuid \<Rightarrow> database \<Rightarrow> info_response res" where
  "secret_info sid db =
     (case (secret_of db sid, policy_of db sid) of
        (Some s, Some p) \<Rightarrow>
          Inr \<lparr>si_created = s_created s, si_expires = s_expires s, si_protected = s_protected s,
               si_viewed = s_viewed s, si_view_count = s_view_count s, si_max_views = s_max_views s,
               si_version = s_version s, si_payload = s_payload s,
               si_location = (p_cidrs p \<noteq> [] \<or> p_countries p \<noteq> []), si_policy_version = p_version p\<rparr>
      | _ \<Rightarrow> Inl (http 404 ''Secret not found''))"

definition list_where ::
  "request \<Rightarrow> uuid \<Rightarrow> bool option \<Rightarrow> bool option \<Rightarrow> secret_row \<Rightarrow> bool" where
  "list_where rq owner viewed expired s \<longleftrightarrow>
     s_owner s = Some owner \<and>
     (case viewed of None \<Rightarrow> True | Some v \<Rightarrow> s_viewed s = v) \<and>
     (case expired of None \<Rightarrow> True | Some True \<Rightarrow> s_expires s < rq_txn rq | Some False \<Rightarrow> rq_txn rq \<le> s_expires s)"

record 'a page =
  pg_items :: "'a list"
  pg_total :: nat
  pg_page :: nat
  pg_size :: nat

text \<open>ORDER BY ... DESC LIMIT size OFFSET (page - 1) * size.\<close>

definition paginate :: "nat \<Rightarrow> nat \<Rightarrow> 'a list \<Rightarrow> 'a page" where
  "paginate page n rows =
     \<lparr>pg_items = take n (drop ((page - 1) * n) rows), pg_total = length rows, pg_page = page,
      pg_size = n\<rparr>"

definition list_secrets ::
  "request \<Rightarrow> nat \<Rightarrow> nat \<Rightarrow> bool option \<Rightarrow> bool option \<Rightarrow> current_user \<Rightarrow> database \<Rightarrow> secret_row page" where
  "list_secrets rq page page_size viewed expired user db =
     paginate page page_size
       (order_desc s_created (sql_select (list_where rq (cu_id user) viewed expired) (secrets db)))"

subsection \<open>Delete and rotate\<close>

definition delete_secret ::
  "platform \<Rightarrow> request \<Rightarrow> uuid \<Rightarrow> current_user \<Rightarrow> world \<Rightarrow> unit res \<times> world" where
  "delete_secret P rq sid user w =
     (case secret_of (wd_db w) sid of
        None \<Rightarrow> (Inl (http 404 ''Secret not found''), w)
      | Some s \<Rightarrow>
     (case require_owns_secret (s_owner s) user of
        Inl e \<Rightarrow> (Inl e, w)
      | Inr _ \<Rightarrow>
     (case exec_txn (delete_secrets (rq_clock rq) (\<lambda>s. s_id s = sid))
             (audit_log_conn P rq
               \<lparr>ae_action = ''secret_deleted'', ae_actor = Some (cu_id user), ae_ip = Some (rq_ip rq),
                ae_secret = Some sid, ae_severity = Critical\<rparr> (wd_db w)) of
        Inl e \<Rightarrow> (Inl e, w)
      | Inr db' \<Rightarrow>
          (Inr (), w\<lparr>wd_db := db', wd_quota := snd (reconcile_user db' (cu_id user) (wd_quota w))\<rparr>))))"

text \<open>\<open>"not found" in msg.lower()\<close> tells the two kinds of ValueError of \<open>rotate_key\<close> apart.\<close>

definition contains :: "string \<Rightarrow> string \<Rightarrow> bool" where
  "contains pat s \<longleftrightarrow> list_ex (\<lambda>i. take (length pat) (drop i s) = pat) [0..<Suc (length s)]"

definition rotate_secret_key ::
  "platform \<Rightarrow> request \<Rightarrow> randomness \<Rightarrow> uuid \<Rightarrow> current_user \<Rightarrow> database \<Rightarrow> int res \<times> database" where
  "rotate_secret_key P rq rd sid user db =
     (case secret_of db sid of
        None \<Rightarrow> (Inl (http 404 ''Secret not found''), db)
      | Some s \<Rightarrow>
     (case require_owns_secret (s_owner s) user of
        Inl e \<Rightarrow> (Inl e, db)
      | Inr _ \<Rightarrow>
     (case rotate_key (cr P) (rq_clock rq) rd sid db of
        (Inl (ValueError m), db') \<Rightarrow>
          (if contains ''not found'' (str_lower m) then Inl (http 404 m) else Inl (http 500 ''Key rotation failed''), db')
      | (Inl e, db') \<Rightarrow> (Inl e, db')
      | (Inr v, db') \<Rightarrow>
          (Inr v, audit_log P rq
             \<lparr>ae_action = ''key_rotated'', ae_actor = Some (cu_id user), ae_ip = Some (rq_ip rq),
              ae_secret = Some sid, ae_severity = Critical\<rparr> db'))))"

subsection \<open>What a retrieval leaves\<close>

lemma secrets_delete [simp]: "secrets (delete_secrets clock p db) = sql_delete p (secrets db)"
  by (simp add: delete_secrets_def Let_def)

lemma secret_of_delete:
  "secret_of (delete_secrets clock (\<lambda>s. s_id s = sid) db) sid' = (if sid = sid' then None else secret_of db sid')"
  by (simp add: secret_of_def row_of_delete)

lemma delete_update_id:
  "(\<And>s. s_id (f s) = s_id s) \<Longrightarrow>
   sql_delete (\<lambda>s. s_id s = sid) (sql_update (\<lambda>s. s_id s = sid) f t) = sql_delete (\<lambda>s. s_id s = sid) t"
  by (induction t) (auto simp: sql_delete_def sql_update_def)

lemma secret_of_upd:
  assumes "\<And>s. s_id (f s) = s_id s"
  shows "secret_of (db\<lparr>secrets := sql_update (\<lambda>s. s_id s = sid) f (secrets db)\<rparr>) sid' =
     (if sid = sid' then map_option f (secret_of db sid) else secret_of db sid')"
  using assms by (simp add: secret_of_def row_of_update)

lemma secrets_view_count:
  "secrets (update_view_count clock sid n v db) =
     (if \<exists>s. secret_of db sid = Some s \<and> s_max_views s \<le> n
      then sql_delete (\<lambda>s. s_id s = sid) (secrets db)
      else sql_update (\<lambda>s. s_id s = sid) (\<lambda>s. s\<lparr>s_view_count := n, s_viewed := v\<rparr>) (secrets db))"
  by (cases "secret_of db sid")
    (auto simp: update_view_count_def Let_def secret_of_upd delete_update_id)

lemma secret_of_view_count:
  "secret_of (update_view_count clock sid n v db) sid' =
     (if sid = sid'
      then (case secret_of db sid of None \<Rightarrow> None
            | Some s \<Rightarrow> if s_max_views s \<le> n then None else Some (s\<lparr>s_view_count := n, s_viewed := v\<rparr>))
      else secret_of db sid')"
  using secrets_view_count [of clock sid n v db]
  by (auto simp: secret_of_def row_of_update row_of_delete split: option.splits)

lemma retrieve_guards_Inr:
  "retrieve_guards P rq pv sid pw user db = Inr s \<longleftrightarrow>
     secret_of db sid = Some s \<and> (\<exists>p. policy_of db sid = Some p \<and> p_version p = pv) \<and>
     rq_now rq \<le> s_expires s \<and> s_view_count s < s_max_views s \<and> s_payload s = Text \<and>
     (s_email_restricted s \<longrightarrow> (\<exists>u. user = Some u \<and> cu_verified u \<and> is_recipient db sid (cu_email u))) \<and>
     (s_protected s \<longrightarrow> (\<exists>p. pw = Some p \<and> p \<noteq> [] \<and> Some (sha256_hash (cr P) p) = s_password_hash s))"
  by (cases "secret_of db sid"; cases "policy_of db sid"; cases user; cases pw)
    (auto simp: retrieve_guards_def bind_res_eq_Inr check_recipient_def check_password_def split: if_splits)

lemma record_view_frame:
  assumes "record_view rq sid user v db = Inr (n, db')"
  shows "secrets db' = secrets db" "users db' = users db" "secret_keys db' = secret_keys db"
    "secret_versions db' = secret_versions db" "access_policies db' = access_policies db"
    "secret_recipients db' = secret_recipients db" "audit_logs db' = audit_logs db"
    "secret_tracking db' = secret_tracking db" "deletion_outbox db' = deletion_outbox db"
  using assms by (auto simp: record_view_def split: option.splits if_splits)

lemma exec_audit_conn:
  "exec_txn f (audit_log_conn P rq e db) = Inr db' \<longleftrightarrow>
     audit_accepts P e db \<and> db' = f (db\<lparr>audit_logs := sql_insert (audit_row_of rq e) (audit_logs db)\<rparr>)"
  by (auto simp: exec_txn_def audit_log_conn_eq)

lemma exec_audit_conn_Inl:
  "exec_txn f (audit_log_conn P rq e db) = Inl x \<longleftrightarrow>
     \<not> audit_accepts P e db \<and> x = InFailedSqlTransaction"
  by (auto simp: exec_txn_def audit_log_conn_eq)

text \<open>The database after a successful retrieval, in one expression.\<close>

definition viewed_db ::
  "platform \<Rightarrow> request \<Rightarrow> uuid \<Rightarrow> current_user option \<Rightarrow> secret_row \<Rightarrow> database \<Rightarrow> database" where
  "viewed_db P rq sid user s db1 =
     update_view_count (rq_clock rq) sid (s_view_count s + 1) (s_max_views s \<le> s_view_count s + 1)
       (db1\<lparr>audit_logs := sql_insert (audit_row_of rq (viewed_entry rq sid user)) (audit_logs db1)\<rparr>)"

lemma retrieve_locked_Inr:
  assumes "retrieve_locked P rq pv sid pw user db = (Inr (c, note), db')"
  obtains s db1 n where
    "retrieve_guards P rq pv sid pw user db = Inr s"
    "read_content P db s = Inr (Some (ct_content c), ct_client_encrypted c)"
    "record_view rq sid user (s_version s) db = Inr (n, db1)" "s_email_restricted s \<longrightarrow> n = 1"
    "audit_accepts P (viewed_entry rq sid user) db1" "db' = viewed_db P rq sid user s db1"
    "ct_remaining c = s_max_views s - (s_view_count s + 1)" "ct_version c = s_version s"
    "ct_created c = s_created s" "ct_expires c = s_expires s"
    "note = (if s_notify s then Some \<lparr>vn_secret = sid, vn_email = s_notify_email s,
       vn_webhook = s_webhook s, vn_ip = rq_ip rq\<rparr> else None)"
proof -
  from assms obtain s where g: "retrieve_guards P rq pv sid pw user db = Inr s"
    by (auto simp: retrieve_locked_def split: sum.splits)
  with assms obtain t ce where r: "read_content P db s = Inr (t, ce)"
    by (auto simp: retrieve_locked_def split: sum.splits)
  with g assms obtain n db1 where v: "record_view rq sid user (s_version s) db = Inr (n, db1)"
      "s_email_restricted s \<longrightarrow> n = 1"
    by (auto simp: retrieve_locked_def Let_def split: sum.splits if_splits)
  then have v2: "\<not> (s_email_restricted s \<and> n \<noteq> 1)" by blast
  from g r v(1) v2 assms obtain db3 where e: "exec_txn (update_view_count (rq_clock rq) sid (s_view_count s + 1)
        (s_max_views s \<le> s_view_count s + 1)) (audit_log_conn P rq (viewed_entry rq sid user) db1) = Inr db3"
    unfolding retrieve_locked_def Let_def by (auto split: sum.splits)
  obtain pt where t: "t = Some pt"
    using g r v(1) v2 e assms by (cases t) (auto simp: retrieve_locked_def Let_def split: if_splits)
  have lt: "s_view_count s < s_max_views s" using g by (simp add: retrieve_guards_Inr)
  have acc: "audit_accepts P (viewed_entry rq sid user) db1" "db3 = viewed_db P rq sid user s db1"
    using e by (simp_all add: exec_audit_conn viewed_db_def)
  have res: "c = \<lparr>ct_content = pt, ct_created = s_created s, ct_expires = s_expires s,
        ct_remaining = max 0 (s_max_views s - (s_view_count s + 1)), ct_client_encrypted = ce, ct_version = s_version s\<rparr>"
    "note = (if s_notify s then Some \<lparr>vn_secret = sid, vn_email = s_notify_email s,
       vn_webhook = s_webhook s, vn_ip = rq_ip rq\<rparr> else None)" "db' = db3"
    using g r v(1) v2 e t assms by (simp_all add: retrieve_locked_def Let_def split: if_split_asm)
  from r t res(1) have r': "read_content P db s = Inr (Some (ct_content c), ct_client_encrypted c)" by simp
  have "ct_remaining c = s_max_views s - (s_view_count s + 1)" using lt res(1) by simp
  from that [OF g r' v acc(1) _ this] show thesis using acc(2) res by simp
qed

lemma secret_of_viewed_db:
  assumes "retrieve_guards P rq pv sid pw user db = Inr s"
    "record_view rq sid user (s_version s) db = Inr (n, db1)"
  shows "secret_of (viewed_db P rq sid user s db1) sid' =
    (if sid = sid' then
       (if s_max_views s \<le> s_view_count s + 1 then None
        else Some (s\<lparr>s_view_count := s_view_count s + 1, s_viewed := False\<rparr>))
     else secret_of db sid')"
proof -
  have "secret_of db1 x = secret_of db x" for x
    using record_view_frame(1) [OF assms(2)] by (simp add: secret_of_def)
  then show ?thesis
    using assms(1) by (auto simp: viewed_db_def secret_of_view_count retrieve_guards_Inr)
qed

text \<open>A retrieval that fails leaves the secret's rows alone: the database is the one authorisation
  left, which differs from the first in the audit log only.\<close>

lemma retrieve_locked_Inl:
  assumes "retrieve_locked P rq pv sid pw user db = (Inl e, db')" and "\<And>s. secret_of db sid = Some s \<Longrightarrow>
    s_payload s = Text \<Longrightarrow> \<exists>c. s_content s = Some c"
  shows "db' = db"
proof -
  have "t \<noteq> None" if "retrieve_guards P rq pv sid pw user db = Inr s" "read_content P db s = Inr (t, ce)" for s t ce
  proof -
    from that(1) assms(2) obtain x where "s_content s = Some x" by (auto simp: retrieve_guards_Inr)
    with that(2) show ?thesis by (cases t) (auto simp: read_content_def split: if_splits sum.splits exc.splits)
  qed
  with assms(1) show ?thesis
    by (fastforce simp: retrieve_locked_def Let_def split: sum.splits if_splits option.splits)
qed

subsection \<open>What a creation leaves\<close>

definition created_row ::
  "platform \<Rightarrow> request \<Rightarrow> uuid \<Rightarrow> secret_create \<Rightarrow> uuid \<Rightarrow> string \<Rightarrow> string option \<Rightarrow> string \<Rightarrow> secret_row" where
  "created_row P rq sid body owner content nonce token =
     \<lparr>s_id = sid, s_content = Some content, s_nonce = nonce,
      s_protected = sc_password_protected body, s_password_hash = secret_password_hash (cr P) body,
      s_ttl = sc_ttl body, s_created = rq_txn rq, s_expires = rq_txn rq + sc_ttl body * hour,
      s_viewed = False, s_owner = Some owner, s_max_views = sc_max_views body, s_view_count = 0,
      s_signed_token = Some token, s_notify = sc_notify body,
      s_notify_email = (if truthy (sc_notify_email body) then sc_notify_email body else None),
      s_webhook = (if truthy (sc_webhook body) then sc_webhook body else None),
      s_email_restricted = (sc_allowed_emails body \<noteq> None), s_version = 1,
      s_updated = rq_clock rq, s_payload = Text\<rparr>"

lemma refs_okD:
  assumes "refs_ok db" "secret_of db sid = None"
  shows "keys_of db sid = []" "version_of db sid v = None" "policy_of db sid = None"
    "r \<in> set (secret_recipients db) \<Longrightarrow> r_secret r \<noteq> sid"
  using assms
  by (auto simp: refs_ok_def secret_of_None_iff keys_of_def sql_select_def filter_empty_conv version_of_def
      policy_of_def row_of_None)

lemma is_recipient_iff:
  "is_recipient db sid e \<longleftrightarrow> (\<exists>r \<in> set (secret_recipients db). r_secret r = sid \<and> citext_eq (r_email r) e)"
  by (auto simp: is_recipient_def sql_select_def filter_empty_conv)

lemma insert_secret_Inr:
  "insert_secret P rq sid content nonce body (Some owner) db = Inr db' \<longleftrightarrow>
     secret_of db sid = None \<and> user_of db owner \<noteq> None \<and>
     db' = db\<lparr>secrets := sql_insert ((created_row P rq sid body owner content nonce [])\<lparr>s_signed_token := None\<rparr>)
                (secrets db)\<rparr>"
  by (auto simp: insert_secret_def created_row_def)

lemma secret_of_insert:
  "secret_of (db\<lparr>secrets := sql_insert s (secrets db)\<rparr>) sid =
     (case secret_of db sid of None \<Rightarrow> if s_id s = sid then Some s else None | Some r \<Rightarrow> Some r)"
  by (simp add: secret_of_def row_of_insert)

lemma created_row_upd:
  "(created_row P rq sid body owner content nonce t)\<lparr>s_signed_token := None, s_signed_token := Some token\<rparr> =
    created_row P rq sid body owner content nonce token"
  by (simp add: created_row_def)

lemma s_id_created [simp]: "s_id (created_row P rq sid body owner content nonce t) = sid"
  by (simp add: created_row_def)

lemma create_rows_Inr:
  assumes "create_rows P rq rd body owner db = Inr (token, db')"
  obtains content nonce wrapped where
    "encrypt_body P rd body = Inr (content, nonce, wrapped)"
    "secret_of db (rd_uuid rd) = None" "user_of db owner \<noteq> None"
    "row_of t_secret (secret_tracking db) (rd_uuid rd) = None"
    "token = create_signed_token (cr P) (SIGNED_URL_SECRET (cfg P)) (rq_now rq) (rd_uuid rd) (sc_ttl body) 1 None"
    "db' = db\<lparr>
       secrets := sql_update (\<lambda>s. s_id s = rd_uuid rd) (\<lambda>s. s\<lparr>s_signed_token := Some token\<rparr>)
         (sql_insert ((created_row P rq (rd_uuid rd) body owner content nonce [])\<lparr>s_signed_token := None\<rparr>) (secrets db)),
       secret_keys := (case wrapped of None \<Rightarrow> secret_keys db | Some (w, n) \<Rightarrow>
         sql_insert \<lparr>k_secret = rd_uuid rd, k_wrapped = w, k_nonce = n, k_version = 1, k_rotated = None\<rparr> (secret_keys db)),
       secret_versions := sql_insert (text_version (rd_uuid rd) 1 content nonce
         (if wrapped = None then None else Some 1) (sc_content body) (Some owner) None (rq_clock rq)) (secret_versions db),
       secret_recipients := (case sc_allowed_emails body of None \<Rightarrow> secret_recipients db
         | Some es \<Rightarrow> secret_recipients db @ map (\<lambda>e. \<lparr>r_secret = rd_uuid rd, r_email = e\<rparr>) es),
       access_policies := sql_insert \<lparr>p_secret = rd_uuid rd, p_cidrs = sc_cidrs body, p_countries = sc_countries body,
         p_mode = sc_mode body, p_fail_closed = sc_fail_closed body, p_version = 1\<rparr> (access_policies db),
       secret_tracking := sql_insert \<lparr>t_secret = rd_uuid rd, t_owner = owner,
         t_retain = rq_txn rq + sc_ttl body * hour + VIEW_HISTORY_RETENTION_DAYS (cfg P) * day\<rparr> (secret_tracking db)\<rparr>"
proof -
  from assms obtain content nonce wrapped where e: "encrypt_body P rd body = Inr (content, nonce, wrapped)"
    by (auto simp: create_rows_def bind_res_eq_Inr)
  let ?row = "(created_row P rq (rd_uuid rd) body owner content nonce [])\<lparr>s_signed_token := None\<rparr>"
  from assms e have new: "secret_of db (rd_uuid rd) = None" "user_of db owner \<noteq> None"
    by (auto simp: create_rows_def bind_res_eq_Inr insert_secret_Inr)
  have row: "secret_of (db\<lparr>secrets := sql_insert ?row (secrets db)\<rparr>) (rd_uuid rd) = Some ?row"
    using new by (simp add: secret_of_insert)
  have rowid: "secret_of x (rd_uuid rd) = Some ?row" if "secrets x = sql_insert ?row (secrets db)" for x
    using row that by (simp add: secret_of_def)
  have exp: "s_expires ?row = rq_txn rq + sc_ttl body * hour" "s_owner ?row = Some owner"
    by (simp_all add: created_row_def)
  show thesis
    by (rule that [OF e new])
      (use assms e new in \<open>auto simp: create_rows_def bind_res_eq_Inr insert_secret_Inr Let_def insert_version_Inr
        insert_tracking_def rowid exp insert_policy_def insert_recipients_def set_signed_token_def add_key_def
        split: if_splits option.splits\<close>)
qed

lemma create_rows_lookups:
  assumes "create_rows P rq rd body owner db = Inr (token, db')" and "refs_ok db"
  obtains content nonce wrapped where
    "encrypt_body P rd body = Inr (content, nonce, wrapped)"
    "secret_of db (rd_uuid rd) = None"
    "secret_of db' (rd_uuid rd) = Some (created_row P rq (rd_uuid rd) body owner content nonce token)"
    "policy_of db' (rd_uuid rd) = Some \<lparr>p_secret = rd_uuid rd, p_cidrs = sc_cidrs body,
       p_countries = sc_countries body, p_mode = sc_mode body, p_fail_closed = sc_fail_closed body, p_version = 1\<rparr>"
    "keys_of db' (rd_uuid rd) = (case wrapped of None \<Rightarrow> [] | Some (w, n) \<Rightarrow>
       [\<lparr>k_secret = rd_uuid rd, k_wrapped = w, k_nonce = n, k_version = 1, k_rotated = None\<rparr>])"
    "version_of db' (rd_uuid rd) 1 = Some (text_version (rd_uuid rd) 1 content nonce
       (if wrapped = None then None else Some 1) (sc_content body) (Some owner) None (rq_clock rq))"
    "\<forall>n. n \<noteq> 1 \<longrightarrow> version_of db' (rd_uuid rd) n = None"
    "\<forall>e. is_recipient db' (rd_uuid rd) e \<longleftrightarrow> (\<exists>es. sc_allowed_emails body = Some es \<and> (\<exists>x \<in> set es. citext_eq x e))"
    "\<exists>t. row_of t_secret (secret_tracking db') (rd_uuid rd) = Some t"
    "users db' = users db"
    "token = create_signed_token (cr P) (SIGNED_URL_SECRET (cfg P)) (rq_now rq) (rd_uuid rd) (sc_ttl body) 1 None"
    "\<forall>x. x \<noteq> rd_uuid rd \<longrightarrow> secret_of db' x = secret_of db x"
proof -
  let ?sid = "rd_uuid rd"
  from assms(1) obtain content nonce wrapped where
    c: "encrypt_body P rd body = Inr (content, nonce, wrapped)"
      "secret_of db ?sid = None" "user_of db owner \<noteq> None"
      "row_of t_secret (secret_tracking db) ?sid = None"
      "token = create_signed_token (cr P) (SIGNED_URL_SECRET (cfg P)) (rq_now rq) ?sid (sc_ttl body) 1 None"
    and db': "db' = db\<lparr>
       secrets := sql_update (\<lambda>s. s_id s = ?sid) (\<lambda>s. s\<lparr>s_signed_token := Some token\<rparr>)
         (sql_insert ((created_row P rq ?sid body owner content nonce [])\<lparr>s_signed_token := None\<rparr>) (secrets db)),
       secret_keys := (case wrapped of None \<Rightarrow> secret_keys db | Some (w, n) \<Rightarrow>
         sql_insert \<lparr>k_secret = ?sid, k_wrapped = w, k_nonce = n, k_version = 1, k_rotated = None\<rparr> (secret_keys db)),
       secret_versions := sql_insert (text_version ?sid 1 content nonce
         (if wrapped = None then None else Some 1) (sc_content body) (Some owner) None (rq_clock rq)) (secret_versions db),
       secret_recipients := (case sc_allowed_emails body of None \<Rightarrow> secret_recipients db
         | Some es \<Rightarrow> secret_recipients db @ map (\<lambda>e. \<lparr>r_secret = ?sid, r_email = e\<rparr>) es),
       access_policies := sql_insert \<lparr>p_secret = ?sid, p_cidrs = sc_cidrs body, p_countries = sc_countries body,
         p_mode = sc_mode body, p_fail_closed = sc_fail_closed body, p_version = 1\<rparr> (access_policies db),
       secret_tracking := sql_insert \<lparr>t_secret = ?sid, t_owner = owner,
         t_retain = rq_txn rq + sc_ttl body * hour + VIEW_HISTORY_RETENTION_DAYS (cfg P) * day\<rparr> (secret_tracking db)\<rparr>"
    by (rule create_rows_Inr)
  note refs = refs_okD [OF assms(2) c(2)]
  have "secret_of db' x = (if x = ?sid then Some (created_row P rq ?sid body owner content nonce token)
      else secret_of db x)" for x
    using c(2) unfolding db'
    by (simp add: secret_of_def row_of_update row_of_insert split: option.split) (simp add: created_row_def)
  moreover have "policy_of db' ?sid = Some \<lparr>p_secret = ?sid, p_cidrs = sc_cidrs body,
       p_countries = sc_countries body, p_mode = sc_mode body, p_fail_closed = sc_fail_closed body, p_version = 1\<rparr>"
    using refs(3) by (simp add: db' policy_of_def row_of_insert)
  moreover have "keys_of db' ?sid = (case wrapped of None \<Rightarrow> [] | Some (w, n) \<Rightarrow>
       [\<lparr>k_secret = ?sid, k_wrapped = w, k_nonce = n, k_version = 1, k_rotated = None\<rparr>])"
    using refs(1) by (auto simp: db' keys_of_def sql_select_insert split: option.splits)
  moreover have "version_of db' ?sid 1 = Some (text_version ?sid 1 content nonce
       (if wrapped = None then None else Some 1) (sc_content body) (Some owner) None (rq_clock rq))"
    using refs(2) by (simp add: db' version_of_def row_of_insert text_version_def)
  moreover have "\<forall>n. n \<noteq> 1 \<longrightarrow> version_of db' ?sid n = None"
    using refs(2) by (simp add: db' version_of_def row_of_insert text_version_def)
  moreover have "is_recipient db' ?sid e \<longleftrightarrow> (\<exists>es. sc_allowed_emails body = Some es \<and> (\<exists>x \<in> set es. citext_eq x e))" for e
    using refs(4) by (auto simp: db' is_recipient_iff bex_Un split: option.splits)
  moreover have "\<exists>t. row_of t_secret (secret_tracking db') ?sid = Some t"
    using c(4) by (simp add: db' row_of_insert)
  moreover have "users db' = users db" by (simp add: db')
  ultimately show thesis using c by (intro that) auto
qed

lemma encrypt_body_readable:
  assumes "encrypt_body P rd body = Inr (content, nonce, wrapped)"
    and "aead_ok (cr P)" "length (kek (cr P)) = 32" "rand_ok rd" "is_text (sc_content body)"
    and "s_id s = sid" "s_content s = Some content" "s_nonce s = nonce"
    and "keys_of db sid = (case wrapped of None \<Rightarrow> [] | Some (w, n) \<Rightarrow>
       [\<lparr>k_secret = sid, k_wrapped = w, k_nonce = n, k_version = 1, k_rotated = None\<rparr>])"
  shows "read_content P db s = Inr (Some (sc_content body), sc_client_encrypted body)"
proof (cases "sc_client_encrypted body")
  case True
  then have "content = sc_content body" "wrapped = None"
    using assms(1) by (auto simp: encrypt_body_def split: sum.splits exc.splits option.splits)
  with True assms show ?thesis by (simp add: read_content_def secret_keys_exist_def)
next
  case False
  then obtain n where w: "wrapped = Some (wrap_dek (cr P) (rd_dek_nonce rd) (rd_dek rd))" "nonce = Some n"
    "encrypt_content (cr P) (rd_nonce rd) (sc_content body) (rd_dek rd) = Inr (content, n)"
    using assms(1) by (auto simp: encrypt_body_def bind_res_eq_Inr Let_def)
  have l: "length (rd_nonce rd) = 12" "length (rd_dek_nonce rd) = 12" using assms(4) by (simp_all add: rand_ok_def)
  have "get_dek_for_secret (cr P) db sid None = Inr (rd_dek rd)"
    using assms(9) w(1) wrap_unwrap [OF assms(2,3) l(2), of "rd_dek rd"]
    by (simp add: get_dek_for_secret_def order_desc_def split_beta)
  moreover have "decrypt_content (cr P) content n (rd_dek rd) = Inr (sc_content body)"
    using decrypt_encrypt_content [OF assms(2) l(1) assms(5) w(3)] .
  ultimately show ?thesis
    using False w assms(6-9) by (simp add: read_content_def secret_keys_exist_def split_beta)
qed

lemma commit_audit:
  "commit_txn db0 (audit_log_conn P rq e db) =
     (if audit_accepts P e db then db\<lparr>audit_logs := sql_insert (audit_row_of rq e) (audit_logs db)\<rparr> else db0)"
  by (simp add: commit_txn_def audit_log_conn_eq)

lemma create_secret_Inr:
  assumes "create_secret P rq rd rid body user w = (Inr resp, w')"
  obtains r q q' token db1 where
    "reserve P (wd_db w) (rq_now rq) rid (cu_id user) 1 0 (wd_quota w) = (Inr r, q)"
    "create_rows P rq rd body (cu_id user) (wd_db w) = Inr (token, db1)"
    "commit r q = (Inr (), q')" "wd_quota w' = q'"
    "wd_db w' = commit_txn (wd_db w) (audit_log_conn P rq
                 \<lparr>ae_action = ''secret_created'', ae_actor = Some (cu_id user), ae_ip = Some (rq_ip rq),
                  ae_secret = Some (rd_uuid rd), ae_severity = Info\<rparr> db1)"
    "\<exists>s. secret_of (wd_db w') (rd_uuid rd) = Some s \<and> cp_expires resp = s_expires s"
    "cp_id resp = rd_uuid rd" "cp_token resp = token"
  using assms
  by (auto simp: create_secret_def Let_def schedule_expiry_def split: sum.splits prod.splits option.splits)

text \<open>What the answer shows: the link with the token, and the same link as a QR code.\<close>

lemma create_secret_link:
  assumes "create_secret P rq rd rid body user w = (Inr resp, w')"
  shows "cp_url resp = BASE_URL (cfg P) @ ''/api/secrets/'' @ uuid_str (cp_id resp) @ ''?token='' @ cp_token resp"
    and "b64decode strict (cp_qr resp) = Some (qr_png P (cp_url resp))"
  using assms
  by (auto simp: create_secret_def generate_qr_code_def Let_def schedule_expiry_def split: sum.splits prod.splits option.splits)

subsection \<open>Properties\<close>

text \<open>Who may read: the recipients of the body, with their e-mail address verified.\<close>

definition viewer_ok :: "secret_create \<Rightarrow> current_user option \<Rightarrow> bool" where
  "viewer_ok body viewer \<longleftrightarrow>
     (case sc_allowed_emails body of None \<Rightarrow> True
      | Some es \<Rightarrow> (\<exists>u. viewer = Some u \<and> cu_verified u \<and> (\<exists>x \<in> set es. citext_eq x (cu_email u))))"

lemma record_view_tracked:
  assumes "row_of t_secret (secret_tracking db) sid = Some t"
    and "\<forall>u. user = Some u \<longrightarrow> user_of db (cu_id u) \<noteq> None"
  shows "\<exists>db1. record_view rq sid user v db = Inr (1, db1)"
  using assms by (auto simp: record_view_def split: option.splits)

lemma retrieve_locked_ok:
  assumes g: "retrieve_guards P rq pv sid pw user db = Inr s"
    and r: "read_content P db s = Inr (Some p, ce)"
    and v: "record_view rq sid user (s_version s) db = Inr (1, db1)"
    and a: "audit_accepts P (viewed_entry rq sid user) db1"
  shows "\<exists>note. retrieve_locked P rq pv sid pw user db =
    (Inr (\<lparr>ct_content = p, ct_created = s_created s, ct_expires = s_expires s,
           ct_remaining = s_max_views s - (s_view_count s + 1), ct_client_encrypted = ce,
           ct_version = s_version s\<rparr>, note), viewed_db P rq sid user s db1)"
proof -
  have lt: "s_view_count s < s_max_views s" using g by (simp add: retrieve_guards_Inr)
  have "exec_txn (update_view_count (rq_clock rq) sid (s_view_count s + 1) (s_max_views s \<le> s_view_count s + 1))
      (audit_log_conn P rq (viewed_entry rq sid user) db1) = Inr (viewed_db P rq sid user s db1)"
    using a by (simp add: exec_audit_conn viewed_db_def)
  with g r v lt show ?thesis by (simp add: retrieve_locked_def Let_def)
qed

lemma audit_accepts_viewed:
  "audit_accepts P (viewed_entry rq sid user) db \<longleftrightarrow>
     inet_ok P (rq_ip rq) \<and> (\<forall>u. user = Some u \<longrightarrow> user_of db (cu_id u) \<noteq> None) \<and> secret_of db sid \<noteq> None"
  by (auto simp: audit_accepts_def viewed_entry_def audit_actions_def)

lemma authorize_ok:
  assumes "policy_of db sid = Some p" "check_share_token P rq sid token (p_version p) = Inr ()"
    and "\<forall>v \<in> set (p_cidrs p). net_parse P v \<noteq> None"
    and "location_allowed P (rq_ip rq) (p_cidrs p) (map str_strip (p_countries p)) (p_mode p) (p_fail_closed p)"
  shows "authorize P rq sid token db = (Inr (p_version p), db)"
proof -
  obtain country reason where "evaluate P (rq_ip rq) (p_cidrs p) (map str_strip (p_countries p)) (p_mode p)
      (p_fail_closed p) = Inr (True, country, reason)"
    using evaluate_allowed [of "p_cidrs p" P "rq_ip rq" "map str_strip (p_countries p)" "p_mode p"
        "p_fail_closed p"] assms(3,4) by auto
  with assms(1,2) show ?thesis by (simp add: authorize_def)
qed

text \<open>C1: what is stored comes back: after a successful creation (with the cipher's law and random
  values of the right length) whoever meets the restrictions of the body (its recipients, its
  password, its location rules, within its lifetime) retrieves exactly the content that was sent
  with the link that was returned, as version 1 and with one view fewer left; content encrypted by the client
  comes back as it was sent.\<close>

theorem create_then_retrieve:
  assumes cipher: "aead_ok (cr P)" "length (kek (cr P)) = 32" "rand_ok rd" "is_text (sc_content body)"
    and refs: "refs_ok (wd_db w)"
    and created: "create_secret P rq rd rid body user w = (Inr resp, w')"
    and viewer: "viewer_ok body viewer" "\<forall>u. viewer = Some u \<longrightarrow> user_of (wd_db w) (cu_id u) \<noteq> None"
    and password: "sc_password_protected body \<longrightarrow> truthy pw \<and> pw = sc_access_password body"
    and place: "inet_ok P (rq_ip rq2)" "\<forall>v \<in> set (sc_cidrs body). net_parse P v \<noteq> None"
      "location_allowed P (rq_ip rq2) (sc_cidrs body) (map str_strip (sc_countries body)) (sc_mode body) (sc_fail_closed body)"
    and time: "rq_now rq2 \<le> cp_expires resp" "rq_now rq2 \<le> (trunc_seconds (rq_now rq) + sc_ttl body * 3600) * second"
    and views: "1 \<le> sc_max_views body"
  shows "\<exists>note db'. retrieve_secret P rq2 (uuid_str (cp_id resp)) pw (Some (cp_token resp)) viewer (wd_db w') =
    (Inr (\<lparr>ct_content = sc_content body, ct_created = rq_txn rq, ct_expires = cp_expires resp,
           ct_remaining = sc_max_views body - 1, ct_client_encrypted = sc_client_encrypted body,
           ct_version = 1\<rparr>, note), db')"
proof -
  let ?sid = "rd_uuid rd" and ?db = "wd_db w'"
  from created obtain token db1 where c: "create_rows P rq rd body (cu_id user) (wd_db w) = Inr (token, db1)"
    and db: "?db = commit_txn (wd_db w) (audit_log_conn P rq
                 \<lparr>ae_action = ''secret_created'', ae_actor = Some (cu_id user), ae_ip = Some (rq_ip rq),
                  ae_secret = Some ?sid, ae_severity = Info\<rparr> db1)"
    and ex: "\<exists>s. secret_of ?db ?sid = Some s \<and> cp_expires resp = s_expires s"
    and resp: "cp_id resp = ?sid" "cp_token resp = token"
    by (rule create_secret_Inr)
  obtain content nonce wrapped where
    e: "encrypt_body P rd body = Inr (content, nonce, wrapped)" "secret_of (wd_db w) ?sid = None"
    and s: "secret_of db1 ?sid = Some (created_row P rq ?sid body (cu_id user) content nonce token)"
    and p: "policy_of db1 ?sid = Some \<lparr>p_secret = ?sid, p_cidrs = sc_cidrs body,
       p_countries = sc_countries body, p_mode = sc_mode body, p_fail_closed = sc_fail_closed body, p_version = 1\<rparr>"
    and k: "keys_of db1 ?sid = (case wrapped of None \<Rightarrow> [] | Some (w, n) \<Rightarrow>
       [\<lparr>k_secret = ?sid, k_wrapped = w, k_nonce = n, k_version = 1, k_rotated = None\<rparr>])"
    and rec: "\<forall>e. is_recipient db1 ?sid e \<longleftrightarrow> (\<exists>es. sc_allowed_emails body = Some es \<and> (\<exists>x \<in> set es. citext_eq x e))"
    and tr: "\<exists>t. row_of t_secret (secret_tracking db1) ?sid = Some t"
    and us: "users db1 = users (wd_db w)"
    and tok: "token = create_signed_token (cr P) (SIGNED_URL_SECRET (cfg P)) (rq_now rq) ?sid (sc_ttl body) 1 None"
    by (rule create_rows_lookups [OF c refs]) (rule that; assumption)
  let ?s = "created_row P rq ?sid body (cu_id user) content nonce token"
  obtain l where dbl: "?db = db1\<lparr>audit_logs := l\<rparr>"
    using ex e(2) unfolding db commit_audit by (auto split: if_splits)
  have look: "secret_of ?db ?sid = Some ?s" "cp_expires resp = s_expires ?s"
    using ex s by (auto simp: dbl)
  have auth: "authorize P rq2 ?sid (Some token) ?db = (Inr 1, ?db)"
  proof -
    have "check_share_token P rq2 ?sid (Some token) 1 = Inr ()"
      using time(2) unfolding tok check_created_token by simp
    then show ?thesis
      using authorize_ok [of ?db ?sid _ P rq2 "Some token"] p place(2,3) by (simp add: dbl)
  qed
  have g: "retrieve_guards P rq2 1 ?sid pw viewer ?db = Inr ?s"
    using look p time(1) views viewer(1) rec password
    by (auto simp: retrieve_guards_Inr dbl created_row_def viewer_ok_def secret_password_hash_def
        is_recipient_iff truthy_def split: option.splits)
  have r: "read_content P ?db ?s = Inr (Some (sc_content body), sc_client_encrypted body)"
    using k by (intro encrypt_body_readable [OF e(1) cipher]) (simp_all add: created_row_def dbl keys_of_def)
  have uv: "\<forall>u. viewer = Some u \<longrightarrow> user_of ?db (cu_id u) \<noteq> None"
    using viewer(2) us by (simp add: dbl user_of_def)
  obtain t where "row_of t_secret (secret_tracking ?db) ?sid = Some t" using tr by (auto simp: dbl)
  from record_view_tracked [OF this uv] obtain db2 where v: "record_view rq2 ?sid viewer (s_version ?s) ?db = Inr (1, db2)"
    by blast
  have a: "audit_accepts P (viewed_entry rq2 ?sid viewer) db2"
    using place(1) uv look record_view_frame(1,2) [OF v]
    by (simp add: audit_accepts_viewed secret_of_def user_of_def)
  from retrieve_locked_ok [OF g r v a] show ?thesis
    using auth look(2) resp by (auto simp: retrieve_secret_def parse_uuid_str created_row_def)
qed

text \<open>A world for witnesses: one user, an empty Redis.\<close>

definition sample_user_row :: user_row where
  "sample_user_row = \<lparr>u_id = 1, u_email = ''a@x.io'', u_username = ''alice'', u_password_hash = ''pw:p'',
     u_role = ''user'', u_active = True, u_verified = True, u_created = 0, u_updated = 0, u_delete_after = None\<rparr>"

definition sample_world :: world where
  "sample_world = \<lparr>wd_db = empty_db\<lparr>users := [sample_user_row]\<rparr>, wd_quota = Some empty_store, wd_keys = Map.empty\<rparr>"

definition sample_body :: secret_create where
  "sample_body = \<lparr>sc_content = ''hi'', sc_ttl = 1, sc_password_protected = False, sc_access_password = None,
     sc_max_views = 2, sc_allowed_emails = None, sc_notify = False, sc_notify_email = None, sc_webhook = None,
     sc_client_encrypted = False, sc_client_nonce = None, sc_cidrs = [], sc_countries = [], sc_mode = ''all'',
     sc_fail_closed = True\<rparr>"

definition sample_rand :: randomness where
  "sample_rand = \<lparr>rd_uuid = 5, rd_dek = replicate 32 (CHR ''d''), rd_dek_nonce = replicate 12 (CHR ''n''),
     rd_nonce = replicate 12 (CHR ''m'')\<rparr>"

lemma sample_rand_ok [simp]: "rand_ok sample_rand" "rd_uuid sample_rand = 5"
  by (simp_all add: rand_ok_def sample_rand_def)

lemma sample_refs_ok: "refs_ok (empty_db\<lparr>users := l\<rparr>)"
  by (simp add: refs_ok_def empty_db_def)

text \<open>The sample creation succeeds.\<close>

lemma sample_created:
  "\<exists>resp w'. create_secret demo_platform demo_request sample_rand 9 sample_body sample_user sample_world = (Inr resp, w') \<and>
     cp_expires resp = 1000 * second + hour"
proof -
  have r: "reserve demo_platform (wd_db sample_world) (rq_now demo_request) 9 1 1 0 (wd_quota sample_world) =
      (Inr \<lparr>re_id = 9, re_user = 1, re_secrets = 1, re_bytes = 0\<rparr>,
       Some (snd (lua_reserve 1 9 1 0 100 5000 1600 0 0 empty_store)))"
    by (simp add: reserve_def sample_world_def lua_reserve_def empty_store_def usage_or_0_def durable_usage_def
        limits_for_user_def empty_db_def sql_select_def sum_of_def demo_settings_def demo_request_def)
  have u: "user_of (empty_db\<lparr>users := [sample_user_row]\<rparr>) 1 = Some sample_user_row"
    by (simp add: user_of_def sample_user_row_def)
  obtain token db1 where c: "create_rows demo_platform demo_request sample_rand sample_body 1 (wd_db sample_world) = Inr (token, db1)"
    by (simp add: create_rows_def encrypt_body_def sample_body_def sample_world_def encrypt_content_ok
        sample_rand_def insert_secret_def secret_of_def u insert_version_def version_of_def Let_def split_beta
        insert_tracking_def empty_db_def add_key_def text_version_def insert_policy_def row_of_insert
        user_of_def sample_user_row_def)
  obtain content nonce wrapped where s:
    "secret_of db1 5 = Some (created_row demo_platform demo_request 5 sample_body 1 content nonce token)"
    "users db1 = users (wd_db sample_world)"
    by (rule create_rows_lookups [OF c])
      (simp_all add: sample_world_def sample_refs_ok)
  have "audit_accepts demo_platform \<lparr>ae_action = ''secret_created'', ae_actor = Some 1,
      ae_ip = Some (rq_ip demo_request), ae_secret = Some 5, ae_severity = Info\<rparr> db1"
    using s by (auto simp: audit_accepts_def audit_actions_def demo_request_def user_of_def sample_world_def
        sample_user_row_def)
  then show ?thesis
    using r c s by (simp add: create_secret_def sample_user_def Let_def commit_def lua_commit_def schedule_expiry_def
        commit_audit split: prod.splits option.splits)
      (simp add: created_row_def demo_request_def sample_body_def)
qed

theorem create_then_retrieve_witness:
  "\<exists>resp w' note db' c. create_secret demo_platform demo_request sample_rand 9 sample_body sample_user sample_world = (Inr resp, w') \<and>
     retrieve_secret demo_platform demo_request (uuid_str (cp_id resp)) None (Some (cp_token resp)) None (wd_db w') =
       (Inr (c, note), db') \<and> ct_content c = ''hi''"
proof -
  from sample_created obtain resp w' where
    c: "create_secret demo_platform demo_request sample_rand 9 sample_body sample_user sample_world = (Inr resp, w')"
    and e: "cp_expires resp = 1000 * second + hour" by blast
  have t: "is_text (sc_content sample_body)" by code_simp
  have tr: "trunc_seconds (rq_now demo_request) = 1000" by code_simp
  from create_then_retrieve [of demo_platform sample_rand sample_body sample_world demo_request 9 sample_user resp w'
      None None demo_request] c e t tr
  show ?thesis
    by (fastforce simp: tag_crypto_laws sample_refs_ok sample_world_def viewer_ok_def sample_body_def
        location_allowed_def demo_request_def)
qed

lemma retrieve_secret_Inr:
  assumes "retrieve_secret P rq secret_id pw token user db = (Inr (c, note), db')"
  obtains sid p where "parse_uuid secret_id = Some sid" "authorize P rq sid token db = (Inr (p_version p), db)"
    "policy_of db sid = Some p" "retrieve_locked P rq (p_version p) sid pw user db = (Inr (c, note), db')"
proof -
  from assms obtain sid pv db1 where s: "parse_uuid secret_id = Some sid"
      "authorize P rq sid token db = (Inr pv, db1)" "retrieve_locked P rq pv sid pw user db1 = (Inr (c, note), db')"
    by (auto simp: retrieve_secret_def split: option.splits prod.splits sum.splits exc.splits)
  from authorize_Inr [OF s(2)] s show thesis using that by blast
qed

text \<open>C2: a retrieval succeeds only for a live text secret whose policy accepts token and address,
  before its expiry time and with views left, for a verified recipient when it is restricted and
  with the right password when it is protected; the content is what decryption gives; the view is
  counted, the last one removes the secret, and no other secret changes.\<close>

theorem retrieve_secret_sound:
  assumes "retrieve_secret P rq secret_id pw token user db = (Inr (c, note), db')"
  shows "\<exists>sid s p. parse_uuid secret_id = Some sid \<and> secret_of db sid = Some s \<and> policy_of db sid = Some p \<and>
    fst (authorize P rq sid token db) = Inr (p_version p) \<and>
    rq_now rq \<le> s_expires s \<and> s_view_count s < s_max_views s \<and> s_payload s = Text \<and>
    (s_email_restricted s \<longrightarrow> (\<exists>u. user = Some u \<and> cu_verified u \<and> is_recipient db sid (cu_email u))) \<and>
    (s_protected s \<longrightarrow> (\<exists>q. pw = Some q \<and> q \<noteq> [] \<and> Some (sha256_hash (cr P) q) = s_password_hash s)) \<and>
    read_content P db s = Inr (Some (ct_content c), ct_client_encrypted c) \<and> ct_version c = s_version s \<and>
    ct_remaining c = s_max_views s - s_view_count s - 1 \<and>
    secret_of db' sid = (if s_max_views s \<le> s_view_count s + 1 then None
       else Some (s\<lparr>s_view_count := s_view_count s + 1, s_viewed := False\<rparr>)) \<and>
    (\<forall>x. x \<noteq> sid \<longrightarrow> secret_of db' x = secret_of db x)"
proof -
  from assms obtain sid p where a: "parse_uuid secret_id = Some sid"
      "authorize P rq sid token db = (Inr (p_version p), db)" "policy_of db sid = Some p"
      "retrieve_locked P rq (p_version p) sid pw user db = (Inr (c, note), db')"
    by (rule retrieve_secret_Inr)
  from a(4) obtain s db1 n where l: "retrieve_guards P rq (p_version p) sid pw user db = Inr s"
    "read_content P db s = Inr (Some (ct_content c), ct_client_encrypted c)"
    "record_view rq sid user (s_version s) db = Inr (n, db1)" "db' = viewed_db P rq sid user s db1"
    "ct_remaining c = s_max_views s - (s_view_count s + 1)" "ct_version c = s_version s"
    by (rule retrieve_locked_Inr)
  note g = l(1) [unfolded retrieve_guards_Inr]
  have "secret_of db' x = (if sid = x then (if s_max_views s \<le> s_view_count s + 1 then None
        else Some (s\<lparr>s_view_count := s_view_count s + 1, s_viewed := False\<rparr>)) else secret_of db x)" for x
    unfolding l(4) by (rule secret_of_viewed_db [OF l(1,3)])
  with a g l show ?thesis by (intro exI [of _ sid] exI [of _ s] exI [of _ p]) auto
qed

text \<open>A secret with two views left, and a request that reads it.\<close>

definition live_row :: secret_row where
  "live_row = created_row demo_platform demo_request 5 (sample_body\<lparr>sc_client_encrypted := True, sc_notify := True, sc_notify_email := Some ''n@x.io''\<rparr>)
     1 ''hi'' None []"

definition live_db :: database where
  "live_db = empty_db\<lparr>secrets := [live_row], access_policies := [sample_policy]\<rparr>"

lemma live_db_sel: "secret_of live_db 5 = Some live_row" "secrets live_db = [live_row]"
    "s_max_views live_row = 2" "s_view_count live_row = 0" "s_content live_row \<noteq> None" "\<not> s_viewed live_row"
  by (simp_all add: live_db_def live_row_def secret_of_def created_row_def sample_body_def)

lemma live_db_retrieved:
  "\<exists>c nt db'. retrieve_secret demo_platform demo_request (uuid_str 5) None None None live_db = (Inr (c, nt), db')"
proof -
  let ?row = live_row and ?db = live_db
  note s = live_db_sel(1)
  have p: "policy_of ?db 5 = Some sample_policy" by (simp add: policy_of_def sample_policy_def live_db_def)
  have a: "authorize demo_platform demo_request 5 None ?db = (Inr 3, ?db)"
    using authorize_ok [OF p, of demo_platform demo_request None]
    by (simp add: check_share_token_def sample_policy_def location_allowed_def)
  have g: "retrieve_guards demo_platform demo_request 3 5 None None ?db = Inr ?row"
    using s p by (simp add: retrieve_guards_Inr live_row_def created_row_def sample_body_def demo_request_def sample_policy_def)
  have rc: "read_content demo_platform ?db ?row = Inr (Some ''hi'', True)"
    by (simp add: read_content_def secret_keys_exist_def keys_of_def live_db_def empty_db_def sql_select_def live_row_def created_row_def)
  have e: "\<not> s_email_restricted ?row" "s_view_count ?row < s_max_views ?row"
    by (simp_all add: live_row_def created_row_def sample_body_def)
  have v: "record_view demo_request 5 None (s_version ?row) ?db = Inr (0, ?db)"
    by (simp add: record_view_def live_db_def empty_db_def)
  have acc: "audit_accepts demo_platform (viewed_entry demo_request 5 None) ?db"
    using s by (simp add: audit_accepts_viewed demo_request_def)
  have x: "exec_txn (update_view_count (rq_clock demo_request) 5 (s_view_count ?row + 1)
      (s_max_views ?row \<le> s_view_count ?row + 1)) (audit_log_conn demo_platform demo_request
        (viewed_entry demo_request 5 None) ?db) = Inr (viewed_db demo_platform demo_request 5 None ?row ?db)"
    using acc by (simp add: exec_audit_conn viewed_db_def)
  show ?thesis
    using a g rc v x e by (simp add: retrieve_secret_def parse_uuid_str retrieve_locked_def Let_def)
qed

theorem retrieve_secret_sound_witness:
  "\<exists>db c note db'. retrieve_secret demo_platform demo_request (uuid_str 5) None None None db = (Inr (c, note), db') \<and>
     (\<exists>s. secret_of db 5 = Some s \<and> ct_remaining c = s_max_views s - s_view_count s - 1)"
proof -
  obtain c nt db' where r: "retrieve_secret demo_platform demo_request (uuid_str 5) None None None live_db = (Inr (c, nt), db')"
    using live_db_retrieved by blast
  with retrieve_secret_sound [OF r] live_db_sel(1) show ?thesis by (auto simp: parse_uuid_str)
qed

text \<open>Text secrets carry their content: what the failure case of a retrieval depends on.\<close>

definition text_content :: "database \<Rightarrow> bool" where
  "text_content db \<longleftrightarrow> (\<forall>s \<in> set (secrets db). s_payload s = Text \<longrightarrow> s_content s \<noteq> None)"

lemma text_content_of: "text_content db \<Longrightarrow> secret_of db sid = Some s \<Longrightarrow> s_payload s = Text \<Longrightarrow> \<exists>c. s_content s = Some c"
  using row_of_Some by (fastforce simp: text_content_def secret_of_def)

lemma retrieve_secret_Inl:
  assumes "retrieve_secret P rq secret_id pw token user db = (Inl e, db')" and "text_content db"
  shows "\<exists>l. db' = db\<lparr>audit_logs := l\<rparr>"
proof (cases "parse_uuid secret_id")
  case None
  with assms show ?thesis by (auto simp: retrieve_secret_def intro: exI [of _ "audit_logs db"])
next
  case (Some sid)
  obtain r db1 where a: "authorize P rq sid token db = (r, db1)" by (cases "authorize P rq sid token db")
  have l: "\<exists>l. db1 = db\<lparr>audit_logs := l\<rparr>"
    using a by (auto simp: authorize_def audit_log_eq split: option.splits sum.splits prod.splits if_splits
        intro: exI [of _ "audit_logs db"])
  show ?thesis
  proof (cases r)
    case (Inl x)
    with assms Some a l show ?thesis by (cases x) (auto simp: retrieve_secret_def)
  next
    case (Inr pv)
    with assms Some a have "retrieve_locked P rq pv sid pw user db1 = (Inl e, db')"
      by (simp add: retrieve_secret_def)
    moreover have "\<exists>c. s_content s = Some c" if "secret_of db1 sid = Some s" "s_payload s = Text" for s
      using text_content_of [OF assms(2) _ that(2)] that(1) l by auto
    ultimately have "db' = db1" by (intro retrieve_locked_Inl)
    with l show ?thesis by simp
  qed
qed



subsection \<open>The view budget\<close>

definition views_left :: "database \<Rightarrow> uuid \<Rightarrow> nat" where
  "views_left db sid = (case secret_of db sid of None \<Rightarrow> 0 | Some s \<Rightarrow> nat (s_max_views s - s_view_count s))"

text \<open>A request as the endpoints receive it.\<close>

record attempt =
  at_request :: request
  at_id :: string
  at_password :: "string option"
  at_token :: "string option"
  at_user :: "current_user option"

abbreviation try_retrieve ::
  "platform \<Rightarrow> attempt \<Rightarrow> database \<Rightarrow> (secret_content \<times> view_notice option) res \<times> database" where
  "try_retrieve P a db \<equiv> retrieve_secret P (at_request a) (at_id a) (at_password a) (at_token a) (at_user a) db"

fun retrieve_all ::
  "platform \<Rightarrow> attempt list \<Rightarrow> database \<Rightarrow> (secret_content \<times> view_notice option) res list \<times> database" where
  "retrieve_all P [] db = ([], db)"
| "retrieve_all P (a # as) db =
     (let (r, db1) = try_retrieve P a db; (rs, db2) = retrieve_all P as db1 in (r # rs, db2))"

definition successes ::
  "uuid \<Rightarrow> attempt list \<Rightarrow> (secret_content \<times> view_notice option) res list \<Rightarrow> nat" where
  "successes sid as rs = length (filter (\<lambda>(a, r). parse_uuid (at_id a) = Some sid \<and> ok r) (zip as rs))"

lemma retrieve_views_left:
  assumes "try_retrieve P a db = (r, db')" and "text_content db"
  shows "views_left db sid = views_left db' sid + (if parse_uuid (at_id a) = Some sid \<and> ok r then 1 else 0) \<and>
    text_content db'"
proof (cases r)
  case (Inl e)
  then obtain l where "db' = db\<lparr>audit_logs := l\<rparr>" using assms retrieve_secret_Inl by blast
  with Inl assms(2) show ?thesis by (simp add: views_left_def text_content_def)
next
  case (Inr x)
  then obtain c nt where "x = (c, nt)" "try_retrieve P a db = (Inr (c, nt), db')"
    using assms(1) by (cases x) auto
  from this(2) obtain sid' and p :: policy_row where p: "parse_uuid (at_id a) = Some sid'"
      "retrieve_locked P (at_request a) (p_version p) sid' (at_password a) (at_user a) db = (Inr (c, nt), db')"
    by (rule retrieve_secret_Inr) (rule that; assumption)
  from p(2) obtain s db1 n where
    g: "retrieve_guards P (at_request a) (p_version p) sid' (at_password a) (at_user a) db = Inr s" and
    v: "record_view (at_request a) sid' (at_user a) (s_version s) db = Inr (n, db1)"
       "db' = viewed_db P (at_request a) sid' (at_user a) s db1"
    by (rule retrieve_locked_Inr) (rule that; assumption)
  have "text_content db'"
    using assms(2) record_view_frame(1) [OF v(1)]
    by (auto simp: text_content_def v(2) viewed_db_def secrets_view_count rows set_sql_update split: if_splits)
  then show ?thesis
    using g p(1) Inr secret_of_viewed_db [OF g v(1), of sid]
    by (auto simp: views_left_def v(2) retrieve_guards_Inr nat_diff_distrib)
qed

text \<open>C3: whatever sequence of requests arrives, for any secrets and by any clients, the successful
  retrievals of a secret and the views it has left afterwards add up to the views it had left: a
  secret is never read more often than its limit, and refused attempts cost nothing.\<close>

theorem view_budget:
  assumes "retrieve_all P as db = (rs, db')" and "text_content db"
  shows "successes sid as rs + views_left db' sid = views_left db sid"
  using assms
proof (induction as arbitrary: db rs)
  case Nil
  then show ?case by (simp add: successes_def)
next
  case (Cons a as)
  obtain r db1 where s: "try_retrieve P a db = (r, db1)" by (cases "try_retrieve P a db")
  obtain rs' where rs: "retrieve_all P as db1 = (rs', db')" "rs = r # rs'"
    using Cons.prems(1) s by (auto simp: Let_def split: prod.splits)
  from retrieve_views_left [OF s Cons.prems(2), of sid] Cons.IH [OF rs(1)] rs(2)
  show ?case by (auto simp: successes_def)
qed

definition view_attempt :: attempt where
  "view_attempt = \<lparr>at_request = demo_request, at_id = uuid_str 5, at_password = None, at_token = None, at_user = None\<rparr>"

theorem view_budget_witness:
  "\<exists>rs db'. retrieve_all demo_platform [view_attempt] live_db = (rs, db') \<and> views_left live_db 5 = 2 \<and>
     successes 5 [view_attempt] rs = 1 \<and> views_left db' 5 = 1"
proof -
  obtain c nt db' where "retrieve_secret demo_platform demo_request (uuid_str 5) None None None live_db = (Inr (c, nt), db')"
    using live_db_retrieved by blast
  then have r: "retrieve_all demo_platform [view_attempt] live_db = ([Inr (c, nt)], db')"
    by (simp add: view_attempt_def)
  have v: "views_left live_db 5 = 2" by (simp add: views_left_def live_db_sel)
  have "successes 5 [view_attempt] [Inr (c, nt)] = 1"
    by (simp add: successes_def view_attempt_def parse_uuid_str)
  moreover have "text_content live_db" by (simp add: text_content_def live_db_sel)
  from view_budget [OF r this, of 5] have "successes 5 [view_attempt] [Inr (c, nt)] + views_left db' 5 = 2" using v by simp
  ultimately show ?thesis using r v by auto
qed



end
