(* ===== verification/Secret_Versions.thy ===== *)
theory Secret_Versions
  imports Secrets
begin

text \<open>
  app/routers/secret_versions.py: appending, listing and restoring versions of a text secret.  A
  version carries its own key; the secret's row holds the current one.  The contract is an
  append-only document, \<open>document\<close>: the locale \<open>version_store\<close> states it, and the handlers
  (updating, restoring, rotating, retrieving) are its interpretation.
\<close>

definition set_current :: "request \<Rightarrow> uuid \<Rightarrow> string \<Rightarrow> string \<Rightarrow> int \<Rightarrow> database \<Rightarrow> database" where
  "set_current rq sid ct nonce version db =
     db\<lparr>secrets := sql_update (\<lambda>s. s_id s = sid)
          (\<lambda>s. s\<lparr>s_content := Some ct, s_nonce := Some nonce, s_version := version, s_updated := rq_clock rq\<rparr>)
          (secrets db)\<rparr>"

definition insert_text_version ::
  "crypto \<Rightarrow> request \<Rightarrow> randomness \<Rightarrow> uuid \<Rightarrow> int \<Rightarrow> string \<Rightarrow> uuid \<Rightarrow> string option \<Rightarrow> database \<Rightarrow> (int \<times> database) res" where
  "insert_text_version C rq rd sid version plaintext actor note db =
     (let ((dek, key_version), db1) = create_version_key C (rq_clock rq) rd sid db in
      bind_res (encrypt_content C (rd_nonce rd) plaintext dek) (\<lambda>(ciphertext, nonce).
      bind_res (insert_version (text_version sid version ciphertext (Some nonce) (Some key_version) plaintext
          (Some actor) note (rq_clock rq)) db1) (\<lambda>db2.
      Inr (key_version, set_current rq sid ciphertext nonce version db2))))"

text \<open>The end of both transactions: the audit entry on the same connection, then COMMIT.\<close>

definition commit_with_audit :: "platform \<Rightarrow> request \<Rightarrow> string \<Rightarrow> uuid \<Rightarrow> current_user \<Rightarrow> database \<Rightarrow> database \<Rightarrow> database" where
  "commit_with_audit P rq action sid user db0 db =
     commit_txn db0 (audit_log_conn P rq
       \<lparr>ae_action = action, ae_actor = Some (cu_id user), ae_ip = Some (rq_ip rq), ae_secret = Some sid,
        ae_severity = Info\<rparr> db)"

definition update_guards :: "platform \<Rightarrow> request \<Rightarrow> uuid \<Rightarrow> secret_update \<Rightarrow> current_user \<Rightarrow> database \<Rightarrow> secret_row res" where
  "update_guards P rq sid body user db =
     (case secret_of db sid of
        None \<Rightarrow> Inl (http 404 ''Secret not found'')
      | Some s \<Rightarrow>
      bind_res (require_owns_secret (s_owner s) user) (\<lambda>_.
        if s_expires s \<le> rq_now rq then Inl (http 410 ''Secret has expired'')
        else if s_payload s \<noteq> Text then Inl (http 409 ''Use the file update endpoint'')
        else if s_version s \<noteq> su_expected body then Inl (HTTPException 409 (VersionConflict (s_version s)) [])
        else if MAX_SECRET_VERSIONS (cfg P) \<le> s_version s then Inl (http 409 ''Maximum versions reached'')
        else
          (case version_of db sid (s_version s) of
             None \<Rightarrow> Inl (http 409 ''Server-side updates are unavailable for client-encrypted secrets'')
           | Some v \<Rightarrow>
               if v_key v = None
               then Inl (http 409 ''Server-side updates are unavailable for client-encrypted secrets'')
               else Inr s)))"

definition update_secret ::
  "platform \<Rightarrow> request \<Rightarrow> randomness \<Rightarrow> uuid \<Rightarrow> secret_update \<Rightarrow> current_user \<Rightarrow> database \<Rightarrow>
   (int \<times> micros) res \<times> database" where
  "update_secret P rq rd sid body user db =
     (case update_guards P rq sid body user db of
        Inl e \<Rightarrow> (Inl e, db)
      | Inr s \<Rightarrow>
     (let new_version = s_version s + 1 in
      case insert_text_version (cr P) rq rd sid new_version (su_content body) (cu_id user) (su_note body) db of
        Inl e \<Rightarrow> (Inl e, db)
      | Inr (key_version, db1) \<Rightarrow>
          (Inr (new_version, rq_now rq), commit_with_audit P rq ''secret_updated'' sid user db db1)))"

record version_item =
  vi_version :: int
  vi_size :: int
  vi_created_by :: "uuid option"
  vi_note :: "string option"
  vi_created :: micros
  vi_current :: bool

definition list_secret_versions :: "uuid \<Rightarrow> current_user \<Rightarrow> database \<Rightarrow> (int \<times> version_item list) res" where
  "list_secret_versions sid user db =
     (case secret_of db sid of
        None \<Rightarrow> Inl (http 404 ''Secret not found'')
      | Some s \<Rightarrow>
      bind_res (require_owns_secret (s_owner s) user) (\<lambda>_.
        Inr (s_version s,
          map (\<lambda>v. \<lparr>vi_version = v_version v, vi_size = v_size v, vi_created_by = v_created_by v,
                     vi_note = v_note v, vi_created = v_created v, vi_current = (v_version v = s_version s)\<rparr>)
            (order_desc v_version (sql_select (\<lambda>v. v_secret v = sid) (secret_versions db))))))"

text \<open>The version to restore and the text it holds.\<close>

definition restore_plaintext :: "platform \<Rightarrow> uuid \<Rightarrow> int \<Rightarrow> current_user \<Rightarrow> database \<Rightarrow> (secret_row \<times> string) res" where
  "restore_plaintext P sid version user db =
     (case secret_of db sid of
        None \<Rightarrow> Inl (http 404 ''Secret not found'')
      | Some s \<Rightarrow>
      bind_res (require_owns_secret (s_owner s) user) (\<lambda>_.
        if MAX_SECRET_VERSIONS (cfg P) \<le> s_version s then Inl (http 409 ''Maximum versions reached'')
        else
          (case version_of db sid version of
             None \<Rightarrow> Inl (http 404 ''Secret version not found'')
           | Some old \<Rightarrow>
               (case v_key old of
                  None \<Rightarrow> Inl (http 409 ''Only server-encrypted text versions can be restored'')
                | Some k \<Rightarrow>
                    if v_payload old \<noteq> Text
                    then Inl (http 409 ''Only server-encrypted text versions can be restored'')
                    else
                      bind_res (get_dek_for_secret (cr P) db sid (Some k)) (\<lambda>dek.
                      bind_res (case (v_content old, v_nonce old) of
                          (Some c, Some n) \<Rightarrow> decrypt_content (cr P) c n dek
                        | _ \<Rightarrow> Inl TypeError) (\<lambda>p. Inr (s, p)))))))"

definition restore_secret_version ::
  "platform \<Rightarrow> request \<Rightarrow> randomness \<Rightarrow> uuid \<Rightarrow> int \<Rightarrow> current_user \<Rightarrow> database \<Rightarrow>
   (int \<times> micros) res \<times> database" where
  "restore_secret_version P rq rd sid version user db =
     (case restore_plaintext P sid version user db of
        Inl e \<Rightarrow> (Inl e, db)
      | Inr (s, plaintext) \<Rightarrow>
     (let new_version = s_version s + 1 in
      case insert_text_version (cr P) rq rd sid new_version plaintext (cu_id user)
             (Some (''Restored version '' @ py_str_int version)) db of
        Inl e \<Rightarrow> (Inl e, db)
      | Inr (key_version, db1) \<Rightarrow>
          (Inr (new_version, rq_now rq), commit_with_audit P rq ''secret_version_restored'' sid user db db1)))"

subsection \<open>The document a secret holds\<close>

record document =
  doc_version :: int
  doc_text :: "int \<rightharpoonup> string"

definition doc_append :: "string \<Rightarrow> document \<Rightarrow> document" where
  "doc_append t d = \<lparr>doc_version = doc_version d + 1, doc_text = (doc_text d)(doc_version d + 1 \<mapsto> t)\<rparr>"

text \<open>The text of a stored version, under its own key.\<close>

definition plaintext_of :: "crypto \<Rightarrow> database \<Rightarrow> uuid \<Rightarrow> int \<Rightarrow> string option" where
  "plaintext_of C db sid n =
     (case version_of db sid n of
        Some v \<Rightarrow>
          (case (v_payload v, v_key v, v_content v, v_nonce v) of
             (Text, Some k, Some c, Some m) \<Rightarrow>
               (case bind_res (get_dek_for_secret C db sid (Some k)) (decrypt_content C c m) of
                  Inr p \<Rightarrow> Some p | Inl _ \<Rightarrow> None)
           | _ \<Rightarrow> None)
      | None \<Rightarrow> None)"

text \<open>
  A text secret encrypted by the server whose row agrees with its current version: same ciphertext,
  the key of that version is the latest one, and exactly the versions 1 to the current one exist,
  all readable.
\<close>

definition doc_ok :: "crypto \<Rightarrow> database \<Rightarrow> uuid \<Rightarrow> bool" where
  "doc_ok C db sid \<longleftrightarrow> (\<exists>s v c m k dek.
     secret_of db sid = Some s \<and> s_payload s = Text \<and> s_content s = Some c \<and> s_nonce s = Some m \<and>
     version_of db sid (s_version s) = Some v \<and> v_payload v = Text \<and> v_content v = Some c \<and> v_nonce v = Some m \<and>
     v_key v = Some k \<and> get_dek_for_secret C db sid None = Inr dek \<and> get_dek_for_secret C db sid (Some k) = Inr dek \<and>
     (\<forall>n. version_of db sid n \<noteq> None \<longleftrightarrow> 1 \<le> n \<and> n \<le> s_version s) \<and>
     (\<forall>n. version_of db sid n \<noteq> None \<longrightarrow> plaintext_of C db sid n \<noteq> None))"

definition doc_of :: "crypto \<Rightarrow> database \<Rightarrow> uuid \<Rightarrow> document option" where
  "doc_of C db sid =
     (if doc_ok C db sid then
        (case secret_of db sid of None \<Rightarrow> None
         | Some s \<Rightarrow> Some \<lparr>doc_version = s_version s, doc_text = plaintext_of C db sid\<rparr>)
      else None)"

lemma plaintext_of_cong:
  assumes "version_of db' sid n = version_of db sid n"
    and "\<And>k d. get_dek_for_secret C db sid (Some k) = Inr d \<Longrightarrow> get_dek_for_secret C db' sid (Some k) = Inr d"
    and "plaintext_of C db sid n \<noteq> None"
  shows "plaintext_of C db' sid n = plaintext_of C db sid n"
  using assms
  by (auto simp: plaintext_of_def bind_res_def split: option.splits payload.splits sum.splits)

lemma get_dek_cong: "secret_keys db' = secret_keys db \<Longrightarrow> get_dek_for_secret C db' sid k = get_dek_for_secret C db sid k"
proof -
  assume "secret_keys db' = secret_keys db"
  then have "keys_of db' sid = keys_of db sid" by (simp add: keys_of_def)
  then show ?thesis by (cases k) (simp_all add: get_dek_for_secret_def)
qed

lemma decrypt_is_text: "decrypt_content C c n dek = Inr p \<Longrightarrow> is_text p"
  by (auto simp: decrypt_content_def bind_res_eq_Inr py_decode_def is_text_def split: option.splits if_splits)

lemma plaintext_of_is_text: "plaintext_of C db sid n = Some p \<Longrightarrow> is_text p"
  by (auto simp: plaintext_of_def bind_res_def intro: decrypt_is_text
      split: option.splits payload.splits sum.splits)

lemma doc_of_Some:
  "doc_of C db sid = Some d \<longleftrightarrow> doc_ok C db sid \<and>
     (\<exists>s. secret_of db sid = Some s \<and> d = \<lparr>doc_version = s_version s, doc_text = plaintext_of C db sid\<rparr>)"
  by (auto simp: doc_of_def split: option.splits)

lemma doc_ofE:
  assumes "doc_of C db sid = Some d" "secret_of db sid = Some s"
  obtains v c m k dek where
    "s_payload s = Text" "s_content s = Some c" "s_nonce s = Some m" "version_of db sid (s_version s) = Some v"
    "v_payload v = Text" "v_content v = Some c" "v_nonce v = Some m" "v_key v = Some k"
    "get_dek_for_secret C db sid None = Inr dek" "get_dek_for_secret C db sid (Some k) = Inr dek"
    "version_of db sid (s_version s + 1) = None" "doc_version d = s_version s" "doc_text d = plaintext_of C db sid"
proof -
  from assms obtain v c m k dek where *:
    "s_payload s = Text" "s_content s = Some c" "s_nonce s = Some m" "version_of db sid (s_version s) = Some v"
    "v_payload v = Text" "v_content v = Some c" "v_nonce v = Some m" "v_key v = Some k"
    "get_dek_for_secret C db sid None = Inr dek" "get_dek_for_secret C db sid (Some k) = Inr dek"
    and n: "\<forall>n. version_of db sid n \<noteq> None \<longleftrightarrow> 1 \<le> n \<and> n \<le> s_version s"
    unfolding doc_of_Some doc_ok_def by auto
  have "version_of db sid (s_version s + 1) = None" using n [rule_format, of "s_version s + 1"] by auto
  with * assms show thesis by (intro that) (auto simp: doc_of_Some)
qed

text \<open>What \<open>insert_text_version\<close> writes.\<close>

lemma insert_text_version_Inr:
  assumes "insert_text_version C rq rd sid n p actor note db = Inr (kv, db')"
  obtains ct m db1 where
    "create_version_key C (rq_clock rq) rd sid db = ((rd_dek rd, kv), db1)"
    "encrypt_content C (rd_nonce rd) p (rd_dek rd) = Inr (ct, m)"
    "version_of db sid n = None" "secret_of db sid \<noteq> None" "user_of db actor \<noteq> None"
    "db' = set_current rq sid ct m n (db1\<lparr>secret_versions := sql_insert
       (text_version sid n ct (Some m) (Some kv) p (Some actor) note (rq_clock rq)) (secret_versions db)\<rparr>)"
    "secrets db1 = secrets db" "secret_versions db1 = secret_versions db"
proof -
  have f: "secrets (add_key sid a b c d db) = secrets db" "secret_versions (add_key sid a b c d db) = secret_versions db"
    "users (add_key sid a b c d db) = users db" for a b c d
    by (simp_all add: add_key_def)
  have g: "version_of (add_key sid a b c d db) = version_of db" "secret_of (add_key sid a b c d db) = secret_of db"
    "user_of (add_key sid a b c d db) = user_of db" for a b c d
    by (simp_all add: fun_eq_iff version_of_def secret_of_def user_of_def f)
  show thesis
    using assms
    by (auto simp: insert_text_version_def create_version_key_eq bind_res_eq_Inr insert_version_Inr
        text_version_def f g intro!: that)
qed

lemma version_of_set_current [simp]: "version_of (set_current rq sid ct m n db) = version_of db"
  by (simp add: set_current_def version_of_def fun_eq_iff)

lemma secret_of_set_current:
  "secret_of (set_current rq sid ct m n db) sid' =
     (if sid = sid' then map_option (\<lambda>s. s\<lparr>s_content := Some ct, s_nonce := Some m, s_version := n,
        s_updated := rq_clock rq\<rparr>) (secret_of db sid) else secret_of db sid')"
  by (simp add: set_current_def secret_of_upd)

lemma version_of_insert:
  assumes "version_of db (v_secret r) (v_version r) = None"
  shows "version_of (db\<lparr>secret_versions := sql_insert r (secret_versions db)\<rparr>) sid n =
    (if v_secret r = sid \<and> v_version r = n then Some r else version_of db sid n)"
  using assms by (auto simp: version_of_def row_of_insert split: option.splits)

lemma insert_text_version_doc:
  assumes cipher: "aead_ok C" "length (kek C) = 32" "rand_ok rd" "is_text p"
    and doc: "doc_of C db sid = Some d"
    and ins: "insert_text_version C rq rd sid (doc_version d + 1) p actor note db = Inr (kv, db')"
  shows "doc_of C db' sid = Some (doc_append p d)"
proof -
  from doc obtain s where s: "secret_of db sid = Some s" and ok: "doc_ok C db sid"
    and d: "d = \<lparr>doc_version = s_version s, doc_text = plaintext_of C db sid\<rparr>"
    by (auto simp: doc_of_Some)
  let ?n = "s_version s + 1"
  from ins have "insert_text_version C rq rd sid ?n p actor note db = Inr (kv, db')" by (simp add: d)
  then obtain ct m db1 where key: "create_version_key C (rq_clock rq) rd sid db = ((rd_dek rd, kv), db1)"
    and enc: "encrypt_content C (rd_nonce rd) p (rd_dek rd) = Inr (ct, m)"
    and fresh: "version_of db sid ?n = None"
    and db': "db' = set_current rq sid ct m ?n (db1\<lparr>secret_versions := sql_insert
       (text_version sid ?n ct (Some m) (Some kv) p (Some actor) note (rq_clock rq)) (secret_versions db)\<rparr>)"
    and db1: "secrets db1 = secrets db" "secret_versions db1 = secret_versions db"
    by (rule insert_text_version_Inr) (rule that; assumption)
  let ?v = "text_version sid ?n ct (Some m) (Some kv) p (Some actor) note (rq_clock rq)"
  have keys: "secret_keys db' = secret_keys db1" by (simp add: db' set_current_def)
  note dek = get_dek_cong [OF keys]
  have latest: "get_dek_for_secret C db' sid None = Inr (rd_dek rd)"
    "get_dek_for_secret C db' sid (Some kv) = Inr (rd_dek rd)"
    using ks.latest_next [OF _ key] ks.at_next [OF _ key] cipher by (simp_all add: dek)
  have kept: "get_dek_for_secret C db sid (Some k) = Inr x \<Longrightarrow> get_dek_for_secret C db' sid (Some k) = Inr x" for k x
    using ks.at_kept [OF key] by (simp add: dek)
  have ver: "version_of db' sid n = (if n = ?n then Some ?v else version_of db sid n)" for n
  proof -
    have "version_of db1 = version_of db" by (simp add: version_of_def fun_eq_iff db1)
    then show ?thesis
      using fresh version_of_insert [of db1 ?v sid n] db1(2)
      by (auto simp: db' text_version_def)
  qed
  have sec: "secret_of db' sid = Some (s\<lparr>s_content := Some ct, s_nonce := Some m, s_version := ?n,
      s_updated := rq_clock rq\<rparr>)"
    using s db1(1) by (simp add: db' secret_of_set_current) (simp add: secret_of_def)
  have "length (rd_nonce rd) = 12" using cipher(3) by (simp add: rand_ok_def)
  then have "decrypt_content C ct m (rd_dek rd) = Inr p"
    using decrypt_encrypt_content [OF cipher(1) _ cipher(4) enc] by simp
  then have new: "plaintext_of C db' sid ?n = Some p"
    using latest(2) by (simp add: plaintext_of_def ver text_version_def)
  have ok': "\<forall>n. version_of db sid n \<noteq> None \<longleftrightarrow> 1 \<le> n \<and> n \<le> s_version s"
    "\<forall>n. version_of db sid n \<noteq> None \<longrightarrow> plaintext_of C db sid n \<noteq> None" "s_payload s = Text"
    "version_of db sid (s_version s) \<noteq> None"
    using ok s unfolding doc_ok_def by auto
  have old: "plaintext_of C db' sid n = plaintext_of C db sid n" if "n \<noteq> ?n" for n
  proof (cases "version_of db sid n")
    case None
    then show ?thesis using that by (simp add: plaintext_of_def ver)
  next
    case (Some v)
    then show ?thesis using that ok'(2) kept by (intro plaintext_of_cong) (auto simp: ver)
  qed
  have range: "version_of db' sid n \<noteq> None \<longleftrightarrow> 1 \<le> n \<and> n \<le> ?n" for n
    using ok'(1) ok'(4) by (auto simp: ver)
  have read: "version_of db' sid n \<noteq> None \<longrightarrow> plaintext_of C db' sid n \<noteq> None" for n
    using old new ok'(2) by (cases "n = ?n") (auto simp: ver)
  have "doc_ok C db' sid"
    unfolding doc_ok_def
    by (rule exI [of _ "s\<lparr>s_content := Some ct, s_nonce := Some m, s_version := ?n, s_updated := rq_clock rq\<rparr>"],
        rule exI [of _ ?v], rule exI [of _ ct], rule exI [of _ m], rule exI [of _ kv], rule exI [of _ "rd_dek rd"])
      (use sec latest ok'(3) range read in \<open>simp add: ver text_version_def\<close>)
  moreover have "plaintext_of C db' sid = (plaintext_of C db sid)(?n \<mapsto> p)"
    using old new by (auto simp: fun_eq_iff)
  ultimately show ?thesis using sec by (simp add: doc_of_Some doc_append_def d)
qed

subsection \<open>Each handler on the document\<close>

lemma doc_of_cong:
  assumes "secrets db' = secrets db" "secret_keys db' = secret_keys db" "secret_versions db' = secret_versions db"
  shows "doc_of C db' sid = doc_of C db sid"
proof -
  have l: "secret_of db' = secret_of db" "version_of db' = version_of db"
    "get_dek_for_secret C db' = get_dek_for_secret C db"
    using assms get_dek_cong [of db' db] by (auto simp: secret_of_def version_of_def fun_eq_iff)
  have "plaintext_of C db' = plaintext_of C db" by (intro ext) (simp only: plaintext_of_def l)
  with l show ?thesis by (simp only: doc_of_def doc_ok_def)
qed

lemma doc_of_audit [simp]: "doc_of C (db\<lparr>audit_logs := l\<rparr>) sid = doc_of C db sid"
  by (rule doc_of_cong) simp_all

lemma doc_of_audit_log [simp]: "doc_of C (audit_log P rq e db) sid = doc_of C db sid"
  by (simp add: audit_log_eq)

lemma commit_with_audit_eq:
  assumes "user_of db (cu_id user) \<noteq> None" "secret_of db sid \<noteq> None" "action \<in> set audit_actions"
  shows "commit_with_audit P rq action sid user db0 db =
    (if inet_ok P (rq_ip rq) then db\<lparr>audit_logs := sql_insert (audit_row_of rq
       \<lparr>ae_action = action, ae_actor = Some (cu_id user), ae_ip = Some (rq_ip rq), ae_secret = Some sid,
        ae_severity = Info\<rparr>) (audit_logs db)\<rparr> else db0)"
  using assms by (simp add: commit_with_audit_def commit_audit audit_accepts_def)

lemma insert_text_version_refs:
  assumes "insert_text_version C rq rd sid n p actor note db = Inr (kv, db')"
  shows "user_of db' actor \<noteq> None" "secret_of db' sid \<noteq> None"
  using assms
  by (auto simp: insert_text_version_def create_version_key_eq bind_res_eq_Inr insert_version_Inr text_version_def
      add_key_def user_of_def set_current_def secret_of_def row_of_update)

lemma commit_text_version:
  assumes cipher: "aead_ok (cr P)" "length (kek (cr P)) = 32" "rand_ok rd" "is_text p"
    and doc: "doc_of (cr P) db sid = Some d" and act: "action \<in> set audit_actions"
    and ins: "insert_text_version (cr P) rq rd sid (doc_version d + 1) p (cu_id user) note db = Inr (kv, db1)"
  shows "doc_of (cr P) (commit_with_audit P rq action sid user db db1) sid =
    Some (if inet_ok P (rq_ip rq) then doc_append p d else d)"
  using insert_text_version_doc [OF cipher doc ins] insert_text_version_refs [OF ins] act doc
  by (simp add: commit_with_audit_eq)

lemma update_guards_Inr:
  "update_guards P rq sid body user db = Inr s \<longleftrightarrow>
     secret_of db sid = Some s \<and> require_owns_secret (s_owner s) user = Inr () \<and> rq_now rq < s_expires s \<and>
     s_payload s = Text \<and> s_version s = su_expected body \<and> s_version s < MAX_SECRET_VERSIONS (cfg P) \<and>
     (\<exists>v. version_of db sid (s_version s) = Some v \<and> v_key v \<noteq> None)"
  by (auto simp: update_guards_def bind_res_eq_Inr split: option.splits if_splits)

lemma update_secret_Inr:
  assumes "update_secret P rq rd sid body user db = (Inr (v, t), db')"
  obtains s kv db1 where "update_guards P rq sid body user db = Inr s" "v = s_version s + 1"
    "insert_text_version (cr P) rq rd sid v (su_content body) (cu_id user) (su_note body) db = Inr (kv, db1)"
    "db' = commit_with_audit P rq ''secret_updated'' sid user db db1"
  using assms by (auto simp: update_secret_def Let_def split: sum.splits)

lemma update_secret_Inl: "update_secret P rq rd sid body user db = (Inl e, db') \<Longrightarrow> db' = db"
  by (auto simp: update_secret_def Let_def split: sum.splits prod.splits)

lemma update_secret_doc:
  assumes cipher: "aead_ok (cr P)" "length (kek (cr P)) = 32" "rand_ok rd" "is_text (su_content body)"
    and doc: "doc_of (cr P) db sid = Some d"
    and upd: "update_secret P rq rd sid body user db = (Inr (v, t), db')"
  shows "v = doc_version d + 1" "su_expected body = doc_version d"
    "doc_of (cr P) db' sid = Some (if inet_ok P (rq_ip rq) then doc_append (su_content body) d else d)"
proof -
  from upd obtain s kv db1 where g: "update_guards P rq sid body user db = Inr s" and v: "v = s_version s + 1"
    and ins: "insert_text_version (cr P) rq rd sid v (su_content body) (cu_id user) (su_note body) db = Inr (kv, db1)"
    and db': "db' = commit_with_audit P rq ''secret_updated'' sid user db db1"
    by (rule update_secret_Inr)
  from g doc show v': "v = doc_version d + 1" and "su_expected body = doc_version d"
    by (auto simp: v update_guards_Inr doc_of_Some)
  have "''secret_updated'' \<in> set audit_actions" by (simp add: audit_actions_def)
  then show "doc_of (cr P) db' sid = Some (if inet_ok P (rq_ip rq) then doc_append (su_content body) d else d)"
    using commit_text_version [OF cipher doc _ ins [unfolded v']] by (simp add: db')
qed

lemma restore_plaintext_Inr:
  assumes "restore_plaintext P sid version user db = Inr (s, p)"
  shows "secret_of db sid = Some s" "require_owns_secret (s_owner s) user = Inr ()"
    "s_version s < MAX_SECRET_VERSIONS (cfg P)" "plaintext_of (cr P) db sid version = Some p"
  using assms
  by (auto simp: restore_plaintext_def bind_res_eq_Inr plaintext_of_def
      split: option.splits if_splits payload.splits)

lemma restore_secret_version_Inr:
  assumes "restore_secret_version P rq rd sid version user db = (Inr (v, t), db')"
  obtains s p kv db1 where "restore_plaintext P sid version user db = Inr (s, p)" "v = s_version s + 1"
    "insert_text_version (cr P) rq rd sid v p (cu_id user) (Some (''Restored version '' @ py_str_int version)) db = Inr (kv, db1)"
    "db' = commit_with_audit P rq ''secret_version_restored'' sid user db db1"
  using assms by (auto simp: restore_secret_version_def Let_def split: sum.splits)

lemma restore_secret_version_Inl: "restore_secret_version P rq rd sid n user db = (Inl e, db') \<Longrightarrow> db' = db"
  by (auto simp: restore_secret_version_def Let_def split: sum.splits prod.splits)

lemma restore_doc:
  assumes cipher: "aead_ok (cr P)" "length (kek (cr P)) = 32" "rand_ok rd"
    and doc: "doc_of (cr P) db sid = Some d"
    and upd: "restore_secret_version P rq rd sid version user db = (Inr (v, t), db')"
  shows "v = doc_version d + 1"
    "\<exists>p. doc_text d version = Some p \<and>
       doc_of (cr P) db' sid = Some (if inet_ok P (rq_ip rq) then doc_append p d else d)"
proof -
  from upd obtain s p kv db1 where r: "restore_plaintext P sid version user db = Inr (s, p)" and v: "v = s_version s + 1"
    and ins: "insert_text_version (cr P) rq rd sid v p (cu_id user) (Some (''Restored version '' @ py_str_int version)) db = Inr (kv, db1)"
    and db': "db' = commit_with_audit P rq ''secret_version_restored'' sid user db db1"
    by (rule restore_secret_version_Inr)
  from r doc show v': "v = doc_version d + 1" by (auto simp: v doc_of_Some dest: restore_plaintext_Inr(1))
  have p: "doc_text d version = Some p" "is_text p"
    using restore_plaintext_Inr(4) [OF r] doc plaintext_of_is_text by (auto simp: doc_of_Some)
  have "''secret_version_restored'' \<in> set audit_actions" by (simp add: audit_actions_def)
  then show "\<exists>p. doc_text d version = Some p \<and>
       doc_of (cr P) db' sid = Some (if inet_ok P (rq_ip rq) then doc_append p d else d)"
    using commit_text_version [OF cipher p(2) doc _ ins [unfolded v']] p(1) by (simp add: db')
qed

subsection \<open>Key rotation keeps the document\<close>

lemma rotate_key_Inr:
  assumes "rotate_key C clock rd sid db = (Inr kv, db')"
  obtains s c m dek p db1 ct n where "secret_of db sid = Some s" "get_dek_for_secret C db sid None = Inr dek"
    "s_content s = Some c" "s_nonce s = Some m" "decrypt_content C c m dek = Inr p"
    "create_version_key C clock rd sid db = ((rd_dek rd, kv), db1)"
    "encrypt_content C (rd_nonce rd) p (rd_dek rd) = Inr (ct, n)"
    "db' = set_current_version_row sid ct n kv (set_content sid ct n db1)"
    "secrets db1 = secrets db" "secret_versions db1 = secret_versions db"
proof -
  have f: "secrets (add_key sid a b x y db) = secrets db" "secret_versions (add_key sid a b x y db) = secret_versions db"
    for a b x y by (simp_all add: add_key_def)
  show thesis
    using assms
    by (auto simp: rotate_key_def create_version_key_eq Let_def f intro!: that split: option.splits sum.splits)
qed

lemma rotate_key_doc:
  assumes cipher: "aead_ok C" "length (kek C) = 32" "rand_ok rd"
    and doc: "doc_of C db sid = Some d" and rot: "rotate_key C clock rd sid db = (Inr kv, db')"
  shows "doc_of C db' sid = Some d"
proof -
  from rot obtain s c m dek p db1 ct n where
    s: "secret_of db sid = Some s" "s_content s = Some c" "s_nonce s = Some m" and
    dek: "get_dek_for_secret C db sid None = Inr dek" "decrypt_content C c m dek = Inr p" and
    key: "create_version_key C clock rd sid db = ((rd_dek rd, kv), db1)" and
    enc: "encrypt_content C (rd_nonce rd) p (rd_dek rd) = Inr (ct, n)" and
    db': "db' = set_current_version_row sid ct n kv (set_content sid ct n db1)" and
    db1: "secrets db1 = secrets db" "secret_versions db1 = secret_versions db"
    by (rule rotate_key_Inr)
  from doc s obtain v k where ok: "doc_ok C db sid" and
    v: "version_of db sid (s_version s) = Some v" "v_payload v = Text" "v_content v = Some c" "v_nonce v = Some m"
      "v_key v = Some k" "get_dek_for_secret C db sid (Some k) = Inr dek" "s_payload s = Text" and
    range: "\<And>x. version_of db sid x \<noteq> None \<longleftrightarrow> 1 \<le> x \<and> x \<le> s_version s" and
    read: "\<And>x. version_of db sid x \<noteq> None \<longrightarrow> plaintext_of C db sid x \<noteq> None" and
    d: "d = \<lparr>doc_version = s_version s, doc_text = plaintext_of C db sid\<rparr>"
    using dek by (auto simp: doc_of_Some doc_ok_def)
  have keys: "secret_keys db' = secret_keys db1" by (simp add: db' set_current_version_row_def set_content_def)
  have latest: "get_dek_for_secret C db' sid None = Inr (rd_dek rd)"
    "get_dek_for_secret C db' sid (Some kv) = Inr (rd_dek rd)"
    using ks.latest_next [OF _ key] ks.at_next [OF _ key] cipher by (simp_all add: get_dek_cong [OF keys])
  have kept: "get_dek_for_secret C db sid (Some k) = Inr x \<Longrightarrow> get_dek_for_secret C db' sid (Some k) = Inr x" for k x
    using ks.at_kept [OF key] by (simp add: get_dek_cong [OF keys])
  have sec: "secret_of db' sid = Some (s\<lparr>s_content := Some ct, s_nonce := Some n\<rparr>)"
    using s(1) db1(1)
    by (simp add: db' set_current_version_row_def set_content_def secret_of_def row_of_update)
  let ?v = "v\<lparr>v_content := Some ct, v_nonce := Some n, v_key := Some kv\<rparr>"
  have ver: "version_of db' sid x = (if x = s_version s then Some ?v else version_of db sid x)" for x
  proof -
    have cur: "map_option s_version (secret_of (set_content sid ct n db1) sid) = Some (s_version s)"
      using s(1) db1(1) by (simp add: set_content_def secret_of_def row_of_update)
    have vs: "secret_versions (set_content sid ct n db1) = secret_versions db" using db1(2) by (simp add: set_content_def)
    have "row_of (\<lambda>r. (v_secret r, v_version r)) (sql_update (\<lambda>v. v_secret v = sid \<and> v_version v = s_version s)
          (\<lambda>v. v\<lparr>v_content := Some ct, v_nonce := Some n, v_key := Some kv\<rparr>) (secret_versions db)) (sid, x) =
        (if x = s_version s
         then map_option (\<lambda>v. v\<lparr>v_content := Some ct, v_nonce := Some n, v_key := Some kv\<rparr>)
           (row_of (\<lambda>r. (v_secret r, v_version r)) (secret_versions db) (sid, x))
         else row_of (\<lambda>r. (v_secret r, v_version r)) (secret_versions db) (sid, x))"
      by (rule row_of_update_where) auto
    then have "version_of db' sid x = (if x = s_version s
        then map_option (\<lambda>v. v\<lparr>v_content := Some ct, v_nonce := Some n, v_key := Some kv\<rparr>) (version_of db sid x)
        else version_of db sid x)"
      unfolding version_of_def db' set_current_version_row_def
      by (simp add: cur vs)
    then show ?thesis using v(1) by simp
  qed
  have len: "length (rd_nonce rd) = 12" using cipher(3) by (simp add: rand_ok_def)
  have cur: "plaintext_of C db' sid (s_version s) = Some p"
    using latest(2) decrypt_encrypt_content [OF cipher(1) len decrypt_is_text [OF dek(2)] enc] v(2)
    by (simp add: plaintext_of_def ver)
  have cur0: "plaintext_of C db sid (s_version s) = Some p"
    using v dek(2) by (simp add: plaintext_of_def)
  have "plaintext_of C db' sid x = plaintext_of C db sid x" for x
  proof (cases "x = s_version s")
    case False
    show ?thesis
    proof (cases "version_of db sid x")
      case None
      then show ?thesis using False by (simp add: plaintext_of_def ver)
    next
      case (Some w)
      then show ?thesis using False read kept by (intro plaintext_of_cong) (auto simp: ver)
    qed
  qed (use cur cur0 in simp)
  then have pt: "plaintext_of C db' sid = plaintext_of C db sid" by blast
  have range': "version_of db' sid x \<noteq> None \<longleftrightarrow> 1 \<le> x \<and> x \<le> s_version s" for x
    using range [of x] v(1) range [of "s_version s"] by (auto simp: ver)
  have read': "version_of db' sid x \<noteq> None \<longrightarrow> plaintext_of C db' sid x \<noteq> None" for x
    using read [of x] cur pt by (cases "x = s_version s") (auto simp: ver)
  have "doc_ok C db' sid"
    unfolding doc_ok_def
    by (rule exI [of _ "s\<lparr>s_content := Some ct, s_nonce := Some n\<rparr>"], rule exI [of _ ?v],
        rule exI [of _ ct], rule exI [of _ n], rule exI [of _ kv], rule exI [of _ "rd_dek rd"])
      (use sec latest v(2,7) range' read' in \<open>simp add: ver\<close>)
  then show ?thesis using sec pt by (simp add: doc_of_Some d)
qed

subsection \<open>Retrieving does not change a document\<close>

lemma doc_of_same:
  assumes k: "keys_of db' sid = keys_of db sid" and v: "version_of db' sid = version_of db sid"
    and s: "secret_of db sid = Some s" "secret_of db' sid = Some s'"
    and f: "s_version s' = s_version s" "s_payload s' = s_payload s" "s_content s' = s_content s" "s_nonce s' = s_nonce s"
  shows "doc_of C db' sid = doc_of C db sid"
proof -
  have "get_dek_for_secret C db' sid x = get_dek_for_secret C db sid x" for x
    by (cases x) (simp_all add: get_dek_for_secret_def k)
  then have g: "get_dek_for_secret C db' sid = get_dek_for_secret C db sid" by (rule ext)
  have p: "plaintext_of C db' sid = plaintext_of C db sid" by (rule ext) (simp only: plaintext_of_def v g)
  have "doc_ok C db' sid = doc_ok C db sid" using s f by (auto simp: doc_ok_def g p v)
  then show ?thesis using s f p by (simp add: doc_of_def)
qed

text \<open>Deleting other secrets leaves the rows of this one.\<close>

lemma delete_other:
  assumes "\<And>s. s \<in> set (secrets db) \<Longrightarrow> p s \<Longrightarrow> s_id s \<noteq> sid"
  shows "keys_of (delete_secrets clock p db) sid = keys_of db sid"
    "version_of (delete_secrets clock p db) sid = version_of db sid"
    "policy_of (delete_secrets clock p db) sid = policy_of db sid"
    "secret_of (delete_secrets clock p db) sid = secret_of db sid"
proof -
  have n: "sid \<notin> set (map s_id (sql_select p (secrets db)))"
    using assms by (auto simp: sql_select_def)
  have "filter (\<lambda>k. k_secret k = sid) (sql_delete (\<lambda>k. k_secret k \<in> A) t) = filter (\<lambda>k. k_secret k = sid) t"
    if "sid \<notin> A" for A and t :: "key_row list"
    using that by (induction t) (auto simp: sql_delete_def)
  then show "keys_of (delete_secrets clock p db) sid = keys_of db sid"
    using n by (simp add: keys_of_def delete_secrets_def Let_def sql_select_def)
  show "version_of (delete_secrets clock p db) sid = version_of db sid"
  proof
    fix x
    have "row_of (\<lambda>r. (v_secret r, v_version r)) (sql_delete (\<lambda>v. v_secret v \<in> set (map s_id (sql_select p (secrets db))))
          (secret_versions db)) (sid, x) =
        (if False then None else row_of (\<lambda>r. (v_secret r, v_version r)) (secret_versions db) (sid, x))"
      using n by (intro row_of_delete_where) auto
    then show "version_of (delete_secrets clock p db) sid x = version_of db sid x"
      by (simp add: version_of_def delete_secrets_def Let_def)
  qed
  have "row_of p_secret (sql_delete (\<lambda>v. p_secret v \<in> set (map s_id (sql_select p (secrets db))))
          (access_policies db)) sid =
        (if False then None else row_of p_secret (access_policies db) sid)"
    using n by (intro row_of_delete_where) auto
  then show "policy_of (delete_secrets clock p db) sid = policy_of db sid"
    by (simp add: policy_of_def delete_secrets_def Let_def)
  have "row_of s_id t sid = row_of s_id (sql_delete p t) sid" if "\<And>s. s \<in> set t \<Longrightarrow> p s \<Longrightarrow> s_id s \<noteq> sid" for t
    using that by (induction t) (auto simp: sql_delete_def)
  then show "secret_of (delete_secrets clock p db) sid = secret_of db sid"
    using assms by (simp add: secret_of_def)
qed

lemma view_count_frame:
  fixes db :: database
  assumes "secret_of (update_view_count clock sid' n v db) sid = Some s'"
  shows "keys_of (update_view_count clock sid' n v db) sid = keys_of db sid"
    "version_of (update_view_count clock sid' n v db) sid = version_of db sid"
proof -
  let ?db1 = "db\<lparr>secrets := sql_update (\<lambda>s. s_id s = sid') (\<lambda>s. s\<lparr>s_view_count := n, s_viewed := v\<rparr>) (secrets db)\<rparr>"
  have k: "keys_of ?db1 sid = keys_of db sid" "version_of ?db1 sid = version_of db sid"
    by (simp_all add: keys_of_def version_of_def fun_eq_iff)
  show "keys_of (update_view_count clock sid' n v db) sid = keys_of db sid"
    "version_of (update_view_count clock sid' n v db) sid = version_of db sid"
  proof -
    have del: "sid' \<noteq> sid" if "secret_of ?db1 sid' = Some s" "s_max_views s \<le> s_view_count s" for s
      using assms that by (auto simp: secret_of_view_count secret_of_upd split: option.splits if_splits)
    have del': "keys_of (delete_secrets clock (\<lambda>s. s_id s = sid') (?db1\<lparr>audit_logs := l\<rparr>)) sid = keys_of db sid \<and>
        version_of (delete_secrets clock (\<lambda>s. s_id s = sid') (?db1\<lparr>audit_logs := l\<rparr>)) sid = version_of db sid"
      if "sid' \<noteq> sid" for l
      using delete_other(1,2) [of "?db1\<lparr>audit_logs := l\<rparr>" "\<lambda>s. s_id s = sid'" sid clock] that k
      by (auto simp: keys_of_def version_of_def)
    show "keys_of (update_view_count clock sid' n v db) sid = keys_of db sid"
      "version_of (update_view_count clock sid' n v db) sid = version_of db sid"
      using del del' k by (auto simp: update_view_count_def Let_def split: option.split)
  qed
qed

lemma retrieve_doc:
  assumes "try_retrieve P a db = (r, db')" and "text_content db" and doc: "doc_of C db sid = Some d"
  shows "secret_of db' sid = None \<or> doc_of C db' sid = Some d"
proof (cases r)
  case (Inl e)
  then obtain l where "db' = db\<lparr>audit_logs := l\<rparr>" using assms retrieve_secret_Inl by blast
  then show ?thesis using doc by simp
next
  case (Inr x)
  then obtain c nt where "try_retrieve P a db = (Inr (c, nt), db')"
    using assms(1) by (cases x) auto
  then obtain sid' and p :: policy_row where
    "retrieve_locked P (at_request a) (p_version p) sid' (at_password a) (at_user a) db = (Inr (c, nt), db')"
    by (rule retrieve_secret_Inr) (rule that; assumption)
  then obtain s db1 n where
    g: "retrieve_guards P (at_request a) (p_version p) sid' (at_password a) (at_user a) db = Inr s" and
    v: "record_view (at_request a) sid' (at_user a) (s_version s) db = Inr (n, db1)"
       "db' = viewed_db P (at_request a) sid' (at_user a) s db1"
    by (rule retrieve_locked_Inr) (rule that; assumption)
  show ?thesis
  proof (cases "secret_of db' sid")
    case (Some s')
    obtain s0 where s0: "secret_of db sid = Some s0" using doc by (auto simp: doc_of_Some)
    have same: "keys_of db1 sid = keys_of db sid" "version_of db1 sid = version_of db sid"
      using record_view_frame(3,4) [OF v(1)] by (simp_all add: keys_of_def version_of_def fun_eq_iff)
    let ?d = "db1\<lparr>audit_logs := sql_insert (audit_row_of (at_request a) (viewed_entry (at_request a) sid' (at_user a)))
       (audit_logs db1)\<rparr>"
    have "keys_of db' sid = keys_of ?d sid" "version_of db' sid = version_of ?d sid"
      using view_count_frame [of "rq_clock (at_request a)" sid' "s_view_count s + 1" _ ?d sid s'] Some
      by (simp_all add: v(2) viewed_db_def)
    then have kv: "keys_of db' sid = keys_of db sid" "version_of db' sid = version_of db sid"
      using same by (simp_all add: keys_of_def version_of_def fun_eq_iff)
    have "s_version s' = s_version s0" "s_payload s' = s_payload s0" "s_content s' = s_content s0" "s_nonce s' = s_nonce s0"
      using secret_of_viewed_db [OF g v(1), of sid] Some s0 g
      by (auto simp: v(2) retrieve_guards_Inr split: if_splits)
    then show ?thesis using doc_of_same [OF kv s0 Some] doc by simp
  qed simp
qed

subsection \<open>The contract: an append-only document\<close>

text \<open>
  The interface of a store of one document: every step leaves it, appends one text, or removes it
  for good.  Clients may rely on the history: what was once readable under a number stays so.
\<close>

locale version_store =
  fixes doc :: "'st \<Rightarrow> document option"
    and step :: "'a \<Rightarrow> 'st \<Rightarrow> 'st"
    and good :: "'a \<Rightarrow> bool"
    and wf :: "'st \<Rightarrow> bool"
    and alive :: "'st \<Rightarrow> bool"
  assumes grow: "wf st \<Longrightarrow> good a \<Longrightarrow> doc st = Some d \<Longrightarrow>
      doc (step a st) = Some d \<or> (\<exists>t. doc (step a st) = Some (doc_append t d)) \<or> \<not> alive (step a st)"
    and wf_step: "wf st \<Longrightarrow> good a \<Longrightarrow> wf (step a st)"
    and gone: "wf st \<Longrightarrow> \<not> alive st \<Longrightarrow> \<not> alive (step a st)"
    and doc_alive: "doc st = Some d \<Longrightarrow> alive st"
begin

definition run :: "'a list \<Rightarrow> 'st \<Rightarrow> 'st" where
  "run as st = fold step as st"

lemma run_gone: "wf st \<Longrightarrow> list_all good as \<Longrightarrow> \<not> alive st \<Longrightarrow> \<not> alive (run as st)"
  by (induction as arbitrary: st) (auto simp: run_def gone wf_step)

lemma history:
  assumes "wf st" "list_all good as" "doc st = Some d"
  shows "\<not> alive (run as st) \<or>
    (\<exists>d'. doc (run as st) = Some d' \<and> doc_version d \<le> doc_version d' \<and>
       (\<forall>n \<le> doc_version d. doc_text d' n = doc_text d n))"
  using assms
proof (induction as arbitrary: st d)
  case Nil
  then show ?case by (simp add: run_def)
next
  case (Cons a as)
  then have g: "wf (step a st)" "list_all good as" and
    s: "doc (step a st) = Some d \<or> (\<exists>t. doc (step a st) = Some (doc_append t d)) \<or> \<not> alive (step a st)"
    using wf_step grow by auto
  have r: "run (a # as) st = run as (step a st)" by (simp add: run_def)
  from s consider "doc (step a st) = Some d" | t where "doc (step a st) = Some (doc_append t d)" | "\<not> alive (step a st)"
    by blast
  then show ?case
  proof cases
    case 1
    with Cons.IH [OF g] r show ?thesis by simp
  next
    case 2
    from Cons.IH [OF g 2] r show ?thesis by (force simp: doc_append_def)
  next
    case 3
    with run_gone [OF g] r show ?thesis by simp
  qed
qed

end

datatype doc_op =
    Update request randomness secret_update current_user
  | Restore request randomness int current_user
  | Rotate request randomness current_user
  | Retrieve attempt

definition doc_step :: "platform \<Rightarrow> uuid \<Rightarrow> doc_op \<Rightarrow> database \<Rightarrow> database" where
  "doc_step P sid a db =
     (case a of
        Update rq rd body user \<Rightarrow> snd (update_secret P rq rd sid body user db)
      | Restore rq rd n user \<Rightarrow> snd (restore_secret_version P rq rd sid n user db)
      | Rotate rq rd user \<Rightarrow> snd (rotate_secret_key P rq rd sid user db)
      | Retrieve at \<Rightarrow> snd (try_retrieve P at db))"

text \<open>Random values of the right length, text that is UTF-8, and the law of the cipher.\<close>

definition op_ok :: "platform \<Rightarrow> doc_op \<Rightarrow> bool" where
  "op_ok P a \<longleftrightarrow> aead_ok (cr P) \<and> length (kek (cr P)) = 32 \<and>
     (case a of
        Update rq rd body user \<Rightarrow> rand_ok rd \<and> is_text (su_content body)
      | Restore rq rd n user \<Rightarrow> rand_ok rd
      | Rotate rq rd user \<Rightarrow> rand_ok rd
      | Retrieve at \<Rightarrow> True)"

lemma rotate_secret_key_cases:
  assumes "rotate_secret_key P rq rd sid user db = (r, db')"
  obtains "db' = db" "\<not> ok r"
  | kv db1 where "rotate_key (cr P) (rq_clock rq) rd sid db = (Inr kv, db1)" "r = Inr kv"
    "\<exists>l. db' = db1\<lparr>audit_logs := l\<rparr>" "\<exists>s. secret_of db sid = Some s \<and> require_owns_secret (s_owner s) user = Inr ()"
proof -
  have err: "rotate_key (cr P) (rq_clock rq) rd sid db = (Inl e, db1) \<Longrightarrow> db1 = db" for e db1
    by (auto simp: rotate_key_def Let_def split: option.splits sum.splits prod.splits)
  have log: "\<exists>l. audit_log P rq x d = d\<lparr>audit_logs := l\<rparr>" for x d
    by (auto simp: audit_log_eq intro: exI [of _ "audit_logs d"])
  show thesis
    using assms err log that
    by (auto simp: rotate_secret_key_def split: option.splits sum.splits prod.splits exc.splits if_splits)
qed

lemma insert_text_version_secrets:
  assumes "insert_text_version C rq rd sid n p actor note db = Inr (kv, db')"
  shows "\<exists>ct m. secrets db' = sql_update (\<lambda>s. s_id s = sid) (\<lambda>s. s\<lparr>s_content := Some ct, s_nonce := Some m,
    s_version := n, s_updated := rq_clock rq\<rparr>) (secrets db)"
  using assms
  by (rule insert_text_version_Inr) (auto simp: set_current_def)

lemma rotate_key_secrets:
  assumes "rotate_key C clock rd sid db = (Inr kv, db')"
  shows "\<exists>ct m. secrets db' = sql_update (\<lambda>s. s_id s = sid) (\<lambda>s. s\<lparr>s_content := Some ct, s_nonce := Some m\<rparr>) (secrets db)"
  using assms
  by (rule rotate_key_Inr) (auto simp: set_current_version_row_def set_content_def)

lemma secrets_commit_with_audit:
  "secrets (commit_with_audit P rq a sid user db0 db) = secrets db0 \<or>
   secrets (commit_with_audit P rq a sid user db0 db) = secrets db"
  by (simp add: commit_with_audit_def commit_audit)

text \<open>What a step does to the table of secrets: nothing, an update of content, or a retrieval.\<close>

lemma text_content_update:
  "text_content db \<Longrightarrow> secrets db' = sql_update p f (secrets db) \<Longrightarrow> (\<And>s. s_content (f s) \<noteq> None) \<Longrightarrow> text_content db'"
  by (auto simp: text_content_def set_sql_update)

lemma text_content_cong: "text_content db \<Longrightarrow> secrets db' = secrets db \<Longrightarrow> text_content db'"
  by (simp add: text_content_def)

lemma update_secret_secrets:
  assumes "update_secret P rq rd sid body user db = (r, db')"
  shows "secrets db' = secrets db \<or> (\<exists>ct m v u. secrets db' = sql_update (\<lambda>s. s_id s = sid)
    (\<lambda>s. s\<lparr>s_content := Some ct, s_nonce := Some m, s_version := v, s_updated := u\<rparr>) (secrets db))"
proof (cases r)
  case (Inl e)
  then show ?thesis using assms update_secret_Inl by blast
next
  case (Inr x)
  then obtain v t where "update_secret P rq rd sid body user db = (Inr (v, t), db')" using assms by (cases x) auto
  then obtain s kv db1 where i: "insert_text_version (cr P) rq rd sid v (su_content body) (cu_id user) (su_note body) db = Inr (kv, db1)"
    and c: "db' = commit_with_audit P rq ''secret_updated'' sid user db db1"
    by (rule update_secret_Inr) (rule that; assumption)
  show ?thesis
    using insert_text_version_secrets [OF i] secrets_commit_with_audit [of P rq _ sid user db db1] unfolding c by metis
qed

lemma restore_secrets:
  assumes "restore_secret_version P rq rd sid n user db = (r, db')"
  shows "secrets db' = secrets db \<or> (\<exists>ct m v u. secrets db' = sql_update (\<lambda>s. s_id s = sid)
    (\<lambda>s. s\<lparr>s_content := Some ct, s_nonce := Some m, s_version := v, s_updated := u\<rparr>) (secrets db))"
proof (cases r)
  case (Inl e)
  then show ?thesis using assms restore_secret_version_Inl by blast
next
  case (Inr x)
  then obtain v t where "restore_secret_version P rq rd sid n user db = (Inr (v, t), db')" using assms by (cases x) auto
  then obtain p kv db1 where i: "insert_text_version (cr P) rq rd sid v p (cu_id user) (Some (''Restored version '' @ py_str_int n)) db = Inr (kv, db1)"
    and c: "db' = commit_with_audit P rq ''secret_version_restored'' sid user db db1"
    by (rule restore_secret_version_Inr) (rule that; assumption)
  show ?thesis
    using insert_text_version_secrets [OF i] secrets_commit_with_audit [of P rq _ sid user db db1] unfolding c by metis
qed

lemma rotate_secrets:
  assumes "rotate_secret_key P rq rd sid user db = (r, db')"
  shows "secrets db' = secrets db \<or> (\<exists>ct m. secrets db' = sql_update (\<lambda>s. s_id s = sid)
    (\<lambda>s. s\<lparr>s_content := Some ct, s_nonce := Some m\<rparr>) (secrets db))"
  using assms
  by (rule rotate_secret_key_cases) (use rotate_key_secrets in fastforce)+

lemma doc_step_text_content:
  assumes "text_content db"
  shows "text_content (doc_step P sid a db)"
proof (cases a)
  case (Update rq rd body user)
  obtain r db' where u: "update_secret P rq rd sid body user db = (r, db')" by fastforce
  from update_secret_secrets [OF u] assms show ?thesis
    by (auto simp: doc_step_def Update u intro: text_content_cong text_content_update)
next
  case (Restore rq rd n user)
  obtain r db' where u: "restore_secret_version P rq rd sid n user db = (r, db')" by fastforce
  from restore_secrets [OF u] assms show ?thesis
    by (auto simp: doc_step_def Restore u intro: text_content_cong text_content_update)
next
  case (Rotate rq rd user)
  obtain r db' where u: "rotate_secret_key P rq rd sid user db = (r, db')" by fastforce
  from rotate_secrets [OF u] assms show ?thesis
    by (auto simp: doc_step_def Rotate u intro: text_content_cong text_content_update)
next
  case (Retrieve at')
  obtain r db' where u: "try_retrieve P at' db = (r, db')" by fastforce
  from retrieve_views_left [OF u assms] show ?thesis by (simp add: doc_step_def Retrieve u)
qed

lemma retrieve_gone:
  assumes "try_retrieve P a db = (r, db')" and "text_content db" and "secret_of db sid = None"
  shows "secret_of db' sid = None"
proof (cases r)
  case (Inl e)
  then obtain l where "db' = db\<lparr>audit_logs := l\<rparr>" using assms retrieve_secret_Inl by blast
  then show ?thesis using assms(3) by simp
next
  case (Inr x)
  then obtain c nt where r: "try_retrieve P a db = (Inr (c, nt), db')" using assms(1) by (cases x) auto
  obtain sid' and p :: policy_row where
    l: "retrieve_locked P (at_request a) (p_version p) sid' (at_password a) (at_user a) db = (Inr (c, nt), db')"
    by (rule retrieve_secret_Inr [OF r]) (rule that; assumption)
  from l obtain s db1 n where
    g: "retrieve_guards P (at_request a) (p_version p) sid' (at_password a) (at_user a) db = Inr s" and
    v: "record_view (at_request a) sid' (at_user a) (s_version s) db = Inr (n, db1)"
       "db' = viewed_db P (at_request a) sid' (at_user a) s db1"
    by (rule retrieve_locked_Inr) (rule that; assumption)
  from secret_of_viewed_db [OF g v(1), of sid] g assms(3) show ?thesis
    by (auto simp: v(2) retrieve_guards_Inr)
qed

lemma doc_step_gone:
  assumes "text_content db" "secret_of db sid = None"
  shows "secret_of (doc_step P sid a db) sid = None"
proof (cases a)
  case (Retrieve at')
  obtain r db' where u: "try_retrieve P at' db = (r, db')" by fastforce
  from retrieve_gone [OF u assms] show ?thesis by (simp add: doc_step_def Retrieve u)
qed (use assms(2) in \<open>simp_all add: doc_step_def update_secret_def update_guards_def restore_secret_version_def
  restore_plaintext_def rotate_secret_key_def\<close>)

lemma doc_step_grow:
  assumes "text_content db" "op_ok P a" and doc: "doc_of (cr P) db sid = Some d"
  shows "doc_of (cr P) (doc_step P sid a db) sid = Some d \<or>
    (\<exists>t. doc_of (cr P) (doc_step P sid a db) sid = Some (doc_append t d)) \<or>
    secret_of (doc_step P sid a db) sid = None"
proof (cases a)
  case (Update rq rd body user)
  obtain r db' where u: "update_secret P rq rd sid body user db = (r, db')" by fastforce
  show ?thesis
  proof (cases r)
    case (Inl e)
    with u have "db' = db" using update_secret_Inl by blast
    then show ?thesis using u doc by (simp add: doc_step_def Update)
  next
    case (Inr x)
    then obtain v t where "update_secret P rq rd sid body user db = (Inr (v, t), db')" using u by (cases x) auto
    from update_secret_doc(3) [OF _ _ _ _ doc this] assms(2) show ?thesis
      by (auto simp: doc_step_def Update u op_ok_def split: if_splits)
  qed
next
  case (Restore rq rd n user)
  obtain r db' where u: "restore_secret_version P rq rd sid n user db = (r, db')" by fastforce
  show ?thesis
  proof (cases r)
    case (Inl e)
    with u have "db' = db" using restore_secret_version_Inl by blast
    then show ?thesis using u doc by (simp add: doc_step_def Restore)
  next
    case (Inr x)
    then obtain v t where "restore_secret_version P rq rd sid n user db = (Inr (v, t), db')" using u by (cases x) auto
    from restore_doc(2) [OF _ _ _ doc this] assms(2) show ?thesis
      by (auto simp: doc_step_def Restore u op_ok_def split: if_splits)
  qed
next
  case (Rotate rq rd user)
  obtain r db' where u: "rotate_secret_key P rq rd sid user db = (r, db')" by fastforce
  then show ?thesis
  proof (rule rotate_secret_key_cases)
    assume "db' = db"
    then show ?thesis using u doc by (simp add: doc_step_def Rotate)
  next
    fix kv db1
    assume "rotate_key (cr P) (rq_clock rq) rd sid db = (Inr kv, db1)" "\<exists>l. db' = db1\<lparr>audit_logs := l\<rparr>"
    then show ?thesis
      using rotate_key_doc [OF _ _ _ doc] assms(2) u by (auto simp: doc_step_def Rotate op_ok_def)
  qed
next
  case (Retrieve at')
  obtain r db' where u: "try_retrieve P at' db = (r, db')" by fastforce
  from retrieve_doc [OF u assms(1) doc] show ?thesis by (auto simp: doc_step_def Retrieve u)
qed

interpretation vs: version_store
  "\<lambda>db. doc_of (cr P) db sid" "doc_step P sid" "op_ok P" text_content "\<lambda>db. secret_of db sid \<noteq> None"
  for P sid
proof unfold_locales
  fix db a d
  assume "text_content db" "op_ok P a" "doc_of (cr P) db sid = Some d"
  then show "doc_of (cr P) (doc_step P sid a db) sid = Some d \<or>
      (\<exists>t. doc_of (cr P) (doc_step P sid a db) sid = Some (doc_append t d)) \<or>
      \<not> secret_of (doc_step P sid a db) sid \<noteq> None"
    using doc_step_grow [of db P a sid d] by simp
qed (auto simp: doc_step_text_content doc_step_gone doc_of_Some)

subsection \<open>Properties\<close>

lemma created_doc:
  assumes cipher: "aead_ok (cr P)" "length (kek (cr P)) = 32" "rand_ok rd" "is_text (sc_content body)"
    and refs: "refs_ok (wd_db w)" and server: "\<not> sc_client_encrypted body"
    and created: "create_secret P rq rd rid body user w = (Inr resp, w')"
  shows "doc_of (cr P) (wd_db w') (cp_id resp) = Some \<lparr>doc_version = 1, doc_text = [1 \<mapsto> sc_content body]\<rparr>"
proof -
  let ?sid = "rd_uuid rd" and ?C = "cr P"
  from created obtain token db1 where c: "create_rows P rq rd body (cu_id user) (wd_db w) = Inr (token, db1)"
    and db: "wd_db w' = commit_txn (wd_db w) (audit_log_conn P rq
                 \<lparr>ae_action = ''secret_created'', ae_actor = Some (cu_id user), ae_ip = Some (rq_ip rq),
                  ae_secret = Some ?sid, ae_severity = Info\<rparr> db1)"
    and ex: "\<exists>s. secret_of (wd_db w') ?sid = Some s \<and> cp_expires resp = s_expires s"
    and resp: "cp_id resp = ?sid"
    by (rule create_secret_Inr)
  obtain content nonce wrapped where
    e: "encrypt_body P rd body = Inr (content, nonce, wrapped)" "secret_of (wd_db w) ?sid = None"
    and s: "secret_of db1 ?sid = Some (created_row P rq ?sid body (cu_id user) content nonce token)"
    and k: "keys_of db1 ?sid = (case wrapped of None \<Rightarrow> [] | Some (w, n) \<Rightarrow>
       [\<lparr>k_secret = ?sid, k_wrapped = w, k_nonce = n, k_version = 1, k_rotated = None\<rparr>])"
    and v: "version_of db1 ?sid 1 = Some (text_version ?sid 1 content nonce
       (if wrapped = None then None else Some 1) (sc_content body) (Some (cu_id user)) None (rq_clock rq))"
    and vn: "\<forall>n. n \<noteq> 1 \<longrightarrow> version_of db1 ?sid n = None"
    by (rule create_rows_lookups [OF c refs]) (rule that; assumption)
  obtain n where w: "wrapped = Some (wrap_dek ?C (rd_dek_nonce rd) (rd_dek rd))" "nonce = Some n"
    "encrypt_content ?C (rd_nonce rd) (sc_content body) (rd_dek rd) = Inr (content, n)"
    using e(1) server by (auto simp: encrypt_body_def bind_res_eq_Inr Let_def)
  have l: "length (rd_nonce rd) = 12" "length (rd_dek_nonce rd) = 12" using cipher(3) by (simp_all add: rand_ok_def)
  have dek: "get_dek_for_secret ?C db1 ?sid None = Inr (rd_dek rd)" "get_dek_for_secret ?C db1 ?sid (Some 1) = Inr (rd_dek rd)"
    using k w(1) wrap_unwrap [OF cipher(1,2) l(2), of "rd_dek rd"]
    by (simp_all add: get_dek_for_secret_def order_desc_def sql_select_def split_beta)
  have p1: "plaintext_of ?C db1 ?sid 1 = Some (sc_content body)"
    using dek(2) decrypt_encrypt_content [OF cipher(1) l(1) cipher(4) w(3)] w(1,2)
    by (simp add: plaintext_of_def v text_version_def)
  have pn: "plaintext_of ?C db1 ?sid m = None" if "m \<noteq> 1" for m
    using vn that by (simp add: plaintext_of_def)
  let ?v = "text_version ?sid 1 content nonce (Some 1) (sc_content body) (Some (cu_id user)) None (rq_clock rq)"
  have v1: "version_of db1 ?sid 1 = Some ?v" using v w(1) by simp
  have rng: "version_of db1 ?sid m \<noteq> None \<longleftrightarrow> 1 \<le> m \<and> m \<le> 1" for m
    using v1 vn by (cases "m = 1") auto
  have rd': "version_of db1 ?sid m \<noteq> None \<longrightarrow> plaintext_of ?C db1 ?sid m \<noteq> None" for m
    using rng [of m] p1 by (cases "m = 1") auto
  have "doc_ok ?C db1 ?sid"
    unfolding doc_ok_def
    by (rule exI [of _ "created_row P rq ?sid body (cu_id user) content nonce token"], rule exI [of _ ?v],
        rule exI [of _ content], rule exI [of _ n], rule exI [of _ 1], rule exI [of _ "rd_dek rd"])
      (use s dek v1 rng rd' w(2) in \<open>simp add: created_row_def text_version_def\<close>)
  moreover have "plaintext_of ?C db1 ?sid = [1 \<mapsto> sc_content body]" using p1 pn by (auto simp: fun_eq_iff)
  ultimately have "doc_of ?C db1 ?sid = Some \<lparr>doc_version = 1, doc_text = [1 \<mapsto> sc_content body]\<rparr>"
    using s by (simp add: doc_of_Some created_row_def)
  then show ?thesis
    using ex e(2) unfolding db resp commit_audit by (auto split: if_splits)
qed

text \<open>a secret the server encrypts starts as a document of one version, whose text is what was sent.\<close>

theorem create_document:
  assumes "aead_ok (cr P)" "length (kek (cr P)) = 32" "rand_ok rd" "is_text (sc_content body)"
    and "refs_ok (wd_db w)" and "\<not> sc_client_encrypted body"
    and "create_secret P rq rd rid body user w = (Inr resp, w')"
  shows "doc_of (cr P) (wd_db w') (cp_id resp) = Some \<lparr>doc_version = 1, doc_text = [1 \<mapsto> sc_content body]\<rparr>"
  using assms by (rule created_doc)

lemma sample_world_hyps:
  "aead_ok (cr demo_platform)" "length (kek (cr demo_platform)) = 32" "refs_ok (wd_db sample_world)"
  "is_text (sc_content sample_body)" "\<not> sc_client_encrypted sample_body"
proof -
  show "is_text (sc_content sample_body)" by code_simp
qed (simp_all add: tag_crypto_laws sample_world_def sample_refs_ok sample_body_def)

theorem create_document_witness:
  "\<exists>resp w'. create_secret demo_platform demo_request sample_rand 9 sample_body sample_user sample_world = (Inr resp, w') \<and>
     doc_of tag_crypto (wd_db w') (cp_id resp) = Some \<lparr>doc_version = 1, doc_text = [1 \<mapsto> ''hi'']\<rparr>"
proof -
  from sample_created obtain resp w' where
    c: "create_secret demo_platform demo_request sample_rand 9 sample_body sample_user sample_world = (Inr resp, w')"
    by blast
  from create_document [OF sample_world_hyps(1,2) _ sample_world_hyps(4,3,5) c] c show ?thesis
    by (simp add: sample_body_def)
qed

text \<open>A stored document for witnesses, with what the handlers read of its row.\<close>

lemma sample_document:
  "\<exists>db s. doc_of tag_crypto db 5 = Some \<lparr>doc_version = 1, doc_text = [1 \<mapsto> ''hi'']\<rparr> \<and> text_content db \<and>
     secret_of db 5 = Some s \<and> s_owner s = Some 1 \<and> s_version s = 1 \<and> s_payload s = Text \<and>
     s_expires s = 1000 * second + hour \<and> user_of db 1 \<noteq> None"
proof -
  from sample_created obtain resp w' where
    c: "create_secret demo_platform demo_request sample_rand 9 sample_body sample_user sample_world = (Inr resp, w')"
    by blast
  from c obtain token db1 where r: "create_rows demo_platform demo_request sample_rand sample_body (cu_id sample_user)
        (wd_db sample_world) = Inr (token, db1)"
    and db: "wd_db w' = commit_txn (wd_db sample_world) (audit_log_conn demo_platform demo_request
                 \<lparr>ae_action = ''secret_created'', ae_actor = Some (cu_id sample_user), ae_ip = Some (rq_ip demo_request),
                  ae_secret = Some (rd_uuid sample_rand), ae_severity = Info\<rparr> db1)"
    and ex: "\<exists>s. secret_of (wd_db w') (rd_uuid sample_rand) = Some s \<and> cp_expires resp = s_expires s"
    and resp: "cp_id resp = rd_uuid sample_rand"
    by (rule create_secret_Inr)
  obtain content nonce where
    s: "secret_of (wd_db sample_world) 5 = None"
      "secret_of db1 5 = Some (created_row demo_platform demo_request 5 sample_body 1 content nonce token)"
      "users db1 = users (wd_db sample_world)"
    by (rule create_rows_lookups [OF r sample_world_hyps(3)]) (rule that; simp add: sample_user_def)
  obtain l where w': "wd_db w' = db1\<lparr>audit_logs := l\<rparr>"
    using ex s(1) unfolding db commit_audit by (auto split: if_splits)
  have "secrets db1 = [created_row demo_platform demo_request 5 sample_body 1 content nonce token]"
    using r s(2)
    by (rule_tac create_rows_Inr [OF r])
      (auto simp: sample_world_def empty_db_def sql_insert_def sql_update_def secret_of_def)
  then have "text_content (wd_db w')" by (simp add: w' text_content_def created_row_def)
  moreover have "doc_of tag_crypto (wd_db w') 5 = Some \<lparr>doc_version = 1, doc_text = [1 \<mapsto> ''hi'']\<rparr>"
    using created_doc [OF sample_world_hyps(1,2) _ sample_world_hyps(4,3,5) c] resp by (simp add: sample_body_def)
  ultimately show ?thesis
    using s(2,3) by (intro exI [of _ "wd_db w'"])
      (auto simp: w' created_row_def sample_body_def demo_request_def user_of_def sample_world_def sample_user_row_def)
qed

text \<open>an update by the owner or an administrator appends exactly the new text to the document and
  answers the next number, provided the client address can be audited; with an address that is no
  inet it answers the same success and the document is unchanged, because the failed audit INSERT
  rolls the transaction back.\<close>

theorem update_appends:
  assumes "aead_ok (cr P)" "length (kek (cr P)) = 32" "rand_ok rd" "is_text (su_content body)"
    and "doc_of (cr P) db sid = Some d"
    and "update_secret P rq rd sid body user db = (Inr (v, t), db')"
  shows "su_expected body = doc_version d \<and> v = doc_version d + 1 \<and> doc_version d < MAX_SECRET_VERSIONS (cfg P) \<and>
    (\<exists>s. secret_of db sid = Some s \<and> (is_admin user \<or> s_owner s = Some (cu_id user)) \<and> rq_now rq < s_expires s) \<and>
    doc_of (cr P) db' sid = Some (if inet_ok P (rq_ip rq) then doc_append (su_content body) d else d)"
proof -
  from assms(6) obtain s kv db1 where g: "update_guards P rq sid body user db = Inr s"
    by (rule update_secret_Inr) (rule that; assumption)
  with assms(5) show ?thesis
    using update_secret_doc [OF assms] by (auto simp: update_guards_Inr require_owns_Inr doc_of_Some)
qed

lemma sample_update:
  assumes "doc_of tag_crypto db 5 = Some \<lparr>doc_version = 1, doc_text = [1 \<mapsto> ''hi'']\<rparr>" "secret_of db 5 = Some s"
    "s_owner s = Some 1" "s_payload s = Text" "s_version s = 1" "s_expires s = 1000 * second + hour" "user_of db 1 \<noteq> None"
  shows "\<exists>t db'. update_secret demo_platform demo_request sample_rand 5
    \<lparr>su_content = ''new'', su_expected = 1, su_note = None\<rparr> sample_user db = (Inr (2, t), db')"
proof -
  obtain v k where v: "version_of db 5 1 = Some v" "v_key v = Some k" "version_of db 5 2 = None"
    by (rule doc_ofE [OF assms(1,2)]) (rule that; simp add: assms(5))
  have g: "update_guards demo_platform demo_request 5 \<lparr>su_content = ''new'', su_expected = 1, su_note = None\<rparr> sample_user db = Inr s"
    using assms v by (simp add: update_guards_Inr require_owns_Inr sample_user_def demo_request_def)
  have "\<exists>kv db1. insert_text_version tag_crypto demo_request sample_rand 5 2 ''new'' (cu_id sample_user) None db = Inr (kv, db1)"
    using assms v
    by (simp add: insert_text_version_def create_version_key_eq encrypt_content_ok sample_rand_def insert_version_def
        text_version_def version_of_def add_key_def secret_of_def user_of_def sample_user_def)
  with g assms(5) show ?thesis by (auto simp: update_secret_def Let_def)
qed

lemma sample_owner [simp]: "require_owns_secret (Some 1) sample_user = Inr ()"
  by (simp add: require_owns_Inr sample_user_def)

lemma hi_text [simp]: "is_text ''new''"
  by code_simp

theorem update_appends_witness:
  "\<exists>db t db'. update_secret demo_platform demo_request sample_rand 5
      \<lparr>su_content = ''new'', su_expected = 1, su_note = None\<rparr> sample_user db = (Inr (2, t), db') \<and>
    doc_of tag_crypto db' 5 = Some \<lparr>doc_version = 2, doc_text = [1 \<mapsto> ''hi'', 2 \<mapsto> ''new'']\<rparr>"
proof -
  obtain db s where d: "doc_of tag_crypto db 5 = Some \<lparr>doc_version = 1, doc_text = [1 \<mapsto> ''hi'']\<rparr>" "secret_of db 5 = Some s"
    "s_owner s = Some 1" "s_payload s = Text" "s_version s = 1" "s_expires s = 1000 * second + hour" "user_of db 1 \<noteq> None"
    using sample_document by blast
  from sample_update [OF d] obtain t db' where u: "update_secret demo_platform demo_request sample_rand 5
      \<lparr>su_content = ''new'', su_expected = 1, su_note = None\<rparr> sample_user db = (Inr (2, t), db')" by blast
  from update_appends [OF _ _ _ _ _ u, of "\<lparr>doc_version = 1, doc_text = [1 \<mapsto> ''hi'']\<rparr>"] d(1) u show ?thesis
    by (auto simp: tag_crypto_laws demo_request_def doc_append_def)
qed

text \<open>restoring version n of a document appends the text version n holds, leaving the versions in
  between in place.\<close>

theorem restore_appends:
  assumes "aead_ok (cr P)" "length (kek (cr P)) = 32" "rand_ok rd"
    and "doc_of (cr P) db sid = Some d" and "inet_ok P (rq_ip rq)"
    and "restore_secret_version P rq rd sid n user db = (Inr (v, t), db')"
  shows "v = doc_version d + 1 \<and>
    (\<exists>p. doc_text d n = Some p \<and> doc_of (cr P) db' sid = Some (doc_append p d) \<and>
       (\<forall>d'. doc_of (cr P) db' sid = Some d' \<longrightarrow>
          doc_text d' (doc_version d') = doc_text d n \<and> (\<forall>m \<le> doc_version d. doc_text d' m = doc_text d m)))"
  using restore_doc [OF assms(1-4,6)] assms(5) by (auto simp: doc_append_def)

theorem restore_appends_witness:
  "\<exists>db t db' d'. restore_secret_version demo_platform demo_request sample_rand 5 1 sample_user db = (Inr (2, t), db') \<and>
    doc_of tag_crypto db' 5 = Some d' \<and> doc_text d' 2 = Some ''hi''"
proof -
  obtain db s where d: "doc_of tag_crypto db 5 = Some \<lparr>doc_version = 1, doc_text = [1 \<mapsto> ''hi'']\<rparr>" "secret_of db 5 = Some s"
    "s_owner s = Some 1" "s_payload s = Text" "s_version s = 1" "user_of db 1 \<noteq> None"
    using sample_document by blast
  obtain v k c m dek where v: "version_of db 5 1 = Some v" "v_payload v = Text" "v_key v = Some k" "v_content v = Some c"
    "v_nonce v = Some m" "get_dek_for_secret tag_crypto db 5 (Some k) = Inr dek" "version_of db 5 2 = None"
    "[1 \<mapsto> ''hi''] = plaintext_of tag_crypto db 5"
    by (rule doc_ofE [OF d(1,2)]) (rule that; simp add: d(5))
  then have "plaintext_of tag_crypto db 5 1 = Some ''hi''" by (metis fun_upd_same)
  with v have "decrypt_content tag_crypto c m dek = Inr ''hi''"
    by (auto simp: plaintext_of_def split: sum.splits)
  with d v have r: "restore_plaintext demo_platform 5 1 sample_user db = Inr (s, ''hi'')"
    by (simp add: restore_plaintext_def)
  have "\<exists>kv db1. insert_text_version tag_crypto demo_request sample_rand 5 2 ''hi'' (cu_id sample_user)
      (Some (''Restored version '' @ py_str_int 1)) db = Inr (kv, db1)"
    using d v
    by (simp add: insert_text_version_def create_version_key_eq encrypt_content_ok sample_rand_def insert_version_def
        text_version_def version_of_def add_key_def secret_of_def user_of_def sample_user_def)
  with r d(5) obtain t db' where u: "restore_secret_version demo_platform demo_request sample_rand 5 1 sample_user db = (Inr (2, t), db')"
    by (auto simp: restore_secret_version_def Let_def)
  have "\<exists>d'. doc_of tag_crypto db' 5 = Some d' \<and> doc_text d' 2 = Some ''hi''"
    using restore_appends [OF _ _ _ _ _ u, of "\<lparr>doc_version = 1, doc_text = [1 \<mapsto> ''hi'']\<rparr>"] d(1)
    by (simp add: tag_crypto_laws demo_request_def doc_append_def)
  with u show ?thesis by blast
qed

text \<open>rotating the key changes no text: the whole document, every version of it, reads as before.\<close>

theorem rotation_keeps_document:
  assumes "aead_ok (cr P)" "length (kek (cr P)) = 32" "rand_ok rd"
    and "doc_of (cr P) db sid = Some d"
    and "rotate_secret_key P rq rd sid user db = (r, db')"
  shows "doc_of (cr P) db' sid = Some d \<and>
    (ok r \<longrightarrow> (\<exists>s. secret_of db sid = Some s \<and> (is_admin user \<or> s_owner s = Some (cu_id user))))"
  using assms(5)
proof (rule rotate_secret_key_cases)
  fix kv db1
  assume r: "rotate_key (cr P) (rq_clock rq) rd sid db = (Inr kv, db1)" "\<exists>l. db' = db1\<lparr>audit_logs := l\<rparr>"
    and o': "\<exists>s. secret_of db sid = Some s \<and> require_owns_secret (s_owner s) user = Inr ()"
  from rotate_key_doc [OF assms(1-4) r(1)] r(2) o' show ?thesis by (auto simp: require_owns_Inr)
qed (use assms(4) in simp)

theorem rotation_keeps_document_witness:
  "\<exists>db r db'. rotate_secret_key demo_platform demo_request sample_rand 5 sample_user db = (r, db') \<and>
     doc_of tag_crypto db' 5 = Some \<lparr>doc_version = 1, doc_text = [1 \<mapsto> ''hi'']\<rparr>"
proof -
  obtain db where d: "doc_of tag_crypto db 5 = Some \<lparr>doc_version = 1, doc_text = [1 \<mapsto> ''hi'']\<rparr>"
    using sample_document by blast
  obtain r db' where r: "rotate_secret_key demo_platform demo_request sample_rand 5 sample_user db = (r, db')" by fastforce
  from rotation_keeps_document [OF _ _ _ _ r, of "\<lparr>doc_version = 1, doc_text = [1 \<mapsto> ''hi'']\<rparr>"] d r show ?thesis
    by (auto simp: tag_crypto_laws)
qed

text \<open>a retrieval of a secret that is a document returns the text of its current version, decrypted
  by the server.\<close>

theorem retrieve_reads_current:
  assumes "retrieve_secret P rq secret_id pw token user db = (Inr (c, note), db')"
    and "parse_uuid secret_id = Some sid" and "doc_of (cr P) db sid = Some d"
  shows "doc_text d (doc_version d) = Some (ct_content c) \<and> ct_version c = doc_version d \<and> \<not> ct_client_encrypted c"
proof -
  from assms(1,2) obtain p :: policy_row where
    "retrieve_locked P rq (p_version p) sid pw user db = (Inr (c, note), db')"
    by (elim retrieve_secret_Inr) (rule that; simp)
  then obtain s where g: "retrieve_guards P rq (p_version p) sid pw user db = Inr s"
    and r: "read_content P db s = Inr (Some (ct_content c), ct_client_encrypted c)" and v: "ct_version c = s_version s"
    by (rule retrieve_locked_Inr) (rule that; assumption)
  have s: "secret_of db sid = Some s" "s_id s = sid"
    using g row_of_Some [of s_id "secrets db" sid s] by (auto simp: retrieve_guards_Inr secret_of_def)
  obtain ver x m k dek where d: "s_content s = Some x" "s_nonce s = Some m"
    "version_of db sid (s_version s) = Some ver" "v_payload ver = Text" "v_content ver = Some x" "v_nonce ver = Some m"
    "v_key ver = Some k" "get_dek_for_secret (cr P) db sid None = Inr dek"
    "get_dek_for_secret (cr P) db sid (Some k) = Inr dek"
    "doc_version d = s_version s" "doc_text d = plaintext_of (cr P) db sid"
    by (rule doc_ofE [OF assms(3) s(1)]) (rule that; assumption)
  have "secret_keys_exist db sid"
    using d(8) by (auto simp: secret_keys_exist_def get_dek_for_secret_def order_desc_def)
  then have "decrypt_content (cr P) x m dek = Inr (ct_content c)" "\<not> ct_client_encrypted c"
    using r d s(2) by (auto simp: read_content_def split: sum.splits exc.splits)
  then show ?thesis using d v by (simp add: plaintext_of_def)
qed

lemma sample_retrieved:
  "\<exists>resp w' c nt db'. create_secret demo_platform demo_request sample_rand 9 sample_body sample_user sample_world = (Inr resp, w') \<and>
     cp_id resp = 5 \<and> retrieve_secret demo_platform demo_request (uuid_str 5) None None None (wd_db w') = (Inr (c, nt), db')"
proof -
  from sample_created obtain resp w' where
    c: "create_secret demo_platform demo_request sample_rand 9 sample_body sample_user sample_world = (Inr resp, w')"
    and e: "cp_expires resp = 1000 * second + hour" by blast
  from c obtain token db1 where r: "create_rows demo_platform demo_request sample_rand sample_body (cu_id sample_user)
        (wd_db sample_world) = Inr (token, db1)"
    and db: "wd_db w' = commit_txn (wd_db sample_world) (audit_log_conn demo_platform demo_request
                 \<lparr>ae_action = ''secret_created'', ae_actor = Some (cu_id sample_user), ae_ip = Some (rq_ip demo_request),
                  ae_secret = Some (rd_uuid sample_rand), ae_severity = Info\<rparr> db1)"
    and ex: "\<exists>s. secret_of (wd_db w') (rd_uuid sample_rand) = Some s \<and> cp_expires resp = s_expires s"
    and resp: "cp_id resp = rd_uuid sample_rand"
    by (rule create_secret_Inr)
  obtain content nonce wrapped where
    e1: "encrypt_body demo_platform sample_rand sample_body = Inr (content, nonce, wrapped)" and
    s: "secret_of (wd_db sample_world) 5 = None"
      "secret_of db1 5 = Some (created_row demo_platform demo_request 5 sample_body 1 content nonce token)"
    and p: "policy_of db1 5 = Some \<lparr>p_secret = 5, p_cidrs = [],
       p_countries = [], p_mode = ''all'', p_fail_closed = True, p_version = 1\<rparr>"
    and k: "keys_of db1 5 = (case wrapped of None \<Rightarrow> [] | Some (w, n) \<Rightarrow>
       [\<lparr>k_secret = rd_uuid sample_rand, k_wrapped = w, k_nonce = n, k_version = 1, k_rotated = None\<rparr>])"
    and t: "\<exists>t. row_of t_secret (secret_tracking db1) 5 = Some t"
    by (rule create_rows_lookups [OF r sample_world_hyps(3)]) (rule that; simp add: sample_user_def sample_body_def)
  let ?s = "created_row demo_platform demo_request 5 sample_body 1 content nonce token"
  obtain l where w': "wd_db w' = db1\<lparr>audit_logs := l\<rparr>"
    using ex s(1) unfolding db commit_audit by (auto split: if_splits)
  let ?db = "wd_db w'"
  have a: "authorize demo_platform demo_request 5 None ?db = (Inr 1, ?db)"
    using authorize_ok [of ?db 5 _ demo_platform demo_request None] p
    by (simp add: w' check_share_token_def location_allowed_def)
  have g: "retrieve_guards demo_platform demo_request 1 5 None None ?db = Inr ?s"
    using s(2) p by (simp add: retrieve_guards_Inr created_row_def sample_body_def demo_request_def w')
  have rc: "read_content demo_platform ?db ?s = Inr (Some ''hi'', False)"
  proof -
    have "read_content demo_platform ?db ?s = Inr (Some (sc_content sample_body), sc_client_encrypted sample_body)"
      using k [unfolded sample_rand_ok] by (intro encrypt_body_readable [OF e1 sample_world_hyps(1,2) _ sample_world_hyps(4)])
        (simp_all add: created_row_def w' keys_of_def)
    then show ?thesis by (simp add: sample_body_def)
  qed
  obtain t' where "row_of t_secret (secret_tracking ?db) 5 = Some t'" using t by (auto simp: w')
  from record_view_tracked [OF this, of None demo_request "s_version ?s"]
  obtain db2 where v: "record_view demo_request 5 None (s_version ?s) ?db = Inr (1, db2)"
    by auto
  have acc: "audit_accepts demo_platform (viewed_entry demo_request 5 None) db2"
    using s(2) record_view_frame(1) [OF v] by (simp add: audit_accepts_viewed demo_request_def secret_of_def w')
  from retrieve_locked_ok [OF g rc v acc] a c resp show ?thesis
    by (auto simp: retrieve_secret_def parse_uuid_str)
qed

theorem retrieve_reads_current_witness:
  "\<exists>db c nt db'. retrieve_secret demo_platform demo_request (uuid_str 5) None None None db = (Inr (c, nt), db') \<and>
     ct_content c = ''hi''"
proof -
  obtain resp w' c nt db' where
    c: "create_secret demo_platform demo_request sample_rand 9 sample_body sample_user sample_world = (Inr resp, w')"
    "cp_id resp = 5" and
    r: "retrieve_secret demo_platform demo_request (uuid_str 5) None None None (wd_db w') = (Inr (c, nt), db')"
    using sample_retrieved by blast
  have d: "doc_of (cr demo_platform) (wd_db w') 5 = Some \<lparr>doc_version = 1, doc_text = [1 \<mapsto> ''hi'']\<rparr>"
    using created_doc [OF sample_world_hyps(1,2) _ sample_world_hyps(4,3,5) c(1)] c(2) by (simp add: sample_body_def)
  from retrieve_reads_current [OF r parse_uuid_str d] r show ?thesis by auto
qed

text \<open>C11: history is append-only: after any sequence of updates, restores, rotations and retrievals,
  by whoever and whether they succeed or fail, the secret is gone for good or every version the
  document had still reads the same and its version number has not gone back.\<close>

theorem history_is_append_only:
  assumes "text_content db" "list_all (op_ok P) ops" "doc_of (cr P) db sid = Some d"
  shows "secret_of (fold (doc_step P sid) ops db) sid = None \<or>
    (\<exists>d'. doc_of (cr P) (fold (doc_step P sid) ops db) sid = Some d' \<and> doc_version d \<le> doc_version d' \<and>
       (\<forall>n \<le> doc_version d. doc_text d' n = doc_text d n))"
  using vs.history [OF assms] by (simp add: vs.run_def)

theorem history_is_append_only_witness:
  "\<exists>db d'. doc_of tag_crypto (fold (doc_step demo_platform 5) [Rotate demo_request sample_rand sample_user] db) 5 = Some d' \<and>
     doc_text d' 1 = Some ''hi''"
proof -
  obtain db s where d: "doc_of tag_crypto db 5 = Some \<lparr>doc_version = 1, doc_text = [1 \<mapsto> ''hi'']\<rparr>" "text_content db"
    "secret_of db 5 = Some s"
    using sample_document by blast
  have ops: "list_all (op_ok demo_platform) [Rotate demo_request sample_rand sample_user]"
    by (simp add: op_ok_def tag_crypto_laws)
  obtain r db' where r: "rotate_secret_key demo_platform demo_request sample_rand 5 sample_user db = (r, db')" by fastforce
  have "secret_of db' 5 \<noteq> None"
    using rotate_secrets [OF r] d(3) by (auto simp: secret_of_def row_of_update)
  then have "\<exists>d'. doc_of tag_crypto (fold (doc_step demo_platform 5) [Rotate demo_request sample_rand sample_user] db) 5 =
      Some d' \<and> doc_text d' 1 = Some ''hi''"
    using history_is_append_only [OF d(2) ops, of 5 "\<lparr>doc_version = 1, doc_text = [1 \<mapsto> ''hi'']\<rparr>"] d(1) r
    by (auto simp: doc_step_def)
  then show ?thesis by blast
qed

text \<open>updates are optimistic: once an update made against a version number is stored, any other
  update against the same number, by whoever it is made, is refused and changes nothing; whoever may
  manage the secret is told the current version.\<close>

theorem update_conflict:
  assumes "aead_ok (cr P)" "length (kek (cr P)) = 32" "rand_ok rd" "is_text (su_content body)"
    and "doc_of (cr P) db sid = Some d" and "inet_ok P (rq_ip rq)"
    and "update_secret P rq rd sid body user db = (Inr (v, t), db')"
    and "su_expected body2 = su_expected body"
  shows "\<exists>e. update_secret P rq2 rd2 sid body2 user2 db' = (Inl e, db') \<and>
    (\<forall>s. secret_of db' sid = Some s \<and> (is_admin user2 \<or> s_owner s = Some (cu_id user2)) \<and> rq_now rq2 < s_expires s \<longrightarrow>
       e = HTTPException 409 (VersionConflict v) [])"
proof -
  have d': "doc_of (cr P) db' sid = Some (doc_append (su_content body) d)" "v = doc_version d + 1"
    "su_expected body2 = doc_version d"
    using update_secret_doc [OF assms(1-5,7)] assms(6,8) by auto
  then obtain s where s: "secret_of db' sid = Some s" "s_version s = v" "s_payload s = Text"
    by (auto simp: doc_of_Some doc_append_def doc_ok_def)
  have "update_guards P rq2 sid body2 user2 db' \<noteq> Inr x" for x
    using s d' by (auto simp: update_guards_Inr)
  then obtain e where e: "update_guards P rq2 sid body2 user2 db' = Inl e"
    by (cases "update_guards P rq2 sid body2 user2 db'") auto
  have "e = HTTPException 409 (VersionConflict v) []"
    if "is_admin user2 \<or> s_owner s = Some (cu_id user2)" "rq_now rq2 < s_expires s"
    using e s d' that by (simp add: update_guards_def require_owns_Inr [THEN iffD2])
  with e s(1) show ?thesis by (simp add: update_secret_def)
qed

theorem update_conflict_witness:
  "\<exists>db t db' e. update_secret demo_platform demo_request sample_rand 5
      \<lparr>su_content = ''new'', su_expected = 1, su_note = None\<rparr> sample_user db = (Inr (2, t), db') \<and>
    update_secret demo_platform demo_request sample_rand 5
      \<lparr>su_content = ''x'', su_expected = 1, su_note = None\<rparr> sample_user db' = (Inl e, db')"
proof -
  obtain db s where d: "doc_of tag_crypto db 5 = Some \<lparr>doc_version = 1, doc_text = [1 \<mapsto> ''hi'']\<rparr>" "secret_of db 5 = Some s"
    "s_owner s = Some 1" "s_payload s = Text" "s_version s = 1" "s_expires s = 1000 * second + hour" "user_of db 1 \<noteq> None"
    using sample_document by blast
  from sample_update [OF d] obtain t db' where u: "update_secret demo_platform demo_request sample_rand 5
      \<lparr>su_content = ''new'', su_expected = 1, su_note = None\<rparr> sample_user db = (Inr (2, t), db')" by blast
  from update_conflict [OF _ _ _ _ _ _ u, of "\<lparr>doc_version = 1, doc_text = [1 \<mapsto> ''hi'']\<rparr>"
      "\<lparr>su_content = ''x'', su_expected = 1, su_note = None\<rparr>" demo_request sample_rand sample_user] d(1) u
  show ?thesis by (fastforce simp: tag_crypto_laws demo_request_def)
qed

end
