(* ===== verification/Secret_Access.thy ===== *)
theory Secret_Access
  imports Secrets
begin

text \<open>
  app/routers/secret_access.py (replacing the location rules of a secret, which revokes every
  earlier share link) and app/routers/secret_views.py (the creator's view history, which survives
  the secret).
\<close>

definition set_policy :: "uuid \<Rightarrow> policy_update \<Rightarrow> int \<Rightarrow> database \<Rightarrow> database" where
  "set_policy sid body version db =
     db\<lparr>access_policies := sql_update (\<lambda>p. p_secret p = sid)
       (\<lambda>p. p\<lparr>p_cidrs := lp_cidrs body, p_countries := lp_countries body, p_mode := lp_mode body,
              p_fail_closed := lp_fail_closed body, p_version := version\<rparr>) (access_policies db)\<rparr>"

definition set_token :: "request \<Rightarrow> uuid \<Rightarrow> string \<Rightarrow> database \<Rightarrow> database" where
  "set_token rq sid token db =
     db\<lparr>secrets := sql_update (\<lambda>s. s_id s = sid)
          (\<lambda>s. s\<lparr>s_signed_token := Some token, s_updated := rq_clock rq\<rparr>) (secrets db)\<rparr>"

record policy_response =
  pr_secret :: uuid
  pr_cidrs :: "string list"
  pr_countries :: "string list"
  pr_mode :: string
  pr_fail_closed :: bool
  pr_version :: int
  pr_token :: string
  pr_url :: string

definition update_location_policy ::
  "platform \<Rightarrow> request \<Rightarrow> uuid \<Rightarrow> policy_update \<Rightarrow> current_user \<Rightarrow> database \<Rightarrow> policy_response res \<times> database" where
  "update_location_policy P rq sid body user db =
     (case (secret_of db sid, policy_of db sid) of
        (Some s, Some p) \<Rightarrow>
          (case require_owns_secret (s_owner s) user of
             Inl e \<Rightarrow> (Inl e, db)
           | Inr _ \<Rightarrow>
          (let new_policy_version = p_version p + 1;
               token = create_signed_token (cr P) (SIGNED_URL_SECRET (cfg P)) (rq_now rq) sid 0 new_policy_version
                         (Some (s_expires s));
               db1 = set_token rq sid token (set_policy sid body new_policy_version db);
               db2 = commit_txn db (audit_log_conn P rq
                       \<lparr>ae_action = ''secret_updated'', ae_actor = Some (cu_id user), ae_ip = Some (rq_ip rq),
                        ae_secret = Some sid, ae_severity = Info\<rparr> db1) in
           (Inr \<lparr>pr_secret = sid, pr_cidrs = lp_cidrs body, pr_countries = lp_countries body,
                 pr_mode = lp_mode body, pr_fail_closed = lp_fail_closed body, pr_version = new_policy_version,
                 pr_token = token,
                 pr_url = BASE_URL (cfg P) @ ''/api/secrets/'' @ uuid_str sid @
                   (if s_payload s = File then ''/file'' else []) @ ''?token='' @ token\<rparr>, db2)))
      | _ \<Rightarrow> (Inl (http 404 ''Secret not found''), db))"

record views_page =
  vp_page :: "view_row page"
  vp_retain :: micros

text \<open>ORDER BY viewed_at DESC, id DESC: ids grow with insertion, so the last inserted comes first.\<close>

definition secret_views_of :: "request \<Rightarrow> uuid \<Rightarrow> nat \<Rightarrow> nat \<Rightarrow> current_user \<Rightarrow> database \<Rightarrow> views_page res" where
  "secret_views_of rq sid page page_size user db =
     (case fetchone (sql_select (\<lambda>t. t_secret t = sid \<and> t_owner t = cu_id user \<and> rq_clock rq < t_retain t)
             (secret_tracking db)) of
        None \<Rightarrow> Inl (http 404 ''View history not found'')
      | Some tracking \<Rightarrow>
          Inr \<lparr>vp_page = paginate page page_size
                 (order_desc w_at (sql_select (\<lambda>w. w_secret w = sid) (secret_views db))),
               vp_retain = t_retain tracking\<rparr>)"

subsection \<open>A policy update\<close>

lemma set_policy_look:
  "policy_of (set_policy sid body v db) sid' =
     (if sid = sid' then map_option (\<lambda>p. p\<lparr>p_cidrs := lp_cidrs body, p_countries := lp_countries body,
        p_mode := lp_mode body, p_fail_closed := lp_fail_closed body, p_version := v\<rparr>) (policy_of db sid)
      else policy_of db sid')"
  "secret_of (set_policy sid body v db) sid' = secret_of db sid'"
  by (simp_all add: set_policy_def policy_of_def row_of_update secret_of_def)

lemma set_token_look:
  "policy_of (set_token rq sid t db) sid' = policy_of db sid'"
  "secret_of (set_token rq sid t db) sid' =
     (if sid = sid' then map_option (\<lambda>s. s\<lparr>s_signed_token := Some t, s_updated := rq_clock rq\<rparr>) (secret_of db sid)
      else secret_of db sid')"
  by (simp_all add: set_token_def policy_of_def row_of_update secret_of_def)

lemma users_set [simp]:
  "users (set_token rq sid t db) = users db" "users (set_policy sid body v db) = users db"
  by (simp_all add: set_token_def set_policy_def)

lemma update_location_policy_Inr:
  assumes "update_location_policy P rq sid body user db = (Inr r, db')"
    and "inet_ok P (rq_ip rq)" and "user_of db (cu_id user) \<noteq> None"
  obtains s p where "secret_of db sid = Some s" "policy_of db sid = Some p"
    "is_admin user \<or> s_owner s = Some (cu_id user)"
    "pr_version r = p_version p + 1"
    "pr_token r = create_signed_token (cr P) (SIGNED_URL_SECRET (cfg P)) (rq_now rq) sid 0 (p_version p + 1)
       (Some (s_expires s))"
    "policy_of db' sid = Some (p\<lparr>p_cidrs := lp_cidrs body, p_countries := lp_countries body,
        p_mode := lp_mode body, p_fail_closed := lp_fail_closed body, p_version := p_version p + 1\<rparr>)"
    "secret_of db' sid = Some (s\<lparr>s_signed_token := Some (pr_token r), s_updated := rq_clock rq\<rparr>)"
proof -
  from assms(1) obtain s p where s: "secret_of db sid = Some s" "policy_of db sid = Some p"
      "require_owns_secret (s_owner s) user = Inr ()"
    by (auto simp: update_location_policy_def split: option.splits sum.splits)
  let ?t = "create_signed_token (cr P) (SIGNED_URL_SECRET (cfg P)) (rq_now rq) sid 0 (p_version p + 1) (Some (s_expires s))"
  let ?db1 = "set_token rq sid ?t (set_policy sid body (p_version p + 1) db)"
  have acc: "audit_accepts P \<lparr>ae_action = ''secret_updated'', ae_actor = Some (cu_id user), ae_ip = Some (rq_ip rq),
      ae_secret = Some sid, ae_severity = Info\<rparr> ?db1"
    using assms(2,3) s(1)
    by (simp add: audit_accepts_def audit_actions_def set_token_look set_policy_look) (simp add: user_of_def)
  have r: "pr_version r = p_version p + 1" "pr_token r = ?t"
    and db': "db' = ?db1\<lparr>audit_logs := sql_insert (audit_row_of rq \<lparr>ae_action = ''secret_updated'',
      ae_actor = Some (cu_id user), ae_ip = Some (rq_ip rq), ae_secret = Some sid, ae_severity = Info\<rparr>) (audit_logs ?db1)\<rparr>"
    using assms(1) s acc by (auto simp: update_location_policy_def Let_def commit_audit)
  show thesis
    using s r by (intro that [of s p]) (auto simp: db' set_token_look set_policy_look require_owns_Inr)
qed

text \<open>replacing the location rules (by the owner or an administrator) stores the new rules under
  the next policy version and revokes every earlier link: a link this server made for another
  version is refused for the secret from then on, and the link that was returned is accepted until
  the secret expires.\<close>

theorem policy_update_revokes:
  assumes "update_location_policy P rq sid body user db = (Inr r, db')"
    and "inet_ok P (rq_ip rq)" and "user_of db (cu_id user) \<noteq> None"
  shows "\<exists>s p p'. secret_of db sid = Some s \<and> policy_of db sid = Some p \<and> policy_of db' sid = Some p' \<and>
    (is_admin user \<or> s_owner s = Some (cu_id user)) \<and>
    p_version p' = p_version p + 1 \<and> pr_version r = p_version p' \<and>
    p_cidrs p' = lp_cidrs body \<and> p_countries p' = lp_countries body \<and> p_mode p' = lp_mode body \<and>
    p_fail_closed p' = lp_fail_closed body \<and>
    (\<forall>rq2. check_share_token P rq2 sid (Some (pr_token r)) (p_version p') =
       (if trunc_seconds (s_expires s) * second < rq_now rq2 then Inl (http 403 ''Share token has expired'') else Inr ())) \<and>
    (\<forall>rq2 now0 hours pv ex. pv \<noteq> p_version p' \<longrightarrow> \<not> ok (check_share_token P rq2 sid
       (Some (create_signed_token (cr P) (SIGNED_URL_SECRET (cfg P)) now0 sid hours pv ex)) (p_version p')))"
proof -
  obtain s p where sp: "secret_of db sid = Some s" "policy_of db sid = Some p"
    "is_admin user \<or> s_owner s = Some (cu_id user)" "pr_version r = p_version p + 1"
    "pr_token r = create_signed_token (cr P) (SIGNED_URL_SECRET (cfg P)) (rq_now rq) sid 0 (p_version p + 1)
       (Some (s_expires s))"
    "policy_of db' sid = Some (p\<lparr>p_cidrs := lp_cidrs body, p_countries := lp_countries body,
        p_mode := lp_mode body, p_fail_closed := lp_fail_closed body, p_version := p_version p + 1\<rparr>)"
    by (rule update_location_policy_Inr [OF assms]) (rule that; assumption)
  have "\<forall>rq2. check_share_token P rq2 sid (Some (pr_token r)) (p_version p + 1) =
       (if trunc_seconds (s_expires s) * second < rq_now rq2 then Inl (http 403 ''Share token has expired'') else Inr ())"
    unfolding sp(5) check_created_token by simp
  moreover have "\<forall>rq2 now0 hours pv ex. pv \<noteq> p_version p + 1 \<longrightarrow> \<not> ok (check_share_token P rq2 sid
       (Some (create_signed_token (cr P) (SIGNED_URL_SECRET (cfg P)) now0 sid hours pv ex)) (p_version p + 1))"
    unfolding check_created_token by (simp add: Let_def)
  ultimately show ?thesis
    using sp by (intro exI [of _ s] exI [of _ p] exI [of _ "p\<lparr>p_cidrs := lp_cidrs body,
      p_countries := lp_countries body, p_mode := lp_mode body, p_fail_closed := lp_fail_closed body,
      p_version := p_version p + 1\<rparr>"]) simp
qed

definition sample_policy_body :: policy_update where
  "sample_policy_body = \<lparr>lp_cidrs = [], lp_countries = [''SE''], lp_mode = ''all'', lp_fail_closed = True\<rparr>"

definition sample_secret_db :: database where
  "sample_secret_db = empty_db\<lparr>users := [sample_user_row], access_policies := [sample_policy],
     secrets := [created_row demo_platform demo_request 5 sample_body 1 ''hi'' None []]\<rparr>"

lemma sample_secret_db:
  "secret_of sample_secret_db 5 = Some (created_row demo_platform demo_request 5 sample_body 1 ''hi'' None [])"
  "policy_of sample_secret_db 5 = Some sample_policy" "user_of sample_secret_db 1 \<noteq> None"
  by (simp_all add: sample_secret_db_def secret_of_def policy_of_def user_of_def created_row_def sample_policy_def
      sample_user_row_def)

lemma sample_policy_update:
  "\<exists>r db'. update_location_policy demo_platform demo_request 5 sample_policy_body sample_user sample_secret_db = (Inr r, db')"
proof -
  have "require_owns_secret (s_owner (created_row demo_platform demo_request 5 sample_body 1 ''hi'' None [])) sample_user = Inr ()"
    by (simp add: require_owns_Inr created_row_def sample_user_def)
  then show ?thesis using sample_secret_db by (simp add: update_location_policy_def Let_def)
qed

theorem policy_update_revokes_witness:
  "\<exists>r db' p'. update_location_policy demo_platform demo_request 5 sample_policy_body sample_user sample_secret_db = (Inr r, db') \<and>
     policy_of db' 5 = Some p' \<and> p_version p' = 4 \<and>
     \<not> ok (check_share_token demo_platform demo_request 5
        (Some (create_signed_token tag_crypto ''url-key'' 0 5 1 3 None)) 4)"
proof -
  obtain r db' where u: "update_location_policy demo_platform demo_request 5 sample_policy_body sample_user sample_secret_db = (Inr r, db')"
    using sample_policy_update by blast
  have h: "inet_ok demo_platform (rq_ip demo_request)" "user_of sample_secret_db (cu_id sample_user) \<noteq> None"
    using sample_secret_db(3) by (simp_all add: demo_request_def sample_user_def)
  from policy_update_revokes [OF u h] u sample_secret_db show ?thesis
    by (fastforce simp: sample_policy_def)
qed

text \<open>a retrieval that was authorised before a policy update and reaches the secret after it is
  refused: the policy version is checked again under the row lock, so the old rules never let
  anyone in once new ones are stored.\<close>

theorem policy_race_refused:
  assumes "authorize P rq sid token db = (Inr pv, db1)"
    and "update_location_policy P rq2 sid body user db1 = (Inr r, db2)"
    and "inet_ok P (rq_ip rq2)" and "user_of db1 (cu_id user) \<noteq> None"
  shows "retrieve_locked P rq pv sid pw viewer db2 =
    (Inl (http 403 ''Share token policy is no longer current''), db2)"
proof -
  have db1: "db1 = db" and pv: "\<exists>row. policy_of db sid = Some row \<and> pv = p_version row"
    using authorize_Inr [OF assms(1)] by auto
  obtain s p where "policy_of db1 sid = Some p"
    "policy_of db2 sid = Some (p\<lparr>p_cidrs := lp_cidrs body, p_countries := lp_countries body,
        p_mode := lp_mode body, p_fail_closed := lp_fail_closed body, p_version := p_version p + 1\<rparr>)"
    "secret_of db2 sid = Some (s\<lparr>s_signed_token := Some (pr_token r), s_updated := rq_clock rq2\<rparr>)"
    by (rule update_location_policy_Inr [OF assms(2-4)]) (rule that; assumption)
  with pv show ?thesis by (simp add: retrieve_locked_def retrieve_guards_def db1)
qed

theorem policy_race_refused_witness:
  "\<exists>db2. retrieve_locked demo_platform demo_request 3 5 None None db2 =
     (Inl (http 403 ''Share token policy is no longer current''), db2)"
proof -
  obtain r db' where u: "update_location_policy demo_platform demo_request 5 sample_policy_body sample_user sample_secret_db = (Inr r, db')"
    using sample_policy_update by blast
  have h: "inet_ok demo_platform (rq_ip demo_request)" "user_of sample_secret_db (cu_id sample_user) \<noteq> None"
    using sample_secret_db(3) by (simp_all add: demo_request_def sample_user_def)
  have "authorize demo_platform demo_request 5 None sample_secret_db = (Inr 3, sample_secret_db)"
    using authorize_ok [OF sample_secret_db(2), of demo_platform demo_request None]
    by (simp add: check_share_token_def sample_policy_def location_allowed_def)
  from policy_race_refused [OF this u h] show ?thesis by blast
qed

subsection \<open>The view history\<close>

lemma views_tracking_viewed_db [simp]:
  "secret_views (viewed_db P rq sid user s db) = secret_views db"
  "secret_tracking (viewed_db P rq sid user s db) = secret_tracking db"
  by (simp_all add: viewed_db_def update_view_count_def delete_secrets_def Let_def split: option.split)

lemma length_order_desc [simp]: "length (order_desc f t) = length t"
  by (simp add: order_desc_def)

text \<open>every successful retrieval of a tracked secret adds exactly one history entry, with the viewer's
  account as it was and the version read, also when that retrieval removes the secret; the creator,
  and no one else, sees it in the history until the retention time.\<close>

theorem retrieval_recorded:
  assumes "retrieve_secret P rq secret_id pw token user db = (Inr (c, note), db')"
    and "parse_uuid secret_id = Some sid" and "row_of t_secret (secret_tracking db) sid = Some t"
  shows "secret_views db' = secret_views db @
      [\<lparr>w_secret = sid, w_viewer = map_option cu_id user, w_email = map_option cu_email user,
        w_verified = (case user of None \<Rightarrow> False | Some u \<Rightarrow> cu_verified u),
        w_version = Some (ct_version c), w_at = rq_clock rq\<rparr>] \<and>
    (\<forall>rq2 page n creator. cu_id creator = t_owner t \<and> rq_clock rq2 < t_retain t \<longrightarrow>
       (\<exists>v. secret_views_of rq2 sid page n creator db' = Inr v \<and>
          pg_total (vp_page v) = length (sql_select (\<lambda>w. w_secret w = sid) (secret_views db)) + 1)) \<and>
    (\<forall>rq2 page n u. ok (secret_views_of rq2 sid page n u db') \<longrightarrow>
       (\<exists>t \<in> set (secret_tracking db). t_secret t = sid \<and> t_owner t = cu_id u \<and> rq_clock rq2 < t_retain t))"
proof -
  from assms(1,2) obtain p :: policy_row where
    "retrieve_locked P rq (p_version p) sid pw user db = (Inr (c, note), db')"
    by (elim retrieve_secret_Inr) (rule that; simp)
  then obtain s db1 n where v: "record_view rq sid user (s_version s) db = Inr (n, db1)"
    "db' = viewed_db P rq sid user s db1" "ct_version c = s_version s"
    by (rule retrieve_locked_Inr) (rule that; assumption)
  have views: "secret_views db' = secret_views db @
      [\<lparr>w_secret = sid, w_viewer = map_option cu_id user, w_email = map_option cu_email user,
        w_verified = (case user of None \<Rightarrow> False | Some u \<Rightarrow> cu_verified u),
        w_version = Some (ct_version c), w_at = rq_clock rq\<rparr>]"
    using v assms(3) by (auto simp: record_view_def sql_insert_def split: if_splits)
  have tr: "secret_tracking db' = secret_tracking db"
    using record_view_frame(8) [OF v(1)] v(2) by simp
  have t: "t \<in> set (secret_tracking db)" "t_secret t = sid" using row_of_Some [OF assms(3)] by auto
  have "\<exists>x. fetchone (sql_select (\<lambda>t. t_secret t = sid \<and> t_owner t = cu_id creator \<and> rq_clock rq2 < t_retain t)
      (secret_tracking db)) = Some x" if "cu_id creator = t_owner t" "rq_clock rq2 < t_retain t" for creator rq2
  proof -
    have "t \<in> set (sql_select (\<lambda>t. t_secret t = sid \<and> t_owner t = cu_id creator \<and> rq_clock rq2 < t_retain t)
      (secret_tracking db))" using t that by (simp add: rows)
    then show ?thesis by (auto simp: fetchone_def split: list.splits)
  qed
  moreover have "\<exists>t \<in> set (secret_tracking db). t_secret t = sid \<and> t_owner t = cu_id u \<and> rq_clock rq2 < t_retain t"
    if "ok (secret_views_of rq2 sid page m u db')" for rq2 page m u
    using that tr by (auto simp: secret_views_of_def fetchone_def ok_iff sql_select_def filter_eq_Cons_iff
        split: option.splits list.splits)
  ultimately show ?thesis
    using views tr
    by (fastforce simp: secret_views_of_def paginate_def sql_select_def)
qed

theorem retrieval_recorded_witness:
  "\<exists>db c nt db' v. retrieve_secret demo_platform demo_request (uuid_str 5) None None None db = (Inr (c, nt), db') \<and>
     secret_views db' = [v] \<and> w_secret v = 5"
proof -
  let ?row = "created_row demo_platform demo_request 5 (sample_body\<lparr>sc_client_encrypted := True\<rparr>) 1 ''hi'' None []"
  let ?t = "\<lparr>t_secret = 5, t_owner = 1, t_retain = 2000 * second\<rparr>"
  let ?db = "empty_db\<lparr>secrets := [?row], access_policies := [sample_policy], secret_tracking := [?t]\<rparr>"
  have s: "secret_of ?db 5 = Some ?row" by (simp add: secret_of_def created_row_def)
  have p: "policy_of ?db 5 = Some sample_policy" by (simp add: policy_of_def sample_policy_def)
  have t: "row_of t_secret (secret_tracking ?db) 5 = Some ?t" by simp
  have a: "authorize demo_platform demo_request 5 None ?db = (Inr 3, ?db)"
    using authorize_ok [OF p, of demo_platform demo_request None]
    by (simp add: check_share_token_def sample_policy_def location_allowed_def)
  have g: "retrieve_guards demo_platform demo_request 3 5 None None ?db = Inr ?row"
    using s p by (simp add: retrieve_guards_Inr created_row_def sample_body_def demo_request_def sample_policy_def)
  have r: "read_content demo_platform ?db ?row = Inr (Some ''hi'', True)"
    by (simp add: read_content_def secret_keys_exist_def keys_of_def empty_db_def sql_select_def created_row_def)
  from record_view_tracked [OF t, of None demo_request "s_version ?row"]
  obtain db1 where v: "record_view demo_request 5 None (s_version ?row) ?db = Inr (1, db1)" by auto
  have acc: "audit_accepts demo_platform (viewed_entry demo_request 5 None) db1"
    using s record_view_frame(1) [OF v] by (simp add: audit_accepts_viewed demo_request_def secret_of_def)
  from retrieve_locked_ok [OF g r v acc] a obtain c nt db' where
    u: "retrieve_secret demo_platform demo_request (uuid_str 5) None None None ?db = (Inr (c, nt), db')"
    by (auto simp: retrieve_secret_def parse_uuid_str)
  have "\<exists>v. secret_views db' = [v] \<and> w_secret v = 5"
    using retrieval_recorded [OF u parse_uuid_str t] by (simp add: empty_db_def)
  with u show ?thesis by blast
qed

end
