(* ===== verification/Objects.thy ===== *)
theory Objects
  imports Audit_Log
begin

text \<open>
  The objects of the store and the three tables that refer to them: the versions of a file secret
  (live objects), uploads that are not published yet, and the outbox of objects to delete.  The
  store itself is the set of the keys it holds.
\<close>

definition live_objects :: "database \<Rightarrow> string set" where
  "live_objects db = {k. \<exists>v \<in> set (secret_versions db). v_object v = Some k}"

definition pending_objects :: "database \<Rightarrow> string set" where
  "pending_objects db = pu_object ` set (pending_uploads db)"

definition queued_objects :: "database \<Rightarrow> string set" where
  "queued_objects db = o_object ` {b \<in> set (deletion_outbox db). o_processed b = None}"

definition outbox_objects :: "database \<Rightarrow> string set" where
  "outbox_objects db = o_object ` set (deletion_outbox db)"

text \<open>
  The column constraints: primary keys, one object per version, and no object that is both live
  and up for deletion.
\<close>

definition object_rows_ok :: "database \<Rightarrow> bool" where
  "object_rows_ok db \<longleftrightarrow>
     distinct (map o_id (deletion_outbox db)) \<and> distinct (map pu_id (pending_uploads db)) \<and>
     (\<forall>v \<in> set (secret_versions db). \<forall>v' \<in> set (secret_versions db).
        v_object v \<noteq> None \<longrightarrow> v_object v = v_object v' \<longrightarrow> v_secret v = v_secret v') \<and>
     live_objects db \<inter> outbox_objects db = {} \<and> live_objects db \<inter> pending_objects db = {}"

text \<open>Nothing live is missing from the store, and nothing in the store is forgotten.\<close>

definition store_ok :: "string set \<Rightarrow> database \<Rightarrow> bool" where
  "store_ok store db \<longleftrightarrow> object_rows_ok db \<and> live_objects db \<subseteq> store \<and>
     store \<subseteq> live_objects db \<union> pending_objects db \<union> queued_objects db"

lemmas object_sets_def = live_objects_def pending_objects_def queued_objects_def outbox_objects_def

lemma store_ok_cong:
  assumes "secret_versions db' = secret_versions db" and "deletion_outbox db' = deletion_outbox db"
    and "pending_uploads db' = pending_uploads db"
  shows "store_ok store db' \<longleftrightarrow> store_ok store db"
  using assms by (simp add: store_ok_def object_rows_ok_def object_sets_def)

lemma store_ok_audit [simp]: "store_ok store (audit_log P rq e db) \<longleftrightarrow> store_ok store db"
  by (rule store_ok_cong) simp_all

lemma store_ok_audit_logs [simp]: "store_ok store (db\<lparr>audit_logs := l\<rparr>) \<longleftrightarrow> store_ok store db"
  by (rule store_ok_cong) simp_all

subsection \<open>Deleting secrets puts their objects in the outbox\<close>

text \<open>What \<open>enqueue\<close> adds: rows that are not processed, with new ids, for exactly the given objects.\<close>

definition box_grows :: "string set \<Rightarrow> outbox_row list \<Rightarrow> outbox_row list \<Rightarrow> bool" where
  "box_grows ks box box' \<longleftrightarrow> set box \<subseteq> set box' \<and> (distinct (map o_id box) \<longrightarrow> distinct (map o_id box')) \<and>
     o_object ` set box' = o_object ` set box \<union> ks \<and>
     (\<forall>b \<in> set box'. b \<notin> set box \<longrightarrow> o_processed b = None)"

lemma box_grows_refl: "box_grows {} box box"
  by (simp add: box_grows_def)

lemma box_grows_trans:
  assumes "box_grows ks box box'" and "box_grows ks' box' box''"
  shows "box_grows (ks \<union> ks') box box''"
  unfolding box_grows_def
proof (intro conjI ballI impI)
  show "set box \<subseteq> set box''" using assms by (auto simp: box_grows_def)
  show "distinct (map o_id box'')" if "distinct (map o_id box)" using assms that by (simp add: box_grows_def)
  show "o_object ` set box'' = o_object ` set box \<union> (ks \<union> ks')"
    using assms by (simp add: box_grows_def Un_assoc)
  show "o_processed b = None" if "b \<in> set box''" "b \<notin> set box" for b
    using assms that by (cases "b \<in> set box'") (simp_all add: box_grows_def)
qed

lemma new_outbox_id: "coalesce_max (map o_id box) + 1 \<notin> o_id ` set box"
  using coalesce_max_ge [of _ "map o_id box"] by fastforce

lemma box_grows_insert:
  assumes "o_id b = coalesce_max (map o_id box) + 1" and "o_processed b = None" and "o_object b = k"
  shows "box_grows {k} box (if k \<in> o_object ` set box then box else sql_insert b box)"
proof (cases "k \<in> o_object ` set box")
  case True
  then show ?thesis by (simp add: box_grows_def insert_absorb)
next
  case False
  have "o_id b \<notin> o_id ` set box" unfolding assms(1) by (rule new_outbox_id)
  with False assms(2,3) show ?thesis by (simp add: box_grows_def rows distinct_insert subset_insertI)
qed

lemma enqueue_objects_grows:
  "box_grows {k. \<exists>v \<in> set vs. v_object v = Some k} box (enqueue_objects clock own vs box)"
proof (induction clock own vs box rule: enqueue_objects.induct)
  case (1 clock owner box)
  then show ?case by (simp add: box_grows_refl)
next
  case (2 clock owner v vs box)
  show ?case
  proof (cases "v_object v")
    case None
    then have "{k. \<exists>v \<in> set (v # vs). v_object v = Some k} = {k. \<exists>v \<in> set vs. v_object v = Some k}"
      by auto
    with 2(1) None show ?thesis by simp
  next
    case (Some key)
    have e: "{k. \<exists>v \<in> set (v # vs). v_object v = Some k} = {key} \<union> {k. \<exists>v \<in> set vs. v_object v = Some k}"
      using Some by auto
    have "enqueue_objects clock owner (v # vs) box = enqueue_objects clock owner vs
        (if key \<in> o_object ` set box then box
         else sql_insert \<lparr>o_id = coalesce_max (map o_id box) + 1, o_object = key, o_user = owner,
            o_bytes = v_size v, o_attempts = 0, o_next = clock, o_processed = None, o_error = None\<rparr> box)"
      by (simp only: enqueue_objects.simps Some option.case)
    then show ?thesis
      unfolding e using box_grows_trans [OF box_grows_insert 2(2) [OF Some]] by simp
  qed
qed

lemma enqueue_secrets_grows:
  "box_grows {k. \<exists>v \<in> set vs. \<exists>s \<in> set ss. v_secret v = s_id s \<and> v_object v = Some k} box
     (enqueue_secrets clock vs ss box)"
proof (induction ss arbitrary: box)
  case (Cons s ss)
  have e: "{k. \<exists>v \<in> set vs. \<exists>s' \<in> set (s # ss). v_secret v = s_id s' \<and> v_object v = Some k} =
      {k. \<exists>v \<in> set (sql_select (\<lambda>v. v_secret v = s_id s) vs). v_object v = Some k} \<union>
      {k. \<exists>v \<in> set vs. \<exists>s' \<in> set ss. v_secret v = s_id s' \<and> v_object v = Some k}"
    by (auto simp: rows)
  show ?case
    unfolding e enqueue_secrets.simps by (rule box_grows_trans [OF enqueue_objects_grows Cons.IH])
qed (simp add: box_grows_refl)

text \<open>The objects of the deleted secrets, and the ones that stay live.\<close>

lemma live_objects_delete:
  "live_objects (delete_secrets clock p db) =
     {k. \<exists>v \<in> set (secret_versions db). v_object v = Some k \<and>
         v_secret v \<notin> s_id ` set (sql_select p (secrets db))}"
  by (auto simp: live_objects_def delete_secrets_def Let_def rows)

lemma outbox_delete_secrets:
  "deletion_outbox (delete_secrets clock p db) =
     enqueue_secrets clock (secret_versions db) (sql_select p (secrets db)) (deletion_outbox db)"
  by (simp add: delete_secrets_def Let_def)

definition dropped_objects :: "(secret_row \<Rightarrow> bool) \<Rightarrow> database \<Rightarrow> string set" where
  "dropped_objects p db = {k. \<exists>v \<in> set (secret_versions db). v_object v = Some k \<and>
     v_secret v \<in> s_id ` set (sql_select p (secrets db))}"

lemma delete_secrets_grows:
  "box_grows (dropped_objects p db) (deletion_outbox db) (deletion_outbox (delete_secrets clock p db))"
proof -
  have eq: "{k. \<exists>v \<in> set vs. v_object v = Some k \<and> v_secret v \<in> s_id ` set ss} =
      {k. \<exists>v \<in> set vs. \<exists>s \<in> set ss. v_secret v = s_id s \<and> v_object v = Some k}" for vs ss
    by (intro Collect_cong bex_cong refl) (simp add: image_iff conj_commute)
  show ?thesis
    unfolding outbox_delete_secrets dropped_objects_def eq by (rule enqueue_secrets_grows)
qed

lemma pending_delete_secrets [simp]: "pending_uploads (delete_secrets clock p db) = pending_uploads db"
  by (simp add: delete_secrets_def Let_def)

lemma versions_delete_secrets:
  "set (secret_versions (delete_secrets clock p db)) \<subseteq> set (secret_versions db)"
  by (auto simp: delete_secrets_def Let_def rows)

lemma live_objects_split:
  assumes "object_rows_ok db"
  shows "live_objects db = live_objects (delete_secrets clock p db) \<union> dropped_objects p db"
    and "live_objects (delete_secrets clock p db) \<inter> dropped_objects p db = {}"
proof -
  have one: "v_secret v = v_secret v'"
    if "v \<in> set (secret_versions db)" "v' \<in> set (secret_versions db)" "v_object v = Some k" "v_object v' = Some k" for v v' k
    using assms that unfolding object_rows_ok_def by (metis option.distinct(1))
  show "live_objects db = live_objects (delete_secrets clock p db) \<union> dropped_objects p db"
    unfolding live_objects_delete unfolding dropped_objects_def live_objects_def by blast
  show "live_objects (delete_secrets clock p db) \<inter> dropped_objects p db = {}"
    unfolding live_objects_delete dropped_objects_def by (auto dest: one)
qed

lemma object_rows_delete:
  assumes "object_rows_ok db" shows "object_rows_ok (delete_secrets clock p db)"
  unfolding object_rows_ok_def
proof (intro conjI)
  let ?db = "delete_secrets clock p db"
  show "distinct (map o_id (deletion_outbox ?db))"
    using assms delete_secrets_grows [of p db clock] by (simp add: object_rows_ok_def box_grows_def)
  show "distinct (map pu_id (pending_uploads ?db))" using assms by (simp add: object_rows_ok_def)
  show "\<forall>v \<in> set (secret_versions ?db). \<forall>v' \<in> set (secret_versions ?db).
      v_object v \<noteq> None \<longrightarrow> v_object v = v_object v' \<longrightarrow> v_secret v = v_secret v'"
    using assms versions_delete_secrets [of clock p db] unfolding object_rows_ok_def by blast
  have "outbox_objects ?db = outbox_objects db \<union> dropped_objects p db"
    using delete_secrets_grows [of p db clock] by (simp add: box_grows_def outbox_objects_def)
  then show "live_objects ?db \<inter> outbox_objects ?db = {}"
    using assms live_objects_split [OF assms, of clock p] unfolding object_rows_ok_def by blast
  have "pending_objects ?db = pending_objects db" by (simp add: pending_objects_def)
  then show "live_objects ?db \<inter> pending_objects ?db = {}"
    using assms live_objects_split [OF assms, of clock p] unfolding object_rows_ok_def by blast
qed

lemma dropped_queued:
  assumes "object_rows_ok db"
  shows "queued_objects db \<union> dropped_objects p db \<subseteq> queued_objects (delete_secrets clock p db)"
proof
  let ?db = "delete_secrets clock p db"
  fix k assume "k \<in> queued_objects db \<union> dropped_objects p db"
  then show "k \<in> queued_objects ?db"
  proof
    assume "k \<in> queued_objects db"
    moreover have "set (deletion_outbox db) \<subseteq> set (deletion_outbox ?db)"
      using delete_secrets_grows [of p db clock] by (simp add: box_grows_def)
    ultimately show ?thesis unfolding queued_objects_def by blast
  next
    assume k: "k \<in> dropped_objects p db"
    then have "k \<in> o_object ` set (deletion_outbox ?db)"
      using delete_secrets_grows [of p db clock] by (simp add: box_grows_def)
    then obtain b where b: "b \<in> set (deletion_outbox ?db)" "o_object b = k" by blast
    have "k \<in> live_objects db" using k live_objects_split(1) [OF assms, of clock p] by blast
    then have "k \<notin> outbox_objects db" using assms unfolding object_rows_ok_def by blast
    then have "b \<notin> set (deletion_outbox db)" using b(2) by (auto simp: outbox_objects_def)
    then have "o_processed b = None"
      using b(1) delete_secrets_grows [of p db clock] by (simp add: box_grows_def)
    with b show ?thesis by (auto simp: queued_objects_def)
  qed
qed

lemma delete_secrets_store_ok:
  assumes "store_ok store db"
  shows "store_ok store (delete_secrets clock p db)"
proof -
  have ok: "object_rows_ok db" and st: "live_objects db \<subseteq> store"
      "store \<subseteq> live_objects db \<union> pending_objects db \<union> queued_objects db"
    using assms by (simp_all add: store_ok_def)
  have "pending_objects (delete_secrets clock p db) = pending_objects db" by (simp add: pending_objects_def)
  then show ?thesis
    using object_rows_delete [OF ok, of clock p] live_objects_split [OF ok, of clock p] dropped_queued [OF ok, of p clock] st
    unfolding store_ok_def by blast
qed

lemma update_view_count_store_ok:
  assumes "store_ok store db" shows "store_ok store (update_view_count clock sid n v db)"
proof -
  have "store_ok store (db\<lparr>secrets := t\<rparr>)" "store_ok store (db\<lparr>secrets := t, audit_logs := l\<rparr>)" for t l
    by (subst store_ok_cong [of _ db]; simp add: assms)+
  then show ?thesis
    by (simp add: update_view_count_def Let_def delete_secrets_store_ok split: option.split)
qed

end
