(* ===== verification/Cleanup.thy ===== *)
theory Cleanup
  imports Secret_Access Objects
begin

text \<open>
  app/services/cleanup_service.py: the Redis lock (SET NX EX with a token, compare-and-delete), the
  deletion of one expired secret, the periodic sweep, and the worker for orphaned objects and
  uploads.  Deleting an object in the store is the parameter \<open>s3_delete\<close>: None on success, otherwise
  the text of the exception.  The locale \<open>lease\<close> states what holding the lock means.
\<close>

definition acquire_lock :: "micros \<Rightarrow> string \<Rightarrow> string \<Rightarrow> int \<Rightarrow> redis_keys \<Rightarrow> string option \<times> redis_keys" where
  "acquire_lock now token lock_key ttl ks =
     (if redis_get now ks lock_key = None then (Some token, redis_setex now lock_key ttl token ks)
      else (None, ks))"

definition release_lock :: "micros \<Rightarrow> string \<Rightarrow> string \<Rightarrow> redis_keys \<Rightarrow> redis_keys" where
  "release_lock now lock_key token ks =
     (if redis_get now ks lock_key = Some token then ks(lock_key := None) else ks)"

abbreviation SECRET_LOCK_TTL :: int where "SECRET_LOCK_TTL \<equiv> 30"
abbreviation SWEEP_LOCK_TTL :: int where "SWEEP_LOCK_TTL \<equiv> 120"

definition delete_expired_secret ::
  "platform \<Rightarrow> request \<Rightarrow> string \<Rightarrow> uuid \<Rightarrow> world \<Rightarrow> unit res \<times> world" where
  "delete_expired_secret P rq token sid w =
     (let lock_key = ''phantom:lock:'' @ uuid_str sid in
      case wd_quota w of
        None \<Rightarrow> (Inl (RuntimeError ''Redis client is not initialized.''), w)
      | Some _ \<Rightarrow>
     (case acquire_lock (rq_now rq) token lock_key SECRET_LOCK_TTL (wd_keys w) of
        (None, ks) \<Rightarrow> (Inr (), w\<lparr>wd_keys := ks\<rparr>)
      | (Some _, ks) \<Rightarrow>
          (let deleted = secret_of (wd_db w) sid;
               db1 = delete_secrets (rq_clock rq) (\<lambda>s. s_id s = sid) (wd_db w);
               (db2, q) =
                 (case deleted of
                    None \<Rightarrow> (db1, wd_quota w)
                  | Some s \<Rightarrow>
                      (let db2 = audit_log P rq \<lparr>ae_action = ''secret_deleted'', ae_actor = None, ae_ip = None,
                                   ae_secret = Some sid, ae_severity = Info\<rparr> db1 in
                       (db2, case s_owner s of None \<Rightarrow> wd_quota w
                             | Some own \<Rightarrow> snd (reconcile_user db2 own (wd_quota w))))) in
           (Inr (), w\<lparr>wd_db := db2, wd_quota := q, wd_keys := release_lock (rq_now rq) lock_key token ks\<rparr>))))"

subsection \<open>The storage worker\<close>

definition due_outbox :: "micros \<Rightarrow> database \<Rightarrow> outbox_row list" where
  "due_outbox clock db =
     take 100 (sort_key o_id (sql_select (\<lambda>b. o_processed b = None \<and> o_next b \<le> clock) (deletion_outbox db)))"

definition due_pending :: "micros \<Rightarrow> database \<Rightarrow> pending_row list" where
  "due_pending clock db =
     take 100 (sort_key pu_expires (sql_select (\<lambda>u. pu_expires u \<le> clock) (pending_uploads db)))"

definition backoff_seconds :: "int \<Rightarrow> int" where
  "backoff_seconds attempts = min 3600 (2 ^ nat (min attempts 11))"

definition outbox_done :: "micros \<Rightarrow> outbox_row \<Rightarrow> outbox_row" where
  "outbox_done clock b = b\<lparr>o_processed := Some clock, o_error := None\<rparr>"

definition outbox_retry :: "micros \<Rightarrow> string \<Rightarrow> outbox_row \<Rightarrow> outbox_row" where
  "outbox_retry clock err b =
     b\<lparr>o_attempts := o_attempts b + 1, o_error := Some (py_take 1000 err),
       o_next := clock + backoff_seconds (o_attempts b) * second\<rparr>"

text \<open>The loop over the due rows: the outbox, how many objects went, the users affected.\<close>

fun clean_outbox ::
  "(string \<Rightarrow> string option) \<Rightarrow> micros \<Rightarrow> outbox_row list \<Rightarrow> outbox_row list \<Rightarrow> outbox_row list \<times> int \<times> uuid list" where
  "clean_outbox s3_delete clock [] box = (box, 0, [])"
| "clean_outbox s3_delete clock (r # rs) box =
     (case s3_delete (o_object r) of
        None \<Rightarrow>
          (let (box', n, us) = clean_outbox s3_delete clock rs
                 (sql_update (\<lambda>b. o_id b = o_id r) (outbox_done clock) box) in
           (box', n + 1, (case o_user r of None \<Rightarrow> us | Some u \<Rightarrow> u # us)))
      | Some err \<Rightarrow>
          clean_outbox s3_delete clock rs (sql_update (\<lambda>b. o_id b = o_id r) (outbox_retry clock err) box))"

fun clean_pending ::
  "(string \<Rightarrow> string option) \<Rightarrow> pending_row list \<Rightarrow> pending_row list \<times> quota_store option \<Rightarrow>
   (pending_row list \<times> quota_store option) \<times> int \<times> uuid list" where
  "clean_pending s3_delete [] st = (st, 0, [])"
| "clean_pending s3_delete (r # rs) (ps, q) =
     (case s3_delete (pu_object r) of
        None \<Rightarrow>
          (let q' = release \<lparr>re_id = pu_reservation r, re_user = pu_user r, re_secrets = 0, re_bytes = 0\<rparr> q;
               (st', n, us) = clean_pending s3_delete rs (sql_delete (\<lambda>p. pu_id p = pu_id r) ps, q') in
           (st', n + 1, pu_user r # us))
      | Some err \<Rightarrow> clean_pending s3_delete rs (ps, q))"

text \<open>Reconciling swallows errors, in whatever order the set of users comes.\<close>

definition reconcile_all :: "database \<Rightarrow> uuid list \<Rightarrow> quota_store option \<Rightarrow> quota_store option" where
  "reconcile_all db us q = fold (\<lambda>u q. snd (reconcile_user db u q)) us q"

definition process_storage_cleanup ::
  "(string \<Rightarrow> string option) \<Rightarrow> request \<Rightarrow> world \<Rightarrow> (int \<times> int) \<times> world" where
  "process_storage_cleanup s3_delete rq w =
     (let db = wd_db w;
          (box, n, us) = clean_outbox s3_delete (rq_clock rq) (due_outbox (rq_clock rq) db) (deletion_outbox db);
          ((ps, q), m, us') = clean_pending s3_delete (due_pending (rq_clock rq) db) (pending_uploads db, wd_quota w);
          db' = db\<lparr>deletion_outbox := box, pending_uploads := ps\<rparr>;
          q' = snd (reap_expired_reservations (rq_now rq) q);
          q'' = reconcile_all db' (remdups (us @ us')) q' in
      ((n, m), w\<lparr>wd_db := db', wd_quota := q''\<rparr>))"

subsection \<open>The sweep\<close>

definition sweep_secret :: "request \<Rightarrow> secret_row \<Rightarrow> bool" where
  "sweep_secret rq s \<longleftrightarrow> s_expires s < rq_txn rq \<or> s_max_views s \<le> s_view_count s"

definition sweep_user :: "request \<Rightarrow> user_row \<Rightarrow> bool" where
  "sweep_user rq u \<longleftrightarrow> \<not> u_active u \<and> (case u_delete_after u of None \<Rightarrow> False | Some t \<Rightarrow> t \<le> rq_txn rq)"

definition sweep_session :: "request \<Rightarrow> session_row \<Rightarrow> bool" where
  "sweep_session rq s \<longleftrightarrow> ss_revoked s \<or> ss_expires s \<le> rq_txn rq"

text \<open>DELETE FROM secret_tracking takes its views with it.\<close>

definition delete_tracking :: "micros \<Rightarrow> database \<Rightarrow> database" where
  "delete_tracking clock db =
     (let dead = set (map t_secret (sql_select (\<lambda>t. t_retain t \<le> clock) (secret_tracking db))) in
      db\<lparr>secret_tracking := sql_delete (\<lambda>t. t_retain t \<le> clock) (secret_tracking db),
         secret_views := sql_delete (\<lambda>w. w_secret w \<in> dead) (secret_views db)\<rparr>)"

text \<open>The statements of the transaction: the rows deleted from secrets and users, the number of sessions.\<close>

definition sweep_rows :: "request \<Rightarrow> database \<Rightarrow> (secret_row list \<times> user_row list \<times> nat) \<times> database" where
  "sweep_rows rq db =
     (let dead_secrets = sql_select (sweep_secret rq) (secrets db);
          db1 = delete_secrets (rq_clock rq) (sweep_secret rq) db;
          dead_users = sql_select (sweep_user rq) (users db1);
          db2 = delete_users (sweep_user rq) db1;
          db3 = delete_tracking (rq_clock rq) db2;
          db4 = db3\<lparr>email_verifications := sql_delete (\<lambda>e. ev_expires e \<le> rq_clock rq) (email_verifications db3)\<rparr>;
          dead_sessions = sql_select (sweep_session rq) (sessions db4);
          db5 = db4\<lparr>sessions := sql_delete (sweep_session rq) (sessions db4)\<rparr> in
      ((dead_secrets, dead_users, length dead_sessions), db5))"

record sweep_result =
  sr_secrets :: nat
  sr_sessions :: nat
  sr_users :: nat

definition fallback_sweep ::
  "platform \<Rightarrow> (string \<Rightarrow> string option) \<Rightarrow> request \<Rightarrow> string \<Rightarrow> world \<Rightarrow> sweep_result res \<times> world" where
  "fallback_sweep P s3_delete rq token w =
     (case wd_quota w of
        None \<Rightarrow> (Inl (RuntimeError ''Redis client is not initialized.''), w)
      | Some _ \<Rightarrow>
     (case acquire_lock (rq_now rq) token ''phantom:lock:sweep'' SWEEP_LOCK_TTL (wd_keys w) of
        (None, ks) \<Rightarrow> (Inr \<lparr>sr_secrets = 0, sr_sessions = 0, sr_users = 0\<rparr>, w)
      | (Some _, ks) \<Rightarrow>
          (let ((dead_secrets, dead_users, n_sessions), db1) = sweep_rows rq (wd_db w);
               db2 = fold (\<lambda>s. audit_log P rq \<lparr>ae_action = ''secret_deleted'', ae_actor = None, ae_ip = None,
                             ae_secret = Some (s_id s), ae_severity = Info\<rparr>) dead_secrets db1;
               q = reconcile_all db2 (remdups (List.map_filter s_owner dead_secrets)) (wd_quota w);
               w1 = snd (process_storage_cleanup s3_delete rq (w\<lparr>wd_db := db2, wd_quota := q, wd_keys := ks\<rparr>));
               db3 = fold (\<lambda>u. audit_log P rq \<lparr>ae_action = ''user_removed'', ae_actor = Some (u_id u), ae_ip = None,
                             ae_secret = None, ae_severity = Info\<rparr>) dead_users (wd_db w1) in
           (Inr \<lparr>sr_secrets = length dead_secrets, sr_sessions = n_sessions, sr_users = length dead_users\<rparr>,
            w1\<lparr>wd_db := db3, wd_keys := release_lock (rq_now rq) ''phantom:lock:sweep'' token (wd_keys w1)\<rparr>))))"

subsection \<open>The lock is a lease\<close>

text \<open>
  What the users of a lock rely on: whoever acquires it is its holder until the lease runs out,
  a held lock refuses everyone, and only its holder gives it back.
\<close>

locale lease =
  fixes holder :: "micros \<Rightarrow> 'st \<Rightarrow> 'tok option"
    and acquire :: "micros \<Rightarrow> 'tok \<Rightarrow> 'st \<Rightarrow> 'tok option \<times> 'st"
    and release :: "micros \<Rightarrow> 'tok \<Rightarrow> 'st \<Rightarrow> 'st"
    and lasts :: micros
  assumes acquire_free: "holder now st = None \<Longrightarrow> fst (acquire now tok st) = Some tok"
    and acquired_holds: "acquire t tok st = (Some tok, st') \<Longrightarrow> t \<le> now \<Longrightarrow> now < t + lasts \<Longrightarrow>
           holder now st' = Some tok"
    and acquired_lapses: "acquire t tok st = (Some tok, st') \<Longrightarrow> t + lasts \<le> now \<Longrightarrow> holder now st' = None"
    and acquire_held: "holder now st = Some h \<Longrightarrow> acquire now tok st = (None, st)"
    and release_other: "holder now st \<noteq> Some tok \<Longrightarrow> release now tok st = st"
    and release_own: "holder now st = Some tok \<Longrightarrow> holder now' (release now tok st) = None"
begin

lemma other_steps_idle:
  assumes "acquire t tok st = (Some tok, st')" and "t \<le> now" and "now < t + lasts"
  shows "acquire now tok' st' = (None, st')" and "tok' \<noteq> tok \<Longrightarrow> release now tok' st' = st'"
  using acquired_holds [OF assms] by (simp_all add: acquire_held release_other)

lemma free_after_release:
  assumes "acquire t tok st = (Some tok, st')" and "t \<le> now" and "now < t + lasts"
  shows "fst (acquire now' tok' (release now tok st')) = Some tok'"
  using acquired_holds [OF assms] by (simp add: acquire_free release_own)

lemma free_after_lapse:
  assumes "acquire t tok st = (Some tok, st')" and "t + lasts \<le> now"
  shows "fst (acquire now tok' st') = Some tok'"
  using acquired_lapses [OF assms] by (simp add: acquire_free)

end

lemma acquire_lock_Some:
  "acquire_lock t tok key ttl ks = (Some tok', ks') \<longleftrightarrow>
     redis_get t ks key = None \<and> tok' = tok \<and> ks' = redis_setex t key ttl tok ks"
  by (auto simp: acquire_lock_def)

lemma redis_get_setex: "redis_get now (redis_setex t key ttl v ks) key = (if now < t + ttl * second then Some v else None)"
  by (simp add: redis_get_def redis_setex_def)

interpretation lk: lease "\<lambda>now ks. redis_get now ks key" "\<lambda>now tok ks. acquire_lock now tok key ttl ks"
  "\<lambda>now tok ks. release_lock now key tok ks" "ttl * second" for key ttl
proof
  show "redis_get now ks key = Some h \<Longrightarrow> acquire_lock now tok key ttl ks = (None, ks)" for now ks h tok
    by (simp add: acquire_lock_def)
  show "redis_get now' (release_lock now key tok ks) key = None" if "redis_get now ks key = Some tok" for now now' ks tok
    using that by (simp add: release_lock_def redis_get_def)
qed (simp_all add: acquire_lock_Some redis_get_setex release_lock_def, simp add: acquire_lock_def)

text \<open>What several instances do with one lock, and the answers to the attempts.\<close>

datatype lock_event = Try micros string | Free micros string

fun lock_run :: "string \<Rightarrow> int \<Rightarrow> lock_event list \<Rightarrow> redis_keys \<Rightarrow> string option list \<times> redis_keys" where
  "lock_run key ttl [] ks = ([], ks)"
| "lock_run key ttl (Try t tok # es) ks =
     (let (r, ks1) = acquire_lock t tok key ttl ks; (rs, ks2) = lock_run key ttl es ks1 in (r # rs, ks2))"
| "lock_run key ttl (Free t tok # es) ks = lock_run key ttl es (release_lock t key tok ks)"

definition event_time :: "lock_event \<Rightarrow> micros" where
  "event_time e = (case e of Try t _ \<Rightarrow> t | Free t _ \<Rightarrow> t)"

definition frees :: "string \<Rightarrow> lock_event \<Rightarrow> bool" where
  "frees tok e = (case e of Try _ _ \<Rightarrow> False | Free _ tok' \<Rightarrow> tok' = tok)"

lemma lock_run_idle:
  assumes "acquire_lock t tok key ttl ks = (Some tok, ks1)"
    and "\<And>e. e \<in> set es \<Longrightarrow> t \<le> event_time e \<and> event_time e < t + ttl * second \<and> \<not> frees tok e"
  shows "set (fst (lock_run key ttl es ks1)) \<subseteq> {None} \<and> snd (lock_run key ttl es ks1) = ks1"
  using assms(2)
proof (induction es)
  case (Cons e es)
  show ?case
  proof (cases e)
    case (Try now tok')
    have "t \<le> now" "now < t + ttl * second" using Cons.prems [of e] Try by (simp_all add: event_time_def)
    then show ?thesis
      using Cons Try lk.other_steps_idle(1) [OF assms(1)] by (simp add: case_prod_beta)
  next
    case (Free now tok')
    have "t \<le> now" "now < t + ttl * second" "tok' \<noteq> tok"
      using Cons.prems [of e] Free by (simp_all add: event_time_def frees_def)
    then show ?thesis
      using Cons Free lk.other_steps_idle(2) [OF assms(1)] by (simp add: case_prod_beta)
  qed
qed simp

text \<open>C34: a lock (on one secret, or on the sweep) excludes all others for its lease: whatever the
  other instances try or release with tokens of their own, every attempt before the lease ends is
  refused and leaves the lock alone; and it never blocks for good: once the holder has released it,
  or the lease is over, the next attempt gets it.
\<close>

theorem lock_exclusive:
  assumes "acquire_lock t tok key ttl ks = (Some tok, ks1)"
    and "\<forall>e\<in>set es. t \<le> event_time e \<and> event_time e < t + ttl * second \<and> \<not> frees tok e"
    and "t \<le> now" and "now < t + ttl * second"
  shows "set (fst (lock_run key ttl es ks1)) \<subseteq> {None} \<and>
     fst (acquire_lock later tok' key ttl (release_lock now key tok (snd (lock_run key ttl es ks1)))) = Some tok' \<and>
     (t + ttl * second \<le> later \<longrightarrow>
        fst (acquire_lock later tok' key ttl (snd (lock_run key ttl es ks1))) = Some tok')"
  using lock_run_idle [OF assms(1) assms(2) [rule_format]] lk.free_after_release [OF assms(1,3,4)] lk.free_after_lapse [OF assms(1)]
  by simp

theorem lock_exclusive_witness:
  "let ks1 = snd (acquire_lock 0 ''a'' ''k'' 30 Map.empty);
       run = lock_run ''k'' 30 [Try 5 ''b'', Free 6 ''b''] ks1 in
   fst run = [None] \<and> fst (acquire_lock 8 ''b'' ''k'' 30 (release_lock 7 ''k'' ''a'' (snd run))) = Some ''b''"
proof -
  let ?ks = "snd (acquire_lock 0 ''a'' ''k'' 30 Map.empty)"
  have "acquire_lock 0 ''a'' ''k'' 30 Map.empty = (Some ''a'', ?ks)"
    by (simp add: acquire_lock_def redis_get_def)
  from lock_exclusive [OF this, of "[Try 5 ''b'', Free 6 ''b'']" 7 8 "''b''"]
  show ?thesis
    by (simp add: event_time_def frees_def Let_def case_prod_beta)
qed

subsection \<open>The storage worker\<close>

text \<open>What the loop over the due rows makes of one row of the outbox.\<close>

definition outbox_after ::
  "(string \<Rightarrow> string option) \<Rightarrow> micros \<Rightarrow> outbox_row list \<Rightarrow> outbox_row \<Rightarrow> outbox_row" where
  "outbox_after s3_delete clock rs b =
     (case row_of o_id rs (o_id b) of
        None \<Rightarrow> b
      | Some r \<Rightarrow> (case s3_delete (o_object r) of None \<Rightarrow> outbox_done clock b
                   | Some err \<Rightarrow> outbox_retry clock err b))"

lemma outbox_step_sel [simp]:
  "o_id (outbox_done clock b) = o_id b" "o_id (outbox_retry clock err b) = o_id b"
  "o_object (outbox_done clock b) = o_object b" "o_object (outbox_retry clock err b) = o_object b"
  "o_processed (outbox_done clock b) = Some clock" "o_processed (outbox_retry clock err b) = o_processed b"
  by (simp_all add: outbox_done_def outbox_retry_def)

lemma outbox_after_sel [simp]:
  "o_id (outbox_after s3 clock rs b) = o_id b" "o_object (outbox_after s3 clock rs b) = o_object b"
  by (simp_all add: outbox_after_def split: option.split)

lemma due_outbox_sub: "set (due_outbox clock db) \<subseteq> {b \<in> set (deletion_outbox db). o_processed b = None}"
  unfolding due_outbox_def sql_select_def by (rule order_trans [OF set_take_subset]) auto

lemma due_pending_sub: "set (due_pending clock db) \<subseteq> set (pending_uploads db)"
  unfolding due_pending_def sql_select_def by (rule order_trans [OF set_take_subset]) auto

lemma distinct_due:
  assumes "distinct (map o_id (deletion_outbox db))" shows "distinct (map o_id (due_outbox clock db))"
proof -
  have "inj_on o_id (set (due_outbox clock db))"
  proof (rule inj_on_subset)
    show "inj_on o_id (set (deletion_outbox db))" using assms by (simp add: distinct_map)
    show "set (due_outbox clock db) \<subseteq> set (deletion_outbox db)" using due_outbox_sub [of clock db] by blast
  qed
  moreover have "distinct (due_outbox clock db)"
    using assms by (simp add: due_outbox_def sql_select_def distinct_map)
  ultimately show ?thesis by (simp add: distinct_map)
qed

lemma clean_outbox_box:
  assumes "distinct (map o_id rs)"
  shows "fst (clean_outbox s3 clock rs box) = map (outbox_after s3 clock rs) box"
  using assms
proof (induction rs arbitrary: box)
  case Nil
  then show ?case by (simp add: outbox_after_def)
next
  case (Cons r rs)
  have fresh: "row_of o_id rs (o_id r) = None"
    using Cons.prems by (simp add: row_of_None)
  have step: "map (outbox_after s3 clock rs) (sql_update (\<lambda>b. o_id b = o_id r) f box) =
      map (outbox_after s3 clock (r # rs)) box"
    if "f = (case s3 (o_object r) of None \<Rightarrow> outbox_done clock | Some err \<Rightarrow> outbox_retry clock err)" for f
    using fresh unfolding that
    by (auto simp: sql_update_def outbox_after_def split: option.split)
  show ?case
  proof (cases "s3 (o_object r)")
    case None
    then show ?thesis using Cons step by (simp add: case_prod_beta)
  next
    case (Some err)
    then show ?thesis using Cons step by simp
  qed
qed

lemma clean_pending_rows:
  "fst (fst (clean_pending s3 rs (ps, q))) =
     filter (\<lambda>p. \<not> (\<exists>r \<in> set rs. s3 (pu_object r) = None \<and> pu_id r = pu_id p)) ps"
proof (induction s3 rs "(ps, q)" arbitrary: ps q rule: clean_pending.induct)
  case (2 s3 r rs ps q)
  show ?case
  proof (cases "s3 (pu_object r)")
    case None
    then show ?thesis using 2(1) by (auto simp: case_prod_beta Let_def sql_delete_def intro!: filter_cong)
  next
    case (Some err)
    then show ?thesis using 2(2) by simp
  qed
qed simp

text \<open>The tables after the worker.\<close>

lemma worker_tables:
  assumes "process_storage_cleanup s3 rq w = (r, w')" and "distinct (map o_id (deletion_outbox (wd_db w)))"
  shows "deletion_outbox (wd_db w') =
      map (outbox_after s3 (rq_clock rq) (due_outbox (rq_clock rq) (wd_db w))) (deletion_outbox (wd_db w))"
    and "pending_uploads (wd_db w') = filter (\<lambda>p. \<not> (\<exists>r \<in> set (due_pending (rq_clock rq) (wd_db w)).
           s3 (pu_object r) = None \<and> pu_id r = pu_id p)) (pending_uploads (wd_db w))"
    and "wd_db w' = (wd_db w)\<lparr>deletion_outbox := deletion_outbox (wd_db w'), pending_uploads := pending_uploads (wd_db w')\<rparr>"
    and "wd_keys w' = wd_keys w"
proof -
  have d: "distinct (map o_id (due_outbox (rq_clock rq) (wd_db w)))"
    by (rule distinct_due [OF assms(2)])
  show "deletion_outbox (wd_db w') =
      map (outbox_after s3 (rq_clock rq) (due_outbox (rq_clock rq) (wd_db w))) (deletion_outbox (wd_db w))"
    using assms(1) clean_outbox_box [OF d] by (auto simp: process_storage_cleanup_def split_beta Let_def)
  show "pending_uploads (wd_db w') = filter (\<lambda>p. \<not> (\<exists>r \<in> set (due_pending (rq_clock rq) (wd_db w)).
           s3 (pu_object r) = None \<and> pu_id r = pu_id p)) (pending_uploads (wd_db w))"
    using assms(1) clean_pending_rows [of s3 "due_pending (rq_clock rq) (wd_db w)" "pending_uploads (wd_db w)" "wd_quota w"]
    by (auto simp: process_storage_cleanup_def split_beta Let_def)
  show "wd_db w' = (wd_db w)\<lparr>deletion_outbox := deletion_outbox (wd_db w'), pending_uploads := pending_uploads (wd_db w')\<rparr>"
    and "wd_keys w' = wd_keys w"
    using assms(1) by (auto simp: process_storage_cleanup_def split_beta Let_def)
qed
text \<open>The keys the worker tries to delete.\<close>

definition attempted :: "micros \<Rightarrow> database \<Rightarrow> string set" where
  "attempted clock db = o_object ` set (due_outbox clock db) \<union> pu_object ` set (due_pending clock db)"

lemma row_by_id:
  assumes "distinct (map f xs)" and "x \<in> set xs" and "y \<in> set xs" and "f x = f y" shows "x = y"
  using assms by (auto simp: distinct_map inj_on_def)

lemma outbox_after_due:
  assumes "distinct (map o_id (deletion_outbox db))" and "b \<in> set (deletion_outbox db)"
  shows "outbox_after s3 clock (due_outbox clock db) b =
     (if b \<in> set (due_outbox clock db)
      then (case s3 (o_object b) of None \<Rightarrow> outbox_done clock b | Some err \<Rightarrow> outbox_retry clock err b) else b)"
proof (cases "row_of o_id (due_outbox clock db) (o_id b)")
  case None
  then have "b \<notin> set (due_outbox clock db)" by (auto simp: row_of_None)
  with None show ?thesis by (simp add: outbox_after_def)
next
  case (Some r)
  then have r: "r \<in> set (due_outbox clock db)" "o_id r = o_id b" using row_of_Some by fastforce+
  with due_outbox_sub [of clock db] have "r \<in> set (deletion_outbox db)" by blast
  with assms r(2) have "r = b" by (intro row_by_id [of o_id]) simp_all
  with Some r show ?thesis by (simp add: outbox_after_def)
qed

lemma attempted_not_live:
  assumes "object_rows_ok db" shows "live_objects db \<inter> attempted clock db = {}"
proof -
  have "attempted clock db \<subseteq> outbox_objects db \<union> pending_objects db"
    unfolding attempted_def outbox_objects_def pending_objects_def
  proof (rule Un_mono; rule image_mono)
    show "set (due_outbox clock db) \<subseteq> set (deletion_outbox db)" using due_outbox_sub [of clock db] by blast
    show "set (due_pending clock db) \<subseteq> set (pending_uploads db)" by (rule due_pending_sub)
  qed
  then show ?thesis using assms by (auto simp: object_rows_ok_def)
qed

lemma worker_store_ok:
  assumes "process_storage_cleanup s3 rq w = (r, w')" and "store_ok store (wd_db w)"
    and "store - attempted (rq_clock rq) (wd_db w) \<subseteq> store'"
    and "store' \<subseteq> store - {k \<in> attempted (rq_clock rq) (wd_db w). s3 k = None}"
  shows "store_ok store' (wd_db w')"
proof -
  let ?db = "wd_db w" and ?db' = "wd_db w'" and ?c = "rq_clock rq"
  have ok: "object_rows_ok ?db" and st: "live_objects ?db \<subseteq> store"
      "store \<subseteq> live_objects ?db \<union> pending_objects ?db \<union> queued_objects ?db"
    using assms(2) by (simp_all add: store_ok_def)
  then have d: "distinct (map o_id (deletion_outbox ?db))" and dp: "distinct (map pu_id (pending_uploads ?db))"
    by (simp_all add: object_rows_ok_def)
  note t = worker_tables [OF assms(1) d]
  have versions: "secret_versions ?db' = secret_versions ?db" by (subst t(3)) simp
  have live: "live_objects ?db' = live_objects ?db" by (simp add: live_objects_def versions)
  have box: "outbox_objects ?db' = outbox_objects ?db" by (simp add: outbox_objects_def t(1) image_image)
  have pend: "pending_objects ?db' \<subseteq> pending_objects ?db" by (auto simp: pending_objects_def t(2))
  have "object_rows_ok ?db'"
    using ok live box pend distinct_map_filter [OF dp] unfolding object_rows_ok_def versions
    by (simp add: t(1,2) comp_def) blast
  moreover have "live_objects ?db' \<subseteq> store'"
    using attempted_not_live [OF ok, of ?c] st(1) assms(3) unfolding live by blast
  moreover have "k \<in> live_objects ?db' \<union> pending_objects ?db' \<union> queued_objects ?db'" if k: "k \<in> store'" for k
  proof -
    have fails: "s3 k \<noteq> None" if "k \<in> attempted ?c ?db" using k assms(4) that by auto
    from k assms(4) st(2) consider "k \<in> live_objects ?db" | "k \<in> pending_objects ?db" | "k \<in> queued_objects ?db"
      by blast
    then show ?thesis
    proof cases
      case 1
      then show ?thesis by (simp add: live)
    next
      case 2
      then obtain p where p: "p \<in> set (pending_uploads ?db)" "pu_object p = k" by (auto simp: pending_objects_def)
      have "p \<in> set (pending_uploads ?db')"
      proof (rule ccontr)
        assume "p \<notin> set (pending_uploads ?db')"
        with p t(2) obtain r where r: "r \<in> set (due_pending ?c ?db)" "s3 (pu_object r) = None" "pu_id r = pu_id p"
          by auto
        with due_pending_sub [of ?c ?db] have "r = p" by (intro row_by_id [OF dp _ p(1)]) auto
        with r p(2) fails show False by (auto simp: attempted_def)
      qed
      with p(2) show ?thesis by (auto simp: pending_objects_def)
    next
      case 3
      then obtain b where b: "b \<in> set (deletion_outbox ?db)" "o_object b = k" "o_processed b = None"
        by (auto simp: queued_objects_def)
      have "o_processed (outbox_after s3 ?c (due_outbox ?c ?db) b) = None"
        using b fails by (auto simp: outbox_after_due [OF d b(1)] attempted_def split: option.split)
      with b show ?thesis by (auto simp: queued_objects_def t(1) intro!: rev_image_eqI)
    qed
  qed
  ultimately show ?thesis by (auto simp: store_ok_def)
qed

text \<open>C9: the storage worker loses nothing and forgets nothing.  Take a store that holds every object of
  an existing version and nothing that no table refers to.  After a run (in which the deletions
  that answered without an error did happen, and those that failed may or may not have) the same
  is true: no object of an existing secret is deleted, and every object left over is still in the
  outbox or among the pending uploads, to be tried again.
\<close>

theorem storage_worker_sound:
  assumes "process_storage_cleanup s3 rq w = (r, w')" and "store_ok store (wd_db w)"
    and "store - attempted (rq_clock rq) (wd_db w) \<subseteq> store'"
    and "store' \<subseteq> store - {k \<in> attempted (rq_clock rq) (wd_db w). s3 k = None}"
  shows "store_ok store' (wd_db w')"
  using assms by (rule worker_store_ok)

text \<open>
  what a run does to each row of the outbox: a row that is not due is left alone; a due row is
  marked processed exactly when its object was deleted; otherwise it stays open, with one more
  attempt counted, and is due again after at least one second and at most 2048 seconds.
\<close>

theorem storage_worker_rows:
  assumes "process_storage_cleanup s3 rq w = (r, w')" and "store_ok store (wd_db w)"
    and "b \<in> set (deletion_outbox (wd_db w))" and "0 \<le> o_attempts b"
  shows "\<exists>b' \<in> set (deletion_outbox (wd_db w')). o_id b' = o_id b \<and> o_object b' = o_object b \<and>
     (if b \<notin> set (due_outbox (rq_clock rq) (wd_db w)) then b' = b
      else if s3 (o_object b) = None then o_processed b' = Some (rq_clock rq)
      else o_processed b' = None \<and> o_attempts b' = o_attempts b + 1 \<and>
           rq_clock rq + second \<le> o_next b' \<and> o_next b' \<le> rq_clock rq + 2048 * second)"
proof -
  have d: "distinct (map o_id (deletion_outbox (wd_db w)))"
    using assms(2) by (simp add: store_ok_def object_rows_ok_def)
  have "nat (min (o_attempts b) 11) \<le> 11" by simp
  then have "(2 :: int) ^ nat (min (o_attempts b) 11) \<le> 2 ^ 11" by (intro power_increasing) simp_all
  then have bnd: "1 \<le> backoff_seconds (o_attempts b)" "backoff_seconds (o_attempts b) \<le> 2048"
    by (simp_all add: backoff_seconds_def)
  have unp: "o_processed b = None" if "b \<in> set (due_outbox (rq_clock rq) (wd_db w))"
    using that due_outbox_sub [of "rq_clock rq" "wd_db w"] by blast
  let ?b = "outbox_after s3 (rq_clock rq) (due_outbox (rq_clock rq) (wd_db w)) b"
  have "?b \<in> set (deletion_outbox (wd_db w'))"
    using assms(3) by (simp add: worker_tables(1) [OF assms(1) d])
  then show ?thesis
    using bnd unp
    by (intro bexI [of _ ?b]) (auto simp: outbox_after_due [OF d assms(3)] outbox_retry_def split: option.split)
qed

definition sample_outbox :: database where
  "sample_outbox = empty_db\<lparr>deletion_outbox := [\<lparr>o_id = 1, o_object = ''k1'', o_user = None, o_bytes = 5, o_attempts = 3,
     o_next = 0, o_processed = None, o_error = None\<rparr>]\<rparr>"

definition outbox_world :: world where
  "outbox_world = \<lparr>wd_db = sample_outbox, wd_quota = None, wd_keys = Map.empty\<rparr>"

lemma sample_outbox_ok: "store_ok {''k1''} sample_outbox"
proof -
  have "live_objects sample_outbox = {}" "pending_objects sample_outbox = {}"
    by (simp_all add: object_sets_def sample_outbox_def empty_db_def)
  moreover have "''k1'' \<in> queued_objects sample_outbox"
    unfolding queued_objects_def
    by (rule image_eqI [of _ _ "hd (deletion_outbox sample_outbox)"]) (simp_all add: sample_outbox_def)
  ultimately show ?thesis by (simp add: store_ok_def object_rows_ok_def) (simp add: sample_outbox_def empty_db_def)
qed

lemma sample_due: "due_outbox (rq_clock demo_request) sample_outbox = deletion_outbox sample_outbox"
    "due_pending (rq_clock demo_request) sample_outbox = []"
  by (simp_all add: due_outbox_def due_pending_def sample_outbox_def empty_db_def sql_select_def demo_request_def)

theorem storage_worker_sound_witness:
  "store_ok {} (wd_db (snd (process_storage_cleanup (\<lambda>_. None) demo_request outbox_world)))"
proof (rule storage_worker_sound [OF prod.collapse [symmetric]])
  show "store_ok {''k1''} (wd_db outbox_world)" by (simp add: outbox_world_def sample_outbox_ok)
  show "{''k1''} - attempted (rq_clock demo_request) (wd_db outbox_world) \<subseteq> {}"
    by (simp add: attempted_def outbox_world_def sample_due) (simp add: sample_outbox_def)
qed simp

theorem storage_worker_rows_witness:
  "\<exists>b' \<in> set (deletion_outbox (wd_db (snd (process_storage_cleanup (\<lambda>_. Some ''timeout'') demo_request outbox_world)))).
     o_object b' = ''k1'' \<and> o_processed b' = None \<and> o_attempts b' = 4"
proof -
  let ?b = "\<lparr>o_id = 1, o_object = ''k1'', o_user = None, o_bytes = 5, o_attempts = 3, o_next = 0,
     o_processed = None, o_error = None\<rparr>"
  have b: "?b \<in> set (deletion_outbox sample_outbox)" by (simp add: sample_outbox_def)
  then have due: "?b \<in> set (due_outbox (rq_clock demo_request) sample_outbox)" by (simp add: sample_due)
  have "store_ok {''k1''} (wd_db outbox_world)" "?b \<in> set (deletion_outbox (wd_db outbox_world))"
    using b by (simp_all add: outbox_world_def sample_outbox_ok)
  from storage_worker_rows [OF prod.collapse [symmetric] this, of "\<lambda>_. Some ''timeout''" demo_request]
  show ?thesis using due by (auto simp: outbox_world_def)
qed

subsection \<open>Deleting secrets\<close>

lemma delete_expired_secret_db:
  "wd_db (snd (delete_expired_secret P rq token sid w)) = wd_db w \<or>
   wd_db (snd (delete_expired_secret P rq token sid w)) = delete_secrets (rq_clock rq) (\<lambda>s. s_id s = sid) (wd_db w) \<or>
   (\<exists>e. wd_db (snd (delete_expired_secret P rq token sid w)) =
      audit_log P rq e (delete_secrets (rq_clock rq) (\<lambda>s. s_id s = sid) (wd_db w)))"
  by (auto simp: delete_expired_secret_def Let_def split_beta split: option.split)

lemma delete_expired_secret_store_ok:
  "store_ok store (wd_db w) \<Longrightarrow> store_ok store (wd_db (snd (delete_expired_secret P rq token sid w)))"
  using delete_expired_secret_db [of P rq token sid w] by (auto simp: delete_secrets_store_ok)

lemma delete_secret_store_ok:
  assumes "store_ok store (wd_db w)" shows "store_ok store (wd_db (snd (delete_secret P rq sid user w)))"
  using assms
  by (auto simp: delete_secret_def exec_txn_def audit_log_conn_eq delete_secrets_store_ok split: option.split sum.split)

lemma retrieve_secret_store_ok:
  assumes "store_ok store db"
  shows "store_ok store (snd (retrieve_secret P rq secret_id pw token user db))"
proof -
  have a: "store_ok store (snd (authorize P rq sid token db))" for sid
    using assms by (simp add: authorize_def split: option.split sum.split prod.split)
  have v: "store_ok store db2" if "store_ok store db1" "record_view rq sid user n db1 = Inr (m, db2)" for db1 db2 n m sid
    using that store_ok_cong [of "db1\<lparr>secret_views := t\<rparr>" db1 store for t]
    by (auto simp: record_view_def split: option.splits if_splits)
  have l: "store_ok store (snd (retrieve_locked P rq n sid pw user db1))" if "store_ok store db1" for n sid db1
    using that v [OF that]
    by (auto simp: retrieve_locked_def exec_txn_def audit_log_conn_eq Let_def
        intro!: update_view_count_store_ok split: sum.split prod.split option.split)
  show ?thesis
    using assms a l by (auto simp: retrieve_secret_def split: option.split prod.split sum.split exc.split)
      (metis snd_conv)+
qed
subsection \<open>The sweep\<close>

text \<open>An entry that names a row that is gone is refused by the foreign key, and the refusal swallowed.\<close>

lemma audit_log_dangling:
  "(\<exists>s. ae_secret e = Some s \<and> secret_of db s = None) \<or> (\<exists>u. ae_actor e = Some u \<and> user_of db u = None) \<Longrightarrow>
     audit_log P rq e db = db"
  by (auto simp: audit_log_eq audit_accepts_def)

lemma fold_audit_dangling:
  assumes "\<And>x. x \<in> set xs \<Longrightarrow> audit_log P rq (e x) db = db"
  shows "fold (\<lambda>x. audit_log P rq (e x)) xs db = db"
  using assms by (induction xs) simp_all

lemma fold_audit_frame [simp]:
  "secrets (fold (\<lambda>x. audit_log P rq (e x)) xs db) = secrets db"
  "users (fold (\<lambda>x. audit_log P rq (e x)) xs db) = users db"
  "sessions (fold (\<lambda>x. audit_log P rq (e x)) xs db) = sessions db"
  "secret_tracking (fold (\<lambda>x. audit_log P rq (e x)) xs db) = secret_tracking db"
  "secret_versions (fold (\<lambda>x. audit_log P rq (e x)) xs db) = secret_versions db"
  "secret_keys (fold (\<lambda>x. audit_log P rq (e x)) xs db) = secret_keys db"
  "deletion_outbox (fold (\<lambda>x. audit_log P rq (e x)) xs db) = deletion_outbox db"
  "pending_uploads (fold (\<lambda>x. audit_log P rq (e x)) xs db) = pending_uploads db"
  by (induction xs arbitrary: db) simp_all

text \<open>The tables the transaction of the sweep leaves.\<close>

lemma sweep_rows_tables:
  assumes "sweep_rows rq db = ((dead, gone, n), db')"
  shows "dead = filter (sweep_secret rq) (secrets db)" and "gone = filter (sweep_user rq) (users db)"
    and "map s_id (secrets db') = map s_id (filter (\<lambda>s. \<not> sweep_secret rq s) (secrets db))"
    and "users db' = filter (\<lambda>u. \<not> sweep_user rq u) (users db)"
    and "sessions db' = filter (\<lambda>s. \<not> sweep_session rq s \<and> ss_user s \<notin> u_id ` set gone) (sessions db)"
    and "n = length (filter (\<lambda>s. sweep_session rq s \<and> ss_user s \<notin> u_id ` set gone) (sessions db))"
    and "secret_versions db' = map (\<lambda>v. if v_created_by v \<in> Some ` u_id ` set gone then v\<lparr>v_created_by := None\<rparr> else v)
           (filter (\<lambda>v. v_secret v \<notin> s_id ` set dead) (secret_versions db))"
    and "secret_keys db' = filter (\<lambda>k. k_secret k \<notin> s_id ` set dead) (secret_keys db)"
proof -
  have d: "dead = filter (sweep_secret rq) (secrets db)" and g: "gone = filter (sweep_user rq) (users db)"
    using assms by (simp_all add: sweep_rows_def Let_def delete_secrets_def sql_select_def)
  note tables = sweep_rows_def Let_def delete_tracking_def delete_users_def delete_secrets_def sql_select_def
  have db': "secrets db' = sql_update (\<lambda>s. s_owner s \<in> Some ` u_id ` set gone) (\<lambda>s. s\<lparr>s_owner := None\<rparr>)
        (sql_delete (sweep_secret rq) (secrets db))"
    "users db' = sql_delete (sweep_user rq) (users db)"
    "sessions db' = sql_delete (sweep_session rq) (sql_delete (\<lambda>s. ss_user s \<in> u_id ` set gone) (sessions db))"
    "n = length (sql_select (sweep_session rq) (sql_delete (\<lambda>s. ss_user s \<in> u_id ` set gone) (sessions db)))"
    "secret_versions db' = sql_update (\<lambda>v. v_created_by v \<in> Some ` u_id ` set gone) (\<lambda>v. v\<lparr>v_created_by := None\<rparr>)
        (sql_delete (\<lambda>v. v_secret v \<in> s_id ` set dead) (secret_versions db))"
    "secret_keys db' = sql_delete (\<lambda>k. k_secret k \<in> s_id ` set dead) (secret_keys db)"
    using assms unfolding d g by (simp_all add: tables) auto
  show "dead = filter (sweep_secret rq) (secrets db)" and "gone = filter (sweep_user rq) (users db)" by (fact d, fact g)
  show "map s_id (secrets db') = map s_id (filter (\<lambda>s. \<not> sweep_secret rq s) (secrets db))"
    unfolding db' by (subst map_sql_update) (simp_all add: sql_delete_def)
  show "users db' = filter (\<lambda>u. \<not> sweep_user rq u) (users db)" by (simp add: db' sql_delete_def)
  show "sessions db' = filter (\<lambda>s. \<not> sweep_session rq s \<and> ss_user s \<notin> u_id ` set gone) (sessions db)"
    unfolding db' sql_delete_def by (simp add: conj_commute)
  show "n = length (filter (\<lambda>s. sweep_session rq s \<and> ss_user s \<notin> u_id ` set gone) (sessions db))"
    unfolding db' sql_delete_def sql_select_def by (simp add: conj_commute)
  show "secret_versions db' = map (\<lambda>v. if v_created_by v \<in> Some ` u_id ` set gone then v\<lparr>v_created_by := None\<rparr> else v)
         (filter (\<lambda>v. v_secret v \<notin> s_id ` set dead) (secret_versions db))"
    by (simp add: db' sql_delete_def sql_update_def)
  show "secret_keys db' = filter (\<lambda>k. k_secret k \<notin> s_id ` set dead) (secret_keys db)"
    by (simp add: db' sql_delete_def)
qed

lemma swept_secret_gone:
  assumes "sweep_rows rq db = ((dead, gone, n), db')" and "distinct (map s_id (secrets db))" and "s \<in> set dead"
  shows "secret_of db' (s_id s) = None"
proof -
  have "s_id s \<notin> s_id ` set (filter (\<lambda>s. \<not> sweep_secret rq s) (secrets db))"
    using assms(2,3) by (auto simp: sweep_rows_tables(1) [OF assms(1)] distinct_map inj_on_def)
  then have "s_id s \<notin> set (map s_id (secrets db'))"
    unfolding sweep_rows_tables(3) [OF assms(1)] by simp
  then show ?thesis by (simp add: secret_of_None_iff secret_ids_def)
qed

lemma swept_user_gone:
  assumes "sweep_rows rq db = ((dead, gone, n), db')" and "distinct (map u_id (users db))" and "u \<in> set gone"
  shows "u_id u \<notin> u_id ` set (users db')"
  using assms(2,3)
  by (auto simp: sweep_rows_tables(2,4) [OF assms(1)] distinct_map inj_on_def)

text \<open>A sweep that gets the lock: its transaction, then the storage worker, and no audit entry.\<close>

lemma fallback_sweep_run:
  assumes "fallback_sweep P s3 rq token w = (Inr r, w')" and "redis_get (rq_now rq) (wd_keys w) ''phantom:lock:sweep'' = None"
    and "wd_quota w \<noteq> None" and "distinct (map s_id (secrets (wd_db w)))" and "distinct (map u_id (users (wd_db w)))"
  obtains dead gone n db1 q ks where "sweep_rows rq (wd_db w) = ((dead, gone, n), db1)"
    and "wd_db w' = wd_db (snd (process_storage_cleanup s3 rq \<lparr>wd_db = db1, wd_quota = q, wd_keys = ks\<rparr>))"
    and "r = \<lparr>sr_secrets = length dead, sr_sessions = n, sr_users = length gone\<rparr>"
proof -
  obtain dead gone n db1 where s: "sweep_rows rq (wd_db w) = ((dead, gone, n), db1)"
    by (metis prod.exhaust)
  have a: "fold (\<lambda>s. audit_log P rq \<lparr>ae_action = ''secret_deleted'', ae_actor = None, ae_ip = None,
      ae_secret = Some (s_id s), ae_severity = Info\<rparr>) dead db1 = db1"
    by (rule fold_audit_dangling, rule audit_log_dangling) (simp add: swept_secret_gone [OF s assms(4)])
  obtain q0 where q0: "wd_quota w = Some q0" using assms(3) by auto
  define q where "q = reconcile_all db1 (remdups (List.map_filter s_owner dead)) (Some q0)"
  define ks where "ks = redis_setex (rq_now rq) ''phantom:lock:sweep'' SWEEP_LOCK_TTL token (wd_keys w)"
  define w1 where "w1 = snd (process_storage_cleanup s3 rq (w\<lparr>wd_db := db1, wd_quota := q, wd_keys := ks\<rparr>))"
  have users: "users (wd_db w1) = users db1"
    unfolding w1_def process_storage_cleanup_def by (simp add: split_beta Let_def)
  have b: "fold (\<lambda>u. audit_log P rq \<lparr>ae_action = ''user_removed'', ae_actor = Some (u_id u), ae_ip = None,
      ae_secret = None, ae_severity = Info\<rparr>) gone (wd_db w1) = wd_db w1"
    using swept_user_gone [OF s assms(5)]
    by (intro fold_audit_dangling audit_log_dangling) (simp add: user_of_def row_of_None users)
  have lock: "acquire_lock (rq_now rq) token ''phantom:lock:sweep'' SWEEP_LOCK_TTL (wd_keys w) = (Some token, ks)"
    using assms(2) by (simp add: acquire_lock_Some ks_def)
  have "fallback_sweep P s3 rq token w = (Inr \<lparr>sr_secrets = length dead, sr_sessions = n, sr_users = length gone\<rparr>,
      w1\<lparr>wd_db := wd_db w1, wd_keys := release_lock (rq_now rq) ''phantom:lock:sweep'' token (wd_keys w1)\<rparr>)"
    by (simp add: fallback_sweep_def q0 lock s Let_def a b q_def [symmetric] w1_def [symmetric])
  then show thesis
    using assms(1) s that [OF s, of q ks] by (cases w) (auto simp: w1_def)
qed

text \<open>A database with a live secret, an expired one, a deactivated user and an expired session.\<close>

definition sweep_db :: database where
  "sweep_db = empty_db\<lparr>
     users := [sample_user_row, sample_user_row\<lparr>u_id := 2, u_active := False, u_delete_after := Some 0\<rparr>],
     sessions := [\<lparr>ss_id = 1, ss_user = 1, ss_token_hash = ''h1'', ss_agent = [], ss_ip = ''10.0.0.1'', ss_expires = 0, ss_revoked = False\<rparr>],
     secrets := [created_row demo_platform demo_request 5 sample_body 1 ''hi'' None [],
       (created_row demo_platform demo_request 6 sample_body 1 ''old'' None [])\<lparr>s_expires := 0\<rparr>]\<rparr>"

lemma sweep_db_sel [simp]:
  "users sweep_db = [sample_user_row, sample_user_row\<lparr>u_id := 2, u_active := False, u_delete_after := Some 0\<rparr>]"
  "secrets sweep_db = [created_row demo_platform demo_request 5 sample_body 1 ''hi'' None [],
       (created_row demo_platform demo_request 6 sample_body 1 ''old'' None [])\<lparr>s_expires := 0\<rparr>]"
  "deletion_outbox sweep_db = []" "audit_logs sweep_db = []"
  by (simp_all add: sweep_db_def empty_db_def)

definition sweep_world :: world where
  "sweep_world = \<lparr>wd_db = sweep_db, wd_quota = Some empty_store, wd_keys = Map.empty\<rparr>"

lemma sweep_world_sel [simp]: "wd_db sweep_world = sweep_db" "wd_quota sweep_world = Some empty_store"
    "wd_keys sweep_world = Map.empty"
  by (simp_all add: sweep_world_def)

lemma sweep_world_run:
  "\<exists>r w'. fallback_sweep demo_platform (\<lambda>_. None) demo_request ''t'' sweep_world = (Inr r, w')"
  by (simp add: fallback_sweep_def acquire_lock_def redis_get_def split_beta Let_def)

lemma sweep_world_hyps:
  "redis_get (rq_now demo_request) (wd_keys sweep_world) ''phantom:lock:sweep'' = None"
  "wd_quota sweep_world \<noteq> None" "distinct (map s_id (secrets (wd_db sweep_world)))"
  "distinct (map u_id (users (wd_db sweep_world)))" "distinct (map o_id (deletion_outbox (wd_db sweep_world)))"
  by (simp_all add: redis_get_def created_row_def sample_user_row_def)


text \<open>
  nothing the sweep removes is recorded: the audit log is no longer afterwards than it was before.  The entries
  are written after the rows are gone and name them, so the foreign keys refuse each of them, and
  the logger swallows the refusal.
\<close>

theorem sweep_not_audited:
  assumes "fallback_sweep P s3 rq token w = (Inr r, w')" and "redis_get (rq_now rq) (wd_keys w) ''phantom:lock:sweep'' = None"
    and "wd_quota w \<noteq> None" and "distinct (map s_id (secrets (wd_db w)))" and "distinct (map u_id (users (wd_db w)))"
  shows "length (audit_logs (wd_db w')) = length (audit_logs (wd_db w))"
proof -
  obtain dead gone n db1 q ks where s: "sweep_rows rq (wd_db w) = ((dead, gone, n), db1)"
    and w': "wd_db w' = wd_db (snd (process_storage_cleanup s3 rq \<lparr>wd_db = db1, wd_quota = q, wd_keys = ks\<rparr>))"
    using assms by (rule fallback_sweep_run)
  have "audit_logs (wd_db w') = audit_logs db1"
    unfolding w' process_storage_cleanup_def by (simp add: split_beta Let_def)
  moreover have "length (audit_logs db1) = length (audit_logs (wd_db w))"
    using s by (auto simp: sweep_rows_def Let_def delete_tracking_def delete_users_def delete_secrets_def sql_update_def)
  ultimately show ?thesis by simp
qed

theorem sweep_not_audited_witness:
  "\<exists>r w'. fallback_sweep demo_platform (\<lambda>_. None) demo_request ''t'' sweep_world = (Inr r, w') \<and> audit_logs (wd_db w') = []"
proof -
  obtain r w' where f: "fallback_sweep demo_platform (\<lambda>_. None) demo_request ''t'' sweep_world = (Inr r, w')"
    using sweep_world_run by blast
  from sweep_not_audited [OF f sweep_world_hyps(1-4)] f show ?thesis by simp
qed

text \<open>
  The sweep and the store: the objects of the removed secrets are in the outbox.  What it can lose
  are uploads still pending for a user it removes: their rows go with the user (ON DELETE CASCADE).
\<close>

lemma sweep_rows_store_ok:
  assumes "sweep_rows rq db = ((dead, gone, n), db')" and "store_ok store db"
    and "\<forall>p \<in> set (pending_uploads db). pu_user p \<notin> u_id ` set gone"
  shows "store_ok store db'"
    and "live_objects db' = live_objects (delete_secrets (rq_clock rq) (sweep_secret rq) db)"
    and "outbox_objects db' = outbox_objects (delete_secrets (rq_clock rq) (sweep_secret rq) db)"
    and "pending_uploads db' = pending_uploads db"
proof -
  let ?db1 = "delete_secrets (rq_clock rq) (sweep_secret rq) db"
  have ok: "store_ok store ?db1" using assms(2) by (rule delete_secrets_store_ok)
  have users: "users ?db1 = users db" by (simp add: delete_secrets_def Let_def)
  have db': "secret_versions db' = sql_update (\<lambda>v. v_created_by v \<in> Some ` u_id ` set gone)
        (\<lambda>v. v\<lparr>v_created_by := None\<rparr>) (secret_versions ?db1)"
      "deletion_outbox db' = sql_update (\<lambda>b. o_user b \<in> Some ` u_id ` set gone) (\<lambda>b. b\<lparr>o_user := None\<rparr>)
        (deletion_outbox ?db1)"
      "pending_uploads db' = sql_delete (\<lambda>u. pu_user u \<in> u_id ` set gone) (pending_uploads ?db1)"
    using assms(1) unfolding sweep_rows_tables(2) [OF assms(1)]
    by (auto simp: sweep_rows_def Let_def delete_users_def delete_tracking_def sql_select_def users)
  have pend: "pending_uploads db' = pending_uploads ?db1"
    using assms(3) by (simp add: db'(3) sql_delete_def filter_id_conv)
  have vs: "(\<exists>v \<in> set (secret_versions db'). v_secret v = i \<and> v_object v = k) \<longleftrightarrow>
      (\<exists>v \<in> set (secret_versions ?db1). v_secret v = i \<and> v_object v = k)" for i k
    unfolding db'(1) by (rule bex_sql_update) simp
  have bs: "(\<exists>b \<in> set (deletion_outbox db'). o_processed b = x \<and> o_object b = k) \<longleftrightarrow>
      (\<exists>b \<in> set (deletion_outbox ?db1). o_processed b = x \<and> o_object b = k)" for x k
    unfolding db'(2) by (rule bex_sql_update) simp
  have live: "live_objects db' = live_objects ?db1" 
    using bex_sql_update [of "\<lambda>v. v_object v = k" for k] unfolding live_objects_def db'(1) by (simp add: bex_sql_update)
  have "k \<in> queued_objects d \<longleftrightarrow> (\<exists>b \<in> set (deletion_outbox d). o_processed b = None \<and> o_object b = k)" for d k
    by (auto simp: queued_objects_def)
  then have queued: "queued_objects db' = queued_objects ?db1" using bs [of None] by (simp add: set_eq_iff)
  have box: "outbox_objects db' = outbox_objects ?db1"
    unfolding outbox_objects_def db'(2) by (rule image_sql_update) simp
  have one: "v_secret v = v_secret v'"
    if h: "v \<in> set (secret_versions db')" "v' \<in> set (secret_versions db')" "v_object v = v_object v'" "v_object v \<noteq> None" for v v'
  proof -
    obtain x y where "x \<in> set (secret_versions ?db1)" "v_secret x = v_secret v" "v_object x = v_object v"
        "y \<in> set (secret_versions ?db1)" "v_secret y = v_secret v'" "v_object y = v_object v'"
      using vs [of "v_secret v" "v_object v"] vs [of "v_secret v'" "v_object v'"] h(1,2) by metis
    with ok h(3,4) show ?thesis unfolding store_ok_def object_rows_ok_def by metis
  qed
  have ids: "map o_id (deletion_outbox db') = map o_id (deletion_outbox ?db1)"
    unfolding db'(2) by (rule map_sql_update) simp
  have "object_rows_ok ?db1" using ok by (simp add: store_ok_def)
  then have "object_rows_ok db'"
    unfolding object_rows_ok_def live box pend pending_objects_def ids using one by blast
  then show "store_ok store db'"
    using ok unfolding store_ok_def live queued pending_objects_def pend by blast
  show "live_objects db' = live_objects ?db1" "outbox_objects db' = outbox_objects ?db1" by (fact live, fact box)
  show "pending_uploads db' = pending_uploads db" using pend by simp
qed

end
