(* ===== verification/File_Crypto.thy ===== *)
theory File_Crypto
  imports Crypto
begin

text \<open>
  app/services/file_crypto.py: a file is cut into chunks of 1 MiB; every chunk is encrypted
  under a nonce and associated data that hold its index, and written as a frame (32-bit length,
  then ciphertext) after a header (magic, 8 nonce bytes, chunk size).  A file is its bytes.
\<close>

definition MAGIC :: bytes where
  "MAGIC = ''PHANTOM1''"

definition CHUNK_SIZE :: nat where
  "CHUNK_SIZE = 1048576"

lemma CHUNK_SIZE_pos [simp]: "0 < CHUNK_SIZE"
  by (simp add: CHUNK_SIZE_def)

lemma length_MAGIC [simp]: "length MAGIC = 8"
  by (simp add: MAGIC_def)

text \<open>One frame; None when \<open>struct.pack\<close> raises.\<close>

definition enc_frame :: "crypto \<Rightarrow> bytes \<Rightarrow> bytes \<Rightarrow> bytes \<Rightarrow> nat \<Rightarrow> bytes \<Rightarrow> bytes option" where
  "enc_frame C dek nonce_prefix aad_prefix index chunk =
     (case pack_I index of
        None \<Rightarrow> None
      | Some ib \<Rightarrow>
          (let encrypted = aead_enc C dek (nonce_prefix @ ib) chunk (aad_prefix @ ib) in
           case pack_I (length encrypted) of
             None \<Rightarrow> None
           | Some lb \<Rightarrow> Some (lb @ encrypted)))"

text \<open>The loop \<open>while chunk := src.read(CHUNK_SIZE)\<close>, on what is left of the source.\<close>

function encrypt_loop :: "crypto \<Rightarrow> bytes \<Rightarrow> bytes \<Rightarrow> bytes \<Rightarrow> nat \<Rightarrow> bytes \<Rightarrow> bytes option" where
  "encrypt_loop C dek nonce_prefix aad_prefix index src =
     (let chunk = take CHUNK_SIZE src in
      if chunk = [] then Some []
      else case enc_frame C dek nonce_prefix aad_prefix index chunk of
        None \<Rightarrow> None
      | Some frame \<Rightarrow>
          map_option ((@) frame)
            (encrypt_loop C dek nonce_prefix aad_prefix (index + 1) (drop CHUNK_SIZE src)))"
  by pat_completeness auto
termination
  by (relation "measure (\<lambda>(C, dek, np, ap, i, src). length src)") (auto simp: CHUNK_SIZE_def)

declare encrypt_loop.simps [simp del]

definition uuid_bytes :: "uuid \<Rightarrow> bytes" where
  "uuid_bytes u = be_bytes 16 (unat u)"

definition file_header :: "bytes \<Rightarrow> bytes" where
  "file_header nonce_prefix = MAGIC @ nonce_prefix @ be_bytes 4 CHUNK_SIZE"

text \<open>The result: the destination's bytes, the total and the digest of the plaintext.\<close>

definition encrypt_file ::
  "crypto \<Rightarrow> bytes \<Rightarrow> bytes \<Rightarrow> bytes \<Rightarrow> uuid \<Rightarrow> nat \<Rightarrow> (bytes \<times> nat \<times> string) res" where
  "encrypt_file C nonce_prefix src dek secret_id version =
     bind_res (chacha dek) (\<lambda>key.
     case pack_I version of
       None \<Rightarrow> Inl (ValueError ''struct.error'')
     | Some vb \<Rightarrow>
         (case encrypt_loop C key nonce_prefix (uuid_bytes secret_id @ vb) 0 src of
            None \<Rightarrow> Inl (ValueError ''struct.error'')
          | Some frames \<Rightarrow>
              Inr (file_header nonce_prefix @ frames, length src, sha256_hash C src)))"

text \<open>The frame loop of \<open>decrypt_file\<close>; the plaintext written is the result.\<close>

function decrypt_loop :: "crypto \<Rightarrow> bytes \<Rightarrow> bytes \<Rightarrow> bytes \<Rightarrow> nat \<Rightarrow> bytes \<Rightarrow> bytes res" where
  "decrypt_loop C dek nonce_prefix aad_prefix index src =
     (let raw_length = take 4 src in
      if raw_length = [] then Inr []
      else if length raw_length \<noteq> 4 then Inl (ValueError ''Truncated encrypted file'')
      else
        (let len = from_bytes raw_length;
             encrypted = take len (drop 4 src) in
         if length encrypted \<noteq> len then Inl (ValueError ''Truncated encrypted file'')
         else case pack_I index of
           None \<Rightarrow> Inl (ValueError ''struct.error'')
         | Some ib \<Rightarrow>
             (case aead_dec C dek (nonce_prefix @ ib) encrypted (aad_prefix @ ib) of
                None \<Rightarrow> Inl InvalidTag
              | Some plaintext \<Rightarrow>
                  bind_res
                    (decrypt_loop C dek nonce_prefix aad_prefix (index + 1) (drop len (drop 4 src)))
                    (\<lambda>rest. Inr (plaintext @ rest)))))"
  by pat_completeness auto
termination
  by (relation "measure (\<lambda>(C, dek, np, ap, i, src). length src)") auto

declare decrypt_loop.simps [simp del]

definition decrypt_file :: "crypto \<Rightarrow> bytes \<Rightarrow> bytes \<Rightarrow> uuid \<Rightarrow> nat \<Rightarrow> bytes res" where
  "decrypt_file C src dek secret_id version =
     bind_res (chacha dek) (\<lambda>key.
     case pack_I version of
       None \<Rightarrow> Inl (ValueError ''struct.error'')
     | Some vb \<Rightarrow>
         (let header = take (length MAGIC + 12) src in
          if length header \<noteq> length MAGIC + 12 \<or> take (length MAGIC) header \<noteq> MAGIC
          then Inl (ValueError ''Invalid encrypted file header'')
          else decrypt_loop C key (take 8 (drop (length MAGIC) header))
                 (uuid_bytes secret_id @ vb) 0 (drop (length MAGIC + 12) src)))"

subsection \<open>One frame\<close>

lemma pack_I_Some: "pack_I n = Some b \<longleftrightarrow> n < 2 ^ 32 \<and> b = be_bytes 4 n"
  by (auto simp: pack_I_def)

lemma enc_frame_Some:
  "enc_frame C dek np ap i chunk = Some f \<longleftrightarrow>
     (let e = aead_enc C dek (np @ be_bytes 4 i) chunk (ap @ be_bytes 4 i) in
      i < 2 ^ 32 \<and> length e < 2 ^ 32 \<and> f = be_bytes 4 (length e) @ e)"
  by (auto simp: enc_frame_def pack_I_Some Let_def split: option.splits) (simp_all add: pack_I_def)

lemma decrypt_loop_Nil [simp]: "decrypt_loop C dek np ap i [] = Inr []"
  by (simp add: decrypt_loop.simps)

text \<open>Reading back the frame that was written.\<close>

lemma decrypt_loop_frame:
  assumes "aead_ok C" "length dek = 32" "length np = 8"
    and f: "enc_frame C dek np ap i chunk = Some f"
  shows "decrypt_loop C dek np ap i (f @ rest) =
     bind_res (decrypt_loop C dek np ap (i + 1) rest) (\<lambda>p. Inr (chunk @ p))"
proof -
  define e where "e = aead_enc C dek (np @ be_bytes 4 i) chunk (ap @ be_bytes 4 i)"
  have bounds: "i < 2 ^ 32" "length e < 2 ^ 32" and feq: "f = be_bytes 4 (length e) @ e"
    using f by (simp_all add: enc_frame_Some Let_def e_def)
  have "from_bytes (be_bytes 4 (length e)) = length e"
    using bounds by (simp add: from_bytes_be_bytes)
  moreover have "be_bytes 4 (length e) \<noteq> []"
    using length_be_bytes [of 4 "length e"] by (metis list.size(3) zero_neq_numeral)
  moreover have "aead_dec C dek (np @ be_bytes 4 i) e (ap @ be_bytes 4 i) = Some chunk"
    using assms(1-3) by (simp add: e_def)
  ultimately show ?thesis
    using bounds by (subst decrypt_loop.simps) (simp add: feq Let_def pack_I_def)
qed

subsection \<open>The frames of a source\<close>

lemma encrypt_loop_step:
  assumes "encrypt_loop C dek np ap i src = Some out" and "src \<noteq> []"
  obtains f out' where "enc_frame C dek np ap i (take CHUNK_SIZE src) = Some f"
    "encrypt_loop C dek np ap (i + 1) (drop CHUNK_SIZE src) = Some out'" "out = f @ out'"
  using assms
  by (subst (asm) encrypt_loop.simps) (auto simp: Let_def CHUNK_SIZE_def split: option.splits)

lemma encrypt_loop_Nil [simp]: "encrypt_loop C dek np ap i [] = Some []"
  by (simp add: encrypt_loop.simps)

text \<open>
  What follows the frames does not matter for reading them: decrypting the frames of a source
  followed by \<open>rest\<close> is decrypting \<open>rest\<close> at the next index.
\<close>

lemma decrypt_frames:
  assumes "aead_ok C" "length dek = 32" "length np = 8"
    and "encrypt_loop C dek np ap i src = Some out"
  shows "decrypt_loop C dek np ap i (out @ rest) =
     bind_res (decrypt_loop C dek np ap (i + (length src + CHUNK_SIZE - 1) div CHUNK_SIZE) rest)
       (\<lambda>p. Inr (src @ p))"
  using assms(4)
proof (induction "length src" arbitrary: i src out rule: less_induct)
  case less
  show ?case
  proof (cases "src = []")
    case True
    then show ?thesis
      using less.prems by (cases "decrypt_loop C dek np ap i rest") (simp_all add: CHUNK_SIZE_def)
  next
    case False
    obtain f out' where f: "enc_frame C dek np ap i (take CHUNK_SIZE src) = Some f"
      and l: "encrypt_loop C dek np ap (i + 1) (drop CHUNK_SIZE src) = Some out'" and o: "out = f @ out'"
      using less.prems False by (rule encrypt_loop_step)
    let ?n = "\<lambda>xs. (length xs + CHUNK_SIZE - 1) div CHUNK_SIZE"
    have shorter: "length (drop CHUNK_SIZE src) < length src"
      using False by (simp add: CHUNK_SIZE_def)
    have count: "?n src = Suc (?n (drop CHUNK_SIZE src))"
      using False by (auto simp: CHUNK_SIZE_def Suc_le_eq div_nat_eqI not_less le_div_geq)
    have "decrypt_loop C dek np ap i (out @ rest) =
        bind_res (decrypt_loop C dek np ap (i + 1) (out' @ rest)) (\<lambda>p. Inr (take CHUNK_SIZE src @ p))"
      using decrypt_loop_frame [OF assms(1-3) f] o by simp
    also have "decrypt_loop C dek np ap (i + 1) (out' @ rest) =
        bind_res (decrypt_loop C dek np ap (i + 1 + ?n (drop CHUNK_SIZE src)) rest)
          (\<lambda>p. Inr (drop CHUNK_SIZE src @ p))"
      using less.hyps [OF shorter l] .
    finally show ?thesis
      using count
      by (cases "decrypt_loop C dek np ap (i + ?n src) rest") (simp_all flip: append_assoc)
  qed
qed

text \<open>The frames of a list of chunks, the reference form of an encrypted file's body.\<close>

fun frames :: "crypto \<Rightarrow> bytes \<Rightarrow> bytes \<Rightarrow> bytes \<Rightarrow> nat \<Rightarrow> bytes list \<Rightarrow> bytes option" where
  "frames C dek np ap i [] = Some []"
| "frames C dek np ap i (c # cs) =
     (case enc_frame C dek np ap i c of
        None \<Rightarrow> None
      | Some f \<Rightarrow> map_option ((@) f) (frames C dek np ap (i + 1) cs))"

lemma decrypt_loop_sound:
  assumes "aead_exact C" "length dek = 32" "length np = 8"
    and "decrypt_loop C dek np ap i src = Inr p"
  shows "\<exists>cs. p = concat cs \<and> frames C dek np ap i cs = Some src"
  using assms(4)
proof (induction "length src" arbitrary: i src p rule: less_induct)
  case less
  show ?case
  proof (cases "src = []")
    case True
    then show ?thesis using less.prems by (intro exI [of _ "[]"]) simp
  next
    case False
    define raw where "raw = take 4 src"
    define e where "e = take (from_bytes raw) (drop 4 src)"
    define rest where "rest = drop (from_bytes raw) (drop 4 src)"
    have "raw \<noteq> []" using False by (simp add: raw_def)
    then obtain c q where len: "length raw = 4" "length e = from_bytes raw" and i: "i < 2 ^ 32"
      and d: "aead_dec C dek (np @ be_bytes 4 i) e (ap @ be_bytes 4 i) = Some c"
      and q: "decrypt_loop C dek np ap (i + 1) rest = Inr q" and p: "p = c @ q"
      using less.prems
      by (subst (asm) decrypt_loop.simps)
        (auto simp: Let_def raw_def [symmetric] e_def rest_def pack_I_def bind_res_eq_Inr
          split: if_splits option.splits)
    have src: "src = raw @ e @ rest"
      unfolding raw_def e_def rest_def by (simp only: append_take_drop_id)
    have "length rest < length src" using src len by simp
    from less.hyps [OF this q] obtain cs where cs: "q = concat cs"
        "frames C dek np ap (i + 1) cs = Some rest" by blast
    have e: "e = aead_enc C dek (np @ be_bytes 4 i) c (ap @ be_bytes 4 i)"
      using assms(1-3) d by (intro aead_exactD) auto
    have "from_bytes raw < 2 ^ 32" using from_bytes_lt [of raw] len by simp
    then have "enc_frame C dek np ap i c = Some (raw @ e)"
      using i len e be_bytes_from_bytes [of raw 4] by (simp add: enc_frame_Some Let_def)
    with cs have "frames C dek np ap i (c # cs) = Some src" by (simp add: src)
    with cs p show ?thesis by (intro exI [of _ "c # cs"]) simp
  qed
qed

text \<open>The frames of the first k chunks are a prefix of the frames of the whole source.\<close>

lemma encrypt_loop_prefix:
  assumes "encrypt_loop C dek np ap i src = Some out" and "k * CHUNK_SIZE < length src"
  shows "\<exists>o1 o2. out = o1 @ o2 \<and> o2 \<noteq> [] \<and> encrypt_loop C dek np ap i (take (k * CHUNK_SIZE) src) = Some o1"
  using assms
proof (induction k arbitrary: i src out)
  case 0
  then have "src \<noteq> []" by auto
  obtain f out' where f: "enc_frame C dek np ap i (take CHUNK_SIZE src) = Some f" and "out = f @ out'"
    using "0.prems"(1) \<open>src \<noteq> []\<close> by (rule encrypt_loop_step)
  moreover have "f \<noteq> []"
    using f length_be_bytes [of 4] by (metis append_is_Nil_conv enc_frame_Some list.size(3) zero_neq_numeral)
  ultimately show ?case by simp
next
  case (Suc k)
  then have ne: "src \<noteq> []" by auto
  obtain f out' where f: "enc_frame C dek np ap i (take CHUNK_SIZE src) = Some f"
    and l: "encrypt_loop C dek np ap (i + 1) (drop CHUNK_SIZE src) = Some out'" and o: "out = f @ out'"
    using Suc.prems(1) ne by (rule encrypt_loop_step)
  have "k * CHUNK_SIZE < length (drop CHUNK_SIZE src)" using Suc.prems(2) by simp
  from Suc.IH [OF l this] obtain o1 o2 where o12: "out' = o1 @ o2" "o2 \<noteq> []"
    "encrypt_loop C dek np ap (i + 1) (take (k * CHUNK_SIZE) (drop CHUNK_SIZE src)) = Some o1" by blast
  let ?t = "take (Suc k * CHUNK_SIZE) src"
  have t: "take CHUNK_SIZE ?t = take CHUNK_SIZE src"
    "drop CHUNK_SIZE ?t = take (k * CHUNK_SIZE) (drop CHUNK_SIZE src)" "?t \<noteq> []"
    using ne by (simp_all add: take_drop min_def add.commute CHUNK_SIZE_def)
  have "encrypt_loop C dek np ap i ?t = Some (f @ o1)"
    using f o12(3) t by (subst encrypt_loop.simps) (simp add: CHUNK_SIZE_def)
  with o o12 show ?case by auto
qed

lemma encrypt_loop_total:
  assumes "aead_len C" and "i + (length src + CHUNK_SIZE - 1) div CHUNK_SIZE \<le> 2 ^ 32"
  shows "\<exists>out. encrypt_loop C dek np ap i src = Some out \<and>
     length out = length src + 20 * ((length src + CHUNK_SIZE - 1) div CHUNK_SIZE)"
  using assms(2)
proof (induction "length src" arbitrary: i src rule: less_induct)
  case less
  show ?case
  proof (cases "src = []")
    case True
    then show ?thesis by (simp add: CHUNK_SIZE_def)
  next
    case False
    let ?n = "\<lambda>xs. (length xs + CHUNK_SIZE - 1) div CHUNK_SIZE"
    let ?c = "take CHUNK_SIZE src"
    have shorter: "length (drop CHUNK_SIZE src) < length src"
      using False by (simp add: CHUNK_SIZE_def)
    have count: "?n src = Suc (?n (drop CHUNK_SIZE src))"
      using False by (auto simp: CHUNK_SIZE_def Suc_le_eq div_nat_eqI not_less le_div_geq)
    then have "i + 1 + ?n (drop CHUNK_SIZE src) \<le> 2 ^ 32" using less.prems by simp
    from less.hyps [OF shorter this] obtain out' where
      o: "encrypt_loop C dek np ap (i + 1) (drop CHUNK_SIZE src) = Some out'"
      "length out' = length (drop CHUNK_SIZE src) + 20 * ?n (drop CHUNK_SIZE src)" by blast
    have len: "length (aead_enc C dek n ?c a) = length ?c + 16" for n a
      using assms(1) by (simp add: aead_len_def)
    have i: "i < 2 ^ 32" using less.prems count by simp
    obtain f where f: "enc_frame C dek np ap i ?c = Some f" "length f = length ?c + 20"
      using i len by (auto simp: enc_frame_Some Let_def CHUNK_SIZE_def)
    have "encrypt_loop C dek np ap i src = Some (f @ out')"
      using f o False by (subst encrypt_loop.simps) (simp add: CHUNK_SIZE_def)
    moreover have "length (f @ out') = length src + 20 * ?n src"
      using f o count by simp
    ultimately show ?thesis by blast
  qed
qed

subsection \<open>Properties\<close>

lemma encrypt_file_Inr:
  "encrypt_file C np src dek secret_id v = Inr (out, tot, digest) \<longleftrightarrow>
     length dek = 32 \<and> v < 2 ^ 32 \<and> tot = length src \<and> digest = sha256_hash C src \<and>
     (\<exists>fs. encrypt_loop C dek np (uuid_bytes secret_id @ be_bytes 4 v) 0 src = Some fs \<and>
        out = file_header np @ fs)"
  by (auto simp: encrypt_file_def chacha_def pack_I_def split: option.splits)

lemma decrypt_file_header:
  assumes "length dek = 32" "v < 2 ^ 32" "length np = 8"
  shows "decrypt_file C (file_header np @ body) dek secret_id v =
     decrypt_loop C dek np (uuid_bytes secret_id @ be_bytes 4 v) 0 body"
  using assms by (simp add: decrypt_file_def chacha_def pack_I_def file_header_def Let_def)

lemma encrypt_file_ex:
  assumes "aead_len C" and "length dek = 32" "length np = 8" "v < 2 ^ 32"
    and "(length src + CHUNK_SIZE - 1) div CHUNK_SIZE \<le> 2 ^ 32"
  shows "\<exists>out. encrypt_file C np src dek secret_id v = Inr (out, length src, sha256_hash C src) \<and>
    length out = 20 + length src + 20 * ((length src + CHUNK_SIZE - 1) div CHUNK_SIZE)"
proof -
  obtain fs where "encrypt_loop C dek np (uuid_bytes secret_id @ be_bytes 4 v) 0 src = Some fs"
    "length fs = length src + 20 * ((length src + CHUNK_SIZE - 1) div CHUNK_SIZE)"
    using encrypt_loop_total [OF assms(1), of 0 src dek np] assms(5) by auto
  with assms show ?thesis
    by (intro exI [of _ "file_header np @ fs"]) (auto simp: encrypt_file_Inr file_header_def)
qed

lemma encrypt_file_example:
  obtains out where "encrypt_file tag_crypto ''nonce-01'' ''hello'' (replicate 32 (CHR ''d'')) 7 1 =
    Inr (out, 5, sha256_hash tag_crypto ''hello'')"
  using encrypt_file_ex [OF tag_crypto_laws(3), of "replicate 32 (CHR ''d'')" "''nonce-01''" 1 "''hello''" 7]
  by (auto simp: CHUNK_SIZE_def)

lemma decrypt_file_encrypted:
  assumes "aead_ok C" and "length np = 8"
    and "encrypt_file C np src dek secret_id v = Inr (out, tot, digest)"
  shows "decrypt_file C out dek secret_id v = Inr src"
proof -
  from assms(3) obtain fs where fs: "length dek = 32" "v < 2 ^ 32" "out = file_header np @ fs"
    "encrypt_loop C dek np (uuid_bytes secret_id @ be_bytes 4 v) 0 src = Some fs"
    by (auto simp: encrypt_file_Inr)
  from decrypt_frames [OF assms(1) fs(1) assms(2) fs(4), of "[]"] fs(1-3) assms(2)
  show ?thesis by (simp add: decrypt_file_header)
qed

text \<open>C35: decrypting an encrypted file with the same key, secret and version gives back the source,
  and the recorded size and digest are those of the source.\<close>

theorem decrypt_encrypt_file:
  assumes "aead_ok C" and "length np = 8"
    and "encrypt_file C np src dek secret_id v = Inr (out, tot, digest)"
  shows "decrypt_file C out dek secret_id v = Inr src \<and> tot = length src \<and> digest = sha256_hash C src"
  using assms decrypt_file_encrypted [OF assms] by (auto simp: encrypt_file_Inr)

theorem decrypt_encrypt_file_witness:
  "\<exists>out d. encrypt_file tag_crypto ''nonce-01'' ''hello'' (replicate 32 (CHR ''d'')) 7 1 = Inr (out, 5, d) \<and>
     decrypt_file tag_crypto out (replicate 32 (CHR ''d'')) 7 1 = Inr ''hello''"
proof -
  obtain out where e: "encrypt_file tag_crypto ''nonce-01'' ''hello'' (replicate 32 (CHR ''d'')) 7 1 =
    Inr (out, 5, sha256_hash tag_crypto ''hello'')" by (rule encrypt_file_example)
  show ?thesis using e decrypt_encrypt_file [OF tag_crypto_laws(1) _ e] by auto
qed

text \<open>encryption succeeds for every source of at most 2^32 chunks and adds a header of 20
  bytes and 20 bytes for each chunk.\<close>

theorem encrypt_file_total:
  assumes "aead_len C" and "length dek = 32" "length np = 8" "v < 2 ^ 32"
    and "(length src + CHUNK_SIZE - 1) div CHUNK_SIZE \<le> 2 ^ 32"
  shows "\<exists>out. encrypt_file C np src dek secret_id v = Inr (out, length src, sha256_hash C src) \<and>
    length out = 20 + length src + 20 * ((length src + CHUNK_SIZE - 1) div CHUNK_SIZE)"
  using assms by (rule encrypt_file_ex)

theorem encrypt_file_total_witness:
  "\<exists>out. encrypt_file tag_crypto ''nonce-01'' ''hello'' (replicate 32 (CHR ''d'')) 7 1 =
     Inr (out, 5, sha256_hash tag_crypto ''hello'') \<and> length out = 45"
  using encrypt_file_total [OF tag_crypto_laws(3), of "replicate 32 (CHR ''d'')" "''nonce-01''" 1 "''hello''" 7]
  by (auto simp: CHUNK_SIZE_def)

text \<open>C36: whatever file \<open>decrypt_file\<close> accepts consists of a header and the frames, in order and
  under their own index, of chunks whose concatenation is the plaintext it returns.\<close>

theorem decrypt_file_sound:
  assumes "aead_exact C" and "decrypt_file C f dek secret_id v = Inr p"
  shows "\<exists>np sz body cs. f = MAGIC @ np @ sz @ body \<and> length np = 8 \<and> length sz = 4 \<and>
    p = concat cs \<and> frames C dek np (uuid_bytes secret_id @ be_bytes 4 v) 0 cs = Some body"
proof -
  define np where "np = take 8 (drop 8 f)"
  have h: "length dek = 32" "20 \<le> length f" "take 8 f = MAGIC"
    and l: "decrypt_loop C dek np (uuid_bytes secret_id @ be_bytes 4 v) 0 (drop 20 f) = Inr p"
    using assms(2)
    by (auto simp: decrypt_file_def chacha_def pack_I_def Let_def bind_res_eq_Inr np_def drop_take
        split: if_splits option.splits)
  have len: "length np = 8" using h by (simp add: np_def)
  from decrypt_loop_sound [OF assms(1) h(1) len l] obtain cs where
    "p = concat cs" "frames C dek np (uuid_bytes secret_id @ be_bytes 4 v) 0 cs = Some (drop 20 f)" by blast
  moreover have "f = MAGIC @ np @ take 4 (drop 16 f) @ drop 20 f"
  proof -
    have "drop 16 f = take 4 (drop 16 f) @ drop 20 f"
      using append_take_drop_id [of 4 "drop 16 f"] by simp
    moreover have "drop 8 f = np @ drop 16 f"
      using append_take_drop_id [of 8 "drop 8 f"] by (simp add: np_def)
    ultimately show ?thesis using append_take_drop_id [of 8 f] h(3) by simp
  qed
  ultimately show ?thesis using len h
    by (intro exI [of _ np] exI [of _ "take 4 (drop 16 f)"] exI [of _ "drop 20 f"] exI [of _ cs]) auto
qed

theorem decrypt_file_sound_witness:
  "\<exists>out. decrypt_file tag_crypto out (replicate 32 (CHR ''d'')) 7 1 = Inr ''hello'' \<and>
   (\<exists>np sz body cs. out = MAGIC @ np @ sz @ body \<and> ''hello'' = concat cs \<and>
     frames tag_crypto (replicate 32 (CHR ''d'')) np (uuid_bytes 7 @ be_bytes 4 1) 0 cs = Some body)"
proof -
  obtain out where e: "encrypt_file tag_crypto ''nonce-01'' ''hello'' (replicate 32 (CHR ''d'')) 7 1 =
    Inr (out, 5, sha256_hash tag_crypto ''hello'')" by (rule encrypt_file_example)
  have d: "decrypt_file tag_crypto out (replicate 32 (CHR ''d'')) 7 1 = Inr ''hello''"
    by (rule decrypt_file_encrypted [OF tag_crypto_laws(1) _ e]) simp
  show ?thesis using d decrypt_file_sound [OF tag_crypto_laws(2) d] by blast
qed

text \<open>no end marker is authenticated: dropping the last frames of an encrypted file leaves a
  shorter file that decrypts without an error, to the first chunks of the source.\<close>

theorem decrypt_file_truncation:
  assumes "aead_ok C" and "length np = 8"
    and "encrypt_file C np src dek secret_id v = Inr (out, tot, digest)"
    and "k * CHUNK_SIZE < length src"
  shows "\<exists>n < length out. decrypt_file C (take n out) dek secret_id v = Inr (take (k * CHUNK_SIZE) src)"
proof -
  from assms(3) obtain fs where fs: "length dek = 32" "v < 2 ^ 32" "out = file_header np @ fs"
    "encrypt_loop C dek np (uuid_bytes secret_id @ be_bytes 4 v) 0 src = Some fs"
    by (auto simp: encrypt_file_Inr)
  from encrypt_loop_prefix [OF fs(4) assms(4)] obtain o1 o2 where o: "fs = o1 @ o2" "o2 \<noteq> []"
    "encrypt_loop C dek np (uuid_bytes secret_id @ be_bytes 4 v) 0 (take (k * CHUNK_SIZE) src) = Some o1"
    by blast
  let ?n = "length (file_header np @ o1)"
  have "decrypt_file C (take ?n out) dek secret_id v = Inr (take (k * CHUNK_SIZE) src)"
    using decrypt_frames [OF assms(1) fs(1) assms(2) o(3), of "[]"] fs o assms(2)
    by (simp add: decrypt_file_header)
  moreover have "?n < length out" using fs(3) o by simp
  ultimately show ?thesis by blast
qed

theorem decrypt_file_truncation_witness:
  "\<exists>out d. encrypt_file tag_crypto ''nonce-01'' ''hello'' (replicate 32 (CHR ''d'')) 7 1 = Inr (out, 5, d) \<and>
     (\<exists>n < length out. decrypt_file tag_crypto (take n out) (replicate 32 (CHR ''d'')) 7 1 = Inr [])"
proof -
  obtain out where e: "encrypt_file tag_crypto ''nonce-01'' ''hello'' (replicate 32 (CHR ''d'')) 7 1 =
    Inr (out, 5, sha256_hash tag_crypto ''hello'')" by (rule encrypt_file_example)
  show ?thesis using e decrypt_file_truncation [OF tag_crypto_laws(1) _ e, of 0] by auto
qed

end
