(* ===== verification/Clamav.thy ===== *)
theory Clamav
  imports Platform
begin

text \<open>
  app/services/clamav_service.py: the request of clamd's INSTREAM protocol (a command, length-prefixed
  chunks, a chunk of length zero) and the reading of its reply.  The daemon is a parameter: what it
  sends back for a request, or None for any failure or timeout of the connection.
\<close>

subsection \<open>bytes.decode("utf-8", "replace")\<close>

text \<open>The ranges of the continuation bytes behind a lead byte; None for a byte that leads nothing.\<close>

definition cont_ranges :: "nat \<Rightarrow> (nat \<times> nat) list option" where
  "cont_ranges a =
     (if 194 \<le> a \<and> a < 224 then Some [(128, 191)]
      else if 224 \<le> a \<and> a < 240 then
        Some [if a = 224 then (160, 191) else if a = 237 then (128, 159) else (128, 191), (128, 191)]
      else if 240 \<le> a \<and> a < 245 then
        Some [if a = 240 then (144, 191) else if a = 244 then (128, 143) else (128, 191), (128, 191), (128, 191)]
      else None)"

fun match_conts :: "(nat \<times> nat) list \<Rightarrow> bytes \<Rightarrow> nat" where
  "match_conts ((lo, hi) # rs) (c # cs) = (if lo \<le> of_char c \<and> of_char c \<le> hi then Suc (match_conts rs cs) else 0)"
| "match_conts _ _ = 0"

definition replacement :: string where
  "replacement = [CHR 0xEF, CHR 0xBF, CHR 0xBD]"

function decode_replace :: "bytes \<Rightarrow> string" where
  "decode_replace [] = []"
| "decode_replace (c # cs) =
     (if (of_char c :: nat) < 128 then c # decode_replace cs
      else case cont_ranges (of_char c) of
        None \<Rightarrow> replacement @ decode_replace cs
      | Some rs \<Rightarrow>
          (let n = match_conts rs cs in
           if n = length rs then c # take n cs @ decode_replace (drop n cs)
           else replacement @ decode_replace (drop n cs)))"
  by pat_completeness auto
termination by (relation "measure length") auto

lemma decode_replace_ascii: "list_all (\<lambda>c. (of_char c :: nat) < 128) s \<Longrightarrow> decode_replace s = s"
  by (induction s) auto

subsection \<open>The request\<close>

definition READ_SIZE :: nat where
  "READ_SIZE = 1024 * 1024"

lemma READ_SIZE_pos [simp]: "0 < READ_SIZE" "READ_SIZE \<noteq> 0"
  by (simp_all add: READ_SIZE_def)

function scan_frames :: "bytes \<Rightarrow> bytes" where
  "scan_frames source =
     (let chunk = take READ_SIZE source in
      if chunk = [] then []
      else be_bytes 4 (length chunk) @ chunk @ scan_frames (drop READ_SIZE source))"
  by pat_completeness auto
termination by (relation "measure length") (auto simp: READ_SIZE_def)

declare scan_frames.simps [simp del]

definition scan_request :: "bytes \<Rightarrow> bytes" where
  "scan_request source = ''zINSTREAM'' @ [CHR 0x00] @ scan_frames source @ be_bytes 4 0"

subsection \<open>The reply\<close>

text \<open>\<open>StreamReader.readuntil\<close>: up to the separator, None when it is missing or beyond the limit of 64 KiB.\<close>

definition read_reply :: "bytes \<Rightarrow> bytes option" where
  "read_reply stream =
     (let reply = takeWhile (\<lambda>c. c \<noteq> CHR 0x00) stream in
      if CHR 0x00 \<in> set stream \<and> length reply \<le> 65536 then Some reply else None)"

definition ends_with :: "string \<Rightarrow> string \<Rightarrow> bool" where
  "ends_with suffix s \<longleftrightarrow> length suffix \<le> length s \<and> drop (length s - length suffix) s = suffix"

definition scan :: "(bytes \<Rightarrow> bytes option) \<Rightarrow> bytes \<Rightarrow> (string \<times> string) res" where
  "scan clamd source =
     (case clamd (scan_request source) of
        None \<Rightarrow> Inl (RuntimeError ''Virus scanner unavailable'')
      | Some stream \<Rightarrow>
     (case read_reply stream of
        None \<Rightarrow> Inl (RuntimeError ''Virus scanner unavailable'')
      | Some reply \<Rightarrow>
          (let result = decode_replace reply in
           if ends_with '' OK'' result then Inr (''clean'', result)
           else if ends_with '' FOUND'' result then Inr (''infected'', result)
           else Inl (RuntimeError (''Virus scanner returned an indeterminate result: '' @ result)))))"

subsection \<open>What the daemon gets\<close>

text \<open>
  The protocol as clamd documents it, as a reference: frames of a 4-byte length and that many bytes until a
  length of zero.
\<close>

function unframe :: "bytes \<Rightarrow> bytes option" where
  "unframe s =
     (if length s < 4 then None
      else (let n = from_bytes (take 4 s) in
        if n = 0 then Some []
        else if length s < 4 + n then None
        else map_option ((@) (take n (drop 4 s))) (unframe (drop (4 + n) s))))"
  by pat_completeness auto
termination by (relation "measure length") auto

declare unframe.simps [simp del]

definition read_request :: "bytes \<Rightarrow> bytes option" where
  "read_request s =
     (let command = ''zINSTREAM'' @ [CHR 0x00] in
      if take (length command) s = command then unframe (drop (length command) s) else None)"

lemma unframe_frame:
  "c \<noteq> [] \<Longrightarrow> length c < 256 ^ 4 \<Longrightarrow>
     unframe (be_bytes 4 (length c) @ c @ rest) = map_option ((@) c) (unframe rest)"
  by (subst unframe.simps) (simp add: Let_def from_bytes_be_bytes)

lemma unframe_frames: "unframe (scan_frames source @ be_bytes 4 0) = Some source"
proof (induction source rule: scan_frames.induct)
  case (1 source)
  show ?case
  proof (cases "source = []")
    case True
    then show ?thesis by (simp add: scan_frames.simps unframe.simps from_bytes_be_bytes)
  next
    case False
    let ?c = "take READ_SIZE source"
    have c: "?c \<noteq> []" using False by simp
    have len: "length ?c < 256 ^ 4" by (simp add: READ_SIZE_def min_def)
    have "scan_frames source = be_bytes 4 (length ?c) @ ?c @ scan_frames (drop READ_SIZE source)"
      using c by (subst scan_frames.simps) (simp add: Let_def)
    then have "unframe (scan_frames source @ be_bytes 4 0) =
        map_option ((@) ?c) (unframe (scan_frames (drop READ_SIZE source) @ be_bytes 4 0))"
      using unframe_frame [OF c len, of "scan_frames (drop READ_SIZE source) @ be_bytes 4 0"] by simp
    also have "\<dots> = Some source" using 1 [OF refl c] by simp
    finally show ?thesis .
  qed
qed

text \<open>the scanner sees the whole file: whoever reads the request by the protocol gets back exactly the bytes
  that were uploaded, however many chunks they take and whatever bytes they are.
\<close>

theorem scan_sees_file: "read_request (scan_request source) = Some source"
  by (simp add: read_request_def scan_request_def unframe_frames Let_def)

text \<open>
  a file counts as clean only on the daemon's word: exactly when it answers, with a complete reply that
  ends in OK; a broken connection, a missing end of the reply or any other answer never pass a file.
\<close>

theorem scan_clean_iff:
  "(\<exists>detail. scan clamd source = Inr (''clean'', detail)) \<longleftrightarrow>
     (\<exists>stream reply. clamd (scan_request source) = Some stream \<and> read_reply stream = Some reply \<and>
        ends_with '' OK'' (decode_replace reply))"
  by (auto simp: scan_def Let_def split: option.split)

end
