(* ===== verification/Files.thy ===== *)
theory Files
  imports Secret_Versions File_Crypto Clamav
begin

text \<open>
  app/routers/files.py, app/routers/file_versions.py and app/routers/file_support.py: file secrets.
  An upload is spooled, scanned, encrypted and put into the object store before one transaction
  publishes it; until then a row of pending_uploads names the object.  The store is a map from
  object keys to bytes.  What is not under src/ is the record \<open>file_lib\<close>: e-mail validation, the
  printer of networks and the syntax of cidr, the three calls of the S3 client, and clamd.  A
  temporary file is its content here; \<open>Temp_Files\<close> has the handlers on a directory of files.
\<close>

type_synonym objects = "string \<rightharpoonup> bytes"

record file_lib =
  fl_email :: "string \<Rightarrow> string option"        \<comment> \<open>EmailStr; None: ValidationError\<close>
  fl_net_str :: "ipnet \<Rightarrow> string"
  fl_cidr_ok :: "string \<Rightarrow> bool"               \<comment> \<open>the cast to cidr accepts it\<close>
  fl_put :: "string \<Rightarrow> bytes \<Rightarrow> objects \<Rightarrow> unit res \<times> objects"
  fl_get :: "string \<Rightarrow> objects \<Rightarrow> bytes res"
  fl_del :: "string \<Rightarrow> objects \<Rightarrow> unit res \<times> objects"
  fl_clamd :: "bytes \<Rightarrow> bytes option"

text \<open>
  The object store: a call that returns has had its effect, a call that fails may have had it, and
  what is read is what is stored.
\<close>

definition store_laws :: "file_lib \<Rightarrow> bool" where
  "store_laws F \<longleftrightarrow>
     (\<forall>k b st. fl_put F k b st = (Inr (), st(k \<mapsto> b)) \<or>
        (\<exists>e. fl_put F k b st = (Inl e, st) \<or> fl_put F k b st = (Inl e, st(k \<mapsto> b)))) \<and>
     (\<forall>k b st. fl_get F k st = Inr b \<longrightarrow> st k = Some b) \<and>
     (\<forall>k st. fl_del F k st = (Inr (), st(k := None)) \<or>
        (\<exists>e. fl_del F k st = (Inl e, st) \<or> fl_del F k st = (Inl e, st(k := None))))"

record file_world =
  fw_world :: world
  fw_store :: objects

definition set_db :: "database \<Rightarrow> file_world \<Rightarrow> file_world" where
  "set_db db w = w\<lparr>fw_world := (fw_world w)\<lparr>wd_db := db\<rparr>\<rparr>"

definition set_quota :: "quota_store option \<Rightarrow> file_world \<Rightarrow> file_world" where
  "set_quota q w = w\<lparr>fw_world := (fw_world w)\<lparr>wd_quota := q\<rparr>\<rparr>"

abbreviation fw_db :: "file_world \<Rightarrow> database" where "fw_db w \<equiv> wd_db (fw_world w)"
abbreviation fw_quota :: "file_world \<Rightarrow> quota_store option" where "fw_quota w \<equiv> wd_quota (fw_world w)"

text \<open>The random values one upload draws.\<close>

record file_rand =
  fr_pending :: uuid
  fr_secret :: uuid
  fr_object :: uuid
  fr_secret_rid :: uuid
  fr_byte_rid :: uuid
  fr_dek :: bytes
  fr_dek_nonce :: bytes
  fr_name_nonce :: bytes
  fr_prefix :: bytes

definition file_rand_ok :: "file_rand \<Rightarrow> bool" where
  "file_rand_ok rd \<longleftrightarrow> length (fr_dek rd) = 32 \<and> length (fr_dek_nonce rd) = 12 \<and>
     length (fr_name_nonce rd) = 12 \<and> length (fr_prefix rd) = 8"

record upload_file =
  up_data :: bytes
  up_filename :: "string option"
  up_type :: "string option"

subsection \<open>app/routers/file_support.py\<close>

text \<open>The loop \<open>while chunk := await upload.read(1024 * 1024)\<close>; the bytes written and the total.\<close>

function spool_loop :: "nat \<Rightarrow> nat \<Rightarrow> bytes \<Rightarrow> (bytes \<times> nat) res" where
  "spool_loop limit sofar src =
     (let chunk = take READ_SIZE src in
      if chunk = [] then Inr ([], sofar)
      else if limit < sofar + length chunk
      then Inl (http 413 (''File exceeds '' @ py_str_int (int limit) @ '' bytes''))
      else bind_res (spool_loop limit (sofar + length chunk) (drop READ_SIZE src))
             (\<lambda>(rest, n). Inr (chunk @ rest, n)))"
  by pat_completeness auto
termination
  by (relation "measure (\<lambda>(limit, sofar, src). length src)") (auto simp: READ_SIZE_def)

declare spool_loop.simps [simp del]

definition spool_upload :: "nat \<Rightarrow> bytes \<Rightarrow> (bytes \<times> nat) res" where
  "spool_upload limit src =
     bind_res (spool_loop limit 0 src) (\<lambda>(path, n).
       if n = 0 then Inl (http 422 ''File is empty'') else Inr (path, n))"

subsection \<open>The scan\<close>

definition malware_entry :: "request \<Rightarrow> current_user \<Rightarrow> audit_entry" where
  "malware_entry rq user =
     \<lparr>ae_action = ''malware_detected'', ae_actor = Some (cu_id user), ae_ip = Some (rq_ip rq),
      ae_secret = None, ae_severity = Warning\<rparr>"

definition scan_upload ::
  "platform \<Rightarrow> file_lib \<Rightarrow> request \<Rightarrow> current_user \<Rightarrow> bytes \<Rightarrow> database \<Rightarrow> string res \<times> database" where
  "scan_upload P F rq user plaintext db =
     (case scan (fl_clamd F) plaintext of
        Inl e \<Rightarrow> (Inl e, db)
      | Inr (scan_status, scan_detail) \<Rightarrow>
          if scan_status \<noteq> ''clean''
          then (Inl (http 422 ''Malware detected''), audit_log P rq (malware_entry rq user) db)
          else (Inr scan_detail, db))"

subsection \<open>Staging an upload\<close>

definition object_key_of :: "uuid \<Rightarrow> nat \<Rightarrow> uuid \<Rightarrow> string" where
  "object_key_of secret_id version u =
     ''secrets/'' @ uuid_str secret_id @ ''/versions/'' @ py_str_int (int version) @ ''/'' @ uuid_str u"

text \<open>INSERT INTO pending_uploads: the primary key, the two unique columns and the reference.\<close>

definition insert_pending :: "pending_row \<Rightarrow> database \<Rightarrow> database res" where
  "insert_pending r db =
     (if \<exists>p \<in> set (pending_uploads db). pu_id p = pu_id r \<or> pu_object p = pu_object r \<or> pu_reservation p = pu_reservation r
      then Inl UniqueViolation
      else if user_of db (pu_user r) = None then Inl ForeignKeyViolation
      else Inr (db\<lparr>pending_uploads := sql_insert r (pending_uploads db)\<rparr>))"

text \<open>What an upload has when it is ready to be published.\<close>

record staged =
  st_key :: string
  st_size :: nat
  st_detail :: string
  st_wrapped :: string
  st_dek_nonce :: string
  st_digest :: string
  st_name :: string
  st_name_nonce :: string
  st_encrypted :: bytes
  st_reservation :: reservation

text \<open>What a failed attempt has to give back: the reservation and the object key, as far as it got.\<close>

type_synonym leftover = "reservation option \<times> string option"

definition upload_name :: "upload_file \<Rightarrow> string" where
  "upload_name up =
     (case up_filename up of None \<Rightarrow> ''download'' | Some name \<Rightarrow> if name = [] then ''download'' else name)"

definition stage_object ::
  "platform \<Rightarrow> file_lib \<Rightarrow> request \<Rightarrow> file_rand \<Rightarrow> uuid \<Rightarrow> nat \<Rightarrow> current_user \<Rightarrow> upload_file \<Rightarrow> bytes \<Rightarrow> nat \<Rightarrow>
   string \<Rightarrow> reservation \<Rightarrow> file_world \<Rightarrow> ((exc \<times> leftover) + staged) \<times> file_world" where
  "stage_object P F rq rd sid version user up plaintext n detail byte_reservation w =
     (case encrypt_file (cr P) (fr_prefix rd) plaintext (fr_dek rd) sid version of
        Inl e \<Rightarrow> (Inl (e, Some byte_reservation, None), w)
      | Inr (encrypted, _, digest) \<Rightarrow>
     (case encrypt_content (cr P) (fr_name_nonce rd) (upload_name up) (fr_dek rd) of
        Inl e \<Rightarrow> (Inl (e, Some byte_reservation, None), w)
      | Inr (filename_ciphertext, filename_nonce) \<Rightarrow>
     (let (wrapped, dek_nonce) = wrap_dek (cr P) (fr_dek_nonce rd) (fr_dek rd);
          key = object_key_of sid version (fr_object rd);
          row = \<lparr>pu_id = fr_pending rd, pu_user = cu_id user, pu_secret = sid, pu_object = key,
                 pu_reservation = re_id byte_reservation, pu_size = int n, pu_expires = rq_clock rq + 900 * second\<rparr> in
      case insert_pending row (fw_db w) of
        Inl e \<Rightarrow> (Inl (e, Some byte_reservation, Some key), w)
      | Inr db1 \<Rightarrow>
     (case fl_put F key encrypted (fw_store w) of
        (Inl e, st) \<Rightarrow> (Inl (e, Some byte_reservation, Some key), (set_db db1 w)\<lparr>fw_store := st\<rparr>)
      | (Inr _, st) \<Rightarrow>
          (Inr \<lparr>st_key = key, st_size = n, st_detail = detail, st_wrapped = wrapped, st_dek_nonce = dek_nonce,
                st_digest = digest, st_name = filename_ciphertext, st_name_nonce = filename_nonce,
                st_encrypted = encrypted, st_reservation = byte_reservation\<rparr>,
           (set_db db1 w)\<lparr>fw_store := st\<rparr>)))))"

definition stage_upload ::
  "platform \<Rightarrow> file_lib \<Rightarrow> request \<Rightarrow> file_rand \<Rightarrow> uuid \<Rightarrow> nat \<Rightarrow> current_user \<Rightarrow> upload_file \<Rightarrow> file_world \<Rightarrow>
   ((exc \<times> leftover) + staged) \<times> file_world" where
  "stage_upload P F rq rd sid version user up w =
     (case spool_upload (MAX_FILE_BYTES (cfg P)) (up_data up) of
        Inl e \<Rightarrow> (Inl (e, None, None), w)
      | Inr (plaintext, n) \<Rightarrow>
     (case scan_upload P F rq user plaintext (fw_db w) of
        (Inl e, db1) \<Rightarrow> (Inl (e, None, None), set_db db1 w)
      | (Inr detail, db1) \<Rightarrow>
     (case reserve P db1 (rq_now rq) (fr_byte_rid rd) (cu_id user) 0 (int n) (fw_quota w) of
        (Inl e, q) \<Rightarrow> (Inl (e, None, None), set_quota q (set_db db1 w))
      | (Inr byte_reservation, q) \<Rightarrow>
          stage_object P F rq rd sid version user up plaintext n detail byte_reservation
            (set_quota q (set_db db1 w)))))"

text \<open>The \<open>except\<close> block: errors of the deletion are swallowed.\<close>

definition give_back :: "file_lib \<Rightarrow> string option \<Rightarrow> reservation option list \<Rightarrow> file_world \<Rightarrow> file_world" where
  "give_back F key rs w =
     set_quota (fold (\<lambda>r q. case r of None \<Rightarrow> q | Some r \<Rightarrow> release r q) rs (fw_quota w))
       (w\<lparr>fw_store := (case key of None \<Rightarrow> fw_store w | Some k \<Rightarrow> snd (fl_del F k (fw_store w)))\<rparr>)"

text \<open>After the transaction: commit the reservations; any failure falls back to reconciling, which may raise.\<close>

fun commit_each :: "reservation list \<Rightarrow> quota_store option \<Rightarrow> unit res \<times> quota_store option" where
  "commit_each [] q = (Inr (), q)"
| "commit_each (r # rs) q = (case commit r q of (Inl e, q') \<Rightarrow> (Inl e, q') | (Inr _, q') \<Rightarrow> commit_each rs q')"

definition commit_or_reconcile ::
  "reservation list \<Rightarrow> uuid \<Rightarrow> file_world \<Rightarrow> unit res \<times> file_world" where
  "commit_or_reconcile rs u w =
     (case commit_each rs (fw_quota w) of
        (Inr _, q) \<Rightarrow> (Inr (), set_quota q w)
      | (Inl _, q) \<Rightarrow>
     (case reconcile_user (fw_db w) u q of
        (Inl e, q') \<Rightarrow> (Inl e, set_quota q' w)
      | (Inr _, q') \<Rightarrow> (Inr (), set_quota q' w)))"

subsection \<open>The rows of a file\<close>

record file_form =
  ff_ttl :: int
  ff_max_views :: int
  ff_password :: "string option"
  ff_emails :: "string list"
  ff_note :: "string option"
  ff_cidrs :: "string list"
  ff_countries :: "string list"
  ff_mode :: string
  ff_fail_closed :: bool

text \<open>The bounds of the form fields, which the framework checks before the handler runs.\<close>

definition form_fields_ok :: "file_form \<Rightarrow> bool" where
  "form_fields_ok f \<longleftrightarrow> 1 \<le> ff_ttl f \<and> ff_ttl f \<le> 168 \<and> 1 \<le> ff_max_views f \<and> ff_max_views f \<le> 100 \<and>
     (\<forall>p. ff_password f = Some p \<longrightarrow> len_within 4 128 p) \<and> (\<forall>n. ff_note f = Some n \<longrightarrow> py_len n \<le> 500) \<and>
     ff_mode f \<in> {''all'', ''any''}"

fun validate_emails :: "file_lib \<Rightarrow> string list \<Rightarrow> string list option" where
  "validate_emails F [] = Some []"
| "validate_emails F (v # vs) =
     (case fl_email F v of None \<Rightarrow> None | Some e \<Rightarrow> map_option ((#) e) (validate_emails F vs))"

fun parse_networks :: "platform \<Rightarrow> string list \<Rightarrow> ipnet list option" where
  "parse_networks P [] = Some []"
| "parse_networks P (v # vs) =
     (case net_parse P v of None \<Rightarrow> None | Some n \<Rightarrow> map_option ((#) n) (parse_networks P vs))"

definition allowed :: "file_lib \<Rightarrow> string list \<Rightarrow> string list res" where
  "allowed F values =
     (case validate_emails F values of
        None \<Rightarrow> Inl (http 422 ''Invalid allowed email'')
      | Some es \<Rightarrow> Inr (dedup (map str_lower es)))"

definition access_rules ::
  "platform \<Rightarrow> file_lib \<Rightarrow> file_form \<Rightarrow> (string list \<times> string list \<times> string list) res" where
  "access_rules P F form =
     bind_res (allowed F (ff_emails form)) (\<lambda>emails.
     case parse_networks P (ff_cidrs form) of
       None \<Rightarrow> Inl (http 422 ''Invalid allowed CIDR'')
     | Some nets \<Rightarrow>
         (let cidrs = dedup (map (fl_net_str F) nets); countries = dedup (map str_upper (ff_countries form)) in
          if list_ex bad_country countries then Inl (http 422 ''Invalid country code'')
          else Inr (emails, cidrs, countries)))"

definition file_secret ::
  "platform \<Rightarrow> request \<Rightarrow> uuid \<Rightarrow> file_form \<Rightarrow> bool \<Rightarrow> uuid \<Rightarrow> string \<Rightarrow> secret_row" where
  "file_secret P rq sid form restricted owner token =
     \<lparr>s_id = sid, s_content = None, s_nonce = None, s_protected = truthy (ff_password form),
      s_password_hash = (if truthy (ff_password form) then map_option (sha256_hash (cr P)) (ff_password form) else None),
      s_ttl = ff_ttl form, s_created = rq_txn rq, s_expires = rq_txn rq + ff_ttl form * hour, s_viewed = False,
      s_owner = Some owner, s_max_views = ff_max_views form, s_view_count = 0, s_signed_token = Some token,
      s_notify = False, s_notify_email = None, s_webhook = None, s_email_restricted = restricted, s_version = 1,
      s_updated = rq_clock rq, s_payload = File\<rparr>"

definition insert_file_secret :: "secret_row \<Rightarrow> database \<Rightarrow> database res" where
  "insert_file_secret s db =
     (if secret_of db (s_id s) \<noteq> None then Inl UniqueViolation
      else if (case s_owner s of None \<Rightarrow> False | Some u \<Rightarrow> user_of db u = None) then Inl ForeignKeyViolation
      else Inr (db\<lparr>secrets := sql_insert s (secrets db)\<rparr>))"

definition file_version ::
  "request \<Rightarrow> uuid \<Rightarrow> int \<Rightarrow> int \<Rightarrow> staged \<Rightarrow> upload_file \<Rightarrow> uuid \<Rightarrow> string option \<Rightarrow> version_row" where
  "file_version rq sid version key_version s up actor note =
     \<lparr>v_secret = sid, v_version = version, v_payload = File, v_content = None, v_nonce = None,
      v_key = Some key_version, v_size = int (st_size s), v_created_by = Some actor, v_note = note,
      v_created = rq_clock rq, v_object = Some (st_key s), v_encrypted_size = int (length (st_encrypted s)),
      v_filename = Some (st_name s), v_filename_nonce = Some (st_name_nonce s), v_media = up_type up,
      v_digest = Some (st_digest s), v_clamav = Some (py_take 200 (st_detail s))\<rparr>"

text \<open>media_type is a VARCHAR(255), object_key is unique.\<close>

definition insert_file_version :: "version_row \<Rightarrow> database \<Rightarrow> database res" where
  "insert_file_version r db =
     (if (case v_media r of None \<Rightarrow> False | Some m \<Rightarrow> 255 < py_len m) then Inl StringDataRightTruncation
      else if \<exists>v \<in> set (secret_versions db). v_object v \<noteq> None \<and> v_object v = v_object r then Inl UniqueViolation
      else insert_version r db)"

definition delete_pending :: "uuid \<Rightarrow> database \<Rightarrow> database" where
  "delete_pending pid db = db\<lparr>pending_uploads := sql_delete (\<lambda>p. pu_id p = pid) (pending_uploads db)\<rparr>"

subsection \<open>Creating a file secret\<close>

text \<open>The statements of the transaction that publishes a new file.\<close>

definition file_rows ::
  "platform \<Rightarrow> file_lib \<Rightarrow> request \<Rightarrow> file_rand \<Rightarrow> file_form \<Rightarrow> string list \<times> string list \<times> string list \<Rightarrow> uuid \<Rightarrow>
   upload_file \<Rightarrow> staged \<Rightarrow> string \<Rightarrow> database \<Rightarrow> database res" where
  "file_rows P F rq rd form rules owner up s token db =
     (let (emails, cidrs, countries) = rules; sid = fr_secret rd in
      bind_res (insert_file_secret (file_secret P rq sid form (emails \<noteq> []) owner token) db) (\<lambda>db1.
      let db2 = add_key sid (st_wrapped s) (st_dek_nonce s) 1 None db1 in
      bind_res (insert_file_version (file_version rq sid 1 1 s up owner (ff_note form)) db2) (\<lambda>db3.
      let db4 = insert_recipients sid emails db3 in
      if \<not> list_all (fl_cidr_ok F) cidrs then Inl InvalidTextRepresentation
      else
        bind_res (insert_tracking P sid (insert_policy sid cidrs countries (ff_mode form) (ff_fail_closed form) db4))
          (\<lambda>db5. Inr (delete_pending (fr_pending rd) db5)))))"

definition publish_file ::
  "platform \<Rightarrow> file_lib \<Rightarrow> request \<Rightarrow> file_rand \<Rightarrow> file_form \<Rightarrow> uuid \<Rightarrow> upload_file \<Rightarrow> staged \<Rightarrow> database \<Rightarrow>
   (string \<times> database) res" where
  "publish_file P F rq rd form owner up s db =
     bind_res (access_rules P F form) (\<lambda>rules.
       let token = create_signed_token (cr P) (SIGNED_URL_SECRET (cfg P)) (rq_now rq) (fr_secret rd) (ff_ttl form) 1 None in
       bind_res (file_rows P F rq rd form rules owner up s token db) (\<lambda>db'. Inr (token, db')))"

record file_created =
  fc_id :: uuid
  fc_url :: string
  fc_token :: string
  fc_version :: int
  fc_size :: nat

text \<open>The audit entry is written after the transaction has committed, in one of its own.\<close>

definition uploaded_entry :: "request \<Rightarrow> uuid \<Rightarrow> current_user \<Rightarrow> audit_entry" where
  "uploaded_entry rq sid user =
     \<lparr>ae_action = ''file_uploaded'', ae_actor = Some (cu_id user), ae_ip = Some (rq_ip rq),
      ae_secret = Some sid, ae_severity = Info\<rparr>"

definition finish_create ::
  "platform \<Rightarrow> request \<Rightarrow> file_rand \<Rightarrow> file_form \<Rightarrow> current_user \<Rightarrow> staged \<Rightarrow> reservation \<Rightarrow> string \<Rightarrow> file_world \<Rightarrow>
   file_created res \<times> file_world" where
  "finish_create P rq rd form user s secret_reservation token w =
     (let sid = uuid_str (fr_secret rd) in
      case commit_or_reconcile [secret_reservation, st_reservation s] (cu_id user) w of
        (Inl e, w1) \<Rightarrow> (Inl e, w1)
      | (Inr _, w1) \<Rightarrow>
          (Inr \<lparr>fc_id = fr_secret rd, fc_url = BASE_URL (cfg P) @ ''/api/secrets/'' @ sid @ ''/file?token='' @ token,
                fc_token = token, fc_version = 1, fc_size = st_size s\<rparr>,
           w1\<lparr>fw_world := snd (schedule_expiry (rq_now rq) sid (ff_ttl form * 3600) (fw_world w1))\<rparr>))"

definition create_file_secret ::
  "platform \<Rightarrow> file_lib \<Rightarrow> request \<Rightarrow> file_rand \<Rightarrow> file_form \<Rightarrow> current_user \<Rightarrow> upload_file \<Rightarrow> file_world \<Rightarrow>
   file_created res \<times> file_world" where
  "create_file_secret P F rq rd form user up w =
     (case reserve P (fw_db w) (rq_now rq) (fr_secret_rid rd) (cu_id user) 1 0 (fw_quota w) of
        (Inl e, q) \<Rightarrow> (Inl e, set_quota q w)
      | (Inr secret_reservation, q) \<Rightarrow>
     (case stage_upload P F rq rd (fr_secret rd) 1 user up (set_quota q w) of
        (Inl (e, byte_reservation, key), w1) \<Rightarrow>
          (Inl e, give_back F key [byte_reservation, Some secret_reservation] w1)
      | (Inr s, w1) \<Rightarrow>
     (case publish_file P F rq rd form (cu_id user) up s (fw_db w1) of
        Inl e \<Rightarrow> (Inl e, give_back F (Some (st_key s)) [Some (st_reservation s), Some secret_reservation] w1)
      | Inr (token, db1) \<Rightarrow>
          finish_create P rq rd form user s secret_reservation token
            (set_db (audit_log P rq (uploaded_entry rq (fr_secret rd) user) db1) w1))))"

subsection \<open>Downloading a file\<close>

text \<open>\<open>_authorize\<close>: the recipient, then the password; a password given for an unprotected secret is refused.\<close>

definition authorize_file ::
  "crypto \<Rightarrow> database \<Rightarrow> secret_row \<Rightarrow> uuid \<Rightarrow> string option \<Rightarrow> current_user option \<Rightarrow> unit res" where
  "authorize_file C db s sid password user =
     bind_res
       (if \<not> s_email_restricted s then Inr ()
        else case user of
          None \<Rightarrow> Inl (http 401 ''Log in with a verified recipient email'')
        | Some u \<Rightarrow>
            if \<not> cu_verified u then Inl (http 403 ''Verify your email before accessing this secret'')
            else if \<not> is_recipient db sid (cu_email u) then Inl (http 403 ''Your email is not allowed'')
            else Inr ())
       (\<lambda>_. if s_protected s \<and> \<not> truthy password \<or>
               truthy password \<and> map_option (sha256_hash C) password \<noteq> s_password_hash s
            then Inl (http 401 ''Invalid or missing password'') else Inr ())"

text \<open>What is checked before the object is fetched; the version and the key of its object come out.\<close>

definition download_checks ::
  "platform \<Rightarrow> request \<Rightarrow> int \<Rightarrow> uuid \<Rightarrow> string option \<Rightarrow> current_user option \<Rightarrow> database \<Rightarrow> (int \<times> string) res" where
  "download_checks P rq policy_version sid password user db =
     (case (secret_of db sid, policy_of db sid) of
        (Some s, Some p) \<Rightarrow>
          if s_payload s \<noteq> File then Inl (http 404 ''File secret not found'')
          else
            bind_res (authorize_file (cr P) db s sid password user) (\<lambda>_.
            if p_version p \<noteq> policy_version then Inl (http 403 ''Share token policy is no longer current'')
            else if s_expires s \<le> rq_now rq \<or> s_max_views s \<le> s_view_count s
            then Inl (http 410 ''Secret is no longer available'')
            else
              (case version_of db sid (s_version s) of
                 None \<Rightarrow> Inl (http 404 ''Did not find a file for provided secret id and version'')
               | Some v \<Rightarrow> (case v_object v of None \<Rightarrow> Inl TypeError | Some key \<Rightarrow> Inr (s_version s, key))))
      | _ \<Rightarrow> Inl (http 404 ''File secret not found''))"

text \<open>The guards on the locked row.\<close>

definition download_guards :: "int \<Rightarrow> uuid \<Rightarrow> int \<Rightarrow> database \<Rightarrow> (secret_row \<times> version_row) res" where
  "download_guards policy_version sid version db =
     (case (secret_of db sid, policy_of db sid) of
        (Some s, Some p) \<Rightarrow>
          if s_version s \<noteq> version then Inl (http 409 ''Secret changed; retry download'')
          else if p_version p \<noteq> policy_version then Inl (http 403 ''Share token policy is no longer current'')
          else if s_max_views s \<le> s_view_count s then Inl (http 410 ''Secret is no longer available'')
          else
            (case version_of db sid (s_version s) of
               None \<Rightarrow> Inl (http 404 ''Key not found for the secret version'')
             | Some v \<Rightarrow> Inr (s, v))
      | _ \<Rightarrow> Inl (http 409 ''Secret changed; retry download''))"

text \<open>The key of the version, the name, and the complete object: filename and plaintext.\<close>

definition open_object :: "platform \<Rightarrow> uuid \<Rightarrow> int \<Rightarrow> version_row \<Rightarrow> bytes \<Rightarrow> database \<Rightarrow> (string \<times> bytes) res" where
  "open_object P sid version v encrypted db =
     bind_res (get_dek_for_secret (cr P) db sid (v_key v)) (\<lambda>dek.
     bind_res (case (v_filename v, v_filename_nonce v) of
         (Some c, Some n) \<Rightarrow> decrypt_content (cr P) c n dek
       | _ \<Rightarrow> Inl TypeError) (\<lambda>filename.
     bind_res (decrypt_file (cr P) encrypted dek sid (nat version)) (\<lambda>plaintext. Inr (filename, plaintext))))"

text \<open>
  The transaction: the view, the counter (whose trigger deletes the secret on its last view), then
  the audit entry on the same connection.  An error rolls back to the state it started from.
\<close>

definition download_locked ::
  "platform \<Rightarrow> request \<Rightarrow> int \<Rightarrow> uuid \<Rightarrow> int \<Rightarrow> bytes \<Rightarrow> current_user option \<Rightarrow> database \<Rightarrow>
   (string \<times> bytes \<times> version_row) res \<times> database" where
  "download_locked P rq policy_version sid version encrypted user db =
     (case download_guards policy_version sid version db of
        Inl e \<Rightarrow> (Inl e, db)
      | Inr (s, v) \<Rightarrow>
     (case open_object P sid version v encrypted db of
        Inl e \<Rightarrow> (Inl e, db)
      | Inr (filename, plaintext) \<Rightarrow>
     (let new_count = s_view_count s + 1 in
      case record_view rq sid user (s_version s) db of
        Inl e \<Rightarrow> (Inl e, db)
      | Inr (_, db1) \<Rightarrow>
          (let db2 = update_view_count (rq_clock rq) sid new_count (s_max_views s \<le> new_count) db1 in
           (Inr (filename, plaintext, v),
            commit_txn db (audit_log_conn P rq (viewed_entry rq sid user) db2))))))"

text \<open>\<open>Path(filename).name\<close>: the last component that is neither empty nor a dot.\<close>

fun split_slash :: "string \<Rightarrow> string list" where
  "split_slash [] = [[]]"
| "split_slash (c # cs) =
     (if c = CHR ''/'' then [] # split_slash cs
      else case split_slash cs of [] \<Rightarrow> [[c]] | p # ps \<Rightarrow> (c # p) # ps)"

definition path_name :: "string \<Rightarrow> string" where
  "path_name s =
     (case rev (filter (\<lambda>p. p \<noteq> [] \<and> p \<noteq> ''.'') (split_slash s)) of [] \<Rightarrow> [] | p # _ \<Rightarrow> p)"

record file_reply =
  fy_content :: bytes
  fy_filename :: string
  fy_media :: string

definition file_response :: "string \<Rightarrow> bytes \<Rightarrow> version_row \<Rightarrow> file_reply" where
  "file_response filename plaintext v =
     \<lparr>fy_content = plaintext,
      fy_filename = (if path_name filename = [] then ''download'' else path_name filename),
      fy_media = (case v_media v of None \<Rightarrow> ''application/octet-stream''
        | Some m \<Rightarrow> if m = [] then ''application/octet-stream'' else m)\<rparr>"

definition download_file_secret ::
  "platform \<Rightarrow> file_lib \<Rightarrow> request \<Rightarrow> uuid \<Rightarrow> string option \<Rightarrow> string option \<Rightarrow> current_user option \<Rightarrow> file_world \<Rightarrow>
   file_reply res \<times> file_world" where
  "download_file_secret P F rq sid token password user w =
     (case authorize P rq sid token (fw_db w) of
        (Inl e, db1) \<Rightarrow> (Inl e, set_db db1 w)
      | (Inr policy_version, db1) \<Rightarrow>
     (case download_checks P rq policy_version sid password user db1 of
        Inl e \<Rightarrow> (Inl e, set_db db1 w)
      | Inr (version, key) \<Rightarrow>
     (case fl_get F key (fw_store w) of
        Inl e \<Rightarrow> (Inl e, set_db db1 w)
      | Inr encrypted \<Rightarrow>
     (case download_locked P rq policy_version sid version encrypted user db1 of
        (Inl e, db2) \<Rightarrow> (Inl e, set_db db2 w)
      | (Inr (filename, plaintext, v), db2) \<Rightarrow> (Inr (file_response filename plaintext v), set_db db2 w)))))"

subsection \<open>A new version of a file\<close>

text \<open>app/routers/file_versions.py.\<close>

definition file_update_guards :: "platform \<Rightarrow> uuid \<Rightarrow> int \<Rightarrow> current_user \<Rightarrow> database \<Rightarrow> unit res" where
  "file_update_guards P sid expected_version user db =
     (case secret_of db sid of
        None \<Rightarrow> Inl (http 404 ''Secret not found'')
      | Some s \<Rightarrow>
      bind_res (require_owns_secret (s_owner s) user) (\<lambda>_.
        if s_payload s \<noteq> File then Inl (http 409 ''Use the text update endpoint'')
        else if s_version s \<noteq> expected_version then Inl (HTTPException 409 (VersionConflict (s_version s)) [])
        else if MAX_SECRET_VERSIONS (cfg P) \<le> expected_version then Inl (http 409 ''Maximum versions reached'')
        else Inr ()))"

definition set_file_version :: "request \<Rightarrow> uuid \<Rightarrow> int \<Rightarrow> database \<Rightarrow> database" where
  "set_file_version rq sid version db =
     db\<lparr>secrets := sql_update (\<lambda>s. s_id s = sid) (\<lambda>s. s\<lparr>s_version := version, s_updated := rq_clock rq\<rparr>)
          (secrets db)\<rparr>"

text \<open>The statements of the transaction that publishes a new version, up to the audit entry.\<close>

definition file_version_rows ::
  "request \<Rightarrow> file_rand \<Rightarrow> uuid \<Rightarrow> int \<Rightarrow> string option \<Rightarrow> current_user \<Rightarrow> upload_file \<Rightarrow> staged \<Rightarrow> database \<Rightarrow>
   database res" where
  "file_version_rows rq rd sid expected_version note user up s db =
     (case secret_of db sid of
        None \<Rightarrow> Inl (http 409 ''Secret changed during upload'')
      | Some locked \<Rightarrow>
          if s_version locked \<noteq> expected_version then Inl (http 409 ''Secret changed during upload'')
          else
            bind_res (require_owns_secret (s_owner locked) user) (\<lambda>_.
            let key_version = max_key_version db sid + 1;
                db1 = add_key sid (st_wrapped s) (st_dek_nonce s) key_version (Some (rq_clock rq)) db in
            bind_res (insert_file_version
                (file_version rq sid (expected_version + 1) key_version s up (cu_id user) note) db1) (\<lambda>db2.
            Inr (delete_pending (fr_pending rd) (set_file_version rq sid (expected_version + 1) db2)))))"

definition update_file_secret ::
  "platform \<Rightarrow> file_lib \<Rightarrow> request \<Rightarrow> file_rand \<Rightarrow> uuid \<Rightarrow> int \<Rightarrow> string option \<Rightarrow> current_user \<Rightarrow> upload_file \<Rightarrow>
   file_world \<Rightarrow> (int \<times> nat) res \<times> file_world" where
  "update_file_secret P F rq rd sid expected_version note user up w =
     (case file_update_guards P sid expected_version user (fw_db w) of
        Inl e \<Rightarrow> (Inl e, w)
      | Inr _ \<Rightarrow>
     (case stage_upload P F rq rd sid (nat (expected_version + 1)) user up w of
        (Inl (e, byte_reservation, key), w1) \<Rightarrow> (Inl e, give_back F key [byte_reservation] w1)
      | (Inr s, w1) \<Rightarrow>
     (case file_version_rows rq rd sid expected_version note user up s (fw_db w1) of
        Inl e \<Rightarrow> (Inl e, give_back F (Some (st_key s)) [Some (st_reservation s)] w1)
      | Inr db1 \<Rightarrow>
     (case commit_or_reconcile [st_reservation s] (cu_id user)
             (set_db (commit_with_audit P rq ''secret_updated'' sid user (fw_db w1) db1) w1) of
        (Inl e, w2) \<Rightarrow> (Inl e, w2)
      | (Inr _, w2) \<Rightarrow> (Inr (expected_version + 1, st_size s), w2)))))"

end
