(* ===== verification/File_Secrets.thy ===== *)
theory File_Secrets
  imports Files
begin

text \<open>
  What the handlers of Files do: the loops and the stages of an upload in closed form, then the
  properties of creating, replacing and downloading a file.
\<close>

lemma set_db_sel [simp]:
  "wd_db (fw_world (set_db db w)) = db" "fw_store (set_db db w) = fw_store w"
  "wd_quota (fw_world (set_db db w)) = wd_quota (fw_world w)" "wd_keys (fw_world (set_db db w)) = wd_keys (fw_world w)"
  by (simp_all add: set_db_def)

lemma set_quota_sel [simp]:
  "wd_db (fw_world (set_quota q w)) = wd_db (fw_world w)" "fw_store (set_quota q w) = fw_store w"
  "wd_quota (fw_world (set_quota q w)) = q" "wd_keys (fw_world (set_quota q w)) = wd_keys (fw_world w)"
  by (simp_all add: set_quota_def)

lemma set_db_same [simp]: "set_db (fw_db w) w = w"
  by (simp add: set_db_def)

subsection \<open>Spooling\<close>

lemma spool_loop_eq:
  "sofar \<le> limit \<Longrightarrow> spool_loop limit sofar src =
     (if limit < sofar + length src then Inl (http 413 (''File exceeds '' @ py_str_int (int limit) @ '' bytes''))
      else Inr (src, sofar + length src))"
proof (induction limit sofar src rule: spool_loop.induct)
  case (1 limit sofar src)
  show ?case
  proof (cases "src = []")
    case True
    then show ?thesis using "1.prems" by (simp add: spool_loop.simps)
  next
    case False
    let ?c = "take READ_SIZE src" and ?r = "drop READ_SIZE src"
    have c: "?c \<noteq> []" using False by simp
    have len: "length src = length ?c + length ?r" by (metis append_take_drop_id length_append)
    show ?thesis
    proof (cases "limit < sofar + length ?c")
      case True
      moreover have "limit < sofar + length src" using True len by linarith
      ultimately show ?thesis using c by (subst spool_loop.simps) (simp only: Let_def if_True if_False)
    next
      case le: False
      have "spool_loop limit sofar src = bind_res (spool_loop limit (sofar + length ?c) ?r) (\<lambda>(rest, n). Inr (?c @ rest, n))"
        using c le by (subst spool_loop.simps) (simp only: Let_def if_False)
      moreover have "spool_loop limit (sofar + length ?c) ?r =
          (if limit < sofar + length ?c + length ?r then Inl (http 413 (''File exceeds '' @ py_str_int (int limit) @ '' bytes''))
           else Inr (?r, sofar + length ?c + length ?r))"
        using 1(1) [OF refl c le] le by simp
      moreover have "sofar + length ?c + length ?r = sofar + length src" using len by linarith
      ultimately show ?thesis by (simp only: bind_res_def sum.case prod.case append_take_drop_id split: if_split) simp
    qed
  qed
qed

text \<open>
  spooling an upload in chunks is the same as looking at the whole of it: an empty file is
  refused with 422, one longer than the limit with 413, and any other file comes out complete, with
  its true length, however the chunks fall.
\<close>

theorem spool_upload_correct:
  "spool_upload limit src =
     (if src = [] then Inl (http 422 ''File is empty'')
      else if limit < length src then Inl (http 413 (''File exceeds '' @ py_str_int (int limit) @ '' bytes''))
      else Inr (src, length src))"
  by (simp add: spool_upload_def spool_loop_eq)

lemma spool_upload_Inr:
  "spool_upload limit src = Inr (p, n) \<longleftrightarrow> src \<noteq> [] \<and> length src \<le> limit \<and> p = src \<and> n = length src"
  by (auto simp: spool_upload_def spool_loop_eq)

subsection \<open>Staging\<close>

lemma scan_upload_Inr:
  "scan_upload P F rq user p db = (Inr detail, db') \<longleftrightarrow> db' = db \<and> scan (fl_clamd F) p = Inr (''clean'', detail)"
  by (cases "scan (fl_clamd F) p") (auto simp: scan_upload_def split: prod.split)

lemma scan_upload_Inl:
  assumes "scan_upload P F rq user p db = (Inl e, db')"
  shows "\<exists>l. db' = db\<lparr>audit_logs := l\<rparr>"
proof -
  have "\<exists>l. db = db\<lparr>audit_logs := l\<rparr>" by (rule exI [of _ "audit_logs db"]) simp
  moreover have "\<exists>l. audit_log P rq a db = db\<lparr>audit_logs := l\<rparr>" for a
    using calculation by (auto simp: audit_log_eq)
  ultimately show ?thesis using assms by (auto simp: scan_upload_def split: sum.splits prod.splits if_splits)
qed

definition pending_of ::
  "request \<Rightarrow> file_rand \<Rightarrow> uuid \<Rightarrow> nat \<Rightarrow> current_user \<Rightarrow> nat \<Rightarrow> pending_row" where
  "pending_of rq rd sid version user n =
     \<lparr>pu_id = fr_pending rd, pu_user = cu_id user, pu_secret = sid,
      pu_object = object_key_of sid version (fr_object rd), pu_reservation = fr_byte_rid rd, pu_size = int n,
      pu_expires = rq_clock rq + 900 * second\<rparr>"

lemma insert_pending_Inr:
  "insert_pending r db = Inr db' \<longleftrightarrow>
     (\<forall>p \<in> set (pending_uploads db). pu_id p \<noteq> pu_id r \<and> pu_object p \<noteq> pu_object r \<and> pu_reservation p \<noteq> pu_reservation r) \<and>
     user_of db (pu_user r) \<noteq> None \<and> db' = db\<lparr>pending_uploads := sql_insert r (pending_uploads db)\<rparr>"
  by (auto simp: insert_pending_def)

lemma reserve_Inr_id:
  "reserve P db now rid u a b q = (Inr r, q') \<Longrightarrow> re_id r = rid \<and> re_user r = u \<and> q \<noteq> None \<and> q' \<noteq> None"
  by (auto simp: reserve_def Let_def split: option.splits prod.splits if_splits)

lemma stage_object_cases:
  fixes P F rq rd sid version user up p n detail r w
  defines "x \<equiv> stage_object P F rq rd sid version user up p n detail r w"
    and "key \<equiv> object_key_of sid version (fr_object rd)"
    and "row \<equiv> \<lparr>pu_id = fr_pending rd, pu_user = cu_id user, pu_secret = sid,
      pu_object = object_key_of sid version (fr_object rd), pu_reservation = re_id r, pu_size = int n,
      pu_expires = rq_clock rq + 900 * second\<rparr>"
  obtains (encrypt) e where "x = (Inl (e, Some r, None), w)"
  | (pending) e where "x = (Inl (e, Some r, Some key), w)"
  | (put) e c t d where "x = (Inl (e, Some r, Some key),
        (set_db ((fw_db w)\<lparr>pending_uploads := sql_insert row (pending_uploads (fw_db w))\<rparr>) w)
          \<lparr>fw_store := snd (fl_put F key c (fw_store w))\<rparr>)" "insert_pending row (fw_db w) = Inr ((fw_db w)\<lparr>pending_uploads := sql_insert row (pending_uploads (fw_db w))\<rparr>)"
      "encrypt_file (cr P) (fr_prefix rd) p (fr_dek rd) sid version = Inr (c, t, d)"
      "fst (fl_put F key c (fw_store w)) = Inl e"
  | (staged) s t where "x = (Inr s,
        (set_db ((fw_db w)\<lparr>pending_uploads := sql_insert row (pending_uploads (fw_db w))\<rparr>) w)
          \<lparr>fw_store := snd (fl_put F key (st_encrypted s) (fw_store w))\<rparr>)"
      "insert_pending row (fw_db w) = Inr ((fw_db w)\<lparr>pending_uploads := sql_insert row (pending_uploads (fw_db w))\<rparr>)"
      "encrypt_file (cr P) (fr_prefix rd) p (fr_dek rd) sid version = Inr (st_encrypted s, t, st_digest s)"
      "encrypt_content (cr P) (fr_name_nonce rd) (upload_name up) (fr_dek rd) = Inr (st_name s, st_name_nonce s)"
      "wrap_dek (cr P) (fr_dek_nonce rd) (fr_dek rd) = (st_wrapped s, st_dek_nonce s)"
      "st_key s = key" "st_size s = n" "st_detail s = detail" "st_reservation s = r"
      "fst (fl_put F key (st_encrypted s) (fw_store w)) = Inr ()"
proof (cases "encrypt_file (cr P) (fr_prefix rd) p (fr_dek rd) sid version")
  case (Inl e)
  then show thesis by (intro encrypt) (simp add: x_def stage_object_def)
next
  case (Inr c)
  obtain enc t dg where c: "c = (enc, t, dg)" by (cases c)
  note en = Inr [unfolded c]
  obtain wr dn where wr: "wrap_dek (cr P) (fr_dek_nonce rd) (fr_dek rd) = (wr, dn)" by (metis surj_pair)
  show thesis
  proof (cases "encrypt_content (cr P) (fr_name_nonce rd) (upload_name up) (fr_dek rd)")
    case (Inl e)
    then show thesis using en by (intro encrypt) (simp add: x_def stage_object_def)
  next
    case (Inr cn)
    obtain nm nn where cn: "cn = (nm, nn)" by (cases cn)
    note nm = Inr [unfolded cn]
    show thesis
    proof (cases "insert_pending row (fw_db w)")
      case (Inl e)
      then show thesis using en nm wr by (intro pending) (simp add: x_def stage_object_def row_def key_def Let_def)
    next
      case (Inr db1)
      then have db1: "db1 = (fw_db w)\<lparr>pending_uploads := sql_insert row (pending_uploads (fw_db w))\<rparr>"
        by (simp add: insert_pending_Inr)
      obtain res st where pt: "fl_put F key enc (fw_store w) = (res, st)" by (metis surj_pair)
      show thesis
      proof (cases res)
        case (Inl e)
        then show thesis using en nm wr pt \<open>insert_pending row (fw_db w) = Inr db1\<close> db1
          by (intro put [of e enc t dg]) (simp_all add: x_def stage_object_def row_def key_def Let_def)
      next
        case (Inr u)
        show thesis
          by (rule staged [of "\<lparr>st_key = key, st_size = n, st_detail = detail, st_wrapped = wr, st_dek_nonce = dn,
                st_digest = dg, st_name = nm, st_name_nonce = nn, st_encrypted = enc, st_reservation = r\<rparr>" t])
            (use en nm wr pt Inr \<open>insert_pending row (fw_db w) = Inr db1\<close> db1 in
              \<open>simp_all add: x_def stage_object_def row_def key_def Let_def\<close>)
      qed
    qed
  qed
qed

lemma stage_upload_Inr:
  assumes "stage_upload P F rq rd sid version user up w = (Inr s, w')"
  shows "up_data up \<noteq> [] \<and> length (up_data up) \<le> MAX_FILE_BYTES (cfg P) \<and> st_size s = length (up_data up) \<and>
    scan (fl_clamd F) (up_data up) = Inr (''clean'', st_detail s)"
    and "reserve P (fw_db w) (rq_now rq) (fr_byte_rid rd) (cu_id user) 0 (int (length (up_data up))) (fw_quota w) =
       (Inr (st_reservation s), fw_quota w')"
    and "encrypt_file (cr P) (fr_prefix rd) (up_data up) (fr_dek rd) sid version =
       Inr (st_encrypted s, length (up_data up), st_digest s)"
    and "encrypt_content (cr P) (fr_name_nonce rd) (upload_name up) (fr_dek rd) = Inr (st_name s, st_name_nonce s)"
    and "wrap_dek (cr P) (fr_dek_nonce rd) (fr_dek rd) = (st_wrapped s, st_dek_nonce s)"
    and "st_key s = object_key_of sid version (fr_object rd)"
    and "insert_pending (pending_of rq rd sid version user (length (up_data up))) (fw_db w) = Inr (fw_db w')"
    and "fw_store w' = snd (fl_put F (st_key s) (st_encrypted s) (fw_store w)) \<and>
       fst (fl_put F (st_key s) (st_encrypted s) (fw_store w)) = Inr ()"
    and "wd_keys (fw_world w') = wd_keys (fw_world w)"
proof -
  from assms obtain detail r q where
    a: "up_data up \<noteq> []" "length (up_data up) \<le> MAX_FILE_BYTES (cfg P)"
      "scan (fl_clamd F) (up_data up) = Inr (''clean'', detail)"
      "reserve P (fw_db w) (rq_now rq) (fr_byte_rid rd) (cu_id user) 0 (int (length (up_data up))) (fw_quota w) = (Inr r, q)"
    and st: "stage_object P F rq rd sid version user up (up_data up) (length (up_data up)) detail r (set_quota q w) = (Inr s, w')"
    by (auto simp: stage_upload_def spool_upload_Inr scan_upload_Inr split: sum.splits prod.splits)
  have id: "re_id r = fr_byte_rid rd" using reserve_Inr_id [OF a(4)] by simp
  show "up_data up \<noteq> [] \<and> length (up_data up) \<le> MAX_FILE_BYTES (cfg P) \<and> st_size s = length (up_data up) \<and>
      scan (fl_clamd F) (up_data up) = Inr (''clean'', st_detail s)"
    "reserve P (fw_db w) (rq_now rq) (fr_byte_rid rd) (cu_id user) 0 (int (length (up_data up))) (fw_quota w) =
       (Inr (st_reservation s), fw_quota w')"
    "encrypt_file (cr P) (fr_prefix rd) (up_data up) (fr_dek rd) sid version =
       Inr (st_encrypted s, length (up_data up), st_digest s)"
    "encrypt_content (cr P) (fr_name_nonce rd) (upload_name up) (fr_dek rd) = Inr (st_name s, st_name_nonce s)"
    "wrap_dek (cr P) (fr_dek_nonce rd) (fr_dek rd) = (st_wrapped s, st_dek_nonce s)"
    "st_key s = object_key_of sid version (fr_object rd)"
    "insert_pending (pending_of rq rd sid version user (length (up_data up))) (fw_db w) = Inr (fw_db w')"
    "fw_store w' = snd (fl_put F (st_key s) (st_encrypted s) (fw_store w)) \<and>
       fst (fl_put F (st_key s) (st_encrypted s) (fw_store w)) = Inr ()"
    "wd_keys (fw_world w') = wd_keys (fw_world w)"
    by (rule stage_object_cases [of P F rq rd sid version user up "up_data up" "length (up_data up)" detail r "set_quota q w"];
        use st a id in \<open>simp add: encrypt_file_Inr pending_of_def; elim conjE; simp add: encrypt_file_Inr\<close>)+
qed

subsection \<open>The published rows\<close>

lemma insert_file_secret_Inr:
  "insert_file_secret (file_secret P rq sid form res owner token) db = Inr db' \<longleftrightarrow>
     secret_of db sid = None \<and> user_of db owner \<noteq> None \<and>
     db' = db\<lparr>secrets := sql_insert (file_secret P rq sid form res owner token) (secrets db)\<rparr>"
  by (auto simp: insert_file_secret_def file_secret_def)

lemma insert_file_version_Inr:
  "insert_file_version (file_version rq sid n kv s up actor nt) db = Inr db' \<longleftrightarrow>
     (\<forall>m. up_type up = Some m \<longrightarrow> py_len m \<le> 255) \<and>
     (\<forall>v \<in> set (secret_versions db). v_object v \<noteq> Some (st_key s)) \<and>
     version_of db sid n = None \<and> secret_of db sid \<noteq> None \<and> user_of db actor \<noteq> None \<and>
     db' = db\<lparr>secret_versions := sql_insert (file_version rq sid n kv s up actor nt) (secret_versions db)\<rparr>"
  by (auto simp: insert_file_version_def insert_version_Inr file_version_def not_less split: option.split)

lemma file_secret_sel [simp]:
  "s_id (file_secret P rq sid form res owner token) = sid"
  "s_expires (file_secret P rq sid form res owner token) = rq_txn rq + ff_ttl form * hour"
  "s_owner (file_secret P rq sid form res owner token) = Some owner"
  "s_version (file_secret P rq sid form res owner token) = 1"
  "s_payload (file_secret P rq sid form res owner token) = File"
  "s_view_count (file_secret P rq sid form res owner token) = 0"
  "s_max_views (file_secret P rq sid form res owner token) = ff_max_views form"
  "s_email_restricted (file_secret P rq sid form res owner token) = res"
  "s_protected (file_secret P rq sid form res owner token) = truthy (ff_password form)"
  by (simp_all add: file_secret_def)

text \<open>The rows a publication inserts, in one update of the database.\<close>

definition with_file_rows ::
  "platform \<Rightarrow> request \<Rightarrow> file_rand \<Rightarrow> file_form \<Rightarrow> string list \<times> string list \<times> string list \<Rightarrow> uuid \<Rightarrow>
   upload_file \<Rightarrow> staged \<Rightarrow> string \<Rightarrow> database \<Rightarrow> database" where
  "with_file_rows P rq rd form rules owner up s token db =
     (let (emails, cidrs, countries) = rules; sid = fr_secret rd in
      db\<lparr>secrets := sql_insert (file_secret P rq sid form (emails \<noteq> []) owner token) (secrets db),
        secret_keys := sql_insert \<lparr>k_secret = sid, k_wrapped = st_wrapped s, k_nonce = st_dek_nonce s, k_version = 1,
          k_rotated = None\<rparr> (secret_keys db),
        secret_versions := sql_insert (file_version rq sid 1 1 s up owner (ff_note form)) (secret_versions db),
        secret_recipients := secret_recipients db @ map (\<lambda>e. \<lparr>r_secret = sid, r_email = e\<rparr>) emails,
        access_policies := sql_insert \<lparr>p_secret = sid, p_cidrs = cidrs, p_countries = countries, p_mode = ff_mode form,
          p_fail_closed = ff_fail_closed form, p_version = 1\<rparr> (access_policies db),
        secret_tracking := sql_insert \<lparr>t_secret = sid, t_owner = owner,
          t_retain = rq_txn rq + ff_ttl form * hour + VIEW_HISTORY_RETENTION_DAYS (cfg P) * day\<rparr> (secret_tracking db),
        pending_uploads := sql_delete (\<lambda>p. pu_id p = fr_pending rd) (pending_uploads db)\<rparr>)"

lemma file_rows_Inr:
  assumes "file_rows P F rq rd form rules owner up s token db = Inr db'"
  shows "secret_of db (fr_secret rd) = None \<and> user_of db owner \<noteq> None \<and>
      row_of t_secret (secret_tracking db) (fr_secret rd) = None \<and>
      (\<forall>v \<in> set (secret_versions db). v_object v \<noteq> Some (st_key s)) \<and>
      version_of db (fr_secret rd) 1 = None"
    and "db' = with_file_rows P rq rd form rules owner up s token db"
proof -
  obtain emails cidrs countries where rules: "rules = (emails, cidrs, countries)" by (cases rules)
  let ?sid = "fr_secret rd"
  let ?row = "file_secret P rq ?sid form (emails \<noteq> []) owner token"
  let ?db1 = "db\<lparr>secrets := sql_insert ?row (secrets db)\<rparr>"
  let ?db2 = "add_key ?sid (st_wrapped s) (st_dek_nonce s) 1 None ?db1"
  let ?db3 = "?db2\<lparr>secret_versions := sql_insert (file_version rq ?sid 1 1 s up owner (ff_note form)) (secret_versions ?db2)\<rparr>"
  let ?db4 = "insert_policy ?sid cidrs countries (ff_mode form) (ff_fail_closed form) (insert_recipients ?sid emails ?db3)"
  note h = assms [unfolded rules file_rows_def Let_def prod.case bind_res_eq_Inr insert_file_secret_Inr insert_file_version_Inr]
  from h have new: "secret_of db ?sid = None" "user_of db owner \<noteq> None" by auto
  from h have v: "\<forall>v \<in> set (secret_versions ?db2). v_object v \<noteq> Some (st_key s)" "version_of ?db2 ?sid 1 = None" by auto
  from h obtain db5 where t: "insert_tracking P ?sid ?db4 = Inr db5" "db' = delete_pending (fr_pending rd) db5"
    by (auto simp: bind_res_eq_Inr split: if_splits)
  have row: "secret_of ?db4 ?sid = Some ?row"
    using new by (simp add: secret_of_def insert_policy_def insert_recipients_def add_key_def row_of_insert)
  have tr: "secret_tracking ?db4 = secret_tracking db"
    by (simp add: insert_policy_def insert_recipients_def add_key_def)
  show "secret_of db ?sid = None \<and> user_of db owner \<noteq> None \<and> row_of t_secret (secret_tracking db) ?sid = None \<and>
      (\<forall>v \<in> set (secret_versions db). v_object v \<noteq> Some (st_key s)) \<and> version_of db ?sid 1 = None"
    using new v t(1) row tr by (auto simp: insert_tracking_def add_key_def version_of_def split: if_splits)
  show "db' = with_file_rows P rq rd form rules owner up s token db"
    using t row tr
    by (auto simp: insert_tracking_def with_file_rows_def rules delete_pending_def split: if_splits)
      (simp add: insert_policy_def insert_recipients_def add_key_def Let_def)
qed

lemma file_rows_lookups:
  assumes "file_rows P F rq rd form (emails, cidrs, countries) owner up s token db = Inr db'" and "refs_ok db"
  defines "sid \<equiv> fr_secret rd"
  shows "secret_of db' x = (if x = sid then Some (file_secret P rq sid form (emails \<noteq> []) owner token) else secret_of db x)"
    and "policy_of db' sid = Some \<lparr>p_secret = sid, p_cidrs = cidrs, p_countries = countries, p_mode = ff_mode form,
          p_fail_closed = ff_fail_closed form, p_version = 1\<rparr>"
    and "keys_of db' sid = [\<lparr>k_secret = sid, k_wrapped = st_wrapped s, k_nonce = st_dek_nonce s, k_version = 1, k_rotated = None\<rparr>]"
    and "version_of db' sid 1 = Some (file_version rq sid 1 1 s up owner (ff_note form))"
    and "is_recipient db' sid e \<longleftrightarrow> (\<exists>x \<in> set emails. citext_eq x e)"
    and "row_of t_secret (secret_tracking db') sid \<noteq> None"
    and "users db' = users db"
proof -
  note f = file_rows_Inr [OF assms(1), folded sid_def]
  note refs = refs_okD [OF assms(2) f(1) [THEN conjunct1]]
  have db': "db' = with_file_rows P rq rd form (emails, cidrs, countries) owner up s token db" by (rule f(2))
  note w = with_file_rows_def Let_def prod.case sid_def [symmetric]
  show "secret_of db' x = (if x = sid then Some (file_secret P rq sid form (emails \<noteq> []) owner token) else secret_of db x)"
    using f(1) by (auto simp: db' w secret_of_def row_of_insert split: option.split)
  show "policy_of db' sid = Some \<lparr>p_secret = sid, p_cidrs = cidrs, p_countries = countries, p_mode = ff_mode form,
          p_fail_closed = ff_fail_closed form, p_version = 1\<rparr>"
    using refs(3) by (simp add: db' w policy_of_def row_of_insert)
  show "keys_of db' sid = [\<lparr>k_secret = sid, k_wrapped = st_wrapped s, k_nonce = st_dek_nonce s, k_version = 1, k_rotated = None\<rparr>]"
    using refs(1) by (simp add: db' w keys_of_def sql_select_insert)
  show "version_of db' sid 1 = Some (file_version rq sid 1 1 s up owner (ff_note form))"
    using f(1) by (simp add: db' w version_of_def row_of_insert file_version_def)
  show "is_recipient db' sid e \<longleftrightarrow> (\<exists>x \<in> set emails. citext_eq x e)"
    using refs(4) by (auto simp: db' w is_recipient_iff bex_Un)
  show "row_of t_secret (secret_tracking db') sid \<noteq> None"
    using f(1) by (simp add: db' w row_of_insert)
  show "users db' = users db" by (simp add: db' w)
qed

subsection \<open>Opening a staged object\<close>

lemma open_staged:
  assumes cipher: "aead_ok (cr P)" "length (kek (cr P)) = 32" "file_rand_ok rd" "is_text (upload_name up)"
    and st: "stage_upload P F rq rd sid version user up w = (Inr s, w')"
    and key: "sql_select (\<lambda>k. k_version k = kv) (keys_of db sid) = [k]"
      "k_wrapped k = st_wrapped s" "k_nonce k = st_dek_nonce s"
  shows "open_object P sid (int version) (file_version rq' sid n kv s up' actor nt) (st_encrypted s) db =
    Inr (upload_name up, up_data up)"
proof -
  have l: "length (fr_dek_nonce rd) = 12" "length (fr_name_nonce rd) = 12" "length (fr_prefix rd) = 8"
    using cipher(3) by (simp_all add: file_rand_ok_def)
  note f = stage_upload_Inr [OF st]
  have "get_dek_for_secret (cr P) db sid (Some kv) = Inr (fr_dek rd)"
    using key wrap_unwrap [OF cipher(1,2) l(1), of "fr_dek rd"] f(5) by (simp add: get_dek_for_secret_def)
  moreover have "decrypt_content (cr P) (st_name s) (st_name_nonce s) (fr_dek rd) = Inr (upload_name up)"
    by (rule decrypt_encrypt_content [OF cipher(1) l(2) cipher(4) f(4)])
  moreover have "decrypt_file (cr P) (st_encrypted s) (fr_dek rd) sid version = Inr (up_data up)"
    by (rule decrypt_file_encrypted [OF cipher(1) l(3) f(3)])
  ultimately show ?thesis by (simp add: open_object_def file_version_def)
qed

lemma store_put:
  assumes "store_laws F" and "fst (fl_put F k b st) = Inr ()"
  shows "snd (fl_put F k b st) = st(k \<mapsto> b)"
proof -
  from assms(1) have "fl_put F k b st = (Inr (), st(k \<mapsto> b)) \<or>
      (\<exists>e. fl_put F k b st = (Inl e, st) \<or> fl_put F k b st = (Inl e, st(k \<mapsto> b)))"
    unfolding store_laws_def by blast
  with assms(2) show ?thesis by auto
qed

lemma staged_stored:
  assumes "store_laws F" and "stage_upload P F rq rd sid version user up w = (Inr s, w')"
  shows "fw_store w' = (fw_store w)(st_key s \<mapsto> st_encrypted s)"
  using stage_upload_Inr(8) [OF assms(2)] store_put [OF assms(1)] by simp

text \<open>A download of what the database and the store hold.\<close>

lemma download_ok:
  assumes "authorize P rq sid token (fw_db w) = (Inr (p_version p), fw_db w)" and "policy_of (fw_db w) sid = Some p"
    and s: "secret_of (fw_db w) sid = Some s" "s_payload s = File"
      "rq_now rq < s_expires s" "s_view_count s < s_max_views s"
    and a: "authorize_file (cr P) (fw_db w) s sid password user = Inr ()"
    and v: "version_of (fw_db w) sid (s_version s) = Some v" "v_object v = Some key" "fl_get F key (fw_store w) = Inr enc"
      "open_object P sid (s_version s) v enc (fw_db w) = Inr (name, data)"
    and r: "record_view rq sid user (s_version s) (fw_db w) = Inr (n, db1)"
  shows "download_file_secret P F rq sid token password user w =
    (Inr (file_response name data v),
     set_db (commit_txn (fw_db w) (audit_log_conn P rq (viewed_entry rq sid user)
       (update_view_count (rq_clock rq) sid (s_view_count s + 1) (s_max_views s \<le> s_view_count s + 1) db1))) w)"
  using assms by (simp add: download_file_secret_def download_checks_def download_guards_def download_locked_def Let_def)

subsection \<open>Create, then download\<close>

lemma refs_ok_pending [simp]: "refs_ok (db\<lparr>pending_uploads := ps\<rparr>) = refs_ok db"
  by (simp add: refs_ok_def secret_ids_def)

lemma refs_ok_audit_logs [simp]: "refs_ok (db\<lparr>audit_logs := l\<rparr>) = refs_ok db"
  by (simp add: refs_ok_def secret_ids_def)

lemma row_lookup_pending [simp]:
  "secret_of (db\<lparr>pending_uploads := ps\<rparr>) sid = secret_of db sid"
  "policy_of (db\<lparr>pending_uploads := ps\<rparr>) sid = policy_of db sid"
  "user_of (db\<lparr>pending_uploads := ps\<rparr>) uid = user_of db uid"
  "version_of (db\<lparr>pending_uploads := ps\<rparr>) sid v = version_of db sid v"
  by (simp_all add: row_lookup_defs)

lemma audit_log_eta: "\<exists>l. audit_log P rq e db = db\<lparr>audit_logs := l\<rparr>"
proof -
  have "\<exists>l. db = db\<lparr>audit_logs := l\<rparr>" by (rule exI [of _ "audit_logs db"]) simp
  then show ?thesis by (auto simp: audit_log_eq)
qed

lemma commit_or_reconcile_sel:
  assumes "commit_or_reconcile rs u w = (r, w')"
  shows "fw_db w' = fw_db w" and "fw_store w' = fw_store w" and "wd_keys (fw_world w') = wd_keys (fw_world w)"
  using assms by (auto simp: commit_or_reconcile_def split: sum.splits prod.splits)

lemma schedule_expiry_db [simp]: "wd_db (snd (schedule_expiry now sid ttl w)) = wd_db w"
  by (simp add: schedule_expiry_def split: option.split)

lemma publish_file_Inr:
  assumes "publish_file P F rq rd form owner up s db = Inr (token, db')"
  obtains rules where "access_rules P F form = Inr rules"
    "token = create_signed_token (cr P) (SIGNED_URL_SECRET (cfg P)) (rq_now rq) (fr_secret rd) (ff_ttl form) 1 None"
    "file_rows P F rq rd form rules owner up s token db = Inr db'"
  using assms by (auto simp: publish_file_def bind_res_eq_Inr Let_def)

lemma create_file_secret_Inr:
  assumes "create_file_secret P F rq rd form user up w = (Inr resp, w')"
  obtains r q s w1 rules db1 where
    "reserve P (fw_db w) (rq_now rq) (fr_secret_rid rd) (cu_id user) 1 0 (fw_quota w) = (Inr r, q)"
    "stage_upload P F rq rd (fr_secret rd) 1 user up (set_quota q w) = (Inr s, w1)"
    "access_rules P F form = Inr rules"
    "fc_token resp = create_signed_token (cr P) (SIGNED_URL_SECRET (cfg P)) (rq_now rq) (fr_secret rd) (ff_ttl form) 1 None"
    "file_rows P F rq rd form rules (cu_id user) up s (fc_token resp) (fw_db w1) = Inr db1"
    "fw_db w' = audit_log P rq (uploaded_entry rq (fr_secret rd) user) db1" "fw_store w' = fw_store w1"
    "fc_id resp = fr_secret rd" "fc_version resp = 1" "fc_size resp = length (up_data up)"
proof -
  from assms obtain r q where r: "reserve P (fw_db w) (rq_now rq) (fr_secret_rid rd) (cu_id user) 1 0 (fw_quota w) = (Inr r, q)"
    by (auto simp: create_file_secret_def split: sum.splits prod.splits)
  from assms r obtain s w1 where s: "stage_upload P F rq rd (fr_secret rd) 1 user up (set_quota q w) = (Inr s, w1)"
    by (auto simp: create_file_secret_def split: sum.splits prod.splits)
  from assms r s obtain token db1 where p: "publish_file P F rq rd form (cu_id user) up s (fw_db w1) = Inr (token, db1)"
    by (auto simp: create_file_secret_def split: sum.splits prod.splits)
  let ?w = "set_db (audit_log P rq (uploaded_entry rq (fr_secret rd) user) db1) w1"
  have f: "finish_create P rq rd form user s r token ?w = (Inr resp, w')"
    using assms r s p by (simp add: create_file_secret_def)
  then obtain u w2 where c: "commit_or_reconcile [r, st_reservation s] (cu_id user) ?w = (Inr u, w2)"
    and w': "fw_db w' = fw_db w2" "fw_store w' = fw_store w2"
    and resp: "fc_id resp = fr_secret rd" "fc_version resp = 1" "fc_size resp = st_size s" "fc_token resp = token"
    by (auto simp: finish_create_def Let_def split: sum.splits prod.splits)
  from p obtain rules where ru: "access_rules P F form = Inr rules"
    "token = create_signed_token (cr P) (SIGNED_URL_SECRET (cfg P)) (rq_now rq) (fr_secret rd) (ff_ttl form) 1 None"
    "file_rows P F rq rd form rules (cu_id user) up s token (fw_db w1) = Inr db1"
    by (rule publish_file_Inr)
  show thesis
    using that [OF r s ru(1)] ru(2,3) w' resp commit_or_reconcile_sel [OF c] stage_upload_Inr(1) [OF s] by simp
qed

lemma authorize_file_ok:
  assumes "s_email_restricted s \<longrightarrow> (\<exists>u. user = Some u \<and> cu_verified u \<and> is_recipient db sid (cu_email u))"
    and "if s_protected s then truthy pw \<and> map_option (sha256_hash C) pw = s_password_hash s else \<not> truthy pw"
  shows "authorize_file C db s sid pw user = Inr ()"
  using assms by (cases "s_email_restricted s") (auto simp: authorize_file_def split: if_splits)

lemma record_view_file:
  assumes "row_of t_secret (secret_tracking db) sid \<noteq> None"
    and "\<forall>u. user = Some u \<longrightarrow> user_of db (cu_id u) \<noteq> None"
  obtains db1 where "record_view rq sid user v db = Inr (1, db1)"
  using assms record_view_tracked by blast

text \<open>Who may download: the recipients of the form, verified; the password exactly when there is one.\<close>

definition downloader_ok :: "file_form \<Rightarrow> string list \<Rightarrow> string option \<Rightarrow> current_user option \<Rightarrow> bool" where
  "downloader_ok form emails pw viewer \<longleftrightarrow>
     (emails \<noteq> [] \<longrightarrow> (\<exists>u. viewer = Some u \<and> cu_verified u \<and> (\<exists>x \<in> set emails. citext_eq x (cu_email u)))) \<and>
     (if truthy (ff_password form) then pw = ff_password form else \<not> truthy pw)"

lemma create_download_roundtrip:
  assumes cipher: "aead_ok (cr P)" "length (kek (cr P)) = 32" "file_rand_ok rd" "is_text (upload_name up)"
    and refs: "refs_ok (fw_db w)" and store: "store_laws F"
    and created: "create_file_secret P F rq rd form user up w = (Inr resp, w')"
    and rules: "access_rules P F form = Inr (emails, cidrs, countries)" and form: "form_fields_ok form"
    and up: "\<forall>k b. fw_store w' k = Some b \<longrightarrow> fl_get F2 k (fw_store w') = Inr b"
    and viewer: "downloader_ok form emails pw viewer" "\<forall>u. viewer = Some u \<longrightarrow> user_of (fw_db w) (cu_id u) \<noteq> None"
    and place: "\<forall>v \<in> set cidrs. net_parse P v \<noteq> None"
      "location_allowed P (rq_ip rq2) cidrs (map str_strip countries) (ff_mode form) (ff_fail_closed form)"
    and time: "rq_now rq2 < rq_txn rq + ff_ttl form * hour"
      "rq_now rq2 \<le> (trunc_seconds (rq_now rq) + ff_ttl form * 3600) * second"
  shows "\<exists>w''. download_file_secret P F2 rq2 (fc_id resp) (Some (fc_token resp)) pw viewer w' =
    (Inr \<lparr>fy_content = up_data up,
          fy_filename = (if path_name (upload_name up) = [] then ''download'' else path_name (upload_name up)),
          fy_media = (case up_type up of None \<Rightarrow> ''application/octet-stream''
            | Some m \<Rightarrow> if m = [] then ''application/octet-stream'' else m)\<rparr>, w'')"
proof -
  let ?sid = "fr_secret rd"
  obtain r q s w1 db1 where
    st: "stage_upload P F rq rd ?sid 1 user up (set_quota q w) = (Inr s, w1)"
    and tok: "fc_token resp = create_signed_token (cr P) (SIGNED_URL_SECRET (cfg P)) (rq_now rq) ?sid (ff_ttl form) 1 None"
    and rows: "file_rows P F rq rd form (emails, cidrs, countries) (cu_id user) up s (fc_token resp) (fw_db w1) = Inr db1"
    and w': "fw_db w' = audit_log P rq (uploaded_entry rq ?sid user) db1" "fw_store w' = fw_store w1"
    and id: "fc_id resp = ?sid"
    by (rule create_file_secret_Inr [OF created]) (use rules in auto)
  have w1: "fw_db w1 = (fw_db w)\<lparr>pending_uploads := pending_uploads (fw_db w1)\<rparr>"
    using stage_upload_Inr(7) [OF st] by (auto simp: insert_pending_Inr)
  have "refs_ok (fw_db w1)" "users (fw_db w1) = users (fw_db w)" using refs by (subst w1; simp)+
  note look = file_rows_lookups [OF rows this(1)] and users = this(2)
  obtain l where l: "fw_db w' = db1\<lparr>audit_logs := l\<rparr>"
    using w'(1) audit_log_eta [of P rq "uploaded_entry rq ?sid user" db1] by auto
  let ?s = "file_secret P rq ?sid form (emails \<noteq> []) (cu_id user) (fc_token resp)"
  let ?v = "file_version rq ?sid 1 1 s up (cu_id user) (ff_note form)"
  have s: "secret_of (fw_db w') ?sid = Some ?s" using look(1) [of ?sid] by (simp add: l)
  have v: "version_of (fw_db w') ?sid (s_version ?s) = Some ?v" "v_object ?v = Some (st_key s)"
    using look(4) by (simp_all add: l file_version_def)
  have g: "fl_get F2 (st_key s) (fw_store w') = Inr (st_encrypted s)"
    using up staged_stored [OF store st] by (simp add: w'(2))
  have auth: "authorize P rq2 ?sid (Some (fc_token resp)) (fw_db w') = (Inr 1, fw_db w')"
  proof -
    have "check_share_token P rq2 ?sid (Some (fc_token resp)) 1 = Inr ()"
      using time(2) unfolding tok check_created_token by simp
    then show ?thesis
      using authorize_ok [of "fw_db w'" ?sid _ P rq2 "Some (fc_token resp)"] look(2) place by (simp add: l)
  qed
  have k: "sql_select (\<lambda>k. k_version k = 1) (keys_of (fw_db w') ?sid) =
      [\<lparr>k_secret = ?sid, k_wrapped = st_wrapped s, k_nonce = st_dek_nonce s, k_version = 1, k_rotated = None\<rparr>]"
    using look(3) by (simp add: l keys_of_def sql_select_def)
  have o: "open_object P ?sid (s_version ?s) ?v (st_encrypted s) (fw_db w') = Inr (upload_name up, up_data up)"
    using open_staged [OF cipher st k, of rq 1 up "cu_id user" "ff_note form"] by simp
  have a: "authorize_file (cr P) (fw_db w') ?s ?sid pw viewer = Inr ()"
    by (rule authorize_file_ok)
      (use viewer(1) look(5) in \<open>auto simp: l downloader_ok_def is_recipient_iff file_secret_def split: if_splits\<close>)
  have t: "row_of t_secret (secret_tracking (fw_db w')) ?sid \<noteq> None" using look(6) by (simp add: l)
  have u: "\<forall>u. viewer = Some u \<longrightarrow> user_of (fw_db w') (cu_id u) \<noteq> None"
    using viewer(2) look(7) users by (simp add: l user_of_def)
  obtain db2 where rv: "record_view rq2 ?sid viewer (s_version ?s) (fw_db w') = Inr (1, db2)"
    by (rule record_view_file [OF t u])
  have p: "policy_of (fw_db w') ?sid = Some \<lparr>p_secret = ?sid, p_cidrs = cidrs, p_countries = countries,
      p_mode = ff_mode form, p_fail_closed = ff_fail_closed form, p_version = 1\<rparr>" using look(2) by (simp add: l)
  have mv: "1 \<le> ff_max_views form" using form by (simp add: form_fields_ok_def)
  show ?thesis
    using download_ok [OF _ p s _ _ _ a v g o rv, of "Some (fc_token resp)"] auth time(1) mv id
    by (simp add: file_response_def) (simp add: file_version_def)
qed

text \<open>C14: what is uploaded comes back: after a successful creation (with the laws of the cipher and of
  the store, and random values of the right length) whoever meets the restrictions of the form
  downloads, with the link that was returned, exactly the bytes of the upload, under the last
  component of its name and with its media type.
\<close>

theorem create_then_download:
  assumes cipher: "aead_ok (cr P)" "length (kek (cr P)) = 32" "file_rand_ok rd" "is_text (upload_name up)"
    and refs: "refs_ok (fw_db w)" and store: "store_laws F"
    and created: "create_file_secret P F rq rd form user up w = (Inr resp, w')"
    and rules: "access_rules P F form = Inr (emails, cidrs, countries)" and form: "form_fields_ok form"
    and up: "\<forall>k b. fw_store w' k = Some b \<longrightarrow> fl_get F2 k (fw_store w') = Inr b"
    and viewer: "downloader_ok form emails pw viewer" "\<forall>u. viewer = Some u \<longrightarrow> user_of (fw_db w) (cu_id u) \<noteq> None"
    and place: "\<forall>v \<in> set cidrs. net_parse P v \<noteq> None"
      "location_allowed P (rq_ip rq2) cidrs (map str_strip countries) (ff_mode form) (ff_fail_closed form)"
    and time: "rq_now rq2 < rq_txn rq + ff_ttl form * hour"
      "rq_now rq2 \<le> (trunc_seconds (rq_now rq) + ff_ttl form * 3600) * second"
  shows "\<exists>w''. download_file_secret P F2 rq2 (fc_id resp) (Some (fc_token resp)) pw viewer w' =
    (Inr \<lparr>fy_content = up_data up,
          fy_filename = (if path_name (upload_name up) = [] then ''download'' else path_name (upload_name up)),
          fy_media = (case up_type up of None \<Rightarrow> ''application/octet-stream''
            | Some m \<Rightarrow> if m = [] then ''application/octet-stream'' else m)\<rparr>, w'')"
  by (rule create_download_roundtrip; rule assms)

text \<open>A library, a form and an upload for witnesses.\<close>

definition demo_lib :: file_lib where
  "demo_lib = \<lparr>fl_email = (\<lambda>s. if CHR ''@'' \<in> set s then Some s else None),
     fl_net_str = (\<lambda>n. case n of Net4 a _ \<Rightarrow> demo_ip_str (V4 a) | Net6 a _ \<Rightarrow> demo_ip_str (V6 a)),
     fl_cidr_ok = (\<lambda>_. True), fl_put = (\<lambda>k b st. (Inr (), st(k \<mapsto> b))),
     fl_get = (\<lambda>k st. case st k of None \<Rightarrow> Inl ServiceError | Some b \<Rightarrow> Inr b),
     fl_del = (\<lambda>k st. (Inr (), st(k := None))),
     fl_clamd = (\<lambda>_. Some (''stream: OK'' @ [CHR 0x00]))\<rparr>"

definition sample_form :: file_form where
  "sample_form = \<lparr>ff_ttl = 1, ff_max_views = 1, ff_password = None, ff_emails = [], ff_note = None, ff_cidrs = [],
     ff_countries = [], ff_mode = ''all'', ff_fail_closed = True\<rparr>"

definition sample_upload :: upload_file where
  "sample_upload = \<lparr>up_data = ''hello'', up_filename = Some ''tmp/a.txt'', up_type = Some ''text/plain''\<rparr>"

definition sample_file_rand :: file_rand where
  "sample_file_rand = \<lparr>fr_pending = 11, fr_secret = 5, fr_object = 12, fr_secret_rid = 13, fr_byte_rid = 14,
     fr_dek = replicate 32 (CHR ''d''), fr_dek_nonce = replicate 12 (CHR ''n''),
     fr_name_nonce = replicate 12 (CHR ''m''), fr_prefix = ''nonce-01''\<rparr>"

definition sample_fw :: file_world where
  "sample_fw = \<lparr>fw_world = sample_world, fw_store = Map.empty\<rparr>"

lemma demo_lib_laws: "store_laws demo_lib"
  by (simp add: store_laws_def demo_lib_def split: option.split)

lemma demo_lib_get: "\<forall>k b. st k = Some b \<longrightarrow> fl_get demo_lib k st = Inr b"
  by (simp add: demo_lib_def)

lemma sample_file_rand_ok [simp]: "file_rand_ok sample_file_rand"
  by (simp add: file_rand_ok_def sample_file_rand_def)

lemma demo_scan: "scan (fl_clamd demo_lib) p = Inr (''clean'', ''stream: OK'')"
  by (simp add: scan_def demo_lib_def read_reply_def decode_replace_ascii ends_with_def Let_def)

lemma demo_staged:
  assumes r: "reserve demo_platform (fw_db w) (rq_now demo_request) 14 1 0 5 (fw_quota w) = (Inr r, q')"
    and u: "user_of (fw_db w) 1 \<noteq> None" "pending_uploads (fw_db w) = []"
    and v: "v < 2 ^ 32"
  shows "\<exists>s w'. stage_upload demo_platform demo_lib demo_request sample_file_rand 5 v sample_user sample_upload w = (Inr s, w')"
proof -
  obtain out where e: "encrypt_file tag_crypto ''nonce-01'' ''hello'' (replicate 32 (CHR ''d'')) 5 v =
      Inr (out, 5, sha256_hash tag_crypto ''hello'')"
    using encrypt_file_ex [OF tag_crypto_laws(3), of "replicate 32 (CHR ''d'')" "''nonce-01''" v "''hello''" 5] v
    by (auto simp: CHUNK_SIZE_def)
  have id: "cu_id sample_user = 1" by (simp add: sample_user_def)
  show ?thesis
    using r e u
    by (auto simp: stage_upload_def spool_upload_def spool_loop_eq sample_upload_def demo_settings_def scan_upload_def demo_scan id
        sample_file_rand_def stage_object_def encrypt_content_ok insert_pending_def Let_def split_beta)
      (simp add: demo_lib_def)
qed

lemma file_rows_ok:
  assumes "secret_of db (fr_secret rd) = None" "user_of db owner \<noteq> None" "row_of t_secret (secret_tracking db) (fr_secret rd) = None"
    "\<forall>v \<in> set (secret_versions db). v_object v \<noteq> Some (st_key s)" "version_of db (fr_secret rd) 1 = None"
    "\<forall>m. up_type up = Some m \<longrightarrow> py_len m \<le> 255" "list_all (fl_cidr_ok F) cidrs"
  shows "\<exists>db'. file_rows P F rq rd form (emails, cidrs, countries) owner up s token db = Inr db'"
proof -
  let ?sid = "fr_secret rd"
  let ?row = "file_secret P rq ?sid form (emails \<noteq> []) owner token"
  let ?db2 = "add_key ?sid (st_wrapped s) (st_dek_nonce s) 1 None (db\<lparr>secrets := sql_insert ?row (secrets db)\<rparr>)"
  let ?v = "file_version rq ?sid 1 1 s up owner (ff_note form)"
  let ?db4 = "insert_policy ?sid cidrs countries (ff_mode form) (ff_fail_closed form)
    (insert_recipients ?sid emails (?db2\<lparr>secret_versions := sql_insert ?v (secret_versions ?db2)\<rparr>))"
  have row: "secret_of ?db2 ?sid = Some ?row" "secret_of ?db4 ?sid = Some ?row"
    using assms(1) by (simp_all add: secret_of_def insert_policy_def insert_recipients_def add_key_def row_of_insert)
  have "insert_file_secret ?row db = Inr (db\<lparr>secrets := sql_insert ?row (secrets db)\<rparr>)"
    using assms(1,2) by (simp add: insert_file_secret_Inr)
  moreover have "insert_file_version ?v ?db2 = Inr (?db2\<lparr>secret_versions := sql_insert ?v (secret_versions ?db2)\<rparr>)"
    using assms row by (simp add: insert_file_version_Inr) (simp add: add_key_def version_of_def user_of_def)
  moreover have "secret_tracking ?db4 = secret_tracking db"
    by (simp add: insert_policy_def insert_recipients_def add_key_def)
  ultimately show ?thesis
    using assms(3,7) row by (simp add: file_rows_def Let_def insert_tracking_def)
qed

lemma sample_file_created:
  "\<exists>resp w'. create_file_secret demo_platform demo_lib demo_request sample_file_rand sample_form sample_user sample_upload
     sample_fw = (Inr resp, w')"
proof -
  have id: "cu_id sample_user = 1" "fr_secret sample_file_rand = 5" "fr_secret_rid sample_file_rand = 13"
    by (simp_all add: sample_user_def sample_file_rand_def)
  obtain st where st: "reserve demo_platform (wd_db sample_world) (rq_now demo_request) 13 1 1 0 (wd_quota sample_world) =
      (Inr \<lparr>re_id = 13, re_user = 1, re_secrets = 1, re_bytes = 0\<rparr>, Some st)" "qs_usage st 1 = Some (1, 0)"
    by (simp add: reserve_def sample_world_def lua_reserve_def empty_store_def usage_or_0_def durable_usage_def
        limits_for_user_def empty_db_def sql_select_def sum_of_def demo_settings_def demo_request_def incr_usage_def Let_def)
  obtain r q' where r2: "reserve demo_platform (wd_db sample_world) (rq_now demo_request) 14 1 0 5 (Some st) = (Inr r, Some q')"
    using st(2) by (simp add: reserve_def lua_reserve_def usage_or_0_def sample_world_def durable_usage_def
        limits_for_user_def empty_db_def sql_select_def sum_of_def demo_settings_def incr_usage_def Let_def)
  have "user_of (wd_db sample_world) 1 = Some sample_user_row" "pending_uploads (wd_db sample_world) = []"
    by (simp_all add: sample_world_def user_of_def sample_user_row_def empty_db_def)
  then obtain s w1 where
    s: "stage_upload demo_platform demo_lib demo_request sample_file_rand 5 1 sample_user sample_upload
      (set_quota (Some st) sample_fw) = (Inr s, w1)"
    using demo_staged [of "set_quota (Some st) sample_fw" r "Some q'" 1] r2 by (auto simp: sample_fw_def)
  note f = stage_upload_Inr [OF s]
  have db1: "fw_db w1 = (wd_db sample_world)\<lparr>pending_uploads := pending_uploads (fw_db w1)\<rparr>"
    using f(7) by (auto simp: insert_pending_Inr sample_fw_def)
  have q1: "fw_quota w1 = Some q'" "st_reservation s = r"
    using f(2) r2 id by (simp_all add: sample_fw_def sample_upload_def sample_file_rand_def)
  have empty: "secrets (fw_db w1) = []" "secret_versions (fw_db w1) = []" "secret_tracking (fw_db w1) = []"
    "users (fw_db w1) = [sample_user_row]"
    by (subst db1, simp add: sample_world_def empty_db_def)+
  have "py_len ''text/plain'' \<le> 255" by (simp add: py_len_def le_trans [OF length_filter_le])
  then obtain db2 where "file_rows demo_platform demo_lib demo_request sample_file_rand sample_form ([], [], []) 1 sample_upload s
      (create_signed_token (cr demo_platform) (SIGNED_URL_SECRET (cfg demo_platform)) (rq_now demo_request) 5 1 1 None) (fw_db w1) = Inr db2"
    using file_rows_ok [of "fw_db w1" sample_file_rand 1 s sample_upload demo_lib "[]" demo_platform demo_request sample_form "[]" "[]"
        "create_signed_token (cr demo_platform) (SIGNED_URL_SECRET (cfg demo_platform)) (rq_now demo_request) 5 1 1 None"]
    by (auto simp: id empty secret_of_def user_of_def version_of_def sample_upload_def sample_user_row_def)
  then have p: "publish_file demo_platform demo_lib demo_request sample_file_rand sample_form 1 sample_upload s (fw_db w1) =
      Inr (create_signed_token (cr demo_platform) (SIGNED_URL_SECRET (cfg demo_platform)) (rq_now demo_request) 5 1 1 None, db2)"
    by (simp add: publish_file_def access_rules_def allowed_def sample_form_def id Let_def)
  show ?thesis
    using st s p q1
    by (simp add: create_file_secret_def id sample_fw_def finish_create_def commit_or_reconcile_def commit_def Let_def)
qed

theorem create_then_download_witness:
  "\<exists>resp w' reply w''. create_file_secret demo_platform demo_lib demo_request sample_file_rand sample_form sample_user
      sample_upload sample_fw = (Inr resp, w') \<and>
     download_file_secret demo_platform demo_lib demo_request (fc_id resp) (Some (fc_token resp)) None None w' = (Inr reply, w'') \<and>
     fy_content reply = ''hello'' \<and> fy_filename reply = ''a.txt''"
proof -
  from sample_file_created obtain resp w' where
    c: "create_file_secret demo_platform demo_lib demo_request sample_file_rand sample_form sample_user sample_upload
      sample_fw = (Inr resp, w')" by blast
  have t: "is_text (upload_name sample_upload)" "path_name (upload_name sample_upload) = ''a.txt''" by code_simp+
  have tr: "trunc_seconds (rq_now demo_request) = 1000" by code_simp
  have r: "access_rules demo_platform demo_lib sample_form = Inr ([], [], [])"
    by (simp add: access_rules_def allowed_def sample_form_def Let_def)
  have "\<exists>w''. download_file_secret demo_platform demo_lib demo_request (fc_id resp) (Some (fc_token resp)) None None w' =
    (Inr \<lparr>fy_content = up_data sample_upload,
          fy_filename = (if path_name (upload_name sample_upload) = [] then ''download'' else path_name (upload_name sample_upload)),
          fy_media = (case up_type sample_upload of None \<Rightarrow> ''application/octet-stream''
            | Some m \<Rightarrow> if m = [] then ''application/octet-stream'' else m)\<rparr>, w'')"
    by (rule create_then_download [OF _ _ sample_file_rand_ok t(1) _ demo_lib_laws c r _ demo_lib_get])
      (simp_all add: tag_crypto_laws sample_fw_def sample_world_def sample_refs_ok form_fields_ok_def sample_form_def
        downloader_ok_def location_allowed_def tr, simp_all add: demo_request_def)
  with c t(2) show ?thesis by (fastforce simp: sample_upload_def)
qed

subsection \<open>What a download checks and changes\<close>

lemma download_locked_Inr:
  assumes "download_locked P rq pv sid n enc user db = (Inr (name, data, v), db')"
  obtains s p m db1 where
    "secret_of db sid = Some s" "policy_of db sid = Some p" "s_version s = n" "p_version p = pv"
    "s_view_count s < s_max_views s" "version_of db sid n = Some v" "open_object P sid n v enc db = Inr (name, data)"
    "record_view rq sid user n db = Inr (m, db1)"
    "db' = commit_txn db (audit_log_conn P rq (viewed_entry rq sid user)
       (update_view_count (rq_clock rq) sid (s_view_count s + 1) (s_max_views s \<le> s_view_count s + 1) db1))"
  using assms
  by (auto simp: download_locked_def download_guards_def Let_def not_le
      split: sum.splits prod.splits option.splits if_splits intro!: that)

lemma download_Inr:
  assumes "download_file_secret P F rq sid token password user w = (Inr reply, w')"
  obtains s p v key enc name data m db1 where
    "authorize P rq sid token (fw_db w) = (Inr (p_version p), fw_db w)"
    "secret_of (fw_db w) sid = Some s" "policy_of (fw_db w) sid = Some p" "s_payload s = File"
    "authorize_file (cr P) (fw_db w) s sid password user = Inr ()"
    "rq_now rq < s_expires s" "s_view_count s < s_max_views s"
    "version_of (fw_db w) sid (s_version s) = Some v" "v_object v = Some key" "fl_get F key (fw_store w) = Inr enc"
    "open_object P sid (s_version s) v enc (fw_db w) = Inr (name, data)" "reply = file_response name data v"
    "record_view rq sid user (s_version s) (fw_db w) = Inr (m, db1)"
    "w' = set_db (commit_txn (fw_db w) (audit_log_conn P rq (viewed_entry rq sid user)
       (update_view_count (rq_clock rq) sid (s_view_count s + 1) (s_max_views s \<le> s_view_count s + 1) db1))) w"
proof -
  from assms obtain pv where a: "authorize P rq sid token (fw_db w) = (Inr pv, fw_db w)"
    using authorize_Inr(1) by (fastforce simp: download_file_secret_def split: sum.splits prod.splits)
  from assms a obtain n key where c: "download_checks P rq pv sid password user (fw_db w) = Inr (n, key)"
    by (auto simp: download_file_secret_def split: sum.splits prod.splits)
  from assms a c obtain enc where g: "fl_get F key (fw_store w) = Inr enc"
    by (auto simp: download_file_secret_def split: sum.splits prod.splits)
  from assms a c g obtain name data v db' where
    l: "download_locked P rq pv sid n enc user (fw_db w) = (Inr (name, data, v), db')" "reply = file_response name data v"
      "w' = set_db db' w"
    by (auto simp: download_file_secret_def split: sum.splits prod.splits)
  from c obtain s p v' where s: "secret_of (fw_db w) sid = Some s" "policy_of (fw_db w) sid = Some p" "s_payload s = File"
      "authorize_file (cr P) (fw_db w) s sid password user = Inr ()" "p_version p = pv" "rq_now rq < s_expires s"
      "s_version s = n" "version_of (fw_db w) sid n = Some v'" "v_object v' = Some key"
    by (auto simp: download_checks_def bind_res_eq_Inr not_le split: option.splits if_splits)
  show thesis
    by (rule download_locked_Inr [OF l(1)]) (use s a g l(2,3) in \<open>auto intro!: that\<close>)
qed

lemma split_slash_no_slash: "p \<in> set (split_slash s) \<Longrightarrow> CHR ''/'' \<notin> set p"
  by (induction s arbitrary: p rule: split_slash.induct) (auto split: list.splits if_splits)

lemma path_name_plain: "CHR ''/'' \<notin> set (path_name s)"
proof (cases "rev (filter (\<lambda>p. p \<noteq> [] \<and> p \<noteq> ''.'') (split_slash s))")
  case (Cons p ps)
  then have "p \<in> set (rev (filter (\<lambda>p. p \<noteq> [] \<and> p \<noteq> ''.'') (split_slash s)))" by simp
  then have "p \<in> set (split_slash s)" by simp
  with Cons show ?thesis by (simp add: path_name_def split_slash_no_slash)
qed (simp add: path_name_def)

lemma file_response_name: "fy_filename (file_response name data v) \<noteq> [] \<and> CHR ''/'' \<notin> set (fy_filename (file_response name data v))"
  by (simp add: file_response_def path_name_plain)

text \<open>C15: a download succeeds only for a file secret whose policy accepts token and address, before its
  expiry time and with views left, for a verified recipient when it is restricted and with the right
  password when it is protected; what is sent is the complete decrypted object of the current
  version, under a name without a path; and the store is not touched.
\<close>

theorem download_sound:
  assumes "download_file_secret P F rq sid token password user w = (Inr reply, w')"
  shows "\<exists>s p v key enc dek. secret_of (fw_db w) sid = Some s \<and> policy_of (fw_db w) sid = Some p \<and>
    fst (authorize P rq sid token (fw_db w)) = Inr (p_version p) \<and> s_payload s = File \<and>
    rq_now rq < s_expires s \<and> s_view_count s < s_max_views s \<and>
    (s_email_restricted s \<longrightarrow> (\<exists>u. user = Some u \<and> cu_verified u \<and> is_recipient (fw_db w) sid (cu_email u))) \<and>
    (s_protected s \<longrightarrow> (\<exists>q. password = Some q \<and> q \<noteq> [] \<and> Some (sha256_hash (cr P) q) = s_password_hash s)) \<and>
    version_of (fw_db w) sid (s_version s) = Some v \<and> v_object v = Some key \<and> fl_get F key (fw_store w) = Inr enc \<and>
    get_dek_for_secret (cr P) (fw_db w) sid (v_key v) = Inr dek \<and>
    decrypt_file (cr P) enc dek sid (nat (s_version s)) = Inr (fy_content reply) \<and>
    fy_filename reply \<noteq> [] \<and> CHR ''/'' \<notin> set (fy_filename reply) \<and> fw_store w' = fw_store w"
  by (rule download_Inr [OF assms])
    (auto simp: open_object_def bind_res_eq_Inr authorize_file_def file_response_def path_name_plain truthy_def
      split: if_splits option.splits)

text \<open>
  the last permitted view of a file is never counted.  The trigger deletes the secret when the
  counter reaches its maximum, the audit entry that follows in the same transaction then refers to a secret that
  does not exist, its failure aborts the transaction, and COMMIT rolls everything back: the file is
  sent and nothing has changed, so the same request succeeds again and again.
\<close>

theorem file_last_view_not_counted:
  assumes "download_file_secret P F rq sid token password user w = (Inr reply, w')"
    and "secret_of (fw_db w) sid = Some s" and "s_max_views s \<le> s_view_count s + 1"
  shows "w' = w \<and> (((\<lambda>w. snd (download_file_secret P F rq sid token password user w)) ^^ n) w = w)"
proof -
  have "w' = w"
  proof (rule download_Inr [OF assms(1)])
    fix s' p v key enc name data m db1
    assume s': "secret_of (fw_db w) sid = Some s'" and r: "record_view rq sid user (s_version s') (fw_db w) = Inr (m, db1)"
      and w': "w' = set_db (commit_txn (fw_db w) (audit_log_conn P rq (viewed_entry rq sid user)
        (update_view_count (rq_clock rq) sid (s_view_count s' + 1) (s_max_views s' \<le> s_view_count s' + 1) db1))) w"
    have "secret_of db1 sid = secret_of (fw_db w) sid" using record_view_frame(1) [OF r] by (simp add: secret_of_def)
    then have "secret_of (update_view_count (rq_clock rq) sid (s_view_count s' + 1) (s_max_views s' \<le> s_view_count s' + 1) db1) sid = None"
      using s' assms(2,3) by (simp add: secret_of_view_count)
    then show "w' = w" unfolding w' by (simp add: commit_audit audit_accepts_viewed)
  qed
  then have same: "snd (download_file_secret P F rq sid token password user w) = w" using assms(1) by simp
  have "((\<lambda>w. snd (download_file_secret P F rq sid token password user w)) ^^ n) w = w"
    by (induction n) (simp_all add: same)
  with \<open>w' = w\<close> show ?thesis by simp
qed

text \<open>A world in which the sample file has been created.\<close>

lemma sample_file_world:
  obtains w resp reply w' s where
    "create_file_secret demo_platform demo_lib demo_request sample_file_rand sample_form sample_user sample_upload
       sample_fw = (Inr resp, w)"
    "download_file_secret demo_platform demo_lib demo_request 5 (Some (fc_token resp)) None None w = (Inr reply, w')"
    "fy_content reply = ''hello''" "secret_of (fw_db w) 5 = Some s" "s_max_views s = 1" "s_view_count s = 0"
proof -
  from sample_file_created obtain resp w where
    c: "create_file_secret demo_platform demo_lib demo_request sample_file_rand sample_form sample_user sample_upload
      sample_fw = (Inr resp, w)" by blast
  have t: "is_text (upload_name sample_upload)" "trunc_seconds (rq_now demo_request) = 1000" by code_simp+
  have r: "access_rules demo_platform demo_lib sample_form = Inr ([], [], [])"
    by (simp add: access_rules_def allowed_def sample_form_def Let_def)
  have i: "fr_secret sample_file_rand = 5" by (simp add: sample_file_rand_def)
  have "\<exists>w''. download_file_secret demo_platform demo_lib demo_request (fc_id resp) (Some (fc_token resp)) None None w =
    (Inr \<lparr>fy_content = up_data sample_upload,
          fy_filename = (if path_name (upload_name sample_upload) = [] then ''download'' else path_name (upload_name sample_upload)),
          fy_media = (case up_type sample_upload of None \<Rightarrow> ''application/octet-stream''
            | Some m \<Rightarrow> if m = [] then ''application/octet-stream'' else m)\<rparr>, w'')"
    by (rule create_download_roundtrip [OF _ _ sample_file_rand_ok t(1) _ demo_lib_laws c r _ demo_lib_get])
      (simp_all add: tag_crypto_laws sample_fw_def sample_world_def sample_refs_ok form_fields_ok_def sample_form_def
        downloader_ok_def location_allowed_def t(2), simp_all add: demo_request_def)
  then obtain reply w' where d: "download_file_secret demo_platform demo_lib demo_request (fc_id resp) (Some (fc_token resp)) None None w =
      (Inr reply, w')" "fy_content reply = ''hello''" by (fastforce simp: sample_upload_def)
  obtain db1 st w1 q where rows: "file_rows demo_platform demo_lib demo_request sample_file_rand sample_form ([], [], []) (cu_id sample_user)
      sample_upload st (fc_token resp) (fw_db w1) = Inr db1"
    and st: "stage_upload demo_platform demo_lib demo_request sample_file_rand 5 1 sample_user sample_upload (set_quota q sample_fw) = (Inr st, w1)"
    and w: "fw_db w = audit_log demo_platform demo_request (uploaded_entry demo_request 5 sample_user) db1" "fc_id resp = 5"
    by (rule create_file_secret_Inr [OF c]) (use r i in auto)
  have "fw_db w1 = (wd_db sample_world)\<lparr>pending_uploads := pending_uploads (fw_db w1)\<rparr>"
    using stage_upload_Inr(7) [OF st] by (auto simp: insert_pending_Inr sample_fw_def)
  then have "refs_ok (fw_db w1)" by (metis refs_ok_pending sample_refs_ok sample_world_def world.select_convs(1))
  from file_rows_lookups(1) [OF rows this, of 5] have
    "secret_of (fw_db w) 5 = Some (file_secret demo_platform demo_request 5 sample_form False (cu_id sample_user) (fc_token resp))"
    by (simp add: w i)
  with that [OF c _ d(2)] d(1) w(2) show thesis by (simp add: sample_form_def)
qed

theorem download_sound_witness:
  "\<exists>(w :: file_world) token reply w'. download_file_secret demo_platform demo_lib demo_request 5 token None None w = (Inr reply, w') \<and>
     (\<exists>(v :: version_row) key enc. v_object v = Some key \<and> fl_get demo_lib key (fw_store w) = Inr enc) \<and> fw_store w' = fw_store w"
proof -
  obtain w :: file_world and resp :: file_created and reply :: file_reply and w' :: file_world where
    d: "download_file_secret demo_platform demo_lib demo_request 5 (Some (fc_token resp)) None None w = (Inr reply, w')"
    by (rule sample_file_world) (rule that; assumption)
  from download_sound [OF d] d show ?thesis by blast
qed

theorem file_last_view_not_counted_witness:
  "\<exists>(w :: file_world) token (reply :: file_reply). download_file_secret demo_platform demo_lib demo_request 5 token None None w = (Inr reply, w) \<and>
     fy_content reply = ''hello'' \<and> (\<exists>s :: secret_row. secret_of (fw_db w) 5 = Some s \<and> s_max_views s = 1)"
proof -
  obtain w :: file_world and resp :: file_created and reply :: file_reply and w' :: file_world and s :: secret_row where
    d: "download_file_secret demo_platform demo_lib demo_request 5 (Some (fc_token resp)) None None w = (Inr reply, w')"
      "fy_content reply = ''hello''" "secret_of (fw_db w) 5 = Some s" "s_max_views s = 1" "s_view_count s = 0"
    by (rule sample_file_world) (rule that; assumption)
  from file_last_view_not_counted [OF d(1,3), of 0] d(4,5) have "w' = w" by simp
  with d show ?thesis by blast
qed

text \<open>
  every other view is counted exactly: a download that succeeds raises the counter by one and
  leaves every other secret alone, except that on the last permitted view, for an address that is
  no inet value, or for a viewer without an account, nothing at all is recorded.
\<close>

theorem file_view_counted:
  assumes "download_file_secret P F rq sid token password user w = (Inr reply, w')" and "secret_of (fw_db w) sid = Some s"
  shows "secret_of (fw_db w') x =
     (if x = sid \<and> s_view_count s + 1 < s_max_views s \<and> inet_ok P (rq_ip rq) \<and>
         (\<forall>u. user = Some u \<longrightarrow> user_of (fw_db w) (cu_id u) \<noteq> None)
      then Some (s\<lparr>s_view_count := s_view_count s + 1, s_viewed := False\<rparr>) else secret_of (fw_db w) x)"
proof (rule download_Inr [OF assms(1)])
  fix s' p v key enc name data m db1
  assume s': "secret_of (fw_db w) sid = Some s'" and r: "record_view rq sid user (s_version s') (fw_db w) = Inr (m, db1)"
    and w': "w' = set_db (commit_txn (fw_db w) (audit_log_conn P rq (viewed_entry rq sid user)
      (update_view_count (rq_clock rq) sid (s_view_count s' + 1) (s_max_views s' \<le> s_view_count s' + 1) db1))) w"
  let ?db2 = "update_view_count (rq_clock rq) sid (s_view_count s' + 1) (s_max_views s' \<le> s_view_count s' + 1) db1"
  have f: "secret_of db1 y = secret_of (fw_db w) y" for y using record_view_frame(1) [OF r] by (simp add: secret_of_def)
  have eq: "s' = s" using s' assms(2) by simp
  have "users ?db2 = users (fw_db w)"
    using record_view_frame(2) [OF r] by (simp add: update_view_count_def delete_secrets_def Let_def split: option.split)
  then have "user_of ?db2 y = user_of (fw_db w) y" for y by (simp add: user_of_def)
  then show ?thesis
    using s' f by (auto simp: w' eq commit_audit audit_accepts_viewed secret_of_view_count)
qed

theorem file_view_counted_witness:
  "\<exists>(w :: file_world) token (reply :: file_reply) w' (s :: secret_row). download_file_secret demo_platform demo_lib demo_request 5 token None None w = (Inr reply, w') \<and>
     secret_of (fw_db w) 5 = Some s \<and> secret_of (fw_db w') 5 = Some s \<and> s_view_count s + 1 = s_max_views s"
proof -
  obtain w :: file_world and resp :: file_created and reply :: file_reply and w' :: file_world and s :: secret_row where
    d: "download_file_secret demo_platform demo_lib demo_request 5 (Some (fc_token resp)) None None w = (Inr reply, w')"
      "secret_of (fw_db w) 5 = Some s" "s_max_views s = 1" "s_view_count s = 0"
    by (rule sample_file_world) (rule that; assumption)
  from file_view_counted [OF d(1,2), of 5] d(2-4) have "secret_of (fw_db w') 5 = Some s" by simp
  with d show ?thesis by fastforce
qed

end
