(* ===== verification/File_Uploads.thy ===== *)
theory File_Uploads
  imports File_Secrets
begin

text \<open>
  Uploads that fail, and the replacement of a file: what an attempt leaves behind, that nothing
  unscanned is stored, and the files of a secret as a growing history.
\<close>


subsection \<open>When an upload fails\<close>

lemma db_eta: "\<exists>l. db = db\<lparr>audit_logs := l\<rparr>" "\<exists>l ps. db = db\<lparr>audit_logs := l, pending_uploads := ps\<rparr>"
proof -
  show "\<exists>l. db = db\<lparr>audit_logs := l\<rparr>" by (rule exI [of _ "audit_logs db"]) simp
  show "\<exists>l ps. db = db\<lparr>audit_logs := l, pending_uploads := ps\<rparr>"
    by (rule exI [of _ "audit_logs db"], rule exI [of _ "pending_uploads db"]) simp
qed

text \<open>What a failed attempt may have left, and where it got: the reservation of the bytes, the object.\<close>

definition stage_leaves ::
  "string \<Rightarrow> string option \<Rightarrow> file_world \<Rightarrow> file_world \<Rightarrow> bool" where
  "stage_leaves k key w w' \<longleftrightarrow> wd_keys (fw_world w') = wd_keys (fw_world w) \<and>
     (\<exists>l. key \<in> {None, Some k} \<and> fw_store w' = fw_store w \<and> fw_db w' = (fw_db w)\<lparr>audit_logs := l\<rparr> \<or>
       (\<exists>(row :: pending_row) b. key = Some k \<and> fw_store w' \<in> {fw_store w, (fw_store w)(k \<mapsto> b)} \<and> pu_object row = k \<and>
          insert_pending row (fw_db w) = Inr (fw_db w') \<and>
          fw_db w' = (fw_db w)\<lparr>pending_uploads := sql_insert row (pending_uploads (fw_db w))\<rparr>))"

lemma put_cases:
  assumes "store_laws F"
  shows "snd (fl_put F k b st) \<in> {st, st(k \<mapsto> b)}"
proof -
  from assms have "fl_put F k b st = (Inr (), st(k \<mapsto> b)) \<or>
      (\<exists>e. fl_put F k b st = (Inl e, st) \<or> fl_put F k b st = (Inl e, st(k \<mapsto> b)))"
    unfolding store_laws_def by blast
  then show ?thesis by auto
qed

lemma del_cases:
  assumes "store_laws F"
  shows "snd (fl_del F k st) \<in> {st, st(k := None)}"
proof -
  from assms have "fl_del F k st = (Inr (), st(k := None)) \<or>
      (\<exists>e. fl_del F k st = (Inl e, st) \<or> fl_del F k st = (Inl e, st(k := None)))"
    unfolding store_laws_def by blast
  then show ?thesis by auto
qed

lemma stage_object_Inl:
  assumes st: "stage_object P F rq rd sid version user up p n detail r w = (Inl (e, br, key), w')" and F: "store_laws F"
  shows "stage_leaves (object_key_of sid version (fr_object rd)) key w w' \<and> br = Some r \<and> fw_quota w' = fw_quota w"
proof (rule stage_object_cases [of P F rq rd sid version user up p n detail r w])
  let ?row = "\<lparr>pu_id = fr_pending rd, pu_user = cu_id user, pu_secret = sid,
      pu_object = object_key_of sid version (fr_object rd), pu_reservation = re_id r, pu_size = int n,
      pu_expires = rq_clock rq + 900 * second\<rparr>"
  fix e' c t d
  assume x: "stage_object P F rq rd sid version user up p n detail r w =
      (Inl (e', Some r, Some (object_key_of sid version (fr_object rd))),
        (set_db ((fw_db w)\<lparr>pending_uploads := sql_insert ?row (pending_uploads (fw_db w))\<rparr>) w)
          \<lparr>fw_store := snd (fl_put F (object_key_of sid version (fr_object rd)) c (fw_store w))\<rparr>)"
    and i: "insert_pending ?row (fw_db w) = Inr ((fw_db w)\<lparr>pending_uploads := sql_insert ?row (pending_uploads (fw_db w))\<rparr>)"
  show ?thesis
    using x st i put_cases [OF F, of "object_key_of sid version (fr_object rd)" c "fw_store w"]
    by (auto simp: stage_leaves_def intro!: exI [of _ ?row] exI [of _ c])
qed (use st db_eta(1) [of "fw_db w"] in \<open>auto simp: stage_leaves_def\<close>)

text \<open>The reservations of a quota store.\<close>

definition reserved :: "quota_store option \<Rightarrow> uuid \<Rightarrow> bool" where
  "reserved q rid \<longleftrightarrow> (\<exists>st. q = Some st \<and> qs_hash st rid \<noteq> None)"

lemma reserve_Inl_reserved: "reserve P db now rid u a b q = (Inl e, q') \<Longrightarrow> reserved q' x = reserved q x"
  by (auto simp: reserve_def lua_reserve_def reserved_def incr_usage_def Let_def split_beta split: option.splits if_splits)

lemma reserve_Inr_reserved: "reserve P db now rid u a b q = (Inr r, q') \<Longrightarrow> reserved q' x \<longleftrightarrow> x = rid \<or> reserved q x"
  by (auto simp: reserve_def lua_reserve_def reserved_def incr_usage_def Let_def split_beta split: option.splits if_splits)

lemma release_reserved [simp]: "reserved (release r q) x \<longleftrightarrow> x \<noteq> re_id r \<and> reserved q x"
  by (auto simp: release_def lua_release_def reserved_def incr_usage_def Let_def split_beta split: option.splits)

lemma stage_upload_Inl:
  assumes "stage_upload P F rq rd sid version user up w = (Inl (e, br, key), w')" and F: "store_laws F"
  shows "stage_leaves (object_key_of sid version (fr_object rd)) key w w' \<and>
    (case br of None \<Rightarrow> (\<forall>x. reserved (fw_quota w') x = reserved (fw_quota w) x)
     | Some r \<Rightarrow> re_id r = fr_byte_rid rd \<and> (\<forall>x. reserved (fw_quota w') x \<longleftrightarrow> x = fr_byte_rid rd \<or> reserved (fw_quota w) x))"
proof (cases "spool_upload (MAX_FILE_BYTES (cfg P)) (up_data up)")
  case (Inl e)
  then show ?thesis using assms(1) db_eta(1) [of "fw_db w"] by (auto simp: stage_upload_def stage_leaves_def)
next
  case (Inr pn)
  obtain p n where pn: "pn = (p, n)" by (cases pn)
  obtain x db1 where sc: "scan_upload P F rq user p (fw_db w) = (x, db1)" by (metis surj_pair)
  show ?thesis
  proof (cases x)
    case (Inl e')
    then show ?thesis
      using assms(1) Inr pn sc scan_upload_Inl [of P F rq user p "fw_db w" e' db1]
      by (auto simp: stage_upload_def stage_leaves_def)
  next
    case x: (Inr detail)
    then have db1: "db1 = fw_db w" using sc by (simp add: scan_upload_Inr)
    obtain y q where r: "reserve P (fw_db w) (rq_now rq) (fr_byte_rid rd) (cu_id user) 0 (int n) (fw_quota w) = (y, q)"
      by (metis surj_pair)
    show ?thesis
    proof (cases y)
      case (Inl e')
      then show ?thesis
        using assms(1) Inr pn sc x db1 r db_eta(1) [of "fw_db w"] reserve_Inl_reserved [of P "fw_db w" "rq_now rq" _ _ _ _ _ e' q]
        by (auto simp: stage_upload_def stage_leaves_def)
    next
      case y: (Inr b)
      then have st: "stage_object P F rq rd sid version user up p n detail b (set_quota q w) = (Inl (e, br, key), w')"
        using assms(1) Inr pn sc x db1 r by (simp add: stage_upload_def)
      show ?thesis
        using stage_object_Inl [OF st F] reserve_Inr_id [of P "fw_db w"] reserve_Inr_reserved [of P "fw_db w"] r y
        by (auto simp: stage_leaves_def)
    qed
  qed
qed

lemma stage_leaves_db:
  assumes "stage_leaves k key w w'"
  shows "\<exists>l ps. fw_db w' = (fw_db w)\<lparr>audit_logs := l, pending_uploads := ps\<rparr>"
proof -
  have "db\<lparr>audit_logs := l\<rparr> = db\<lparr>audit_logs := l, pending_uploads := pending_uploads db\<rparr>"
    "db\<lparr>pending_uploads := ps\<rparr> = db\<lparr>audit_logs := audit_logs db, pending_uploads := ps\<rparr>" for db :: database and l ps
    by simp_all
  with assms show ?thesis unfolding stage_leaves_def by metis
qed

lemma give_back_sel [simp]:
  "fw_db (give_back F key rs w) = fw_db w" "wd_keys (fw_world (give_back F key rs w)) = wd_keys (fw_world w)"
  by (simp_all add: give_back_def)

lemma give_back_store:
  assumes "store_laws F"
  shows "fw_store (give_back F key rs w) \<in>
    (case key of None \<Rightarrow> {fw_store w} | Some k \<Rightarrow> {fw_store w, (fw_store w)(k := None)})"
  using del_cases [OF assms] by (simp add: give_back_def split: option.split)

lemma give_back_reserved:
  "reserved (fw_quota (give_back F key rs w)) x \<longleftrightarrow> x \<notin> re_id ` set (List.map_filter id rs) \<and> reserved (fw_quota w) x"
proof -
  have "reserved (fold (\<lambda>r q. case r of None \<Rightarrow> q | Some r \<Rightarrow> release r q) rs q) x \<longleftrightarrow>
      x \<notin> re_id ` set (List.map_filter id rs) \<and> reserved q x" for q
    by (induction rs arbitrary: q) (auto simp: map_filter_simps split: option.split)
  then show ?thesis by (simp add: give_back_def)
qed

lemma commit_each_Some: "q \<noteq> None \<Longrightarrow> \<exists>q'. commit_each rs q = (Inr (), q') \<and> q' \<noteq> None"
  by (induction rs arbitrary: q) (auto simp: commit_def split: option.split)

lemma stage_upload_quota: "stage_upload P F rq rd sid version user up w = (Inr s, w') \<Longrightarrow> fw_quota w' \<noteq> None"
  by (drule stage_upload_Inr(2), drule reserve_Inr_id) simp

lemma finish_create_ok: "fw_quota w \<noteq> None \<Longrightarrow> \<exists>resp w'. finish_create P rq rd form user s r token w = (Inr resp, w')"
  using commit_each_Some [of "fw_quota w" "[r, st_reservation s]"]
  by (auto simp: finish_create_def commit_or_reconcile_def Let_def)

text \<open>The ways a creation fails, with the world before the attempt to undo it.\<close>

lemma create_file_secret_Inl:
  assumes "create_file_secret P F rq rd form user up w = (Inl e, w')"
  obtains (reserve) q where "reserve P (fw_db w) (rq_now rq) (fr_secret_rid rd) (cu_id user) 1 0 (fw_quota w) = (Inl e, q)"
      "w' = set_quota q w"
  | (stage) r q br key w1 where
      "reserve P (fw_db w) (rq_now rq) (fr_secret_rid rd) (cu_id user) 1 0 (fw_quota w) = (Inr r, q)"
      "stage_upload P F rq rd (fr_secret rd) 1 user up (set_quota q w) = (Inl (e, br, key), w1)"
      "w' = give_back F key [br, Some r] w1"
  | (publish) r q s w1 where
      "reserve P (fw_db w) (rq_now rq) (fr_secret_rid rd) (cu_id user) 1 0 (fw_quota w) = (Inr r, q)"
      "stage_upload P F rq rd (fr_secret rd) 1 user up (set_quota q w) = (Inr s, w1)"
      "w' = give_back F (Some (st_key s)) [Some (st_reservation s), Some r] w1"
proof -
  obtain x q where r: "reserve P (fw_db w) (rq_now rq) (fr_secret_rid rd) (cu_id user) 1 0 (fw_quota w) = (x, q)"
    by (metis surj_pair)
  show thesis
  proof (cases x)
    case (Inl e')
    then show thesis using assms r by (intro reserve) (auto simp: create_file_secret_def)
  next
    case x: (Inr res)
    obtain y w1 where st: "stage_upload P F rq rd (fr_secret rd) 1 user up (set_quota q w) = (y, w1)" by (metis surj_pair)
    show thesis
    proof (cases y)
      case (Inl f)
      obtain e' br key where "f = (e', br, key)" by (cases f)
      then show thesis using assms r x st Inl by (intro stage [of res q br key w1]) (auto simp: create_file_secret_def)
    next
      case y: (Inr s)
      show thesis
      proof (cases "publish_file P F rq rd form (cu_id user) up s (fw_db w1)")
        case (Inl e')
        then show thesis using assms r x st y by (intro publish [of res q s w1]) (auto simp: create_file_secret_def)
      next
        case (Inr td)
        then show thesis
          using assms r x st y stage_upload_quota [of P F rq rd "fr_secret rd" 1 user up "set_quota q w" s w1]
            finish_create_ok [of "set_db (audit_log P rq (uploaded_entry rq (fr_secret rd) user) (snd td)) w1" P rq rd form user s res "fst td"]
          by (auto simp: create_file_secret_def split_beta)
      qed
    qed
  qed
qed


lemma stage_unclean:
  assumes "\<forall>d. scan (fl_clamd F) (up_data up) \<noteq> Inr (''clean'', d)"
  obtains e w' l where "stage_upload P F rq rd sid version user up w = (Inl (e, None, None), w')"
    "fw_db w' = (fw_db w)\<lparr>audit_logs := l\<rparr>" "fw_store w' = fw_store w" "fw_quota w' = fw_quota w"
proof (cases "spool_upload (MAX_FILE_BYTES (cfg P)) (up_data up)")
  case (Inl e)
  obtain l where "fw_db w = (fw_db w)\<lparr>audit_logs := l\<rparr>" using db_eta(1) by blast
  then show thesis using Inl by (intro that [of e w]) (auto simp: stage_upload_def)
next
  case (Inr pn)
  obtain p n where pn: "pn = (p, n)" by (cases pn)
  then have p: "p = up_data up" using Inr by (simp add: spool_upload_Inr)
  obtain x db1 where sc: "scan_upload P F rq user p (fw_db w) = (x, db1)" by (metis surj_pair)
  then obtain e where x: "x = Inl e" using assms p by (cases x) (auto simp: scan_upload_Inr)
  obtain l where "db1 = (fw_db w)\<lparr>audit_logs := l\<rparr>" using sc x scan_upload_Inl by blast
  then show thesis using Inr pn sc x by (intro that [of e "set_db db1 w"]) (auto simp: stage_upload_def)
qed

lemma give_back_None [simp]: "fw_store (give_back F None rs w) = fw_store w"
  by (simp add: give_back_def)

lemma unclean_create:
  assumes "\<forall>d. scan (fl_clamd F) (up_data up) \<noteq> Inr (''clean'', d)"
    and "create_file_secret P F rq rd form user up w = (r, w')"
  shows "\<not> ok r \<and> fw_store w' = fw_store w \<and> (\<exists>l. fw_db w' = (fw_db w)\<lparr>audit_logs := l\<rparr>)"
proof -
  obtain x q where x: "reserve P (fw_db w) (rq_now rq) (fr_secret_rid rd) (cu_id user) 1 0 (fw_quota w) = (x, q)"
    by (metis surj_pair)
  obtain e w1 l where s: "stage_upload P F rq rd (fr_secret rd) 1 user up (set_quota q w) = (Inl (e, None, None), w1)"
    "fw_db w1 = (fw_db (set_quota q w))\<lparr>audit_logs := l\<rparr>" "fw_store w1 = fw_store (set_quota q w)"
    by (rule stage_unclean [OF assms(1)]) (rule that; assumption)
  show ?thesis
    using assms(2) x s db_eta(1) [of "fw_db w"] by (cases x) (auto simp: create_file_secret_def)
qed

lemma unclean_update:
  assumes "\<forall>d. scan (fl_clamd F) (up_data up) \<noteq> Inr (''clean'', d)"
    and "update_file_secret P F rq rd sid n nt user up w = (r, w')"
  shows "\<not> ok r \<and> fw_store w' = fw_store w \<and> (\<exists>l. fw_db w' = (fw_db w)\<lparr>audit_logs := l\<rparr>)"
proof -
  obtain e w1 l where s: "stage_upload P F rq rd sid (nat (n + 1)) user up w = (Inl (e, None, None), w1)"
    "fw_db w1 = (fw_db w)\<lparr>audit_logs := l\<rparr>" "fw_store w1 = fw_store w"
    by (rule stage_unclean [OF assms(1)]) (rule that; assumption)
  show ?thesis
    using assms(2) s db_eta(1) [of "fw_db w"]
    by (cases "file_update_guards P sid n user (fw_db w)") (auto simp: update_file_secret_def)
qed

text \<open>C32: nothing that the scanner has not passed is ever stored: unless the scan of the upload answers
  clean (it found something, or failed, or answered anything else), creating a file and replacing
  one both fail, the object store is untouched, and the database has changed in its audit log at
  most.
\<close>

theorem unclean_never_stored:
  assumes "\<forall>d. scan (fl_clamd F) (up_data up) \<noteq> Inr (''clean'', d)"
    and "create_file_secret P F rq rd form user up w = (r1, w1)"
    and "update_file_secret P F rq rd sid n nt user up w = (r2, w2)"
  shows "\<not> ok r1 \<and> \<not> ok r2 \<and> fw_store w1 = fw_store w \<and> fw_store w2 = fw_store w \<and>
    (\<exists>l. fw_db w1 = (fw_db w)\<lparr>audit_logs := l\<rparr>) \<and> (\<exists>l. fw_db w2 = (fw_db w)\<lparr>audit_logs := l\<rparr>)"
  using unclean_create [OF assms(1,2)] unclean_update [OF assms(1,3)] by simp

definition infected_lib :: file_lib where
  "infected_lib = demo_lib\<lparr>fl_clamd := (\<lambda>_. Some (''stream: Eicar FOUND'' @ [CHR 0x00]))\<rparr>"

lemma infected_scan: "scan (fl_clamd infected_lib) p = Inr (''infected'', ''stream: Eicar FOUND'')"
  by (simp add: scan_def infected_lib_def read_reply_def decode_replace_ascii ends_with_def Let_def)

lemma infected_laws: "store_laws infected_lib"
  using demo_lib_laws by (simp add: store_laws_def infected_lib_def)

theorem unclean_never_stored_witness:
  "\<exists>r w'. create_file_secret demo_platform infected_lib demo_request sample_file_rand sample_form sample_user
       sample_upload sample_fw = (r, w') \<and> \<not> ok r \<and> fw_store w' = Map.empty"
proof -
  obtain r w' where c: "create_file_secret demo_platform infected_lib demo_request sample_file_rand sample_form sample_user
       sample_upload sample_fw = (r, w')" by (metis surj_pair)
  obtain r2 w2 where u: "update_file_secret demo_platform infected_lib demo_request sample_file_rand 5 1 None sample_user
      sample_upload sample_fw = (r2, w2)" by (metis surj_pair)
  show ?thesis
    using unclean_never_stored [OF _ c u] infected_scan c by (auto simp: sample_fw_def)
qed


subsection \<open>The history of a file\<close>

text \<open>The file stored as a version: its name and content, under the key of that version.\<close>

definition file_of :: "platform \<Rightarrow> database \<Rightarrow> objects \<Rightarrow> uuid \<Rightarrow> int \<rightharpoonup> string \<times> bytes" where
  "file_of P db st sid n =
     (case version_of db sid n of
        None \<Rightarrow> None
      | Some v \<Rightarrow>
          (case (v_object v, v_key v) of
             (Some key, Some _) \<Rightarrow>
               (case st key of
                  None \<Rightarrow> None
                | Some enc \<Rightarrow> (case open_object P sid n v enc db of Inl _ \<Rightarrow> None | Inr f \<Rightarrow> Some f))
           | _ \<Rightarrow> None))"

lemma file_of_Some:
  "file_of P db st sid n = Some f \<longleftrightarrow> (\<exists>v key k enc. version_of db sid n = Some v \<and> v_object v = Some key \<and>
     v_key v = Some k \<and> st key = Some enc \<and> open_object P sid n v enc db = Inr f)"
  by (auto simp: file_of_def split: option.splits sum.splits)

text \<open>The rows a new version inserts, in one update of the database.\<close>

definition with_version_rows ::
  "request \<Rightarrow> file_rand \<Rightarrow> uuid \<Rightarrow> int \<Rightarrow> string option \<Rightarrow> current_user \<Rightarrow> upload_file \<Rightarrow> staged \<Rightarrow> database \<Rightarrow> database" where
  "with_version_rows rq rd sid n nt user up s db =
     db\<lparr>secret_keys := sql_insert \<lparr>k_secret = sid, k_wrapped = st_wrapped s, k_nonce = st_dek_nonce s,
          k_version = max_key_version db sid + 1, k_rotated = Some (rq_clock rq)\<rparr> (secret_keys db),
        secret_versions := sql_insert (file_version rq sid (n + 1) (max_key_version db sid + 1) s up (cu_id user) nt)
          (secret_versions db),
        secrets := sql_update (\<lambda>s. s_id s = sid) (\<lambda>s. s\<lparr>s_version := n + 1, s_updated := rq_clock rq\<rparr>) (secrets db),
        pending_uploads := sql_delete (\<lambda>p. pu_id p = fr_pending rd) (pending_uploads db)\<rparr>"

lemma file_version_rows_Inr:
  assumes "file_version_rows rq rd sid n nt user up s db = Inr db'"
  shows "(\<exists>x. secret_of db sid = Some x \<and> s_version x = n) \<and> version_of db sid (n + 1) = None \<and>
      (\<forall>v \<in> set (secret_versions db). v_object v \<noteq> Some (st_key s)) \<and> user_of db (cu_id user) \<noteq> None"
    and "db' = with_version_rows rq rd sid n nt user up s db"
proof -
  let ?db1 = "add_key sid (st_wrapped s) (st_dek_nonce s) (max_key_version db sid + 1) (Some (rq_clock rq)) db"
  from assms have i: "insert_file_version (file_version rq sid (n + 1) (max_key_version db sid + 1) s up (cu_id user) nt) ?db1 =
      Inr (?db1\<lparr>secret_versions := sql_insert (file_version rq sid (n + 1) (max_key_version db sid + 1) s up (cu_id user) nt)
        (secret_versions ?db1)\<rparr>)" "\<exists>x. secret_of db sid = Some x \<and> s_version x = n"
    and d: "db' = delete_pending (fr_pending rd) (set_file_version rq sid (n + 1) (?db1\<lparr>secret_versions :=
       sql_insert (file_version rq sid (n + 1) (max_key_version db sid + 1) s up (cu_id user) nt) (secret_versions ?db1)\<rparr>))"
    by (auto simp: file_version_rows_def bind_res_eq_Inr insert_file_version_Inr Let_def split: option.splits if_splits)
  show "(\<exists>x. secret_of db sid = Some x \<and> s_version x = n) \<and> version_of db sid (n + 1) = None \<and>
      (\<forall>v \<in> set (secret_versions db). v_object v \<noteq> Some (st_key s)) \<and> user_of db (cu_id user) \<noteq> None"
    using i by (auto simp: insert_file_version_Inr add_key_def version_of_def user_of_def)
  show "db' = with_version_rows rq rd sid n nt user up s db"
    unfolding d by (simp add: with_version_rows_def delete_pending_def set_file_version_def add_key_def)
qed

lemma keys_with_version_rows:
  "keys_of (with_version_rows rq rd sid n nt user up s db) sid =
     keys_of db sid @ [\<lparr>k_secret = sid, k_wrapped = st_wrapped s, k_nonce = st_dek_nonce s,
       k_version = max_key_version db sid + 1, k_rotated = Some (rq_clock rq)\<rparr>]"
  by (simp add: with_version_rows_def keys_of_def sql_select_insert)

lemma dek_with_version_rows:
  assumes "get_dek_for_secret C db sid (Some k) = Inr d"
  shows "get_dek_for_secret C (with_version_rows rq rd sid n nt user up s db) sid (Some k) = Inr d"
  using assms
  by (auto simp: get_dek_for_secret_def keys_with_version_rows sql_select_def fetchone_def
      split: list.splits option.splits)

lemma version_with_version_rows:
  assumes "version_of db sid (n + 1) = None"
  shows "version_of (with_version_rows rq rd sid n nt user up s db) sid m =
    (if m = n + 1 then Some (file_version rq sid (n + 1) (max_key_version db sid + 1) s up (cu_id user) nt)
     else version_of db sid m)"
  using assms by (auto simp: with_version_rows_def version_of_def row_of_insert file_version_def split: option.split)

lemma open_object_audit [simp]: "open_object P sid n v enc (db\<lparr>audit_logs := l\<rparr>) = open_object P sid n v enc db"
  by (simp add: open_object_def get_dek_cong [of "db\<lparr>audit_logs := l\<rparr>" db])

lemma update_file_secret_Inr:
  assumes "update_file_secret P F rq rd sid n nt user up w = (Inr (n', k), w')"
  obtains s w1 db1 where "file_update_guards P sid n user (fw_db w) = Inr ()"
    "stage_upload P F rq rd sid (nat (n + 1)) user up w = (Inr s, w1)"
    "file_version_rows rq rd sid n nt user up s (fw_db w1) = Inr db1"
    "fw_db w' = commit_with_audit P rq ''secret_updated'' sid user (fw_db w1) db1" "fw_store w' = fw_store w1"
    "n' = n + 1" "k = length (up_data up)"
proof -
  from assms have g: "file_update_guards P sid n user (fw_db w) = Inr ()"
    by (auto simp: update_file_secret_def split: sum.splits)
  from assms g obtain s w1 where s: "stage_upload P F rq rd sid (nat (n + 1)) user up w = (Inr s, w1)"
    by (auto simp: update_file_secret_def split: sum.splits prod.splits)
  from assms g s obtain db1 where r: "file_version_rows rq rd sid n nt user up s (fw_db w1) = Inr db1"
    by (auto simp: update_file_secret_def split: sum.splits prod.splits)
  let ?w = "set_db (commit_with_audit P rq ''secret_updated'' sid user (fw_db w1) db1) w1"
  from assms g s r obtain u w2 where c: "commit_or_reconcile [st_reservation s] (cu_id user) ?w = (Inr u, w2)" "w' = w2"
    "n' = n + 1" "k = st_size s"
    by (auto simp: update_file_secret_def split: sum.splits prod.splits)
  show thesis
    using that [OF g s r] c commit_or_reconcile_sel [OF c(1)] stage_upload_Inr(1) [OF s] by simp
qed

text \<open>
  a new version of a file is published completely and loses nothing: after a successful update
  the current version is the next number, its file is the upload, and every file that could be
  read as an older version still can.  The exception is an address that is no inet value: then the answer
  is the same, but every row of the secret is what it was.
\<close>

theorem file_update_publishes:
  assumes cipher: "aead_ok (cr P)" "length (kek (cr P)) = 32" "file_rand_ok rd" "is_text (upload_name up)"
    and store: "store_laws F" and n: "0 \<le> n"
    and upd: "update_file_secret P F rq rd sid n nt user up w = (Inr (n', k), w')"
  shows "n' = n + 1 \<and> k = length (up_data up) \<and>
    (if inet_ok P (rq_ip rq)
     then file_of P (fw_db w') (fw_store w') sid n' = Some (upload_name up, up_data up) \<and>
       file_of P (fw_db w) (fw_store w) sid \<subseteq>\<^sub>m file_of P (fw_db w') (fw_store w') sid \<and>
       map_option s_version (secret_of (fw_db w') sid) = Some n'
     else \<exists>ps. fw_db w' = (fw_db w)\<lparr>pending_uploads := ps\<rparr>)"
proof -
  obtain s w1 db1 where st: "stage_upload P F rq rd sid (nat (n + 1)) user up w = (Inr s, w1)"
    and r: "file_version_rows rq rd sid n nt user up s (fw_db w1) = Inr db1"
    and w': "fw_db w' = commit_with_audit P rq ''secret_updated'' sid user (fw_db w1) db1" "fw_store w' = fw_store w1"
    and res: "n' = n + 1" "k = length (up_data up)"
    by (rule update_file_secret_Inr [OF upd])
  note f = file_version_rows_Inr [OF r]
  let ?p = "pending_uploads (fw_db w1)"
  have w1: "fw_db w1 = (fw_db w)\<lparr>pending_uploads := ?p\<rparr>"
    using stage_upload_Inr(7) [OF st] by (auto simp: insert_pending_Inr)
  have st1: "fw_store w1 = (fw_store w)(st_key s \<mapsto> st_encrypted s)" by (rule staged_stored [OF store st])
  have sec: "secret_of db1 sid \<noteq> None" "user_of db1 (cu_id user) \<noteq> None"
      "map_option s_version (secret_of db1 sid) = Some (n + 1)"
    using f(1) by (auto simp: f(2) with_version_rows_def secret_of_def user_of_def row_of_update)
  let ?e = "\<lparr>ae_action = ''secret_updated'', ae_actor = Some (cu_id user), ae_ip = Some (rq_ip rq), ae_secret = Some sid,
        ae_severity = Info\<rparr>"
  have acc: "audit_accepts P ?e db1 \<longleftrightarrow> inet_ok P (rq_ip rq)"
    using sec by (auto simp: audit_accepts_def audit_actions_def)
  show ?thesis
  proof (cases "inet_ok P (rq_ip rq)")
    case False
    then have "fw_db w' = fw_db w1" using acc by (simp add: w'(1) commit_with_audit_def commit_audit)
    then show ?thesis using False res w1 by auto
  next
    case True
    let ?l = "sql_insert (audit_row_of rq ?e) (audit_logs db1)"
    have db: "fw_db w' = db1\<lparr>audit_logs := ?l\<rparr>"
      using acc True by (simp add: w'(1) commit_with_audit_def commit_audit)
    have new: "version_of (fw_db w1) sid (n + 1) = None" using f(1) by simp
    note v = version_with_version_rows [OF new, of rq rd nt user up s]
    let ?kv = "max_key_version (fw_db w1) sid + 1"
    let ?row = "\<lparr>k_secret = sid, k_wrapped = st_wrapped s, k_nonce = st_dek_nonce s, k_version = ?kv, k_rotated = Some (rq_clock rq)\<rparr>"
    have "sql_select (\<lambda>k. k_version k = ?kv) (keys_of (fw_db w1) sid) = []" by (rule select_version_none) simp
    then have key: "sql_select (\<lambda>k. k_version k = ?kv) (keys_of db1 sid) = [?row]"
      by (simp add: f(2) keys_with_version_rows sql_select_def)
    have "open_object P sid (int (nat (n + 1))) (file_version rq sid (n + 1) ?kv s up (cu_id user) nt) (st_encrypted s) db1 =
        Inr (upload_name up, up_data up)"
      by (rule open_staged [OF cipher st key]) simp_all
    then have o: "open_object P sid (n + 1) (file_version rq sid (n + 1) ?kv s up (cu_id user) nt) (st_encrypted s) db1 =
        Inr (upload_name up, up_data up)" using n by simp
    have cur: "file_of P (fw_db w') (fw_store w') sid (n + 1) = Some (upload_name up, up_data up)"
      using v [of "n + 1"] o st1 by (simp add: file_of_def db f(2) w'(2)) (simp add: file_version_def)
    have old: "file_of P (fw_db w') (fw_store w') sid m = Some x" if m: "file_of P (fw_db w) (fw_store w) sid m = Some x" for m x
    proof -
      from m obtain v key k enc where o: "version_of (fw_db w) sid m = Some v" "v_object v = Some key" "v_key v = Some k"
        "fw_store w key = Some enc" "open_object P sid m v enc (fw_db w) = Inr x" unfolding file_of_Some by blast
      have same: "version_of (fw_db w1) sid m = Some v" by (subst w1) (simp add: o(1))
      have "v \<in> set (secret_versions (fw_db w1))" using row_of_Some same by (fastforce simp: version_of_def)
      then have "key \<noteq> st_key s" using f(1) o(2) by auto
      moreover have "m \<noteq> n + 1" using same new by auto
      moreover have "open_object P sid m v enc db1 = Inr x"
      proof -
        have "get_dek_for_secret (cr P) (fw_db w1) sid (Some k) = get_dek_for_secret (cr P) (fw_db w) sid (Some k)"
          by (subst w1, rule get_dek_cong) simp
        with o(3,5) dek_with_version_rows [of "cr P" "fw_db w1" sid k] show ?thesis
          by (auto simp: open_object_def bind_res_eq_Inr f(2))
      qed
      ultimately show ?thesis
        using o same v [of m] st1 by (simp add: file_of_Some db w'(2) f(2))
    qed
    show ?thesis using True res cur old sec(3) by (auto simp: db map_le_def dom_def)
  qed
qed

definition update_fw :: file_world where
  "update_fw = \<lparr>fw_world = sample_world\<lparr>wd_db := (wd_db sample_world)\<lparr>
     secrets := [file_secret demo_platform demo_request 5 sample_form False 1 []]\<rparr>\<rparr>, fw_store = Map.empty\<rparr>"

lemma update_fw_sel [simp]:
  "users (fw_db update_fw) = [sample_user_row]" "secret_versions (fw_db update_fw) = []" "pending_uploads (fw_db update_fw) = []"
  "secrets (fw_db update_fw) = [file_secret demo_platform demo_request 5 sample_form False 1 []]"
  "fw_quota update_fw = Some empty_store"
  by (simp_all add: update_fw_def sample_world_def empty_db_def)

lemma sample_file_updated:
  "\<exists>r w'. update_file_secret demo_platform demo_lib demo_request sample_file_rand 5 1 None sample_user sample_upload update_fw =
     (Inr r, w')"
proof -
  have id: "cu_id sample_user = 1" "fr_pending sample_file_rand = 11"
    by (simp_all add: sample_user_def sample_file_rand_def)
  have s: "secret_of (fw_db update_fw) 5 = Some (file_secret demo_platform demo_request 5 sample_form False 1 [])"
    "user_of (fw_db update_fw) 1 = Some sample_user_row"
    by (simp_all add: secret_of_def user_of_def sample_user_row_def)
  have g: "file_update_guards demo_platform 5 1 sample_user (fw_db update_fw) = Inr ()"
    by (simp add: file_update_guards_def s require_owns_Inr [THEN iffD2] id)
  obtain r q where r: "reserve demo_platform (fw_db update_fw) (rq_now demo_request) 14 1 0 5 (fw_quota update_fw) = (Inr r, Some q)"
    by (simp add: reserve_def lua_reserve_def empty_store_def usage_or_0_def durable_usage_def update_fw_def sample_world_def
        limits_for_user_def empty_db_def sql_select_def sum_of_def demo_settings_def incr_usage_def Let_def)
  obtain st w1 where st: "stage_upload demo_platform demo_lib demo_request sample_file_rand 5 2 sample_user sample_upload update_fw = (Inr st, w1)"
    using demo_staged [OF r, of 2] s by auto
  note f = stage_upload_Inr [OF st]
  have db1: "fw_db w1 = (fw_db update_fw)\<lparr>pending_uploads := pending_uploads (fw_db w1)\<rparr>" and q: "fw_quota w1 \<noteq> None"
    using f(7) stage_upload_quota [OF st] by (auto simp: insert_pending_Inr)
  have tab: "secrets (fw_db w1) = secrets (fw_db update_fw)" "secret_versions (fw_db w1) = []" "users (fw_db w1) = [sample_user_row]"
    by (subst db1, simp)+
  have len: "py_len ''text/plain'' \<le> 255" by (simp add: py_len_def le_trans [OF length_filter_le])
  have s1: "secret_of (fw_db w1) 5 = Some (file_secret demo_platform demo_request 5 sample_form False 1 [])"
    using s(1) by (simp add: secret_of_def tab)
  obtain db2 where "file_version_rows demo_request sample_file_rand 5 1 None sample_user sample_upload st (fw_db w1) = Inr db2"
    using len s1
    by (auto simp: file_version_rows_def require_owns_Inr [THEN iffD2] id insert_file_version_Inr [THEN iffD2] add_key_def Let_def
        version_of_def user_of_def tab sample_upload_def secret_of_def sample_user_row_def)
  with g st q show ?thesis
    using commit_each_Some [OF q, of "[st_reservation st]"]
    by (auto simp: update_file_secret_def commit_or_reconcile_def)
qed

theorem file_update_publishes_witness:
  "\<exists>w'. update_file_secret demo_platform demo_lib demo_request sample_file_rand 5 1 None sample_user sample_upload update_fw =
      (Inr (2, length (up_data sample_upload)), w') \<and>
     file_of demo_platform (fw_db w') (fw_store w') 5 2 = Some (''tmp/a.txt'', ''hello'')"
proof -
  from sample_file_updated obtain n k w' where
    u: "update_file_secret demo_platform demo_lib demo_request sample_file_rand 5 1 None sample_user sample_upload update_fw =
      (Inr (n, k), w')" by (metis surj_pair)
  have t: "is_text (upload_name sample_upload)" by code_simp
  have "inet_ok demo_platform (rq_ip demo_request)" by (simp add: demo_request_def)
  with file_update_publishes [OF _ _ sample_file_rand_ok t demo_lib_laws _ u] u show ?thesis
    by (auto simp: tag_crypto_laws upload_name_def) (simp_all add: sample_upload_def)
qed

end
