(* ===== verification/Secret_Life.thy ===== *)
theory Secret_Life
  imports Secret_Versions Cleanup File_Uploads
begin

text \<open>
  The life of one secret when requests overlap.  A retrieval is two transactions: \<open>authorize\<close> reads the
  location rules on a connection of its own, and the locked part checks everything else and counts the
  view; a download is built the same way.  \<open>life_step\<close> takes such transactions one at a time, in any order and
  for any secret, with whatever policy version an earlier \<open>authorize\<close> gave, and counts the successful
  retrievals of the secret \<open>sid\<close>.  A random identifier is not the one of a secret that exists: creations are those of
  other secrets.
\<close>

inductive life_step :: "platform \<Rightarrow> uuid \<Rightarrow> nat \<times> database \<Rightarrow> nat \<times> database \<Rightarrow> bool" for P sid where
  authorized: "life_step P sid (n, db) (n, snd (authorize P rq x token db))"
| retrieved: "retrieve_locked P rq pv x pw user db = (Inr c, db') \<Longrightarrow>
    life_step P sid (n, db) (if x = sid then Suc n else n, db')"
| refused: "retrieve_locked P rq pv x pw user db = (Inl e, db') \<Longrightarrow> life_step P sid (n, db) (n, db')"
| downloaded: "life_step P sid (n, db) (n, snd (download_locked P rq pv x version encrypted user db))"
| updated: "life_step P sid (n, db) (n, snd (update_secret P rq rd x body owner db))"
| restored: "life_step P sid (n, db) (n, snd (restore_secret_version P rq rd x version owner db))"
| rotated: "life_step P sid (n, db) (n, snd (rotate_secret_key P rq rd x owner db))"
| file_updated: "file_version_rows rq frd x version nt owner up s db = Inr db1 \<Longrightarrow>
    life_step P sid (n, db) (n, commit_with_audit P rq action x owner db db1)"
| rules: "life_step P sid (n, db) (n, snd (update_location_policy P rq x rules' owner db))"
| deleted: "life_step P sid (n, wd_db w) (n, wd_db (snd (delete_secret P rq x owner w)))"
| expired: "life_step P sid (n, wd_db w) (n, wd_db (snd (delete_expired_secret P rq token x w)))"
| swept: "life_step P sid (n, db) (n, snd (sweep_rows rq db))"
| created: "create_rows P rq rd body uid db = Inr (token, db') \<Longrightarrow> rd_uuid rd \<noteq> sid \<Longrightarrow> life_step P sid (n, db) (n, db')"
| file_created: "publish_file P F rq frd form uid up s db = Inr (token, db') \<Longrightarrow> fr_secret frd \<noteq> sid \<Longrightarrow>
    life_step P sid (n, db) (n, db')"
| other: "secrets db' = secrets db \<Longrightarrow> access_policies db' = access_policies db \<Longrightarrow> life_step P sid (n, db) (n, db')"

subsection \<open>What stays, and what only grows\<close>

text \<open>What a secret was created with; the owner is set to null when the account goes.\<close>

definition same_terms :: "secret_row \<Rightarrow> secret_row \<Rightarrow> bool" where
  "same_terms s s' \<longleftrightarrow> s_created s' = s_created s \<and> s_expires s' = s_expires s \<and> s_max_views s' = s_max_views s \<and>
     s_protected s' = s_protected s \<and> s_password_hash s' = s_password_hash s \<and>
     s_email_restricted s' = s_email_restricted s \<and> s_payload s' = s_payload s \<and>
     (s_owner s' = s_owner s \<or> s_owner s' = None)"

definition views_open :: "secret_row \<Rightarrow> int" where
  "views_open s = max 0 (s_max_views s - s_view_count s)"

text \<open>From \<open>db\<close> to \<open>db'\<close> with \<open>n\<close> views of \<open>sid\<close>.\<close>

definition evolves :: "uuid \<Rightarrow> nat \<Rightarrow> database \<Rightarrow> database \<Rightarrow> bool" where
  "evolves sid n db db' \<longleftrightarrow>
     (case secret_of db sid of
        None \<Rightarrow> n = 0 \<and> secret_of db' sid = None
      | Some s \<Rightarrow> int n \<le> views_open s \<and>
          (\<forall>s'. secret_of db' sid = Some s' \<longrightarrow> same_terms s s' \<and> s_view_count s + int n \<le> s_view_count s')) \<and>
     (\<forall>p'. policy_of db' sid = Some p' \<longrightarrow> (\<exists>p. policy_of db sid = Some p \<and> p_version p \<le> p_version p'))"

definition life_ok :: "database \<Rightarrow> bool" where
  "life_ok db \<longleftrightarrow> distinct (map s_id (secrets db))"

lemma same_terms_trans: "same_terms s1 s2 \<Longrightarrow> same_terms s2 s3 \<Longrightarrow> same_terms s1 s3"
  by (auto simp: same_terms_def)

lemma evolves_refl [simp]: "evolves sid 0 db db"
  by (auto simp: evolves_def views_open_def same_terms_def split: option.split)

lemma evolves_0:
  "evolves sid 0 db db' \<longleftrightarrow>
     (\<forall>s'. secret_of db' sid = Some s' \<longrightarrow>
        (\<exists>s. secret_of db sid = Some s \<and> same_terms s s' \<and> s_view_count s \<le> s_view_count s')) \<and>
     (\<forall>p'. policy_of db' sid = Some p' \<longrightarrow> (\<exists>p. policy_of db sid = Some p \<and> p_version p \<le> p_version p'))"
  by (cases "secret_of db sid"; cases "secret_of db' sid") (auto simp: evolves_def views_open_def)

lemma same_terms_refl [simp]: "same_terms s s"
  by (simp add: same_terms_def)

lemma evolves_trans:
  assumes "evolves sid n db1 db2" and "evolves sid m db2 db3" shows "evolves sid (n + m) db1 db3"
proof -
  have "\<exists>p. policy_of db1 sid = Some p \<and> p_version p \<le> p_version p'" if "policy_of db3 sid = Some p'" for p'
    using assms that unfolding evolves_def by (metis order_trans)
  moreover have "case secret_of db1 sid of
      None \<Rightarrow> n + m = 0 \<and> secret_of db3 sid = None
    | Some s \<Rightarrow> int (n + m) \<le> views_open s \<and>
        (\<forall>s'. secret_of db3 sid = Some s' \<longrightarrow> same_terms s s' \<and> s_view_count s + int (n + m) \<le> s_view_count s')"
  proof (cases "secret_of db1 sid")
    case None
    then show ?thesis using assms by (simp add: evolves_def)
  next
    case (Some s)
    then have 1: "int n \<le> views_open s"
      "\<And>s'. secret_of db2 sid = Some s' \<Longrightarrow> same_terms s s' \<and> s_view_count s + int n \<le> s_view_count s'"
      using assms(1) by (auto simp: evolves_def)
    show ?thesis
    proof (cases "secret_of db2 sid")
      case None
      then show ?thesis using assms(2) 1(1) Some by (simp add: evolves_def)
    next
      case (Some s2)
      then have 2: "int m \<le> views_open s2"
        "\<And>s'. secret_of db3 sid = Some s' \<Longrightarrow> same_terms s2 s' \<and> s_view_count s2 + int m \<le> s_view_count s'"
        using assms(2) by (auto simp: evolves_def)
      have "int (n + m) \<le> views_open s" using 1(1) 2(1) 1(2) [OF Some] by (auto simp: views_open_def same_terms_def)
      moreover have "same_terms s s' \<and> s_view_count s + int (n + m) \<le> s_view_count s'" if "secret_of db3 sid = Some s'" for s'
        using 1(2) [OF Some] 2(2) [OF that] same_terms_trans by auto
      ultimately show ?thesis using \<open>secret_of db1 sid = Some s\<close> by simp
    qed
  qed
  ultimately show ?thesis by (simp add: evolves_def)
qed

text \<open>The form all steps but the retrieval have.\<close>

definition life_keeps :: "uuid \<Rightarrow> database \<Rightarrow> database \<Rightarrow> bool" where
  "life_keeps sid db db' \<longleftrightarrow> (life_ok db \<longrightarrow> life_ok db' \<and> evolves sid 0 db db')"

lemma life_keeps_refl [simp]: "life_keeps sid db db"
  by (simp add: life_keeps_def)

lemma life_keeps_trans [trans]: "life_keeps sid db1 db2 \<Longrightarrow> life_keeps sid db2 db3 \<Longrightarrow> life_keeps sid db1 db3"
  using evolves_trans [of sid 0 db1 db2 0 db3] by (simp add: life_keeps_def)

lemma life_keeps_same: "secrets db' = secrets db \<Longrightarrow> access_policies db' = access_policies db \<Longrightarrow> life_keeps sid db db'"
  by (simp add: life_keeps_def life_ok_def evolves_0 secret_of_def policy_of_def)

lemma life_keeps_update:
  assumes "secrets db' = sql_update p f (secrets db)" and "access_policies db' = access_policies db"
    and "\<And>s. s_id (f s) = s_id s" and "\<And>s. same_terms s (f s)" and "\<And>s. s_view_count s \<le> s_view_count (f s)"
  shows "life_keeps sid db db'"
proof -
  have look: "row_of s_id (sql_update p f t) k = map_option (\<lambda>s. if p s then f s else s) (row_of s_id t k)" for t k
    using assms(3) by (induction t) (auto simp: sql_update_def)
  show ?thesis using assms(1,2,4,5) map_sql_update [of s_id f, OF assms(3)]
    by (auto simp: life_keeps_def life_ok_def evolves_0 secret_of_def policy_of_def look)
qed

lemma life_keeps_delete: "life_keeps sid db (delete_secrets clock p db)"
proof -
  have gone: "row_of s_id (sql_delete p t) k = (case row_of s_id t k of None \<Rightarrow> None | Some s \<Rightarrow> if p s then None else Some s)"
    if "distinct (map s_id t)" for t and k :: uuid
    using that
  proof (induction t)
    case (Cons s t)
    then show ?case
      by (cases "p s"; cases "s_id s = k") (auto simp: sql_delete_def row_of_None [THEN iffD2] split: option.split)
  qed (simp add: sql_delete_def)
  have policies: "access_policies (delete_secrets clock p db) =
      sql_delete (\<lambda>q. p_secret q \<in> s_id ` set (sql_select p (secrets db))) (access_policies db)"
    by (simp add: delete_secrets_def Let_def)
  have kept: "policy_of (delete_secrets clock p db) sid = Some q \<Longrightarrow> policy_of db sid = Some q" for q
    using row_of_delete_where [of p_secret sid "\<lambda>q. p_secret q \<in> s_id ` set (sql_select p (secrets db))"
        "sid \<in> s_id ` set (sql_select p (secrets db))" "access_policies db"]
    by (auto simp: policy_of_def policies split: if_splits)
  show ?thesis
    using gone [of "secrets db" sid] kept distinct_delete [of s_id "secrets db" p]
    by (auto simp: life_keeps_def life_ok_def evolves_0 secret_of_def split: option.splits if_splits)
qed

lemma life_keeps_insert:
  assumes "secrets db' = sql_insert s (secrets db)" and "access_policies db' = access_policies db"
    and "s_id s \<noteq> sid" and "secret_of db (s_id s) = None"
  shows "life_keeps sid db db'"
proof -
  have "secret_of db' sid = secret_of db sid" "policy_of db' sid = policy_of db sid"
    using assms by (simp_all add: secret_of_def policy_of_def row_of_insert split: option.split)
  moreover have "life_ok db \<Longrightarrow> life_ok db'"
    using assms by (simp add: life_ok_def distinct_insert secret_of_def row_of_None)
  ultimately show ?thesis by (simp add: life_keeps_def evolves_0)
qed

lemma life_keeps_policy:
  assumes "secrets db' = secrets db" and "\<And>p'. policy_of db' sid = Some p' \<Longrightarrow> \<exists>p. policy_of db sid = Some p \<and> p_version p \<le> p_version p'"
  shows "life_keeps sid db db'"
  using assms by (simp add: life_keeps_def life_ok_def evolves_0 secret_of_def)

lemma life_keeps_commit:
  assumes "life_keeps sid db db1" shows "life_keeps sid db (commit_txn db (audit_log_conn P rq e db1))"
proof -
  have "life_keeps sid db1 (txn_db (audit_log_conn P rq e db1))"
    by (rule life_keeps_same) (auto simp: audit_log_conn_def insert_audit_def split: option.split)
  with assms show ?thesis by (auto simp: commit_txn_def intro: life_keeps_trans)
qed

lemma life_keeps_audit: "life_keeps sid db db1 \<Longrightarrow> life_keeps sid db (audit_log P rq e db1)"
  by (rule life_keeps_trans, assumption, rule life_keeps_same) simp_all

subsection \<open>Every step keeps it\<close>

lemma policies_view_count:
  "\<exists>A. access_policies (update_view_count clock x n v db) = sql_delete (\<lambda>y. p_secret y \<in> A) (access_policies db)"
proof -
  have none: "sql_delete (\<lambda>y. p_secret y \<in> {}) t = t" for t :: "policy_row list" by (simp add: sql_delete_def)
  show ?thesis
    by (simp add: update_view_count_def delete_secrets_def Let_def split: option.split) (metis none)
qed

lemma view_tables:
  assumes "life_ok db"
  shows "life_ok (update_view_count clock x n v db)"
    and "policy_of (update_view_count clock x n v db) sid = Some p \<Longrightarrow> policy_of db sid = Some p"
proof -
  have "map s_id (sql_update (\<lambda>s. s_id s = x) (\<lambda>s. s\<lparr>s_view_count := n, s_viewed := v\<rparr>) (secrets db)) = map s_id (secrets db)"
    by (rule map_sql_update) simp
  then show "life_ok (update_view_count clock x n v db)"
    using assms distinct_delete [of s_id "secrets db"] by (simp add: life_ok_def secrets_view_count)
  obtain A where "access_policies (update_view_count clock x n v db) = sql_delete (\<lambda>y. p_secret y \<in> A) (access_policies db)"
    using policies_view_count by blast
  then show "policy_of (update_view_count clock x n v db) sid = Some p \<Longrightarrow> policy_of db sid = Some p"
    using row_of_delete_where [of p_secret sid "\<lambda>y. p_secret y \<in> A" "sid \<in> A" "access_policies db"]
    by (simp add: policy_of_def split: if_splits)
qed

lemma view_evolves:
  assumes "life_ok db" and "secret_of db x = Some s" and "s_view_count s < s_max_views s"
  shows "evolves sid (if x = sid then 1 else 0) db (update_view_count clock x (s_view_count s + 1) v db)"
proof -
  have p: "policy_of (update_view_count clock x (s_view_count s + 1) v db) sid = Some p \<Longrightarrow> policy_of db sid = Some p" for p
    by (rule view_tables(2) [OF assms(1)])
  show ?thesis
  proof (cases "x = sid")
    case True
    then show ?thesis using assms p
      by (auto simp: evolves_def secret_of_view_count views_open_def same_terms_def split: if_splits)
  next
    case False
    then show ?thesis using p by (auto simp: evolves_0 secret_of_view_count)
  qed
qed

lemma view_keeps:
  assumes "secret_of db x = Some s"
  shows "life_keeps sid db (update_view_count clock x (s_view_count s + 1) v db)"
  unfolding life_keeps_def
proof (intro impI conjI)
  assume ok: "life_ok db"
  show "life_ok (update_view_count clock x (s_view_count s + 1) v db)" by (rule view_tables(1) [OF ok])
  show "evolves sid 0 db (update_view_count clock x (s_view_count s + 1) v db)"
    using view_tables(2) [OF ok] assms
    by (auto simp: evolves_0 secret_of_view_count same_terms_def split: if_splits)
qed

text \<open>The locked part of a retrieval leaves the database, or counts a view.\<close>

lemma retrieve_locked_snd:
  obtains "snd (retrieve_locked P rq pv x pw user db) = db" "\<not> ok (fst (retrieve_locked P rq pv x pw user db))"
  | s db1 v where "retrieve_guards P rq pv x pw user db = Inr s" "secrets db1 = secrets db"
      "access_policies db1 = access_policies db"
      "snd (retrieve_locked P rq pv x pw user db) = update_view_count (rq_clock rq) x (s_view_count s + 1) v db1"
proof (cases "retrieve_guards P rq pv x pw user db")
  case (Inl e)
  then show thesis using that(1) by (simp add: retrieve_locked_def)
next
  case g: (Inr s)
  show thesis
  proof (cases "read_content P db s")
    case (Inl e)
    then show thesis using that(1) g by (simp add: retrieve_locked_def)
  next
    case r: (Inr pc)
    obtain pt ce where pc: "pc = (pt, ce)" by (cases pc)
    show thesis
    proof (cases "record_view rq x user (s_version s) db")
      case (Inl e)
      then show thesis using that(1) g r pc by (simp add: retrieve_locked_def Let_def)
    next
      case v: (Inr rc)
      obtain rowcount db1 where rc: "rc = (rowcount, db1)" by (cases rc)
      let ?t = "audit_log_conn P rq (viewed_entry rq x user) db1"
      let ?f = "update_view_count (rq_clock rq) x (s_view_count s + 1) (s_max_views s \<le> s_view_count s + 1)"
      have run: "retrieve_locked P rq pv x pw user db =
          (if s_email_restricted s \<and> rowcount \<noteq> 1 then (Inl (http 500 ''Unable to record secret access''), db)
           else case exec_txn ?f ?t of Inl e \<Rightarrow> (Inl e, db)
             | Inr db3 \<Rightarrow> (case pt of None \<Rightarrow> (Inl (ValueError ''content''), db3)
                 | Some text \<Rightarrow> (Inr (\<lparr>ct_content = text, ct_created = s_created s, ct_expires = s_expires s,
                      ct_remaining = max 0 (s_max_views s - (s_view_count s + 1)),
                      ct_client_encrypted = ce, ct_version = s_version s\<rparr>,
                    if s_notify s then Some \<lparr>vn_secret = x, vn_email = s_notify_email s,
                       vn_webhook = s_webhook s, vn_ip = rq_ip rq\<rparr> else None), db3)))"
        by (simp add: retrieve_locked_def g r pc v rc Let_def)
      note fr = record_view_frame [OF v [unfolded rc]]
      have t: "secrets (txn_db ?t) = secrets db1" "access_policies (txn_db ?t) = access_policies db1"
        by (auto simp: audit_log_conn_def insert_audit_def split: option.split)
      show thesis
      proof (cases "(s_email_restricted s \<and> rowcount \<noteq> 1) \<or> txn_aborted ?t")
        case True
        then show thesis using that(1) by (auto simp: run exec_txn_def)
      next
        case False
        then have "snd (retrieve_locked P rq pv x pw user db) = ?f (txn_db ?t)"
          by (auto simp: run exec_txn_def split: option.split)
        then show thesis by (rule that(2) [OF g, rotated 2]) (simp_all add: t fr)
      qed
    qed
  qed
qed

lemma retrieve_keeps: "life_keeps sid db (snd (retrieve_locked P rq pv x pw user db))"
proof (rule retrieve_locked_snd [of P rq pv x pw user db])
  fix s db1 v assume s: "retrieve_guards P rq pv x pw user db = Inr s" "secrets db1 = secrets db"
      "access_policies db1 = access_policies db"
      "snd (retrieve_locked P rq pv x pw user db) = update_view_count (rq_clock rq) x (s_view_count s + 1) v db1"
  then have "secret_of db1 x = Some s" by (simp add: retrieve_guards_Inr secret_of_def)
  from life_keeps_trans [OF life_keeps_same [OF s(2,3)] view_keeps [OF this]] show ?thesis by (simp add: s(4))
qed simp

lemma retrieve_evolves:
  assumes "retrieve_locked P rq pv x pw user db = (Inr c, db')" and "life_ok db"
  shows "evolves sid (if x = sid then 1 else 0) db db'"
proof (rule retrieve_locked_snd [of P rq pv x pw user db])
  fix s db1 v assume s: "retrieve_guards P rq pv x pw user db = Inr s" "secrets db1 = secrets db"
      "access_policies db1 = access_policies db"
      "snd (retrieve_locked P rq pv x pw user db) = update_view_count (rq_clock rq) x (s_view_count s + 1) v db1"
  then have "secret_of db1 x = Some s" "s_view_count s < s_max_views s" "life_ok db1" "evolves sid 0 db db1"
    using assms(2) life_keeps_same [OF s(2,3), of sid] by (simp_all add: retrieve_guards_Inr secret_of_def life_ok_def life_keeps_def)
  with view_evolves [of db1 x s sid "rq_clock rq" v] evolves_trans [of sid 0 db db1 "if x = sid then 1 else 0"]
  show ?thesis using s(4) assms(1) by simp
qed (use assms in simp)

lemma authorize_keeps: "life_keeps sid db (snd (authorize P rq x token db))"
  by (rule life_keeps_same) (auto simp: authorize_def split: option.split sum.split)

lemma download_keeps: "life_keeps sid db (snd (download_locked P rq pv x version encrypted user db))"
proof (cases "download_guards pv x version db")
  case g: (Inr sv)
  obtain s v where sv: "sv = (s, v)" by (cases sv)
  have s: "secret_of db x = Some s" using g sv by (auto simp: download_guards_def split: option.splits if_splits)
  have "life_keeps sid db (commit_txn db (audit_log_conn P rq e (update_view_count clock x (s_view_count s + 1) b db1)))"
    if "record_view rq x user (s_version s) db = Inr (n, db1)" for e clock b n db1
  proof (rule life_keeps_commit, rule life_keeps_trans)
    note fr = record_view_frame [OF that]
    show "life_keeps sid db db1" by (rule life_keeps_same) (simp_all add: fr)
    show "life_keeps sid db1 (update_view_count clock x (s_view_count s + 1) b db1)"
      by (rule view_keeps) (use s fr in \<open>simp add: secret_of_def\<close>)
  qed
  then show ?thesis
    by (auto simp: download_locked_def g sv Let_def split: sum.split prod.split)
qed (simp add: download_locked_def)

lemma text_version_keeps:
  assumes "insert_text_version C rq rd x v t actor nt db = Inr (kv, db1)" shows "life_keeps sid db db1"
proof -
  let ?f = "\<lambda>ct m s. s\<lparr>s_content := Some ct, s_nonce := Some m, s_version := v, s_updated := rq_clock rq\<rparr>"
  have "\<exists>ct m. secrets db1 = sql_update (\<lambda>s. s_id s = x) (?f ct m) (secrets db) \<and> access_policies db1 = access_policies db"
    using assms
    by (auto simp: insert_text_version_def create_version_key_def add_key_def bind_res_eq_Inr insert_version_Inr
        Let_def set_current_def split: prod.splits) (intro exI, rule refl)
  then obtain ct m where "secrets db1 = sql_update (\<lambda>s. s_id s = x) (?f ct m) (secrets db)" "access_policies db1 = access_policies db"
    by blast
  then show ?thesis by (rule life_keeps_update) (simp_all add: same_terms_def)
qed

lemma update_keeps: "life_keeps sid db (snd (update_secret P rq rd x body owner db))"
proof (cases "update_guards P rq x body owner db")
  case (Inr s)
  then show ?thesis
    using text_version_keeps [THEN life_keeps_commit]
    by (auto simp: update_secret_def Let_def commit_with_audit_def split: sum.split prod.split)
qed (simp add: update_secret_def)

lemma restore_keeps: "life_keeps sid db (snd (restore_secret_version P rq rd x version owner db))"
proof (cases "restore_plaintext P x version owner db")
  case (Inr sp)
  then show ?thesis
    using text_version_keeps [THEN life_keeps_commit]
    by (auto simp: restore_secret_version_def Let_def commit_with_audit_def split: sum.split prod.split)
qed (simp add: restore_secret_version_def)

lemma rotate_key_keeps: "life_keeps sid db (snd (rotate_key C clock rd x db))"
proof -
  have "life_keeps sid db (set_current_version_row x ct m k (set_content x ct m (add_key x w n k r db)))" for ct m k w n r
    by (rule life_keeps_update [of _ "\<lambda>s. s_id s = x" "\<lambda>s. s\<lparr>s_content := Some ct, s_nonce := Some m\<rparr>"])
      (simp_all add: set_current_version_row_def set_content_def add_key_def same_terms_def)
  then show ?thesis
    by (auto simp: rotate_key_def create_version_key_def Let_def split: option.split sum.split prod.split)
qed

lemma rotate_keeps: "life_keeps sid db (snd (rotate_secret_key P rq rd x owner db))"
proof -
  obtain r db1 where r: "rotate_key (cr P) (rq_clock rq) rd x db = (r, db1)" by fastforce
  have k: "life_keeps sid db db1" using rotate_key_keeps [of sid db "cr P" "rq_clock rq" rd x] by (simp add: r)
  show ?thesis using k life_keeps_audit [OF k] by (auto simp: rotate_secret_key_def r split: option.split sum.split exc.split)
qed

lemma file_version_keeps:
  assumes "file_version_rows rq frd x version nt owner up s db = Inr db1"
  shows "life_keeps sid db (commit_with_audit P rq action x owner db db1)"
proof -
  have "life_keeps sid db db1"
    using assms
    by (intro life_keeps_update [of db1 "\<lambda>s. s_id s = x" "\<lambda>s. s\<lparr>s_version := version + 1, s_updated := rq_clock rq\<rparr>"])
      (auto simp: file_version_rows_def bind_res_eq_Inr Let_def insert_file_version_def insert_version_Inr add_key_def
        delete_pending_def set_file_version_def same_terms_def split: option.splits if_splits)
  then show ?thesis unfolding commit_with_audit_def by (rule life_keeps_commit)
qed

lemma rules_keep: "life_keeps sid db (snd (update_location_policy P rq x body owner db))"
proof -
  have "life_keeps sid db (set_token rq x t (set_policy x body (p_version p + 1) db))" if "policy_of db x = Some p" for p t
  proof (rule life_keeps_trans)
    show "life_keeps sid db (set_policy x body (p_version p + 1) db)"
    proof (rule life_keeps_policy)
      fix p' assume "policy_of (set_policy x body (p_version p + 1) db) sid = Some p'"
      then show "\<exists>p. policy_of db sid = Some p \<and> p_version p \<le> p_version p'"
        using that by (auto simp: set_policy_look split: if_splits)
    qed (simp add: set_policy_def)
    show "life_keeps sid (set_policy x body (p_version p + 1) db) (set_token rq x t (set_policy x body (p_version p + 1) db))"
      by (rule life_keeps_update [of _ "\<lambda>s. s_id s = x" "\<lambda>s. s\<lparr>s_signed_token := Some t, s_updated := rq_clock rq\<rparr>"])
        (simp_all add: set_token_def same_terms_def)
  qed
  then show ?thesis
    by (auto simp: update_location_policy_def Let_def intro: life_keeps_commit split: option.split sum.split)
qed

lemma delete_secret_keeps: "life_keeps sid (wd_db w) (wd_db (snd (delete_secret P rq x owner w)))"
proof -
  have "life_keeps sid db (delete_secrets c p (db\<lparr>audit_logs := l\<rparr>))" for db c p l
    by (rule life_keeps_trans [OF life_keeps_same life_keeps_delete]) simp_all
  then show ?thesis
    by (auto simp: delete_secret_def exec_txn_def audit_log_conn_eq split: option.split sum.split)
qed

lemma expired_keeps: "life_keeps sid (wd_db w) (wd_db (snd (delete_expired_secret P rq token x w)))"
  using life_keeps_audit [OF life_keeps_delete]
  by (auto simp: delete_expired_secret_def Let_def life_keeps_delete split: option.split prod.split)

lemma sweep_keeps: "life_keeps sid db (snd (sweep_rows rq db))"
proof -
  have "life_keeps sid db1 (delete_users p db1)" for p db1
    by (rule life_keeps_update [where p = "\<lambda>s. s_owner s \<in> Some ` set (map u_id (sql_select p (users db1)))" and
          f = "\<lambda>s. s\<lparr>s_owner := None\<rparr>"]) (simp_all add: delete_users_def Let_def same_terms_def)
  then have "life_keeps sid db (delete_users (sweep_user rq) (delete_secrets (rq_clock rq) (sweep_secret rq) db))"
    by (rule life_keeps_trans [OF life_keeps_delete])
  then show ?thesis
    by (rule life_keeps_trans) (rule life_keeps_same; simp add: sweep_rows_def delete_tracking_def Let_def)
qed

lemma life_keeps_insert_policy:
  assumes "secrets db' = secrets db" and "access_policies db' = sql_insert q (access_policies db)" and "p_secret q \<noteq> sid"
  shows "life_keeps sid db db'"
  using assms(1)
proof (rule life_keeps_policy)
  fix p' assume "policy_of db' sid = Some p'"
  then show "\<exists>p. policy_of db sid = Some p \<and> p_version p \<le> p_version p'"
    using assms(2,3) by (auto simp: policy_of_def row_of_insert split: option.splits)
qed

lemma create_keeps:
  assumes "create_rows P rq rd body uid db = Inr (token, db')" and "rd_uuid rd \<noteq> sid"
  shows "life_keeps sid db db'"
  using assms(1)
proof (rule create_rows_Inr)
  fix content nonce wrapped
  assume none: "secret_of db (rd_uuid rd) = None"
    and db': "db' = db\<lparr>
       secrets := sql_update (\<lambda>s. s_id s = rd_uuid rd) (\<lambda>s. s\<lparr>s_signed_token := Some token\<rparr>)
         (sql_insert ((created_row P rq (rd_uuid rd) body uid content nonce [])\<lparr>s_signed_token := None\<rparr>) (secrets db)),
       secret_keys := (case wrapped of None \<Rightarrow> secret_keys db | Some (w, n) \<Rightarrow>
         sql_insert \<lparr>k_secret = rd_uuid rd, k_wrapped = w, k_nonce = n, k_version = 1, k_rotated = None\<rparr> (secret_keys db)),
       secret_versions := sql_insert (text_version (rd_uuid rd) 1 content nonce
         (if wrapped = None then None else Some 1) (sc_content body) (Some uid) None (rq_clock rq)) (secret_versions db),
       secret_recipients := (case sc_allowed_emails body of None \<Rightarrow> secret_recipients db
         | Some es \<Rightarrow> secret_recipients db @ map (\<lambda>e. \<lparr>r_secret = rd_uuid rd, r_email = e\<rparr>) es),
       access_policies := sql_insert \<lparr>p_secret = rd_uuid rd, p_cidrs = sc_cidrs body, p_countries = sc_countries body,
         p_mode = sc_mode body, p_fail_closed = sc_fail_closed body, p_version = 1\<rparr> (access_policies db),
       secret_tracking := sql_insert \<lparr>t_secret = rd_uuid rd, t_owner = uid,
         t_retain = rq_txn rq + sc_ttl body * hour + VIEW_HISTORY_RETENTION_DAYS (cfg P) * day\<rparr> (secret_tracking db)\<rparr>"
  let ?row = "(created_row P rq (rd_uuid rd) body uid content nonce [])\<lparr>s_signed_token := None\<rparr>"
  let ?db1 = "db\<lparr>secrets := sql_insert ?row (secrets db)\<rparr>"
  let ?db2 = "?db1\<lparr>secrets := secrets db'\<rparr>"
  have "life_keeps sid db ?db1"
    by (rule life_keeps_insert [of _ ?row]) (use none assms(2) in \<open>simp_all add: created_row_def\<close>)
  also have "life_keeps sid ?db1 ?db2"
    by (rule life_keeps_update [of _ "\<lambda>s. s_id s = rd_uuid rd" "\<lambda>s. s\<lparr>s_signed_token := Some token\<rparr>"])
      (simp_all add: db' same_terms_def)
  also have "life_keeps sid ?db2 db'"
    by (rule life_keeps_insert_policy [of _ _ "\<lparr>p_secret = rd_uuid rd, p_cidrs = sc_cidrs body, p_countries = sc_countries body,
         p_mode = sc_mode body, p_fail_closed = sc_fail_closed body, p_version = 1\<rparr>"]) (use assms(2) in \<open>simp_all add: db'\<close>)
  finally show "life_keeps sid db db'" .
qed

lemma file_create_keeps:
  assumes "publish_file P F rq frd form uid up s db = Inr (token, db')" and "fr_secret frd \<noteq> sid"
  shows "life_keeps sid db db'"
  using assms(1)
proof (rule publish_file_Inr)
  fix rules assume "file_rows P F rq frd form rules uid up s token db = Inr db'"
  note f = file_rows_Inr [OF this]
  obtain emails cidrs countries where r: "rules = (emails, cidrs, countries)" by (cases rules)
  let ?row = "file_secret P rq (fr_secret frd) form (emails \<noteq> []) uid token"
  let ?q = "\<lparr>p_secret = fr_secret frd, p_cidrs = cidrs, p_countries = countries, p_mode = ff_mode form,
      p_fail_closed = ff_fail_closed form, p_version = 1\<rparr>"
  let ?db1 = "db\<lparr>secrets := sql_insert ?row (secrets db)\<rparr>"
  have "life_keeps sid db ?db1"
    by (rule life_keeps_insert [of _ ?row]) (use f(1) assms(2) in \<open>simp_all add: file_secret_def\<close>)
  also have "life_keeps sid ?db1 db'"
    by (rule life_keeps_insert_policy [of _ _ ?q]) (use assms(2) in \<open>simp_all add: f(2) r with_file_rows_def Let_def\<close>)
  finally show "life_keeps sid db db'" .
qed

lemma retrieved_keeps: "retrieve_locked P rq pv x pw user db = (r, db') \<Longrightarrow> life_keeps sid db db'"
  using retrieve_keeps [of sid db P rq pv x pw user] by simp

lemma life_step_keeps: "life_step P sid c c' \<Longrightarrow> life_keeps sid (snd c) (snd c')"
  by (induction rule: life_step.induct)
    (simp_all only: snd_conv,
      (rule authorize_keeps download_keeps update_keeps restore_keeps rotate_keeps rules_keep delete_secret_keeps
        expired_keeps sweep_keeps | erule retrieved_keeps file_version_keeps | erule (1) create_keeps file_create_keeps life_keeps_same)+)

lemma life_step_count:
  "life_step P sid c c' \<Longrightarrow> fst c' = fst c \<or> fst c' = Suc (fst c) \<and>
     (\<exists>rq pv pw user r. retrieve_locked P rq pv sid pw user (snd c) = (Inr r, snd c'))"
  by (induction rule: life_step.induct) (auto, intro exI)

lemma life_step_promise:
  assumes "life_step P sid c c'" and "life_ok (snd c)"
  shows "life_ok (snd c') \<and> fst c \<le> fst c' \<and> evolves sid (fst c' - fst c) (snd c) (snd c')"
proof -
  have k: "life_ok (snd c')" "evolves sid 0 (snd c) (snd c')"
    using life_step_keeps [OF assms(1)] assms(2) by (simp_all add: life_keeps_def)
  show ?thesis using life_step_count [OF assms(1)]
  proof (elim disjE conjE exE)
    fix rq pv pw user r
    assume "retrieve_locked P rq pv sid pw user (snd c) = (Inr r, snd c')" "fst c' = Suc (fst c)"
    with retrieve_evolves [OF this(1) assms(2), of sid] k show ?thesis by simp
  qed (use k in simp)
qed

interpretation sl: stepwise "life_step P sid" "\<lambda>c. life_ok (snd c)"
    "\<lambda>c c'. fst c \<le> fst c' \<and> evolves sid (fst c' - fst c) (snd c) (snd c')"
proof unfold_locales
  show "life_ok (snd c') \<and> fst c \<le> fst c' \<and> evolves sid (fst c' - fst c) (snd c) (snd c')"
    if "life_ok (snd c)" "life_step P sid c c'" for c c'
    using life_step_promise [OF that(2,1)] .
  show "fst c1 \<le> fst c3 \<and> evolves sid (fst c3 - fst c1) (snd c1) (snd c3)"
    if "fst c1 \<le> fst c2 \<and> evolves sid (fst c2 - fst c1) (snd c1) (snd c2)"
      "fst c2 \<le> fst c3 \<and> evolves sid (fst c3 - fst c2) (snd c2) (snd c3)" for c1 c2 c3 :: "nat \<times> database"
    using evolves_trans [of sid "fst c2 - fst c1" "snd c1" "snd c2" "fst c3 - fst c2" "snd c3"] that by simp
qed simp

subsection \<open>What every secret keeps\<close>


text \<open>C5: New rules are final: once the owner or an administrator has replaced the location rules of a secret, then
  whatever happens afterwards, no retrieval and no download that was authorised under the old rules is served, however late it
  arrives, and no link made for an earlier policy version is accepted.
\<close>

theorem revocation_final:
  assumes "update_location_policy P rq sid body user db = (Inr r, db1)"
    and "inet_ok P (rq_ip rq)" and "user_of db (cu_id user) \<noteq> None"
    and "(life_step P sid)\<^sup>*\<^sup>* (0, db1) (n, db2)" and "life_ok db1"
    and "pv < pr_version r"
  shows "\<not> ok (fst (retrieve_locked P rq2 pv sid pw viewer db2)) \<and>
    \<not> ok (fst (download_locked P rq2 pv sid version encrypted viewer db2)) \<and>
    \<not> ok (fst (authorize P rq2 sid (Some (create_signed_token (cr P) (SIGNED_URL_SECRET (cfg P)) now0 sid hours pv ex)) db2))"
proof -
  obtain p where p: "policy_of db1 sid = Some (p\<lparr>p_cidrs := lp_cidrs body, p_countries := lp_countries body,
        p_mode := lp_mode body, p_fail_closed := lp_fail_closed body, p_version := p_version p + 1\<rparr>)"
      "pr_version r = p_version p + 1"
    by (rule update_location_policy_Inr [OF assms(1-3)]) (rule that; assumption)
  have later: "pv < p_version q" if "policy_of db2 sid = Some q" for q
    using sl.reach [OF assms(4)] assms(5,6) that p by (fastforce simp: evolves_def)
  have "\<not> ok (fst (retrieve_locked P rq2 pv sid pw viewer db2))"
  proof (cases "retrieve_guards P rq2 pv sid pw viewer db2")
    case (Inr s)
    then show ?thesis using later by (fastforce simp: retrieve_guards_Inr)
  qed (simp add: retrieve_locked_def)
  moreover have "\<not> ok (fst (download_locked P rq2 pv sid version encrypted viewer db2))"
  proof (cases "download_guards pv sid version db2")
    case (Inr s)
    then show ?thesis using later by (fastforce simp: download_guards_def split: option.splits if_splits)
  qed (simp add: download_locked_def)
  moreover have "\<not> ok (fst (authorize P rq2 sid (Some (create_signed_token (cr P) (SIGNED_URL_SECRET (cfg P)) now0 sid hours pv ex)) db2))"
  proof (cases "policy_of db2 sid")
    case (Some q)
    then have "p_version q \<noteq> pv" using later by fastforce
    then show ?thesis using Some by (simp add: authorize_def check_created_token Let_def)
  qed (simp add: authorize_def)
  ultimately show ?thesis by blast
qed

text \<open>A retrieval of the sample secret, as two steps.\<close>

lemma live_steps: "\<exists>db'. (life_step demo_platform 5)\<^sup>*\<^sup>* (0, live_db) (1, db')"
proof -
  obtain c nt db' where "retrieve_secret demo_platform demo_request (uuid_str 5) None None None live_db = (Inr (c, nt), db')"
    using live_db_retrieved by blast
  then obtain sid and p :: policy_row where r: "parse_uuid (uuid_str 5) = Some sid" "authorize demo_platform demo_request sid None live_db = (Inr (p_version p), live_db)"
      "retrieve_locked demo_platform demo_request (p_version p) sid None None live_db = (Inr (c, nt), db')"
    by (rule retrieve_secret_Inr) (rule that; assumption)
  have "life_step demo_platform 5 (0, live_db) (0, live_db)"
    using life_step.authorized [of demo_platform 5 0 live_db demo_request sid None] by (simp add: r(2))
  moreover have "life_step demo_platform 5 (0, live_db) (1, db')"
    using life_step.retrieved [OF r(3), of 5 0] r(1) by (simp add: parse_uuid_str)
  ultimately show ?thesis by (meson rtranclp.rtrancl_into_rtrancl rtranclp.rtrancl_refl)
qed


theorem revocation_final_witness:
  "\<exists>r db1. update_location_policy demo_platform demo_request 5 sample_policy_body sample_user sample_secret_db = (Inr r, db1) \<and>
     pr_version r = 4 \<and> \<not> ok (fst (retrieve_locked demo_platform demo_request 3 5 None None (snd (sweep_rows demo_request db1))))"
proof -
  obtain r db1 where u: "update_location_policy demo_platform demo_request 5 sample_policy_body sample_user sample_secret_db = (Inr r, db1)"
    using sample_policy_update by blast
  have h: "inet_ok demo_platform (rq_ip demo_request)" "user_of sample_secret_db (cu_id sample_user) \<noteq> None"
    using sample_secret_db(3) by (simp_all add: demo_request_def sample_user_def)
  obtain p where p: "policy_of sample_secret_db 5 = Some p" "pr_version r = p_version p + 1"
    by (rule update_location_policy_Inr [OF u h]) (rule that; assumption)
  then have "p = sample_policy" using sample_secret_db(2) by simp
  then have v: "pr_version r = 4" using p(2) by (simp add: sample_policy_def)
  have "life_keeps 5 sample_secret_db db1"
    using rules_keep [of 5 sample_secret_db demo_platform demo_request 5 sample_policy_body sample_user] by (simp add: u)
  then have ok1: "life_ok db1" by (simp add: life_keeps_def life_ok_def sample_secret_db_def)
  have run: "(life_step demo_platform 5)\<^sup>*\<^sup>* (0, db1) (0, snd (sweep_rows demo_request db1))"
    by (intro r_into_rtranclp life_step.swept)
  from revocation_final [OF u h run ok1, of 3] u v show ?thesis by auto
qed

end
