(* ===== verification/Quota_Life.thy ===== *)
theory Quota_Life
  imports Secret_Life
begin

text \<open>
  The quota on active secrets, end to end.  A creation is several steps on two stores: the durable usage is
  read, a script reserves in Redis, a transaction publishes the rows, a script commits the reservation; the
  reservation of a request that fails is released, one that is abandoned is reaped.  \<open>quota_step\<close> takes
  these steps, those of all other transactions on secrets (\<open>life_step\<close>) and reconciliations in any order, for any number
  of users.  Shown: nobody ever has more secrets than the largest limit a grant was checked against, and the handlers
  are sequences of these steps.  What the code leaves to timing are guards of the steps: a secret is
  published while its reservation is open, a published reservation is committed before the reaper comes, and the
  usage a reconciliation writes has not been outgrown since it was read.
\<close>

subsection \<open>The secrets of a user\<close>

definition owned :: "database \<Rightarrow> uuid \<Rightarrow> int" where
  "owned db u = fst (durable_usage db u)"

definition owned_ids :: "database \<Rightarrow> uuid \<Rightarrow> uuid set" where
  "owned_ids db u = s_id ` {s \<in> set (secrets db). s_owner s = Some u}"

lemma owned_card:
  assumes "life_ok db" shows "owned db u = int (card (owned_ids db u))"
proof -
  have "card (set (map s_id (filter (\<lambda>s. s_owner s = Some u) (secrets db)))) =
      length (map s_id (filter (\<lambda>s. s_owner s = Some u) (secrets db)))"
    using assms by (intro distinct_card) (simp add: life_ok_def distinct_map_filter)
  then show ?thesis by (simp add: owned_def durable_usage_def owned_ids_def sql_select_def Let_def)
qed

lemma finite_owned_ids [simp]: "finite (owned_ids db u)"
  by (simp add: owned_ids_def)

lemma owned_ids_iff:
  assumes "life_ok db" shows "x \<in> owned_ids db u \<longleftrightarrow> (\<exists>s. secret_of db x = Some s \<and> s_owner s = Some u)"
proof -
  have "secret_of db x = Some s \<longleftrightarrow> s \<in> set (secrets db) \<and> s_id s = x" for s
    using row_of_distinct [of s_id "secrets db" s] assms
    by (auto simp: secret_of_def life_ok_def dest: row_of_Some)
  then show ?thesis by (auto simp: owned_ids_def)
qed

text \<open>A transaction that keeps the terms of a secret takes no owner's secret for another's.\<close>

lemma keeps_owned_ids:
  assumes "life_keeps x db db'" and "life_ok db" and "x \<in> owned_ids db' u" shows "x \<in> owned_ids db u"
proof -
  have ok: "life_ok db'" "evolves x 0 db db'" using assms(1,2) by (simp_all add: life_keeps_def)
  obtain s' where s': "secret_of db' x = Some s'" "s_owner s' = Some u"
    using assms(3) by (auto simp: owned_ids_iff [OF ok(1)])
  then obtain s where "secret_of db x = Some s" "same_terms s s'" using ok(2) by (auto simp: evolves_0)
  with s'(2) show ?thesis by (auto simp: owned_ids_iff [OF assms(2)] same_terms_def)
qed

lemma owned_mono:
  assumes "\<And>sid. life_keeps sid db db'" and "life_ok db" shows "owned db' u \<le> owned db u"
proof -
  have "life_ok db'" using assms by (simp add: life_keeps_def)
  moreover have "owned_ids db' u \<subseteq> owned_ids db u" using keeps_owned_ids [OF assms] by blast
  ultimately show ?thesis using assms(2) by (simp add: owned_card card_mono)
qed

lemma owned_insert:
  assumes "\<And>sid. sid \<noteq> x \<Longrightarrow> life_keeps sid db db'" and "life_ok db" and "life_ok db'"
    and "secret_of db' x = Some s" and "s_owner s = Some u"
  shows "owned db' v \<le> owned db v + (if v = u then 1 else 0)"
proof -
  have sub: "owned_ids db' v \<subseteq> (if v = u then insert x (owned_ids db v) else owned_ids db v)"
  proof
    fix y assume y: "y \<in> owned_ids db' v"
    show "y \<in> (if v = u then insert x (owned_ids db v) else owned_ids db v)"
    proof (cases "y = x")
      case True
      with y have "v = u" using assms(4,5) by (simp add: owned_ids_iff [OF assms(3)])
      with True show ?thesis by simp
    next
      case False
      from keeps_owned_ids [OF assms(1) [OF this] assms(2) y] show ?thesis by auto
    qed
  qed
  have "card (owned_ids db' v) \<le> card (owned_ids db v) + (if v = u then 1 else 0)"
    using card_mono [OF _ sub] card_insert_le_m1 [of "card (owned_ids db v) + 1" "owned_ids db v" x]
    by (auto simp: card_insert_if split: if_splits)
  then show ?thesis using assms(2,3) by (auto simp: owned_card split: if_splits)
qed

subsection \<open>The system\<close>

text \<open>
  The database, the counters in Redis, the reservations whose rows are published but which are not yet
  committed, and for every request that is reserving the database its reads have seen.
\<close>

record quota_sys =
  qy_db :: database
  qy_store :: quota_store
  qy_done :: "uuid set"
  qy_reads :: "uuid \<rightharpoonup> database"

inductive quota_step :: "platform \<Rightarrow> (uuid \<Rightarrow> int) \<Rightarrow> quota_sys \<Rightarrow> quota_sys \<Rightarrow> bool" for P L where
  usage_read: "quota_step P L s (s\<lparr>qy_reads := (qy_reads s)(rid \<mapsto> qy_db s)\<rparr>)"
| reserved: "qy_reads s rid = Some db0 \<Longrightarrow> fst (limits_for_user P db0 u) \<le> L u \<Longrightarrow> 0 \<le> n \<Longrightarrow> 0 \<le> b \<Longrightarrow>
    qs_hash (qy_store s) rid = None \<Longrightarrow> rid \<notin> qy_done s \<Longrightarrow>
    reserve P db0 now rid u n b (Some (qy_store s)) = (r, Some st') \<Longrightarrow> quota_step P L s (s\<lparr>qy_store := st'\<rparr>)"
| created: "create_rows P rq rd body u (qy_db s) = Inr (token, db') \<Longrightarrow> qs_hash (qy_store s) rid = Some h \<Longrightarrow>
    rh_user h = u \<Longrightarrow> rh_secrets h = 1 \<Longrightarrow> rid \<notin> qy_done s \<Longrightarrow>
    quota_step P L s (s\<lparr>qy_db := db', qy_done := insert rid (qy_done s)\<rparr>)"
| file_created: "publish_file P F rq frd form u up sg (qy_db s) = Inr (token, db') \<Longrightarrow> qs_hash (qy_store s) rid = Some h \<Longrightarrow>
    rh_user h = u \<Longrightarrow> rh_secrets h = 1 \<Longrightarrow> rid \<notin> qy_done s \<Longrightarrow>
    quota_step P L s (s\<lparr>qy_db := db', qy_done := insert rid (qy_done s)\<rparr>)"
| moved: "\<forall>sid. \<exists>n. life_step P sid (0, qy_db s) (n, db') \<Longrightarrow> quota_step P L s (s\<lparr>qy_db := db'\<rparr>)"
| committed: "commit r (Some (qy_store s)) = (x, Some st') \<Longrightarrow>
    quota_step P L s (s\<lparr>qy_store := st', qy_done := qy_done s - {re_id r}\<rparr>)"
| released: "release r (Some (qy_store s)) = Some st' \<Longrightarrow> re_id r \<notin> qy_done s \<Longrightarrow>
    \<forall>h. qs_hash (qy_store s) (re_id r) = Some h \<longrightarrow> rh_user h = re_user r \<Longrightarrow> quota_step P L s (s\<lparr>qy_store := st'\<rparr>)"
| reaped: "reap_expired_reservations now (Some (qy_store s)) = (x, Some st') \<Longrightarrow>
    \<forall>(rid, score) \<in> set (qs_zset (qy_store s)). score \<le> now div second \<longrightarrow> rid \<notin> qy_done s \<Longrightarrow>
    quota_step P L s (s\<lparr>qy_store := st'\<rparr>)"
| reconciled: "reconcile_user db0 u (Some (qy_store s)) = (x, Some st') \<Longrightarrow> owned (qy_db s) u \<le> owned db0 u \<Longrightarrow>
    quota_step P L s (s\<lparr>qy_store := st'\<rparr>)"

subsection \<open>The invariant\<close>

text \<open>What the published reservations of a user hold.\<close>

definition published :: "uuid \<Rightarrow> quota_sys \<Rightarrow> int" where
  "published u s = (\<Sum>rid \<in> qy_done s. held rh_secrets u (qs_hash (qy_store s)) rid)"

text \<open>
  The counters are exact for some settled base (\<open>quota_counters_exact\<close>).  What a user owns is covered by the base and
  the published reservations, and together with the reservations that may still be published it is within the limit.
\<close>

definition covered :: "uuid \<Rightarrow> (uuid \<Rightarrow> int \<times> int) \<Rightarrow> quota_sys \<Rightarrow> bool" where
  "covered u base s \<longleftrightarrow> qs_usage (qy_store s) u \<noteq> None \<longrightarrow> owned (qy_db s) u \<le> fst (base u) + published u s"

definition within :: "int \<Rightarrow> uuid \<Rightarrow> quota_sys \<Rightarrow> bool" where
  "within l u s \<longleftrightarrow> owned (qy_db s) u + outstanding rh_secrets u (qy_store s) - published u s \<le> l"

definition reads_ok :: "uuid \<Rightarrow> quota_sys \<Rightarrow> bool" where
  "reads_ok u s \<longleftrightarrow> (\<forall>rid db0. qy_reads s rid = Some db0 \<longrightarrow> qs_usage (qy_store s) u = None \<longrightarrow>
     owned (qy_db s) u \<le> owned db0 u)"

definition quota_ok :: "int \<Rightarrow> uuid \<Rightarrow> quota_sys \<Rightarrow> bool" where
  "quota_ok l u s \<longleftrightarrow> life_ok (qy_db s) \<and> finite (qy_done s) \<and> within l u s \<and> reads_ok u s \<and>
     (\<exists>base. quota_reach (qy_store s) base \<and> covered u base s)"

lemma held_nonneg:
  assumes "quota_wf st" shows "0 \<le> held rh_secrets u (qs_hash st) rid"
proof (cases "qs_hash st rid")
  case (Some r)
  then have "r \<in> ran (qs_hash st)" by (rule ranI)
  with assms Some show ?thesis by (auto simp: held_def quota_wf_def)
qed (simp add: held_def)

lemma published_nonneg: "quota_reach (qy_store s) base \<Longrightarrow> 0 \<le> published u s"
  unfolding published_def using reach_inv held_nonneg by (blast intro: sum_nonneg)

text \<open>A user without a counter has no reservation.\<close>

lemma no_counter:
  assumes "quota_reach st base" and "qs_usage st u = None"
  shows "held rh_secrets u (qs_hash st) rid = 0" and "outstanding rh_secrets u st = 0"
proof -
  have c: "users_counted st" "accounted st base" using reach_inv [OF assms(1)] by auto
  show "outstanding rh_secrets u st = 0" using accountedD(1) [OF c(2) assms(2)] by simp
  show "held rh_secrets u (qs_hash st) rid = 0"
  proof (cases "qs_hash st rid")
    case (Some r)
    then have "qs_usage st (rh_user r) \<noteq> None" using c(1) by (auto simp: users_counted_def ran_def)
    with assms(2) Some show ?thesis by (auto simp: held_def)
  qed (simp add: held_def)
qed

lemma no_counter_published:
  "quota_reach (qy_store s) base \<Longrightarrow> qs_usage (qy_store s) u = None \<Longrightarrow> published u s = 0"
  using no_counter(1) by (simp add: published_def)

text \<open>The published reservations are among the open ones.\<close>

lemma outstanding_sum:
  assumes "quota_wf st"
  shows "outstanding rh_secrets u st = (\<Sum>rid \<in> dom (qs_hash st). held rh_secrets u (qs_hash st) rid)"
proof -
  have d: "distinct (map fst (qs_zset st))" "dom (qs_hash st) = set (map fst (qs_zset st))"
    using assms by (auto simp: quota_wf_def)
  show ?thesis unfolding d(2) sum.distinct_set_conv_list [OF d(1)] by (simp add: outstanding_def comp_def)
qed

lemma published_le_outstanding:
  assumes "quota_reach (qy_store s) base" and "finite (qy_done s)"
  shows "published u s \<le> outstanding rh_secrets u (qy_store s)"
proof -
  let ?h = "qs_hash (qy_store s)"
  have wf: "quota_wf (qy_store s)" using reach_inv [OF assms(1)] by simp
  have "finite (set (map fst (qs_zset (qy_store s))))" by simp
  then have fin: "finite (dom ?h)" using wf by (simp add: quota_wf_def)
  have "published u s = (\<Sum>rid \<in> qy_done s \<inter> dom ?h. held rh_secrets u ?h rid)"
    unfolding published_def using assms(2)
    by (intro sum.mono_neutral_right) (auto simp: held_def split: option.splits)
  also have "\<dots> \<le> (\<Sum>rid \<in> dom ?h. held rh_secrets u ?h rid)"
    using fin held_nonneg [OF wf] by (intro sum_mono2) auto
  finally show ?thesis by (simp add: outstanding_sum [OF wf])
qed

lemma published_remove:
  assumes "finite (qy_done s)" and "qs_hash st' = (qs_hash (qy_store s))(rid := None)"
  shows "published u (s\<lparr>qy_store := st', qy_done := qy_done s - {rid}\<rparr>) =
    published u s - (if rid \<in> qy_done s then held rh_secrets u (qs_hash (qy_store s)) rid else 0)"
proof -
  have "published u (s\<lparr>qy_store := st', qy_done := qy_done s - {rid}\<rparr>) =
      (\<Sum>x \<in> qy_done s - {rid}. held rh_secrets u (qs_hash (qy_store s)) x)"
    unfolding published_def by (rule sum.cong) (auto simp: assms(2) held_upd simp del: fun_upd_apply)
  then show ?thesis using assms(1) by (simp add: published_def sum_diff1)
qed

lemma published_same:
  assumes "\<And>rid. rid \<in> qy_done s \<Longrightarrow> qs_hash st' rid = qs_hash (qy_store s) rid"
  shows "published u (s\<lparr>qy_store := st'\<rparr>) = published u s"
  unfolding published_def by (rule sum.cong) (simp_all add: held_def assms)

subsection \<open>Every step keeps it\<close>

lemma lua_reserve_limit:
  assumes "lua_reserve u rid n b sl bl ex ds db' st = ((g, x, y, z), st')" and "g \<noteq> 0"
  shows "fst (case qs_usage st u of None \<Rightarrow> (ds, db') | Some c \<Rightarrow> c) + n \<le> sl"
  using assms by (auto simp: lua_reserve_def Let_def split_beta usage_or_0_def split: if_splits option.splits)

lemma reserve_Some:
  assumes "reserve P db0 now rid u n b (Some st) = (r, Some st')"
  obtains g x y z where "lua_reserve u rid n b (fst (limits_for_user P db0 u)) (snd (limits_for_user P db0 u))
      (now div second + 600) (fst (durable_usage db0 u)) (snd (durable_usage db0 u)) st = ((g, x, y, z), st')"
    and "ok r \<longleftrightarrow> g \<noteq> 0" and "ok r \<Longrightarrow> r = Inr \<lparr>re_id = rid, re_user = u, re_secrets = n, re_bytes = b\<rparr>"
proof -
  obtain g x y z st1 where l: "lua_reserve u rid n b (fst (limits_for_user P db0 u)) (snd (limits_for_user P db0 u))
      (now div second + 600) (fst (durable_usage db0 u)) (snd (durable_usage db0 u)) st = ((g, x, y, z), st1)"
    by (metis surj_pair)
  show thesis
    by (rule that [of g x y z]) (use assms l in \<open>auto simp: reserve_def Let_def split_beta ok_def split: if_splits\<close>)
qed

lemma reserve_keeps:
  assumes ok: "quota_ok (L v) v s" and rd: "qy_reads s rid = Some db0"
    and lim: "fst (limits_for_user P db0 u) \<le> L u" and amounts: "0 \<le> n" "0 \<le> b"
    and new: "qs_hash (qy_store s) rid = None" "rid \<notin> qy_done s"
    and r: "reserve P db0 now rid u n b (Some (qy_store s)) = (r, Some st')"
  shows "quota_ok (L v) v (s\<lparr>qy_store := st'\<rparr>)"
proof -
  let ?st = "qy_store s" and ?s = "s\<lparr>qy_store := st'\<rparr>"
  obtain g x y z where lua: "lua_reserve u rid n b (fst (limits_for_user P db0 u)) (snd (limits_for_user P db0 u))
      (now div second + 600) (fst (durable_usage db0 u)) (snd (durable_usage db0 u)) ?st = ((g, x, y, z), st')"
    using r by (rule reserve_Some)
  obtain base where base: "quota_reach ?st base" "covered v base s" using ok by (auto simp: quota_ok_def)
  let ?base = "init_base u (fst (durable_usage db0 u)) (snd (durable_usage db0 u)) ?st base"
  have inv: "quota_wf ?st" "accounted ?st base" using reach_inv [OF base(1)] by auto
  have reach: "quota_reach st' ?base"
    using quota_reach.reserve [OF base(1) new(1) amounts] lua by (metis snd_conv)
  have "qs_hash st' x = qs_hash ?st x" if "x \<in> qy_done s" for x
    using lua that new(2) by (rule_tac reserve_store [OF lua]) auto
  then have pub: "published v ?s = published v s" by (rule published_same)
  note us = reserve_usage [OF lua] and out = outstanding_reserve(1) [OF inv(1) new(1) lua, of v]
  have own: "qs_usage ?st v = None \<Longrightarrow> owned (qy_db s) v \<le> owned db0 v"
    using ok rd by (auto simp: quota_ok_def reads_ok_def)
  have cov: "covered v ?base ?s"
    using base(2) own us published_nonneg [OF base(1), of v]
    by (auto simp: covered_def pub init_base_def owned_def split: if_splits)
  have "owned (qy_db s) v + outstanding rh_secrets v st' - published v s \<le> L v"
  proof (cases "g = 1 \<and> u = v")
    case True
    then have "fst (case qs_usage ?st v of None \<Rightarrow> durable_usage db0 v | Some c \<Rightarrow> c) + n \<le> L v"
      using lua_reserve_limit [OF lua] lim by (cases "qs_usage ?st v") auto
    then show ?thesis
      using True out own base(2) accountedD(2) [OF inv(2), of v] no_counter(2) [OF base(1), of v]
        published_nonneg [OF base(1), of v]
      by (cases "qs_usage ?st v") (auto simp: covered_def owned_def)
  next
    case False
    then show ?thesis using ok out by (auto simp: quota_ok_def within_def)
  qed
  moreover have "reads_ok v ?s" using ok us by (auto simp: quota_ok_def reads_ok_def split: if_splits)
  ultimately show ?thesis using ok reach cov by (auto simp: quota_ok_def within_def pub)
qed

text \<open>Rows that are published under a reservation of their owner.\<close>

lemma quota_publish_keeps:
  assumes ok: "quota_ok l v s" and h: "qs_hash (qy_store s) rid = Some h" "rh_user h = u" "rh_secrets h = 1"
    and new: "rid \<notin> qy_done s" and ok': "life_ok db'"
    and grows: "\<And>w. owned db' w \<le> owned (qy_db s) w + (if w = u then 1 else 0)"
  shows "quota_ok l v (s\<lparr>qy_db := db', qy_done := insert rid (qy_done s)\<rparr>)"
proof -
  let ?s = "s\<lparr>qy_db := db', qy_done := insert rid (qy_done s)\<rparr>"
  obtain base where base: "quota_reach (qy_store s) base" "covered v base s" using ok by (auto simp: quota_ok_def)
  have "held rh_secrets v (qs_hash (qy_store s)) rid = (if v = u then 1 else 0)"
    using h wf_uncommitted [of "qy_store s" rid h] reach_inv [OF base(1)] by (auto simp: held_def)
  then have pub: "published v ?s = published v s + (if v = u then 1 else 0)"
    using new ok by (simp add: published_def quota_ok_def)
  have "qs_usage (qy_store s) u \<noteq> None"
    using h(1,2) reach_inv [OF base(1)] by (auto simp: users_counted_def ran_def)
  then have "reads_ok v ?s" using ok grows [of v] by (force simp: quota_ok_def reads_ok_def split: if_splits)
  then show ?thesis
    using ok ok' base grows [of v] by (auto simp: quota_ok_def within_def covered_def pub split: if_splits)
qed

lemma move_keeps:
  assumes "quota_ok l v s" and "\<forall>sid. \<exists>n. life_step P sid (0, qy_db s) (n, db')"
  shows "quota_ok l v (s\<lparr>qy_db := db'\<rparr>)"
proof -
  have k: "life_keeps sid (qy_db s) db'" for sid
  proof -
    obtain n where "life_step P sid (0, qy_db s) (n, db')" using assms(2) by blast
    from life_step_keeps [OF this] show ?thesis by simp
  qed
  have "life_ok (qy_db s)" using assms(1) by (simp add: quota_ok_def)
  then have "life_ok db'" "owned db' v \<le> owned (qy_db s) v"
    using k owned_mono [OF k] by (simp_all add: life_keeps_def)
  moreover have "published v (s\<lparr>qy_db := db'\<rparr>) = published v s" by (simp add: published_def)
  ultimately show ?thesis
    using assms(1) by (fastforce simp: quota_ok_def within_def covered_def reads_ok_def)
qed

text \<open>Steps on the counters alone: what goes out of the open reservations either settles or was never published.\<close>

lemma commit_keeps:
  assumes ok: "quota_ok l v s" and c: "commit r (Some (qy_store s)) = (x, Some st')"
  shows "quota_ok l v (s\<lparr>qy_store := st', qy_done := qy_done s - {re_id r}\<rparr>)"
proof -
  let ?st = "qy_store s" and ?rid = "re_id r" and ?s = "s\<lparr>qy_store := st', qy_done := qy_done s - {re_id r}\<rparr>"
  have st': "st' = snd (lua_commit ?rid ?st)" using c by (simp add: commit_def)
  obtain base where base: "quota_reach ?st base" "covered v base s" using ok by (auto simp: quota_ok_def)
  have wf: "quota_wf ?st" using reach_inv [OF base(1)] by simp
  have reach: "quota_reach st' (settle (qs_hash ?st ?rid) base)" unfolding st' by (rule quota_reach.commit [OF base(1)])
  show ?thesis
  proof (cases "qs_hash ?st ?rid")
    case None
    then have same: "st' = ?st" by (simp add: st' lua_commit_def)
    have "published v ?s = published v s"
      using ok None by (simp add: published_def same quota_ok_def sum_diff1) (simp add: held_def)
    with ok reach None show ?thesis
      by (auto simp: same quota_ok_def within_def covered_def reads_ok_def settle_def)
  next
    case (Some h)
    note p = commit_present [OF Some, folded st']
    have amount: "held rh_secrets v (qs_hash ?st) ?rid = (if rh_user h = v then rh_secrets h else 0)"
      using Some wf_uncommitted [OF wf Some] by (simp add: held_def)
    have pub: "published v ?s = published v s - (if ?rid \<in> qy_done s then held rh_secrets v (qs_hash ?st) ?rid else 0)"
      using ok by (intro published_remove p(1)) (simp add: quota_ok_def)
    have out: "outstanding rh_secrets v st' = outstanding rh_secrets v ?st - held rh_secrets v (qs_hash ?st) ?rid"
      using outstanding_out [OF wf Some p(1,2), of rh_secrets v] amount by simp
    have "0 \<le> held rh_secrets v (qs_hash ?st) ?rid" by (rule held_nonneg [OF wf])
    moreover have "fst (settle (qs_hash ?st ?rid) base v) = fst (base v) + held rh_secrets v (qs_hash ?st) ?rid"
      using Some amount by (simp add: settle_def)
    ultimately have "covered v (settle (qs_hash ?st ?rid) base) ?s" "within l v ?s"
      using base(2) ok by (auto simp: covered_def within_def quota_ok_def pub out p(3))
    moreover have "reads_ok v ?s" using ok by (auto simp: quota_ok_def reads_ok_def p(3))
    ultimately show ?thesis using ok reach by (auto simp: quota_ok_def)
  qed
qed

lemma release_keeps:
  assumes ok: "quota_ok l v s" and c: "release r (Some (qy_store s)) = Some st'" and unpublished: "re_id r \<notin> qy_done s"
    and user: "\<forall>h. qs_hash (qy_store s) (re_id r) = Some h \<longrightarrow> rh_user h = re_user r"
  shows "quota_ok l v (s\<lparr>qy_store := st'\<rparr>)"
proof -
  let ?st = "qy_store s" and ?rid = "re_id r" and ?s = "s\<lparr>qy_store := st'\<rparr>"
  have st': "st' = snd (lua_release (re_user r) ?rid ?st)" using c by (simp add: release_def)
  obtain base where base: "quota_reach ?st base" "covered v base s" using ok by (auto simp: quota_ok_def)
  have wf: "quota_wf ?st" using reach_inv [OF base(1)] by simp
  have reach: "quota_reach st' base" unfolding st' using base(1) user by (intro quota_reach.release) auto
  show ?thesis
  proof (cases "qs_hash ?st ?rid")
    case None
    then have "st' = ?st" by (simp add: st' lua_release_def)
    with ok show ?thesis by simp
  next
    case (Some h)
    note p = release_present [OF wf Some, of "re_user r", folded st']
    have "qs_hash st' x = qs_hash ?st x" if "x \<in> qy_done s" for x using p(1) that unpublished by auto
    then have pub: "published v ?s = published v s" by (rule published_same)
    have out: "outstanding rh_secrets v st' \<le> outstanding rh_secrets v ?st"
      using outstanding_out [OF wf Some p(1,2), of rh_secrets v] Some wf by (auto simp: quota_wf_def ran_def)
    have none: "qs_usage st' v = None \<Longrightarrow> qs_usage ?st v = None" using p(3) by (auto split: if_splits)
    have "qs_usage ?st (re_user r) \<noteq> None"
      using Some user reach_inv [OF base(1)] by (auto simp: users_counted_def ran_def)
    then have "qs_usage st' v \<noteq> None \<Longrightarrow> qs_usage ?st v \<noteq> None" using p(3) by (auto split: if_splits)
    then have "covered v base ?s" using base(2) by (simp add: covered_def pub)
    moreover have "within l v ?s" using ok out by (simp add: within_def quota_ok_def pub)
    moreover have "reads_ok v ?s" using ok none by (auto simp: quota_ok_def reads_ok_def)
    ultimately show ?thesis using ok reach by (auto simp: quota_ok_def)
  qed
qed

text \<open>The reaper is a sequence of releases.\<close>

lemma reap_steps:
  assumes "quota_ok l v s" and "set ks \<inter> qy_done s = {}" and "distinct ks" and "set ks \<subseteq> dom (qs_hash (qy_store s))"
  shows "quota_ok l v (s\<lparr>qy_store := snd (reap_keys ks (qy_store s))\<rparr>)"
  using assms
proof (induction ks arbitrary: s)
  case (Cons rid ks)
  let ?st = "qy_store s"
  obtain h where h: "qs_hash ?st rid = Some h" using Cons.prems(4) by auto
  let ?r = "\<lparr>re_id = rid, re_user = rh_user h, re_secrets = 0, re_bytes = 0\<rparr>"
  let ?st1 = "snd (lua_release (rh_user h) rid ?st)"
  have "quota_ok l v (s\<lparr>qy_store := ?st1\<rparr>)"
    using Cons.prems(1,2) h by (intro release_keeps [of l v s ?r]) (simp_all add: release_def)
  moreover have "qs_hash ?st1 = (qs_hash ?st)(rid := None)" using h by (simp add: lua_release_def Let_def)
  then have "set ks \<subseteq> dom (qs_hash (qy_store (s\<lparr>qy_store := ?st1\<rparr>)))" using Cons.prems(3,4) by auto
  ultimately have "quota_ok l v (s\<lparr>qy_store := ?st1\<rparr>\<lparr>qy_store := snd (reap_keys ks ?st1)\<rparr>)"
    using Cons.IH [of "s\<lparr>qy_store := ?st1\<rparr>"] Cons.prems(2,3) by simp
  then show ?case by (simp add: h split_beta)
qed simp

lemma reap_keeps:
  assumes ok: "quota_ok l v s" and r: "reap_expired_reservations now (Some (qy_store s)) = (x, Some st')"
    and open': "\<forall>(rid, score) \<in> set (qs_zset (qy_store s)). score \<le> now div second \<longrightarrow> rid \<notin> qy_done s"
  shows "quota_ok l v (s\<lparr>qy_store := st'\<rparr>)"
proof -
  let ?p = "\<lambda>e :: uuid \<times> int. 0 \<le> snd e \<and> snd e \<le> now div second"
  let ?ks = "map fst (filter ?p (qs_zset (qy_store s)))"
  have wf: "quota_wf (qy_store s)" using ok reach_inv by (auto simp: quota_ok_def)
  have st': "st' = snd (reap_keys ?ks (qy_store s))"
    using r by (auto simp: reap_expired_reservations_def Let_def split_beta)
  show ?thesis
    unfolding st' using open' expired_keys(1,2) [OF wf, of ?p] by (intro reap_steps [OF ok]) fastforce+
qed

lemma reconcile_keeps:
  assumes ok: "quota_ok l v s" and r: "reconcile_user db0 u (Some (qy_store s)) = (x, Some st')"
    and fresh: "owned (qy_db s) u \<le> owned db0 u"
  shows "quota_ok l v (s\<lparr>qy_store := st'\<rparr>)"
proof -
  let ?st = "qy_store s" and ?d = "durable_usage db0 u" and ?s = "s\<lparr>qy_store := st'\<rparr>"
  have st': "st' = snd (lua_reconcile u (fst ?d) (snd ?d) ?st)"
    using r by (simp add: reconcile_user_def Let_def split_beta)
  obtain base where base: "quota_reach ?st base" "covered v base s" using ok by (auto simp: quota_ok_def)
  have reach: "quota_reach st' (base(u := (fst ?d, snd ?d)))" unfolding st' by (rule quota_reach.reconcile [OF base(1)])
  note p = reconcile_store [of u "fst ?d" "snd ?d" ?st, folded st']
  have pub: "published v ?s = published v s" by (rule published_same) (simp add: p)
  have "covered v (base(u := (fst ?d, snd ?d))) ?s"
    using base(2) fresh published_nonneg [OF base(1), of v]
    by (auto simp: covered_def pub p owned_def)
  moreover have "within l v ?s"
    using ok outstanding_cong [of st' ?st rh_secrets v] by (simp add: within_def quota_ok_def pub p)
  moreover have "reads_ok v ?s" using ok by (auto simp: quota_ok_def reads_ok_def p split: if_splits)
  ultimately show ?thesis using ok reach by (auto simp: quota_ok_def)
qed

lemma create_rows_grow:
  assumes "create_rows P rq rd body u db = Inr (token, db')" and "life_ok db"
  shows "life_ok db'" and "owned db' v \<le> owned db v + (if v = u then 1 else 0)"
proof -
  have k: "life_keeps sid db db'" if "sid \<noteq> rd_uuid rd" for sid using create_keeps [OF assms(1), of sid] that by simp
  from k [of "rd_uuid rd + 1"] assms(2) show ok: "life_ok db'" by (simp add: life_keeps_def)
  have "\<exists>s. secret_of db' (rd_uuid rd) = Some s \<and> s_owner s = Some u"
    by (rule create_rows_Inr [OF assms(1)])
      (simp add: secret_of_def row_of_update row_of_insert created_row_def)
  then obtain s where "secret_of db' (rd_uuid rd) = Some s" "s_owner s = Some u" by blast
  from owned_insert [OF k assms(2) ok this] show "owned db' v \<le> owned db v + (if v = u then 1 else 0)" .
qed

lemma publish_file_grow:
  assumes "publish_file P F rq frd form u up sg db = Inr (token, db')" and "life_ok db"
  shows "life_ok db'" and "owned db' v \<le> owned db v + (if v = u then 1 else 0)"
proof -
  have k: "life_keeps sid db db'" if "sid \<noteq> fr_secret frd" for sid using file_create_keeps [OF assms(1), of sid] that by simp
  from k [of "fr_secret frd + 1"] assms(2) show ok: "life_ok db'" by (simp add: life_keeps_def)
  obtain rules where "file_rows P F rq frd form rules u up sg token db = Inr db'"
    using assms(1) by (rule publish_file_Inr)
  note f = file_rows_Inr [OF this]
  obtain emails cidrs countries where r: "rules = (emails, cidrs, countries)" by (cases rules)
  let ?row = "file_secret P rq (fr_secret frd) form (emails \<noteq> []) u token"
  have "secret_of db' (fr_secret frd) = Some ?row"
    using f(1) by (simp add: f(2) r with_file_rows_def secret_of_def row_of_insert Let_def file_secret_def)
  moreover have "s_owner ?row = Some u" by (simp add: file_secret_def)
  ultimately have "secret_of db' (fr_secret frd) = Some ?row" "s_owner ?row = Some u" by simp_all
  from owned_insert [OF k assms(2) ok this] show "owned db' v \<le> owned db v + (if v = u then 1 else 0)" .
qed

lemma quota_step_keeps:
  assumes "quota_step P L s s'" and "quota_ok (L v) v s" shows "quota_ok (L v) v s'"
  using assms
proof (induction rule: quota_step.induct)
  case (usage_read s rid)
  then show ?case by (auto simp: quota_ok_def reads_ok_def within_def covered_def published_def)
next
  case (created rq rd body u s token db' rid h)
  have ok: "life_ok (qy_db s)" using created.prems by (simp add: quota_ok_def)
  show ?case by (rule quota_publish_keeps [OF created.prems created.hyps(2-5)]) (rule create_rows_grow [OF created.hyps(1) ok])+
next
  case (file_created F rq frd form u up sg s token db' rid h)
  have ok: "life_ok (qy_db s)" using file_created.prems by (simp add: quota_ok_def)
  show ?case
    by (rule quota_publish_keeps [OF file_created.prems file_created.hyps(2-5)]) (rule publish_file_grow [OF file_created.hyps(1) ok])+
qed (rule reserve_keeps move_keeps commit_keeps release_keeps reap_keeps reconcile_keeps; assumption)+

interpretation qy: stepwise "quota_step P L" "quota_ok (L v) v" "\<lambda>_ _. True"
  by unfold_locales (auto intro: quota_step_keeps)

lemma quota_start:
  assumes "life_ok db" and "owned db u \<le> l"
  shows "quota_ok l u \<lparr>qy_db = db, qy_store = empty_store, qy_done = {}, qy_reads = Map.empty\<rparr>"
  using assms quota_reach.start [of "\<lambda>_. (0, 0)"]
  by (auto simp: quota_ok_def within_def covered_def reads_ok_def published_def outstanding_def empty_store_def)

subsection \<open>The limit holds\<close>


subsection \<open>The handlers are sequences of these steps\<close>

text \<open>A state of the system that has the database and the counters of a world.\<close>

definition at_world :: "quota_sys \<Rightarrow> database \<Rightarrow> quota_store option \<Rightarrow> bool" where
  "at_world s db q \<longleftrightarrow> qy_db s = db \<and> q = Some (qy_store s)"

text \<open>From \<open>s\<close> the steps lead to that world, and what was published there is committed again.\<close>

definition quota_leads :: "platform \<Rightarrow> (uuid \<Rightarrow> int) \<Rightarrow> quota_sys \<Rightarrow> database \<Rightarrow> quota_store option \<Rightarrow> bool" where
  "quota_leads P L s db q \<longleftrightarrow> (\<exists>s'. (quota_step P L)\<^sup>*\<^sup>* s s' \<and> at_world s' db q \<and> qy_done s' = qy_done s)"

lemma quota_leads_stay: "at_world s db q \<Longrightarrow> quota_leads P L s db q"
  by (auto simp: quota_leads_def)

lemma quota_leads_run:
  assumes "(quota_step P L)\<^sup>*\<^sup>* s s1" and "qy_done s1 = qy_done s" and "quota_leads P L s1 db q"
  shows "quota_leads P L s db q"
  using assms unfolding quota_leads_def by (metis rtranclp_trans)

lemma quota_leads_step:
  "quota_step P L s s1 \<Longrightarrow> qy_done s1 = qy_done s \<Longrightarrow> quota_leads P L s1 db q \<Longrightarrow> quota_leads P L s db q"
  by (rule quota_leads_run) auto

lemma step_moved:
  assumes "secrets db' = secrets (qy_db s)" and "access_policies db' = access_policies (qy_db s)"
  shows "quota_step P L s (s\<lparr>qy_db := db'\<rparr>)"
  by (rule quota_step.moved) (use life_step.other [OF assms] in blast)

text \<open>Reading and reserving: a refusal changes no reservation, a grant opens its own.\<close>

lemma reserve_steps:
  assumes "reserve P (qy_db s) now rid u n b (Some (qy_store s)) = (r, q)" and "0 \<le> n" "0 \<le> b"
    and "fst (limits_for_user P (qy_db s) u) \<le> L u" and new: "qs_hash (qy_store s) rid = None" "rid \<notin> qy_done s"
  obtains s1 where "(quota_step P L)\<^sup>*\<^sup>* s s1" "at_world s1 (qy_db s) q" "qy_done s1 = qy_done s"
    "qs_hash (qy_store s1) = (case r of Inl _ \<Rightarrow> qs_hash (qy_store s) | Inr _ \<Rightarrow>
       (qs_hash (qy_store s))(rid \<mapsto> \<lparr>rh_secrets = n, rh_bytes = b, rh_user = u, rh_committed = 0\<rparr>))"
    "\<And>res. r = Inr res \<Longrightarrow> re_id res = rid \<and> re_user res = u"
proof -
  obtain st1 where q: "q = Some st1" using assms(1) by (auto simp: reserve_def Let_def split_beta split: if_splits)
  let ?s0 = "s\<lparr>qy_reads := (qy_reads s)(rid \<mapsto> qy_db s)\<rparr>"
  let ?s1 = "?s0\<lparr>qy_store := st1\<rparr>"
  have "quota_step P L s ?s0" by (rule usage_read)
  moreover have "quota_step P L ?s0 ?s1"
    by (rule quota_step.reserved [of _ rid "qy_db s" P u L n b now r]) (use assms(1-4) new q in simp_all)
  ultimately have run: "(quota_step P L)\<^sup>*\<^sup>* s ?s1" by (rule converse_rtranclp_into_rtranclp [OF _ r_into_rtranclp])
  obtain g x y z where lua: "lua_reserve u rid n b (fst (limits_for_user P (qy_db s) u)) (snd (limits_for_user P (qy_db s) u))
      (now div second + 600) (fst (durable_usage (qy_db s) u)) (snd (durable_usage (qy_db s) u)) (qy_store s) = ((g, x, y, z), st1)"
    and g: "ok r \<longleftrightarrow> g \<noteq> 0" "ok r \<Longrightarrow> r = Inr \<lparr>re_id = rid, re_user = u, re_secrets = n, re_bytes = b\<rparr>"
    by (rule reserve_Some [OF assms(1) [unfolded q]]) blast
  show thesis
    by (rule that [OF run]) (use lua g q in \<open>auto simp: at_world_def ok_def split: sum.split elim!: reserve_store\<close>)
qed

lemma release_step:
  assumes "re_id r \<notin> qy_done s" and "\<forall>h. qs_hash (qy_store s) (re_id r) = Some h \<longrightarrow> rh_user h = re_user r"
  obtains s1 where "quota_step P L s s1" "at_world s1 (qy_db s) (release r (Some (qy_store s)))" "qy_done s1 = qy_done s"
    "qs_hash (qy_store s1) = (qs_hash (qy_store s))(re_id r := None)"
proof -
  obtain st1 where st1: "release r (Some (qy_store s)) = Some st1" by (simp add: release_def)
  show thesis
    by (rule that [OF quota_step.released [OF st1 assms]])
      (use st1 in \<open>auto simp: at_world_def release_def lua_release_def Let_def fun_eq_iff split: option.splits\<close>)
qed

lemma commit_step:
  obtains s1 st1 where "commit r (Some (qy_store s)) = (Inr (), Some st1)" "quota_step P L s s1"
    "s1 = s\<lparr>qy_store := st1, qy_done := qy_done s - {re_id r}\<rparr>"
  using quota_step.committed [of r s "Inr ()"] by (simp add: commit_def)

text \<open>Creating a text secret.\<close>

lemma create_secret_leads:
  assumes "at_world s (wd_db w) (wd_quota w)" and "qs_hash (qy_store s) rid = None" "rid \<notin> qy_done s"
    and "fst (limits_for_user P (wd_db w) (cu_id user)) \<le> L (cu_id user)"
    and "create_secret P rq rd rid body user w = (r, w')"
  shows "quota_leads P L s (wd_db w') (wd_quota w')"
proof -
  let ?u = "cu_id user"
  have w: "wd_db w = qy_db s" "wd_quota w = Some (qy_store s)" using assms(1) by (simp_all add: at_world_def)
  obtain x q where res: "reserve P (qy_db s) (rq_now rq) rid ?u 1 0 (Some (qy_store s)) = (x, q)" by (metis surj_pair)
  obtain s1 where s1: "(quota_step P L)\<^sup>*\<^sup>* s s1" "at_world s1 (qy_db s) q" "qy_done s1 = qy_done s"
      "qs_hash (qy_store s1) = (case x of Inl _ \<Rightarrow> qs_hash (qy_store s) | Inr _ \<Rightarrow>
         (qs_hash (qy_store s))(rid \<mapsto> \<lparr>rh_secrets = 1, rh_bytes = 0, rh_user = ?u, rh_committed = 0\<rparr>))"
      "\<And>res. x = Inr res \<Longrightarrow> re_id res = rid \<and> re_user res = ?u"
    by (rule reserve_steps [OF res _ _ _ assms(2,3), where L = L]) (use assms(4) in \<open>simp_all add: w\<close>)
  have q: "q = Some (qy_store s1)" "qy_db s1 = qy_db s" using s1(2) by (simp_all add: at_world_def)
  show ?thesis
  proof (rule quota_leads_run [OF s1(1,3)], cases x)
    case (Inl e)
    then show "quota_leads P L s1 (wd_db w') (wd_quota w')"
      using assms(5) res s1(2) by (auto simp: create_secret_def w intro: quota_leads_stay)
  next
    case (Inr res')
    note id = s1(5) [OF Inr]
    have h: "qs_hash (qy_store s1) rid = Some \<lparr>rh_secrets = 1, rh_bytes = 0, rh_user = ?u, rh_committed = 0\<rparr>"
      using s1(4) Inr by simp
    show "quota_leads P L s1 (wd_db w') (wd_quota w')"
    proof (cases "create_rows P rq rd body ?u (qy_db s)")
      case (Inl e)
      obtain s2 where s2: "quota_step P L s1 s2" "at_world s2 (qy_db s1) (release res' (Some (qy_store s1)))" "qy_done s2 = qy_done s1"
        by (rule release_step [of res' s1 P L]) (use id h assms(3) s1(3) in auto)
      have "w' = w\<lparr>wd_quota := release res' q\<rparr>" using assms(5) res \<open>x = Inr res'\<close> Inl by (simp add: create_secret_def w)
      then have "quota_leads P L s2 (wd_db w') (wd_quota w')"
        using s2(2) q w by (simp add: quota_leads_stay)
      then show ?thesis by (rule quota_leads_step [OF s2(1,3)])
    next
      case rows: (Inr td)
      obtain token db1 where td: "td = (token, db1)" by (cases td)
      let ?e = "\<lparr>ae_action = ''secret_created'', ae_actor = Some ?u, ae_ip = Some (rq_ip rq),
                 ae_secret = Some (rd_uuid rd), ae_severity = Info\<rparr>"
      let ?db2 = "commit_txn (wd_db w) (audit_log_conn P rq ?e db1)"
      have w': "wd_db w' = ?db2" "wd_quota w' = snd (commit res' q)"
        using assms(5) res Inr rows td
        by (auto simp: create_secret_def w q commit_def Let_def schedule_expiry_def split: option.splits)
      have "\<exists>s3. (quota_step P L)\<^sup>*\<^sup>* s1 s3 \<and> qy_db s3 = ?db2 \<and> qy_store s3 = qy_store s1 \<and> qy_done s3 - {rid} = qy_done s1"
      proof (cases "audit_accepts P ?e db1")
        case True
        let ?s2 = "s1\<lparr>qy_db := db1, qy_done := insert rid (qy_done s1)\<rparr>"
        have "quota_step P L s1 ?s2"
          by (rule quota_step.created [where h = "\<lparr>rh_secrets = 1, rh_bytes = 0, rh_user = ?u, rh_committed = 0\<rparr>"])
            (use rows td h assms(3) s1(3) q in simp_all)
        moreover have "quota_step P L ?s2 (?s2\<lparr>qy_db := ?db2\<rparr>)"
          by (rule step_moved) (use True in \<open>simp_all add: commit_audit\<close>)
        ultimately have "(quota_step P L)\<^sup>*\<^sup>* s1 (?s2\<lparr>qy_db := ?db2\<rparr>)" by auto
        then show ?thesis using assms(3) s1(3) by (intro exI [of _ "?s2\<lparr>qy_db := ?db2\<rparr>"]) auto
      next
        case False
        then show ?thesis using q w assms(3) s1(3) by (intro exI [of _ s1]) (auto simp: commit_audit)
      qed
      then obtain s3 where s3: "(quota_step P L)\<^sup>*\<^sup>* s1 s3" "qy_db s3 = ?db2" "qy_store s3 = qy_store s1"
          "qy_done s3 - {rid} = qy_done s1" by blast
      obtain s4 st4 where c: "commit res' (Some (qy_store s3)) = (Inr (), Some st4)" "quota_step P L s3 s4"
          "s4 = s3\<lparr>qy_store := st4, qy_done := qy_done s3 - {re_id res'}\<rparr>"
        by (rule commit_step)
      have "quota_leads P L s4 (wd_db w') (wd_quota w')"
        using c(1) s3 q id by (intro quota_leads_stay) (simp add: at_world_def w' c(3))
      moreover have "qy_done s4 = qy_done s1" using s3(4) id by (simp add: c(3))
      ultimately show ?thesis
        using quota_leads_run [OF rtranclp.rtrancl_into_rtrancl [OF s3(1) c(2)]] by blast
    qed
  qed
qed

text \<open>Staging a file: an audit entry or a pending row, and a reservation of bytes.\<close>

lemma scan_upload_tables:
  assumes "scan_upload P F rq user p db = (x, db1)"
  shows "secrets db1 = secrets db" and "access_policies db1 = access_policies db"
  using assms by (auto simp: scan_upload_def split: sum.splits if_splits)

lemma stage_object_tables:
  assumes "stage_object P F rq rd sid version user up p n detail r w = (x, w1)"
  shows "secrets (fw_db w1) = secrets (fw_db w)" and "access_policies (fw_db w1) = access_policies (fw_db w)"
    and "fw_quota w1 = fw_quota w"
    and "case x of Inl (e, br, key) \<Rightarrow> br = Some r | Inr sg \<Rightarrow> st_reservation sg = r"
  using assms
  by (auto simp: stage_object_def Let_def insert_pending_def split: sum.splits prod.splits if_splits)

definition open_for :: "quota_sys \<Rightarrow> uuid \<Rightarrow> reservation \<Rightarrow> bool" where
  "open_for s u r \<longleftrightarrow> re_id r \<notin> qy_done s \<and> re_user r = u \<and>
     (\<forall>h. qs_hash (qy_store s) (re_id r) = Some h \<longrightarrow> rh_user h = u)"

lemma stage_upload_leads:
  assumes s: "at_world s (fw_db w) (fw_quota w)" and new: "qs_hash (qy_store s) (fr_byte_rid rd) = None" "fr_byte_rid rd \<notin> qy_done s"
    and lim: "fst (limits_for_user P (fw_db w) (cu_id user)) \<le> L (cu_id user)"
    and st: "stage_upload P F rq rd sid version user up w = (x, w1)"
  obtains s1 where "(quota_step P L)\<^sup>*\<^sup>* s s1" "at_world s1 (fw_db w1) (fw_quota w1)" "qy_done s1 = qy_done s"
    "\<And>y. y \<noteq> fr_byte_rid rd \<Longrightarrow> qs_hash (qy_store s1) y = qs_hash (qy_store s) y"
    "case x of Inl (e, br, key) \<Rightarrow> \<forall>r. br = Some r \<longrightarrow> open_for s1 (cu_id user) r
      | Inr sg \<Rightarrow> open_for s1 (cu_id user) (st_reservation sg) \<and> re_id (st_reservation sg) = fr_byte_rid rd"
proof (cases "spool_upload (MAX_FILE_BYTES (cfg P)) (up_data up)")
  case (Inl e)
  show thesis by (rule that [of s]) (use st Inl s in \<open>auto simp: stage_upload_def\<close>)
next
  case (Inr pn)
  obtain p n where pn: "pn = (p, n)" by (cases pn)
  obtain y db1 where sc: "scan_upload P F rq user p (fw_db w) = (y, db1)" by (metis surj_pair)
  have w: "fw_db w = qy_db s" "fw_quota w = Some (qy_store s)" using s by (simp_all add: at_world_def)
  show thesis
  proof (cases y)
    case Inl': (Inl e)
    have "quota_step P L s (s\<lparr>qy_db := db1\<rparr>)"
      by (rule step_moved) (use scan_upload_tables [OF sc] w in simp_all)
    then show thesis
      by (intro that [of "s\<lparr>qy_db := db1\<rparr>"]) (use st Inr pn sc Inl' w in \<open>auto simp: stage_upload_def at_world_def\<close>)
  next
    case Inr': (Inr detail)
    then have db1: "db1 = qy_db s" using sc by (simp add: scan_upload_Inr w)
    obtain z q where res: "reserve P (qy_db s) (rq_now rq) (fr_byte_rid rd) (cu_id user) 0 (int n) (Some (qy_store s)) = (z, q)"
      by (metis surj_pair)
    obtain s1 where s1: "(quota_step P L)\<^sup>*\<^sup>* s s1" "at_world s1 (qy_db s) q" "qy_done s1 = qy_done s"
      "qs_hash (qy_store s1) = (case z of Inl _ \<Rightarrow> qs_hash (qy_store s) | Inr _ \<Rightarrow> (qs_hash (qy_store s))
         (fr_byte_rid rd \<mapsto> \<lparr>rh_secrets = 0, rh_bytes = int n, rh_user = cu_id user, rh_committed = 0\<rparr>))"
      "\<And>r. z = Inr r \<Longrightarrow> re_id r = fr_byte_rid rd \<and> re_user r = cu_id user"
      by (rule reserve_steps [OF res _ _ _ new, where L = L]) (use lim in \<open>simp_all add: w\<close>)
    have q: "q = Some (qy_store s1)" "qy_db s1 = qy_db s" using s1(2) by (simp_all add: at_world_def)
    let ?w = "set_quota q (set_db db1 w)"
    show thesis
    proof (cases z)
      case (Inl e)
      show thesis
        by (rule that [of s1]) (use st \<open>spool_upload _ _ = _\<close> pn sc Inr' db1 res Inl w s1 q in \<open>auto simp: stage_upload_def at_world_def\<close>)
    next
      case z: (Inr r)
      have so: "stage_object P F rq rd sid version user up p n detail r ?w = (x, w1)"
        using st Inr pn sc Inr' db1 res z w by (simp add: stage_upload_def)
      note t = stage_object_tables [OF so]
      let ?s2 = "s1\<lparr>qy_db := fw_db w1\<rparr>"
      have "quota_step P L s1 ?s2" by (rule step_moved) (use t(1,2) q db1 in simp_all)
      then have run: "(quota_step P L)\<^sup>*\<^sup>* s ?s2" using s1(1) by (rule rtranclp.rtrancl_into_rtrancl [rotated])
      show thesis
        by (rule that [OF run])
          (use t(3,4) s1(3-5) z q new in \<open>auto simp: at_world_def open_for_def split: sum.splits\<close>)
    qed
  qed
qed

lemma release_each_leads:
  assumes "at_world s db q" and "\<forall>r. Some r \<in> set rs \<longrightarrow> open_for s u r"
  shows "quota_leads P L s db (fold (\<lambda>r q. case r of None \<Rightarrow> q | Some r \<Rightarrow> release r q) rs q)"
  using assms
proof (induction rs arbitrary: s q)
  case Nil
  then show ?case by (simp add: quota_leads_stay)
next
  case (Cons x rs)
  show ?case
  proof (cases x)
    case None
    then show ?thesis using Cons by simp
  next
    case (Some r)
    have r: "open_for s u r" and q: "q = Some (qy_store s)" "qy_db s = db" using Cons.prems Some by (simp_all add: at_world_def)
    obtain s1 where s1: "quota_step P L s s1" "at_world s1 (qy_db s) (release r (Some (qy_store s)))" "qy_done s1 = qy_done s"
      "qs_hash (qy_store s1) = (qs_hash (qy_store s))(re_id r := None)"
      by (rule release_step [of r s P L]) (use r in \<open>auto simp: open_for_def\<close>)
    have "\<forall>r'. Some r' \<in> set rs \<longrightarrow> open_for s1 u r'"
      using Cons.prems(2) s1(3,4) by (auto simp: open_for_def)
    then have "quota_leads P L s1 db (fold (\<lambda>r q. case r of None \<Rightarrow> q | Some r \<Rightarrow> release r q) rs (release r q))"
      using s1(2) q by (intro Cons.IH) simp_all
    then show ?thesis using Some by (simp add: quota_leads_step [OF s1(1,3)])
  qed
qed

lemma give_back_leads:
  assumes "at_world s (fw_db w) (fw_quota w)" and "\<forall>r. Some r \<in> set rs \<longrightarrow> open_for s u r"
  shows "quota_leads P L s (fw_db (give_back F key rs w)) (fw_quota (give_back F key rs w))"
  using release_each_leads [OF assms] by (simp add: give_back_def set_quota_def)

lemma create_file_leads:
  assumes s: "at_world s (fw_db w) (fw_quota w)"
    and new: "qs_hash (qy_store s) (fr_secret_rid rd) = None" "fr_secret_rid rd \<notin> qy_done s"
      "qs_hash (qy_store s) (fr_byte_rid rd) = None" "fr_byte_rid rd \<notin> qy_done s" "fr_byte_rid rd \<noteq> fr_secret_rid rd"
    and lim: "fst (limits_for_user P (fw_db w) (cu_id user)) \<le> L (cu_id user)"
    and run: "create_file_secret P F rq rd form user up w = (r, w')"
  shows "quota_leads P L s (fw_db w') (fw_quota w')"
proof -
  let ?u = "cu_id user" and ?h = "\<lparr>rh_secrets = 1, rh_bytes = 0, rh_user = cu_id user, rh_committed = 0\<rparr>"
  have w: "fw_db w = qy_db s" "fw_quota w = Some (qy_store s)" using s by (simp_all add: at_world_def)
  obtain x q where res: "reserve P (qy_db s) (rq_now rq) (fr_secret_rid rd) ?u 1 0 (Some (qy_store s)) = (x, q)"
    by (metis surj_pair)
  obtain s1 where s1: "(quota_step P L)\<^sup>*\<^sup>* s s1" "at_world s1 (qy_db s) q" "qy_done s1 = qy_done s"
      "qs_hash (qy_store s1) = (case x of Inl _ \<Rightarrow> qs_hash (qy_store s) | Inr _ \<Rightarrow> (qs_hash (qy_store s))(fr_secret_rid rd \<mapsto> ?h))"
      "\<And>res. x = Inr res \<Longrightarrow> re_id res = fr_secret_rid rd \<and> re_user res = ?u"
    by (rule reserve_steps [OF res _ _ _ new(1,2), where L = L]) (use lim in \<open>simp_all add: w\<close>)
  have q: "q = Some (qy_store s1)" "qy_db s1 = qy_db s" using s1(2) by (simp_all add: at_world_def)
  show ?thesis
  proof (rule quota_leads_run [OF s1(1,3)], cases x)
    case (Inl e)
    then show "quota_leads P L s1 (fw_db w') (fw_quota w')"
      using run res s1(2) by (auto simp: create_file_secret_def w intro: quota_leads_stay)
  next
    case (Inr sr)
    note id = s1(5) [OF Inr]
    have h: "qs_hash (qy_store s1) (fr_secret_rid rd) = Some ?h" using s1(4) Inr by simp
    obtain y w1 where st: "stage_upload P F rq rd (fr_secret rd) 1 user up (set_quota q w) = (y, w1)" by (metis surj_pair)
    obtain s2 where s2: "(quota_step P L)\<^sup>*\<^sup>* s1 s2" "at_world s2 (fw_db w1) (fw_quota w1)" "qy_done s2 = qy_done s1"
      "\<And>z. z \<noteq> fr_byte_rid rd \<Longrightarrow> qs_hash (qy_store s2) z = qs_hash (qy_store s1) z"
      "case y of Inl (e, br, key) \<Rightarrow> \<forall>r. br = Some r \<longrightarrow> open_for s2 ?u r
        | Inr sg \<Rightarrow> open_for s2 ?u (st_reservation sg) \<and> re_id (st_reservation sg) = fr_byte_rid rd"
      by (rule stage_upload_leads [OF _ _ _ _ st, of s1 L])
        (use q s1(2-4) Inr new lim in \<open>auto simp: w at_world_def\<close>)
    have h2: "qs_hash (qy_store s2) (fr_secret_rid rd) = Some ?h" using s2(4) new(5) h by auto
    then have sr: "open_for s2 ?u sr" using id new(2) s1(3) s2(3) by (simp add: open_for_def)
    show "quota_leads P L s1 (fw_db w') (fw_quota w')"
    proof (rule quota_leads_run [OF s2(1,3)], cases y)
      case Inl': (Inl f)
      obtain e br key where f: "f = (e, br, key)" by (cases f)
      have "w' = give_back F key [br, Some sr] w1"
        using run res Inr st Inl' f by (simp add: create_file_secret_def w)
      then show "quota_leads P L s2 (fw_db w') (fw_quota w')"
        using give_back_leads [OF s2(2), of "[br, Some sr]" ?u P L F key] s2(5) sr Inl' f by simp
    next
      case y: (Inr sg)
      have br: "open_for s2 ?u (st_reservation sg)" "re_id (st_reservation sg) = fr_byte_rid rd" using s2(5) y by simp_all
      show "quota_leads P L s2 (fw_db w') (fw_quota w')"
      proof (cases "publish_file P F rq rd form ?u up sg (fw_db w1)")
        case Inl'': (Inl e)
        have "w' = give_back F (Some (st_key sg)) [Some (st_reservation sg), Some sr] w1"
          using run res Inr st y Inl'' by (simp add: create_file_secret_def w)
        then show ?thesis
          using give_back_leads [OF s2(2), of "[Some (st_reservation sg), Some sr]" ?u P L F "Some (st_key sg)"] br sr
          by simp
      next
        case pub: (Inr td)
        obtain token db1 where td: "td = (token, db1)" by (cases td)
        let ?db2 = "audit_log P rq (uploaded_entry rq (fr_secret rd) user) db1"
        let ?s3 = "s2\<lparr>qy_db := db1, qy_done := insert (fr_secret_rid rd) (qy_done s2)\<rparr>"
        let ?s4 = "?s3\<lparr>qy_db := ?db2\<rparr>"
        have "quota_step P L s2 ?s3"
          by (rule quota_step.file_created [where h = ?h])
            (use pub td h2 s2(2,3) s1(3) new(2) in \<open>simp_all add: at_world_def\<close>)
        moreover have "quota_step P L ?s3 ?s4" by (rule step_moved) simp_all
        ultimately have run4: "(quota_step P L)\<^sup>*\<^sup>* s2 ?s4" by auto
        obtain s5 st5 where c5: "commit sr (Some (qy_store ?s4)) = (Inr (), Some st5)" "quota_step P L ?s4 s5"
            "s5 = ?s4\<lparr>qy_store := st5, qy_done := qy_done ?s4 - {re_id sr}\<rparr>" by (rule commit_step)
        obtain s6 st6 where c6: "commit (st_reservation sg) (Some (qy_store s5)) = (Inr (), Some st6)" "quota_step P L s5 s6"
            "s6 = s5\<lparr>qy_store := st6, qy_done := qy_done s5 - {re_id (st_reservation sg)}\<rparr>" by (rule commit_step)
        have w1: "fw_quota w1 = Some (qy_store s2)" using s2(2) by (simp add: at_world_def)
        have "fw_db w' = ?db2 \<and> fw_quota w' = Some st6"
          using run res Inr st y pub td c5 c6 w1
          by (auto simp: create_file_secret_def w finish_create_def commit_or_reconcile_def Let_def set_db_def set_quota_def
              schedule_expiry_def)
        then have "quota_leads P L s6 (fw_db w') (fw_quota w')"
          by (intro quota_leads_stay) (simp add: at_world_def c5(3) c6(3))
        moreover have "qy_done s6 = qy_done s2"
          using id br(2) new(2,4) s1(3) s2(3) by (auto simp: c5(3) c6(3))
        ultimately show ?thesis
          using quota_leads_run [OF rtranclp.rtrancl_into_rtrancl [OF rtranclp.rtrancl_into_rtrancl [OF run4 c5(2)] c6(2)]] by blast
      qed
    qed
  qed
qed

text \<open>Deleting a secret, by its owner or an administrator: the transaction, then the reconciliation of the caller.\<close>

lemma reconcile_leads:
  assumes "qy_db s = db" and "q = snd (reconcile_user db u (Some (qy_store s)))" shows "quota_leads P L s db q"
proof -
  obtain x st1 where r: "reconcile_user db u (Some (qy_store s)) = (x, Some st1)"
    by (simp add: reconcile_user_def split_beta Let_def)
  have "quota_step P L s (s\<lparr>qy_store := st1\<rparr>)" by (rule quota_step.reconciled [OF r]) (simp add: assms(1))
  then show ?thesis by (rule quota_leads_step) (use assms r in \<open>auto simp: at_world_def intro: quota_leads_stay\<close>)
qed

lemma delete_secret_leads:
  assumes "at_world s (wd_db w) (wd_quota w)" and "delete_secret P rq sid user w = (r, w')"
  shows "quota_leads P L s (wd_db w') (wd_quota w')"
proof -
  have w: "wd_db w = qy_db s" "wd_quota w = Some (qy_store s)" using assms(1) by (simp_all add: at_world_def)
  let ?s1 = "s\<lparr>qy_db := wd_db w'\<rparr>"
  have "\<exists>n. life_step P x (0, qy_db s) (n, wd_db w')" for x
    using life_step.deleted [of P x 0 w rq sid user] assms(2) w by auto
  then have moved: "quota_step P L s ?s1" by (intro quota_step.moved) simp
  consider "w' = w" | "wd_quota w' = snd (reconcile_user (wd_db w') (cu_id user) (wd_quota w))"
    using assms(2) by (auto simp: delete_secret_def split: option.splits sum.splits)
  then show ?thesis
  proof cases
    case 1
    then show ?thesis using assms(1) by (simp add: quota_leads_stay)
  next
    case 2
    then show ?thesis by (intro quota_leads_step [OF moved] reconcile_leads [where u = "cu_id user"]) (simp_all add: w)
  qed
qed

lemma update_file_leads:
  assumes s: "at_world s (fw_db w) (fw_quota w)"
    and new: "qs_hash (qy_store s) (fr_byte_rid rd) = None" "fr_byte_rid rd \<notin> qy_done s"
    and lim: "fst (limits_for_user P (fw_db w) (cu_id user)) \<le> L (cu_id user)"
    and run: "update_file_secret P F rq rd sid n note user up w = (r, w')"
  shows "quota_leads P L s (fw_db w') (fw_quota w')"
proof (cases "file_update_guards P sid n user (fw_db w)")
  case (Inl e)
  then show ?thesis using run s by (auto simp: update_file_secret_def intro: quota_leads_stay)
next
  case (Inr g)
  obtain y w1 where st: "stage_upload P F rq rd sid (nat (n + 1)) user up w = (y, w1)" by (metis surj_pair)
  obtain s1 where s1: "(quota_step P L)\<^sup>*\<^sup>* s s1" "at_world s1 (fw_db w1) (fw_quota w1)" "qy_done s1 = qy_done s"
    "case y of Inl (e, br, key) \<Rightarrow> \<forall>r. br = Some r \<longrightarrow> open_for s1 (cu_id user) r
      | Inr sg \<Rightarrow> open_for s1 (cu_id user) (st_reservation sg) \<and> re_id (st_reservation sg) = fr_byte_rid rd"
    by (rule stage_upload_leads [where L = L, OF s new lim st])
  have w1: "qy_db s1 = fw_db w1" "fw_quota w1 = Some (qy_store s1)" using s1(2) by (simp_all add: at_world_def)
  show ?thesis
  proof (rule quota_leads_run [OF s1(1,3)], cases y)
    case Inl': (Inl f)
    obtain e br key where f: "f = (e, br, key)" by (cases f)
    have "w' = give_back F key [br] w1" using run Inr st Inl' f by (simp add: update_file_secret_def)
    then show "quota_leads P L s1 (fw_db w') (fw_quota w')"
      using give_back_leads [OF s1(2), of "[br]" "cu_id user" P L F key] s1(4) Inl' f by simp
  next
    case y: (Inr sg)
    have br: "open_for s1 (cu_id user) (st_reservation sg)" "re_id (st_reservation sg) = fr_byte_rid rd"
      using s1(4) y by simp_all
    show "quota_leads P L s1 (fw_db w') (fw_quota w')"
    proof (cases "file_version_rows rq rd sid n note user up sg (fw_db w1)")
      case Inl'': (Inl e)
      have "w' = give_back F (Some (st_key sg)) [Some (st_reservation sg)] w1"
        using run Inr st y Inl'' by (simp add: update_file_secret_def)
      then show ?thesis
        using give_back_leads [OF s1(2), of "[Some (st_reservation sg)]" "cu_id user" P L F "Some (st_key sg)"] br by simp
    next
      case rows: (Inr db1)
      let ?db2 = "commit_with_audit P rq ''secret_updated'' sid user (fw_db w1) db1"
      let ?s2 = "s1\<lparr>qy_db := ?db2\<rparr>"
      have "\<exists>m. life_step P x (0, qy_db s1) (m, ?db2)" for x
        using life_step.file_updated [OF rows, of P x 0 "''secret_updated''"] w1(1) by auto
      then have m: "quota_step P L s1 ?s2" by (intro quota_step.moved) simp
      obtain s3 st3 where c: "commit (st_reservation sg) (Some (qy_store ?s2)) = (Inr (), Some st3)" "quota_step P L ?s2 s3"
          "s3 = ?s2\<lparr>qy_store := st3, qy_done := qy_done ?s2 - {re_id (st_reservation sg)}\<rparr>" by (rule commit_step)
      have "fw_db w' = ?db2 \<and> fw_quota w' = Some st3"
        using run Inr st y rows c w1 by (auto simp: update_file_secret_def commit_or_reconcile_def set_db_def set_quota_def)
      then have "quota_leads P L s3 (fw_db w') (fw_quota w')" by (intro quota_leads_stay) (simp add: at_world_def c(3))
      moreover have "qy_done s3 = qy_done s1" using br(2) new(2) s1(3) by (simp add: c(3))
      ultimately show ?thesis
        using quota_leads_run [OF converse_rtranclp_into_rtranclp [OF m r_into_rtranclp [of "quota_step P L", OF c(2)]]] by blast
    qed
  qed
qed

lemma expired_leads:
  assumes "at_world s (wd_db w) (wd_quota w)" and "delete_expired_secret P rq token sid w = (r, w')"
  shows "quota_leads P L s (wd_db w') (wd_quota w')"
proof -
  have w: "wd_db w = qy_db s" "wd_quota w = Some (qy_store s)" using assms(1) by (simp_all add: at_world_def)
  let ?s1 = "s\<lparr>qy_db := wd_db w'\<rparr>"
  have "\<exists>n. life_step P x (0, qy_db s) (n, wd_db w')" for x
    using life_step.expired [of P x 0 w rq token sid] assms(2) w by auto
  then have moved: "quota_step P L s ?s1" by (intro quota_step.moved) simp
  have "wd_quota w' = wd_quota w \<or> (\<exists>u. wd_quota w' = snd (reconcile_user (wd_db w') u (wd_quota w)))"
    using assms(2) by (auto simp: delete_expired_secret_def Let_def split: option.splits prod.splits)
  then consider "wd_quota w' = wd_quota w" | u where "wd_quota w' = snd (reconcile_user (wd_db w') u (wd_quota w))" by blast
  then show ?thesis
  proof cases
    case 1
    then show ?thesis
      by (intro quota_leads_step [OF moved] quota_leads_stay) (simp_all add: at_world_def w)
  next
    case (2 u)
    then show ?thesis by (intro quota_leads_step [OF moved] reconcile_leads [where u = u]) (simp_all add: w)
  qed
qed


subsection \<open>Where the guards matter\<close>

text \<open>
  A reconciliation whose reading is older than a commit forgets it: with a limit of one secret a user reads his
  usage (none), creates a secret, the reading is written, and a second creation is granted.
\<close>

lemma stale_reconcile_overruns:
  assumes "st1 = snd (lua_reserve 1 9 1 0 1 100 600 0 0 empty_store)" and "st2 = snd (lua_commit 9 st1)"
    and "st3 = snd (lua_reconcile 1 0 0 st2)"
  shows "fst (lua_reserve 1 10 1 0 1 100 600 1 0 st3) = (1, 0, 1, 0) \<and>
    fst (lua_reserve 1 10 1 0 1 100 600 1 0 st2) = (0, 1, 1, 0)"
  by (simp add: assms lua_reserve_def lua_commit_def lua_reconcile_def empty_store_def usage_or_0_def incr_usage_def
      zadd_def zrem_def Let_def)

text \<open>A reservation that is reaped between its publication and its commit is forgotten in the same way.\<close>

lemma late_commit_overruns:
  assumes "st1 = snd (lua_reserve 1 9 1 0 1 100 600 0 0 empty_store)" and "(x, Some st2) = reap_expired_reservations (600 * second) (Some st1)"
  shows "fst (lua_reserve 1 10 1 0 1 100 600 1 0 (snd (lua_commit 9 st2))) = (1, 0, 1, 0)"
proof -
  have "st1 = \<lparr>qs_usage = [1 \<mapsto> (1, 0)], qs_hash = [9 \<mapsto> \<lparr>rh_secrets = 1, rh_bytes = 0, rh_user = 1, rh_committed = 0\<rparr>],
      qs_zset = [(9, 600)]\<rparr>"
    by (simp add: assms(1) lua_reserve_def empty_store_def usage_or_0_def incr_usage_def zadd_def Let_def)
  then have "st2 = \<lparr>qs_usage = [1 \<mapsto> (0, 0)], qs_hash = Map.empty, qs_zset = []\<rparr>"
    using assms(2) by (simp add: reap_expired_reservations_def lua_release_def usage_or_0_def incr_usage_def zrem_def Let_def)
  then show ?thesis
    by (simp add: lua_reserve_def lua_commit_def usage_or_0_def incr_usage_def zadd_def Let_def)
qed

text \<open>
  A new version of a file is charged to whoever uploads it, but its bytes are the owner's: an administrator's
  upload takes the owner past a limit that nothing has checked.
\<close>

lemma file_version_rows_bytes:
  assumes "file_version_rows rq rd sid n note user up sg db = Inr db'" and "secret_of db sid = Some s" and "s_owner s = Some u"
  shows "snd (durable_usage db' u) = snd (durable_usage db u) + int (st_size sg)"
proof -
  let ?f = "\<lambda>s. s\<lparr>s_version := n + 1, s_updated := rq_clock rq\<rparr>"
  obtain k where k: "secrets db' = sql_update (\<lambda>s. s_id s = sid) ?f (secrets db)"
      "secret_versions db' = sql_insert (file_version rq sid (n + 1) k sg up (cu_id user) note) (secret_versions db)"
      "deletion_outbox db' = deletion_outbox db"
    using assms(1,2)
    by (auto simp: file_version_rows_def bind_res_eq_Inr Let_def insert_file_version_def insert_version_Inr add_key_def
        delete_pending_def set_file_version_def split: option.splits if_splits)
  have ids: "s_id ` set (sql_select (\<lambda>s. s_owner s = Some u) (sql_update (\<lambda>s. s_id s = sid) ?f t)) =
      s_id ` set (sql_select (\<lambda>s. s_owner s = Some u) t)" for t :: "secret_row list"
    by (induction t) (auto simp: sql_select_def sql_update_def)
  have "s \<in> set (secrets db)" "s_id s = sid" using assms(2) by (auto simp: secret_of_def dest: row_of_Some)
  with assms(3) have sid: "sid \<in> s_id ` set (sql_select (\<lambda>s. s_owner s = Some u) (secrets db))"
    by (auto simp: sql_select_def)
  then show ?thesis
    by (simp add: durable_usage_def Let_def k ids sql_select_insert sum_of_def) (simp add: file_version_def)
qed

lemma upload_charged_to_caller:
  "stage_upload P F rq rd sid version user up w = (Inr sg, w') \<Longrightarrow> re_user (st_reservation sg) = cu_id user"
  by (drule stage_upload_Inr(2)) (auto simp: reserve_def Let_def split_beta split: option.splits if_splits dest!: sym [of _ "st_reservation sg"])

subsection \<open>Witnesses\<close>

definition sample_sys :: quota_sys where
  "sample_sys = \<lparr>qy_db = wd_db sample_world, qy_store = empty_store, qy_done = {}, qy_reads = Map.empty\<rparr>"

lemma sample_sys_facts:
  "at_world sample_sys (wd_db sample_world) (wd_quota sample_world)"
  "qs_hash (qy_store sample_sys) x = None" "qy_done sample_sys = {}"
  "fst (limits_for_user demo_platform (wd_db sample_world) (cu_id sample_user)) \<le> 100"
  by (simp_all add: sample_sys_def at_world_def sample_world_def empty_store_def limits_for_user_def empty_db_def
      demo_settings_def)



end
