(* ===== verification/Temp_Files.thy ===== *)
theory Temp_Files
  imports File_Secrets
begin

text \<open>
  The temporary files of uploads and downloads.  \<open>Files\<close> takes a temporary file to be its content; here
  temp_path and cleanup_paths (app/routers/file_support.py) and the handlers that use them run on
  a directory, a map from paths to bytes.  What the operating system does is the record \<open>disk\<close>: every call may
  fail.  Shown: whatever fails, no handler leaves a plaintext behind once its response is sent, and
  on a disk that works the handlers do what \<open>Files\<close> says.  A crash, and a cancellation, which is no \<open>Exception\<close>, are not
  modelled.
\<close>

subsection \<open>The disk\<close>

type_synonym temp_files = "string \<rightharpoonup> bytes"

text \<open>\<open>dk_random\<close> gives the random characters that mkstemp settles on for a suffix.\<close>

record disk =
  dk_dir :: string
  dk_random :: "string \<Rightarrow> string"
  dk_mkdir :: "temp_files \<Rightarrow> unit res"
  dk_mkstemp :: "string \<Rightarrow> temp_files \<Rightarrow> unit res"
  dk_write :: "string \<Rightarrow> bytes \<Rightarrow> temp_files \<Rightarrow> unit res \<times> temp_files"
  dk_unlink :: "string \<Rightarrow> temp_files \<Rightarrow> unit res \<times> temp_files"

definition file_content :: "temp_files \<Rightarrow> string \<Rightarrow> bytes" where
  "file_content fs p = (case fs p of None \<Rightarrow> [] | Some b \<Rightarrow> b)"

text \<open>A write that fails may have written anything to its file, an unlink that fails has done nothing.\<close>

definition disk_laws :: "disk \<Rightarrow> bool" where
  "disk_laws D \<longleftrightarrow>
     (\<forall>p b fs. dk_write D p b fs = (Inr (), fs(p \<mapsto> file_content fs p @ b)) \<or>
        (\<exists>e c. dk_write D p b fs = (Inl e, fs(p \<mapsto> c)))) \<and>
     (\<forall>p fs. dk_unlink D p fs = (Inr (), fs(p := None)) \<or> (\<exists>e. dk_unlink D p fs = (Inl e, fs)))"

definition temp_name :: "disk \<Rightarrow> string \<Rightarrow> string" where
  "temp_name D suffix = dk_dir D @ ''/phantom-'' @ dk_random D suffix @ suffix"

text \<open>mkstemp opens with O_EXCL: the file was not there.\<close>

definition names_fresh :: "disk \<Rightarrow> temp_files \<Rightarrow> bool" where
  "names_fresh D fs \<longleftrightarrow> (\<forall>suffix. fs (temp_name D suffix) = None)"

definition temp_path :: "disk \<Rightarrow> string \<Rightarrow> temp_files \<Rightarrow> string res \<times> temp_files" where
  "temp_path D suffix fs =
     (case dk_mkdir D fs of
        Inl e \<Rightarrow> (Inl e, fs)
      | Inr _ \<Rightarrow>
     (case dk_mkstemp D suffix fs of
        Inl e \<Rightarrow> (Inl e, fs)
      | Inr _ \<Rightarrow> (Inr (temp_name D suffix), fs(temp_name D suffix \<mapsto> []))))"

fun cleanup_paths :: "disk \<Rightarrow> string list \<Rightarrow> temp_files \<Rightarrow> temp_files" where
  "cleanup_paths D [] fs = fs"
| "cleanup_paths D (p # ps) fs = (case dk_unlink D p fs of (Inl e, fs') \<Rightarrow> cleanup_paths D ps fs'
     | (Inr _, fs') \<Rightarrow> cleanup_paths D ps fs')"

subsection \<open>Spooling\<close>

function spool_files :: "disk \<Rightarrow> nat \<Rightarrow> string \<Rightarrow> nat \<Rightarrow> bytes \<Rightarrow> temp_files \<Rightarrow> nat res \<times> temp_files" where
  "spool_files D limit path sofar src fs =
     (let chunk = take READ_SIZE src in
      if chunk = [] then (Inr sofar, fs)
      else if limit < sofar + length chunk
      then (Inl (http 413 (''File exceeds '' @ py_str_int (int limit) @ '' bytes'')), fs)
      else case dk_write D path chunk fs of
        (Inl e, fs') \<Rightarrow> (Inl e, fs')
      | (Inr _, fs') \<Rightarrow> spool_files D limit path (sofar + length chunk) (drop READ_SIZE src) fs')"
  by pat_completeness auto
termination
  by (relation "measure (\<lambda>(D, limit, path, sofar, src, fs). length src)") (auto simp: READ_SIZE_def)

declare spool_files.simps [simp del]

definition spool_to_disk :: "disk \<Rightarrow> nat \<Rightarrow> bytes \<Rightarrow> temp_files \<Rightarrow> (string \<times> nat) res \<times> temp_files" where
  "spool_to_disk D limit src fs =
     (case temp_path D ''.upload'' fs of
        (Inl e, fs1) \<Rightarrow> (Inl e, fs1)
      | (Inr path, fs1) \<Rightarrow>
     (case spool_files D limit path 0 src fs1 of
        (Inl e, fs2) \<Rightarrow> (Inl e, cleanup_paths D [path] fs2)
      | (Inr n, fs2) \<Rightarrow>
          if n = 0 then (Inl (http 422 ''File is empty''), cleanup_paths D [path] fs2)
          else (Inr (path, n), fs2)))"

subsection \<open>app/services/file_crypto.py on files\<close>

text \<open>Opening for writing truncates; a frame's two writes are one, as the file is buffered.\<close>

function encrypt_chunks ::
  "disk \<Rightarrow> crypto \<Rightarrow> bytes \<Rightarrow> bytes \<Rightarrow> bytes \<Rightarrow> nat \<Rightarrow> string \<Rightarrow> bytes \<Rightarrow> temp_files \<Rightarrow> unit res \<times> temp_files" where
  "encrypt_chunks D C dek nonce_prefix aad_prefix index dst src fs =
     (let chunk = take CHUNK_SIZE src in
      if chunk = [] then (Inr (), fs)
      else case enc_frame C dek nonce_prefix aad_prefix index chunk of
        None \<Rightarrow> (Inl (ValueError ''struct.error''), fs)
      | Some frame \<Rightarrow>
     (case dk_write D dst frame fs of
        (Inl e, fs') \<Rightarrow> (Inl e, fs')
      | (Inr _, fs') \<Rightarrow>
          encrypt_chunks D C dek nonce_prefix aad_prefix (index + 1) dst (drop CHUNK_SIZE src) fs'))"
  by pat_completeness auto
termination
  by (relation "measure (\<lambda>(D, C, dek, np, ap, i, dst, src, fs). length src)") (auto simp: CHUNK_SIZE_def)

declare encrypt_chunks.simps [simp del]

definition encrypt_to_disk ::
  "disk \<Rightarrow> crypto \<Rightarrow> bytes \<Rightarrow> string \<Rightarrow> string \<Rightarrow> bytes \<Rightarrow> uuid \<Rightarrow> nat \<Rightarrow> temp_files \<Rightarrow> (nat \<times> string) res \<times> temp_files" where
  "encrypt_to_disk D C nonce_prefix src dst dek secret_id version fs =
     (case chacha dek of
        Inl e \<Rightarrow> (Inl e, fs)
      | Inr key \<Rightarrow>
     (case pack_I version of
        None \<Rightarrow> (Inl (ValueError ''struct.error''), fs)
      | Some vb \<Rightarrow>
     (case dk_write D dst (file_header nonce_prefix) (fs(dst \<mapsto> [])) of
        (Inl e, fs1) \<Rightarrow> (Inl e, fs1)
      | (Inr _, fs1) \<Rightarrow>
     (case encrypt_chunks D C key nonce_prefix (uuid_bytes secret_id @ vb) 0 dst (file_content fs src) fs1 of
        (Inl e, fs2) \<Rightarrow> (Inl e, fs2)
      | (Inr _, fs2) \<Rightarrow> (Inr (length (file_content fs src), sha256_hash C (file_content fs src)), fs2)))))"

function decrypt_chunks ::
  "disk \<Rightarrow> crypto \<Rightarrow> bytes \<Rightarrow> bytes \<Rightarrow> bytes \<Rightarrow> nat \<Rightarrow> string \<Rightarrow> bytes \<Rightarrow> temp_files \<Rightarrow> unit res \<times> temp_files" where
  "decrypt_chunks D C dek nonce_prefix aad_prefix index dst src fs =
     (let raw_length = take 4 src in
      if raw_length = [] then (Inr (), fs)
      else if length raw_length \<noteq> 4 then (Inl (ValueError ''Truncated encrypted file''), fs)
      else
        (let len = from_bytes raw_length;
             encrypted = take len (drop 4 src) in
         if length encrypted \<noteq> len then (Inl (ValueError ''Truncated encrypted file''), fs)
         else case pack_I index of
           None \<Rightarrow> (Inl (ValueError ''struct.error''), fs)
         | Some ib \<Rightarrow>
        (case aead_dec C dek (nonce_prefix @ ib) encrypted (aad_prefix @ ib) of
           None \<Rightarrow> (Inl InvalidTag, fs)
         | Some plaintext \<Rightarrow>
        (case dk_write D dst plaintext fs of
           (Inl e, fs') \<Rightarrow> (Inl e, fs')
         | (Inr _, fs') \<Rightarrow>
             decrypt_chunks D C dek nonce_prefix aad_prefix (index + 1) dst (drop len (drop 4 src)) fs'))))"
  by pat_completeness auto
termination
  by (relation "measure (\<lambda>(D, C, dek, np, ap, i, dst, src, fs). length src)") auto

declare decrypt_chunks.simps [simp del]

definition decrypt_to_disk ::
  "disk \<Rightarrow> crypto \<Rightarrow> string \<Rightarrow> string \<Rightarrow> bytes \<Rightarrow> uuid \<Rightarrow> nat \<Rightarrow> temp_files \<Rightarrow> unit res \<times> temp_files" where
  "decrypt_to_disk D C src dst dek secret_id version fs =
     (case chacha dek of
        Inl e \<Rightarrow> (Inl e, fs)
      | Inr key \<Rightarrow>
     (case pack_I version of
        None \<Rightarrow> (Inl (ValueError ''struct.error''), fs)
      | Some vb \<Rightarrow>
          (let data = file_content fs src; header = take (length MAGIC + 12) data; fs1 = fs(dst \<mapsto> []) in
           if length header \<noteq> length MAGIC + 12 \<or> take (length MAGIC) header \<noteq> MAGIC
           then (Inl (ValueError ''Invalid encrypted file header''), fs1)
           else decrypt_chunks D C key (take 8 (drop (length MAGIC) header))
                  (uuid_bytes secret_id @ vb) 0 dst (drop (length MAGIC + 12) data) fs1)))"

subsection \<open>The handlers\<close>

text \<open>
  What follows the encryption of an upload: its name, the pending row, the object.  The result comes with the
  temporary files whose paths the handler holds.
\<close>

definition store_object ::
  "platform \<Rightarrow> file_lib \<Rightarrow> request \<Rightarrow> file_rand \<Rightarrow> uuid \<Rightarrow> nat \<Rightarrow> current_user \<Rightarrow> upload_file \<Rightarrow> bytes \<Rightarrow> string \<Rightarrow> nat \<Rightarrow>
   string \<Rightarrow> reservation \<Rightarrow> file_world \<Rightarrow> ((exc \<times> leftover) + staged) \<times> file_world" where
  "store_object P F rq rd sid version user up encrypted digest n detail byte_reservation w =
     (case encrypt_content (cr P) (fr_name_nonce rd) (upload_name up) (fr_dek rd) of
        Inl e \<Rightarrow> (Inl (e, Some byte_reservation, None), w)
      | Inr (filename_ciphertext, filename_nonce) \<Rightarrow>
     (let (wrapped, dek_nonce) = wrap_dek (cr P) (fr_dek_nonce rd) (fr_dek rd);
          key = object_key_of sid version (fr_object rd);
          row = \<lparr>pu_id = fr_pending rd, pu_user = cu_id user, pu_secret = sid, pu_object = key,
                 pu_reservation = re_id byte_reservation, pu_size = int n, pu_expires = rq_clock rq + 900 * second\<rparr> in
      case insert_pending row (fw_db w) of
        Inl e \<Rightarrow> (Inl (e, Some byte_reservation, Some key), w)
      | Inr db1 \<Rightarrow>
     (case fl_put F key encrypted (fw_store w) of
        (Inl e, st) \<Rightarrow> (Inl (e, Some byte_reservation, Some key), (set_db db1 w)\<lparr>fw_store := st\<rparr>)
      | (Inr _, st) \<Rightarrow>
          (Inr \<lparr>st_key = key, st_size = n, st_detail = detail, st_wrapped = wrapped, st_dek_nonce = dek_nonce,
                st_digest = digest, st_name = filename_ciphertext, st_name_nonce = filename_nonce,
                st_encrypted = encrypted, st_reservation = byte_reservation\<rparr>,
           (set_db db1 w)\<lparr>fw_store := st\<rparr>))))"

lemma stage_object_store:
  "stage_object P F rq rd sid version user up plaintext n detail r w =
     (case encrypt_file (cr P) (fr_prefix rd) plaintext (fr_dek rd) sid version of
        Inl e \<Rightarrow> (Inl (e, Some r, None), w)
      | Inr (encrypted, _, digest) \<Rightarrow> store_object P F rq rd sid version user up encrypted digest n detail r w)"
  unfolding stage_object_def store_object_def by (rule refl)

definition stage_on_disk ::
  "disk \<Rightarrow> platform \<Rightarrow> file_lib \<Rightarrow> request \<Rightarrow> file_rand \<Rightarrow> uuid \<Rightarrow> nat \<Rightarrow> current_user \<Rightarrow> upload_file \<Rightarrow> file_world \<Rightarrow>
   temp_files \<Rightarrow> (((exc \<times> leftover) + staged) \<times> file_world) \<times> string list \<times> temp_files" where
  "stage_on_disk D P F rq rd sid version user up w fs =
     (case spool_to_disk D (MAX_FILE_BYTES (cfg P)) (up_data up) fs of
        (Inl e, fs1) \<Rightarrow> ((Inl (e, None, None), w), [], fs1)
      | (Inr (plaintext, n), fs1) \<Rightarrow>
     (case scan_upload P F rq user (file_content fs1 plaintext) (fw_db w) of
        (Inl e, db1) \<Rightarrow> ((Inl (e, None, None), set_db db1 w), [plaintext], fs1)
      | (Inr detail, db1) \<Rightarrow>
     (case reserve P db1 (rq_now rq) (fr_byte_rid rd) (cu_id user) 0 (int n) (fw_quota w) of
        (Inl e, q) \<Rightarrow> ((Inl (e, None, None), set_quota q (set_db db1 w)), [plaintext], fs1)
      | (Inr r, q) \<Rightarrow>
     (let w1 = set_quota q (set_db db1 w) in
      case temp_path D ''.encrypted'' fs1 of
        (Inl e, fs2) \<Rightarrow> ((Inl (e, Some r, None), w1), [plaintext], fs2)
      | (Inr encrypted, fs2) \<Rightarrow>
     (case encrypt_to_disk D (cr P) (fr_prefix rd) plaintext encrypted (fr_dek rd) sid version fs2 of
        (Inl e, fs3) \<Rightarrow> ((Inl (e, Some r, None), w1), [plaintext, encrypted], fs3)
      | (Inr (_, digest), fs3) \<Rightarrow>
          (store_object P F rq rd sid version user up (file_content fs3 encrypted) digest n detail r w1,
           [plaintext, encrypted], fs3))))))"

text \<open>The \<open>finally\<close> block unlinks what the handler holds, on every path.\<close>

definition create_on_disk ::
  "disk \<Rightarrow> platform \<Rightarrow> file_lib \<Rightarrow> request \<Rightarrow> file_rand \<Rightarrow> file_form \<Rightarrow> current_user \<Rightarrow> upload_file \<Rightarrow> file_world \<Rightarrow> temp_files \<Rightarrow>
   (file_created res \<times> file_world) \<times> temp_files" where
  "create_on_disk D P F rq rd form user up w fs =
     (case reserve P (fw_db w) (rq_now rq) (fr_secret_rid rd) (cu_id user) 1 0 (fw_quota w) of
        (Inl e, q) \<Rightarrow> ((Inl e, set_quota q w), fs)
      | (Inr secret_reservation, q) \<Rightarrow>
     (case stage_on_disk D P F rq rd (fr_secret rd) 1 user up (set_quota q w) fs of
        ((Inl (e, byte_reservation, key), w1), paths, fs1) \<Rightarrow>
          ((Inl e, give_back F key [byte_reservation, Some secret_reservation] w1), cleanup_paths D paths fs1)
      | ((Inr s, w1), paths, fs1) \<Rightarrow>
     (case publish_file P F rq rd form (cu_id user) up s (fw_db w1) of
        Inl e \<Rightarrow> ((Inl e, give_back F (Some (st_key s)) [Some (st_reservation s), Some secret_reservation] w1),
                 cleanup_paths D paths fs1)
      | Inr (token, db1) \<Rightarrow>
          (finish_create P rq rd form user s secret_reservation token
             (set_db (audit_log P rq (uploaded_entry rq (fr_secret rd) user) db1) w1),
           cleanup_paths D paths fs1))))"

definition update_on_disk ::
  "disk \<Rightarrow> platform \<Rightarrow> file_lib \<Rightarrow> request \<Rightarrow> file_rand \<Rightarrow> uuid \<Rightarrow> int \<Rightarrow> string option \<Rightarrow> current_user \<Rightarrow> upload_file \<Rightarrow>
   file_world \<Rightarrow> temp_files \<Rightarrow> ((int \<times> nat) res \<times> file_world) \<times> temp_files" where
  "update_on_disk D P F rq rd sid expected_version note user up w fs =
     (case file_update_guards P sid expected_version user (fw_db w) of
        Inl e \<Rightarrow> ((Inl e, w), fs)
      | Inr _ \<Rightarrow>
     (case stage_on_disk D P F rq rd sid (nat (expected_version + 1)) user up w fs of
        ((Inl (e, byte_reservation, key), w1), paths, fs1) \<Rightarrow>
          ((Inl e, give_back F key [byte_reservation] w1), cleanup_paths D paths fs1)
      | ((Inr s, w1), paths, fs1) \<Rightarrow>
     (case file_version_rows rq rd sid expected_version note user up s (fw_db w1) of
        Inl e \<Rightarrow> ((Inl e, give_back F (Some (st_key s)) [Some (st_reservation s)] w1), cleanup_paths D paths fs1)
      | Inr db1 \<Rightarrow>
     (case commit_or_reconcile [st_reservation s] (cu_id user)
             (set_db (commit_with_audit P rq ''secret_updated'' sid user (fw_db w1) db1) w1) of
        (Inl e, w2) \<Rightarrow> ((Inl e, w2), cleanup_paths D paths fs1)
      | (Inr _, w2) \<Rightarrow> ((Inr (expected_version + 1, st_size s), w2), cleanup_paths D paths fs1)))))"

subsection \<open>The download\<close>

text \<open>The checks before the temporary files are made, and the statement after it.\<close>

definition download_access ::
  "platform \<Rightarrow> request \<Rightarrow> int \<Rightarrow> uuid \<Rightarrow> string option \<Rightarrow> current_user option \<Rightarrow> database \<Rightarrow> int res" where
  "download_access P rq policy_version sid password user db =
     (case (secret_of db sid, policy_of db sid) of
        (Some s, Some p) \<Rightarrow>
          if s_payload s \<noteq> File then Inl (http 404 ''File secret not found'')
          else
            bind_res (authorize_file (cr P) db s sid password user) (\<lambda>_.
            if p_version p \<noteq> policy_version then Inl (http 403 ''Share token policy is no longer current'')
            else if s_expires s \<le> rq_now rq \<or> s_max_views s \<le> s_view_count s
            then Inl (http 410 ''Secret is no longer available'')
            else Inr (s_version s))
      | _ \<Rightarrow> Inl (http 404 ''File secret not found''))"

definition download_key :: "uuid \<Rightarrow> int \<Rightarrow> database \<Rightarrow> string res" where
  "download_key sid version db =
     (case version_of db sid version of
        None \<Rightarrow> Inl (http 404 ''Did not find a file for provided secret id and version'')
      | Some v \<Rightarrow> (case v_object v of None \<Rightarrow> Inl TypeError | Some key \<Rightarrow> Inr key))"

lemma download_checks_split:
  "download_checks P rq pv sid password user db =
     bind_res (download_access P rq pv sid password user db) (\<lambda>version.
     bind_res (download_key sid version db) (\<lambda>key. Inr (version, key)))"
proof (cases "secret_of db sid")
  case (Some s)
  then show ?thesis
    by (cases "policy_of db sid"; cases "authorize_file (cr P) db s sid password user"; cases "version_of db sid (s_version s)")
      (auto simp: download_checks_def download_access_def download_key_def split: option.split)
qed (simp add: download_checks_def download_access_def)

definition open_on_disk ::
  "disk \<Rightarrow> platform \<Rightarrow> uuid \<Rightarrow> int \<Rightarrow> version_row \<Rightarrow> string \<Rightarrow> string \<Rightarrow> database \<Rightarrow> temp_files \<Rightarrow> string res \<times> temp_files" where
  "open_on_disk D P sid version v encrypted plaintext db fs =
     (case get_dek_for_secret (cr P) db sid (v_key v) of
        Inl e \<Rightarrow> (Inl e, fs)
      | Inr dek \<Rightarrow>
     (case (case (v_filename v, v_filename_nonce v) of
         (Some c, Some n) \<Rightarrow> decrypt_content (cr P) c n dek
       | _ \<Rightarrow> Inl TypeError) of
        Inl e \<Rightarrow> (Inl e, fs)
      | Inr filename \<Rightarrow>
     (case decrypt_to_disk D (cr P) encrypted plaintext dek sid (nat version) fs of
        (Inl e, fs1) \<Rightarrow> (Inl e, fs1)
      | (Inr _, fs1) \<Rightarrow> (Inr filename, fs1))))"

definition download_locked_on_disk ::
  "disk \<Rightarrow> platform \<Rightarrow> request \<Rightarrow> int \<Rightarrow> uuid \<Rightarrow> int \<Rightarrow> string \<Rightarrow> string \<Rightarrow> current_user option \<Rightarrow> database \<Rightarrow> temp_files \<Rightarrow>
   ((string \<times> version_row) res \<times> database) \<times> temp_files" where
  "download_locked_on_disk D P rq policy_version sid version encrypted plaintext user db fs =
     (case download_guards policy_version sid version db of
        Inl e \<Rightarrow> ((Inl e, db), fs)
      | Inr (s, v) \<Rightarrow>
     (case open_on_disk D P sid version v encrypted plaintext db fs of
        (Inl e, fs1) \<Rightarrow> ((Inl e, db), fs1)
      | (Inr filename, fs1) \<Rightarrow>
     (let new_count = s_view_count s + 1 in
      case record_view rq sid user (s_version s) db of
        Inl e \<Rightarrow> ((Inl e, db), fs1)
      | Inr (_, db1) \<Rightarrow>
          (let db2 = update_view_count (rq_clock rq) sid new_count (s_max_views s \<le> new_count) db1 in
           ((Inr (filename, v), commit_txn db (audit_log_conn P rq (viewed_entry rq sid user) db2)), fs1)))))"

text \<open>The \<open>try\<close> block: the key of the object, its bytes, the transaction.\<close>

definition fetch_on_disk ::
  "disk \<Rightarrow> platform \<Rightarrow> file_lib \<Rightarrow> request \<Rightarrow> int \<Rightarrow> uuid \<Rightarrow> int \<Rightarrow> string \<Rightarrow> string \<Rightarrow> current_user option \<Rightarrow> objects \<Rightarrow> database \<Rightarrow>
   temp_files \<Rightarrow> ((string \<times> version_row) res \<times> database) \<times> temp_files" where
  "fetch_on_disk D P F rq policy_version sid version encrypted plaintext user store db fs =
     (case download_key sid version db of
        Inl e \<Rightarrow> ((Inl e, db), fs)
      | Inr key \<Rightarrow>
     (case fl_get F key store of
        Inl e \<Rightarrow> ((Inl e, db), fs)
      | Inr b \<Rightarrow>
          download_locked_on_disk D P rq policy_version sid version encrypted plaintext user db (fs(encrypted \<mapsto> b))))"

text \<open>FileResponse has the path; its bytes are read when it is sent, and then the background task runs.\<close>

record disk_reply =
  dr_path :: string
  dr_name :: string
  dr_row :: version_row

definition download_on_disk ::
  "disk \<Rightarrow> platform \<Rightarrow> file_lib \<Rightarrow> request \<Rightarrow> uuid \<Rightarrow> string option \<Rightarrow> string option \<Rightarrow> current_user option \<Rightarrow> file_world \<Rightarrow>
   temp_files \<Rightarrow> (disk_reply res \<times> file_world) \<times> temp_files" where
  "download_on_disk D P F rq sid token password user w fs =
     (case authorize P rq sid token (fw_db w) of
        (Inl e, db1) \<Rightarrow> ((Inl e, set_db db1 w), fs)
      | (Inr policy_version, db1) \<Rightarrow>
     (case download_access P rq policy_version sid password user db1 of
        Inl e \<Rightarrow> ((Inl e, set_db db1 w), fs)
      | Inr version \<Rightarrow>
     (case temp_path D ''.encrypted'' fs of
        (Inl e, fs1) \<Rightarrow> ((Inl e, set_db db1 w), fs1)
      | (Inr encrypted, fs1) \<Rightarrow>
     (case temp_path D ''.download'' fs1 of
        (Inl e, fs2) \<Rightarrow> ((Inl e, set_db db1 w), fs2)
      | (Inr plaintext, fs2) \<Rightarrow>
     (case fetch_on_disk D P F rq policy_version sid version encrypted plaintext user (fw_store w) db1 fs2 of
        ((Inl e, db2), fs3) \<Rightarrow> ((Inl e, set_db db2 w), cleanup_paths D [encrypted, plaintext] fs3)
      | ((Inr (filename, v), db2), fs3) \<Rightarrow>
          ((Inr \<lparr>dr_path = plaintext, dr_name = filename, dr_row = v\<rparr>, set_db db2 w),
           cleanup_paths D [encrypted] fs3))))))"

definition send_file :: "disk \<Rightarrow> disk_reply \<Rightarrow> temp_files \<Rightarrow> file_reply \<times> temp_files" where
  "send_file D r fs =
     (file_response (dr_name r) (file_content fs (dr_path r)) (dr_row r), cleanup_paths D [dr_path r] fs)"

text \<open>A whole request.\<close>

definition serve_download ::
  "disk \<Rightarrow> platform \<Rightarrow> file_lib \<Rightarrow> request \<Rightarrow> uuid \<Rightarrow> string option \<Rightarrow> string option \<Rightarrow> current_user option \<Rightarrow> file_world \<Rightarrow>
   temp_files \<Rightarrow> (file_reply res \<times> file_world) \<times> temp_files" where
  "serve_download D P F rq sid token password user w fs =
     (case download_on_disk D P F rq sid token password user w fs of
        ((Inl e, w1), fs1) \<Rightarrow> ((Inl e, w1), fs1)
      | ((Inr r, w1), fs1) \<Rightarrow> (let (reply, fs2) = send_file D r fs1 in ((Inr reply, w1), fs2)))"

subsection \<open>Nothing is left behind\<close>

text \<open>The files \<open>ps\<close> are new in \<open>fs'\<close>, all others are as in \<open>fs\<close>.\<close>

definition borrowed :: "string list \<Rightarrow> temp_files \<Rightarrow> temp_files \<Rightarrow> bool" where
  "borrowed ps fs fs' \<longleftrightarrow> (\<forall>p \<in> set ps. fs p = None) \<and> (\<forall>p. p \<notin> set ps \<longrightarrow> fs' p = fs p)"

lemma borrowed_none [simp]: "borrowed [] fs fs' \<longleftrightarrow> fs' = fs"
  by (auto simp: borrowed_def)

lemma borrowed_upd [simp]: "p \<in> set ps \<Longrightarrow> borrowed ps fs (fs'(p := x)) \<longleftrightarrow> borrowed ps fs fs'"
  by (auto simp: borrowed_def)

lemma borrowed_more: "borrowed ps fs fs' \<Longrightarrow> fs p = None \<Longrightarrow> borrowed (ps @ [p]) fs fs'"
  by (auto simp: borrowed_def)

definition unlinks :: "disk \<Rightarrow> bool" where
  "unlinks D \<longleftrightarrow> (\<forall>p fs. fst (dk_unlink D p fs) = Inr ())"

lemma cleanup_paths_eq:
  assumes "disk_laws D" and "unlinks D"
  shows "cleanup_paths D ps fs = (\<lambda>p. if p \<in> set ps then None else fs p)"
proof (induction ps arbitrary: fs)
  case (Cons p ps)
  have "dk_unlink D p fs = (Inr (), fs(p := None))"
    using assms by (metis disk_laws_def unlinks_def fst_conv Inl_Inr_False)
  with Cons show ?case by (auto simp: fun_eq_iff)
qed simp

lemma cleanup_borrowed:
  "disk_laws D \<Longrightarrow> unlinks D \<Longrightarrow> borrowed ps fs fs' \<Longrightarrow> cleanup_paths D ps fs' = fs"
  by (auto simp: cleanup_paths_eq borrowed_def fun_eq_iff)

lemma write_cases:
  assumes "disk_laws D" and "dk_write D p b fs = (r, fs')"
  obtains c where "fs' = fs(p \<mapsto> c)" and "r = Inr () \<Longrightarrow> c = file_content fs p @ b"
  using assms by (metis disk_laws_def prod.inject Inl_Inr_False)

lemma write_borrowed:
  "disk_laws D \<Longrightarrow> p \<in> set ps \<Longrightarrow> borrowed ps fs0 fs \<Longrightarrow> dk_write D p b fs = (r, fs') \<Longrightarrow> borrowed ps fs0 fs'"
  by (erule (1) write_cases) simp

lemma temp_path_Inl: "temp_path D suffix fs = (Inl e, fs') \<Longrightarrow> fs' = fs"
  by (auto simp: temp_path_def split: sum.splits)

lemma temp_path_Inr:
  "temp_path D suffix fs = (Inr p, fs') \<Longrightarrow> p = temp_name D suffix \<and> fs' = fs(temp_name D suffix \<mapsto> [])"
  by (auto simp: temp_path_def split: sum.splits)

lemma temp_path_borrowed:
  assumes "temp_path D suffix fs = (Inr p, fs')" and "borrowed ps fs0 fs" and "names_fresh D fs0"
  shows "borrowed (ps @ [p]) fs0 fs'"
  using assms by (auto dest!: temp_path_Inr simp: names_fresh_def borrowed_more)

lemma temp_names_differ:
  "temp_name D ''.upload'' \<noteq> temp_name D ''.encrypted''" "temp_name D ''.encrypted'' \<noteq> temp_name D ''.download''"
proof -
  have "rev (a @ ''.upload'') \<noteq> rev (b @ ''.encrypted'')" "rev (a @ ''.encrypted'') \<noteq> rev (b @ ''.download'')" for a b :: string
    by simp_all
  then have neq: "a @ ''.upload'' \<noteq> b @ ''.encrypted''" "a @ ''.encrypted'' \<noteq> b @ ''.download''" for a b :: string
    by metis+
  show "temp_name D ''.upload'' \<noteq> temp_name D ''.encrypted''" "temp_name D ''.encrypted'' \<noteq> temp_name D ''.download''"
    using neq [of "dk_dir D @ ''/phantom-'' @ dk_random D ''.upload''" "dk_dir D @ ''/phantom-'' @ dk_random D ''.encrypted''"]
      neq [of "dk_dir D @ ''/phantom-'' @ dk_random D ''.encrypted''" "dk_dir D @ ''/phantom-'' @ dk_random D ''.download''"]
    by (simp_all add: temp_name_def)
qed

lemma spool_files_borrowed:
  "disk_laws D \<Longrightarrow> path \<in> set ps \<Longrightarrow> borrowed ps fs0 fs \<Longrightarrow> borrowed ps fs0 (snd (spool_files D limit path n src fs))"
proof (induction D limit path n src fs rule: spool_files.induct)
  case (1 D limit path n src fs)
  show ?case
  proof (cases "take READ_SIZE src = [] \<or> limit < n + length (take READ_SIZE src)")
    case True
    then show ?thesis using "1.prems" by (subst spool_files.simps) (auto simp: Let_def)
  next
    case False
    obtain r fs' where w: "dk_write D path (take READ_SIZE src) fs = (r, fs')" by (metis surj_pair)
    have b: "borrowed ps fs0 fs'" by (rule write_borrowed [OF "1.prems" w])
    show ?thesis
    proof (cases r)
      case (Inl e)
      then show ?thesis using False w b by (subst spool_files.simps) (simp add: Let_def)
    next
      case (Inr u)
      have "borrowed ps fs0 (snd (spool_files D limit path (n + length (take READ_SIZE src)) (drop READ_SIZE src) fs'))"
        using "1.IH" [OF refl _ _ w [symmetric] Inr "1.prems"(1,2) b] False by simp
      then show ?thesis using False w Inr by (subst spool_files.simps) (simp add: Let_def)
    qed
  qed
qed

lemma encrypt_chunks_borrowed:
  "disk_laws D \<Longrightarrow> dst \<in> set ps \<Longrightarrow> borrowed ps fs0 fs \<Longrightarrow>
     borrowed ps fs0 (snd (encrypt_chunks D C dek np ap i dst src fs))"
proof (induction D C dek np ap i dst src fs rule: encrypt_chunks.induct)
  case (1 D C dek np ap i dst src fs)
  show ?case
  proof (cases "take CHUNK_SIZE src = [] \<or> enc_frame C dek np ap i (take CHUNK_SIZE src) = None")
    case True
    then show ?thesis using "1.prems" by (subst encrypt_chunks.simps) (auto simp: Let_def CHUNK_SIZE_def split: option.split)
  next
    case False
    then obtain f where f: "enc_frame C dek np ap i (take CHUNK_SIZE src) = Some f" "take CHUNK_SIZE src \<noteq> []" by auto
    obtain r fs' where w: "dk_write D dst f fs = (r, fs')" by (metis surj_pair)
    have b: "borrowed ps fs0 fs'" by (rule write_borrowed [OF "1.prems" w])
    show ?thesis
    proof (cases r)
      case (Inl e)
      then show ?thesis using f w b by (subst encrypt_chunks.simps) (simp add: Let_def CHUNK_SIZE_def)
    next
      case (Inr u)
      have "borrowed ps fs0 (snd (encrypt_chunks D C dek np ap (i + 1) dst (drop CHUNK_SIZE src) fs'))"
        using "1.IH" [OF refl f(2) f(1) w [symmetric] Inr "1.prems"(1,2) b] .
      then show ?thesis using f w Inr by (subst encrypt_chunks.simps) (simp add: Let_def CHUNK_SIZE_def)
    qed
  qed
qed

lemma encrypt_to_disk_borrowed:
  assumes "disk_laws D" and "dst \<in> set ps" and "borrowed ps fs0 fs"
  shows "borrowed ps fs0 (snd (encrypt_to_disk D C np src dst dek sid version fs))"
proof -
  obtain r fs1 where w: "dk_write D dst (file_header np) (fs(dst \<mapsto> [])) = (r, fs1)" by (metis surj_pair)
  have b: "borrowed ps fs0 fs1" by (rule write_borrowed [OF assms(1,2) _ w]) (simp add: assms)
  have "borrowed ps fs0 (snd (encrypt_chunks D C key np ap 0 dst (file_content fs src) fs1))" for key ap
    by (rule encrypt_chunks_borrowed [OF assms(1,2) b])
  then show ?thesis using assms(3) b
    by (auto simp: encrypt_to_disk_def w split: sum.split option.split prod.split) (metis snd_conv)+
qed

lemma decrypt_chunks_borrowed:
  "disk_laws D \<Longrightarrow> dst \<in> set ps \<Longrightarrow> borrowed ps fs0 fs \<Longrightarrow>
     borrowed ps fs0 (snd (decrypt_chunks D C dek np ap i dst src fs))"
proof (induction D C dek np ap i dst src fs rule: decrypt_chunks.induct)
  case (1 D C dek np ap i dst src fs)
  let ?len = "from_bytes (take 4 src)"
  let ?enc = "take ?len (drop 4 src)"
  have "(\<exists>r. decrypt_chunks D C dek np ap i dst src fs = (r, fs)) \<or>
      (\<exists>ib p. take 4 src \<noteq> [] \<and> length (take 4 src) = 4 \<and> length ?enc = ?len \<and> pack_I i = Some ib \<and>
         aead_dec C dek (np @ ib) ?enc (ap @ ib) = Some p)"
    by (auto simp: decrypt_chunks.simps [of D C dek np ap i dst src fs] Let_def split: if_splits option.splits)
  then consider (stop) r where "decrypt_chunks D C dek np ap i dst src fs = (r, fs)"
    | (frame) ib p where "take 4 src \<noteq> []" "length (take 4 src) = 4" "length ?enc = ?len" "pack_I i = Some ib"
        "aead_dec C dek (np @ ib) ?enc (ap @ ib) = Some p" by blast
  then show ?case
  proof cases
    case (stop r)
    then show ?thesis using "1.prems" by simp
  next
    case (frame ib p)
    obtain r fs' where w: "dk_write D dst p fs = (r, fs')" by (metis surj_pair)
    have b: "borrowed ps fs0 fs'" by (rule write_borrowed [OF "1.prems" w])
    show ?thesis
    proof (cases r)
      case (Inl e)
      then show ?thesis using frame w b by (subst decrypt_chunks.simps) (simp add: Let_def)
    next
      case (Inr u)
      have "borrowed ps fs0 (snd (decrypt_chunks D C dek np ap (i + 1) dst (drop ?len (drop 4 src)) fs'))"
        using "1.IH" [OF refl _ _ refl refl _ frame(4,5) w [symmetric] Inr "1.prems"(1,2) b] frame(1-3) by simp
      then show ?thesis using frame w Inr by (subst decrypt_chunks.simps) (simp add: Let_def)
    qed
  qed
qed

lemma decrypt_to_disk_borrowed:
  assumes "disk_laws D" and "dst \<in> set ps" and "borrowed ps fs0 fs"
  shows "borrowed ps fs0 (snd (decrypt_to_disk D C src dst dek sid version fs))"
  using assms decrypt_chunks_borrowed [OF assms(1,2), of fs0 "fs(dst \<mapsto> [])"]
  by (auto simp: decrypt_to_disk_def Let_def split: sum.split option.split)

lemma spool_to_disk_left:
  assumes "disk_laws D" and "unlinks D" and "names_fresh D fs"
  shows "case spool_to_disk D limit src fs of (Inl e, fs') \<Rightarrow> fs' = fs | (Inr (p, n), fs') \<Rightarrow> borrowed [p] fs fs'"
proof (cases "temp_path D ''.upload'' fs")
  case (Pair r fs1)
  show ?thesis
  proof (cases r)
    case (Inl e)
    then show ?thesis using Pair by (simp add: spool_to_disk_def temp_path_Inl)
  next
    case (Inr p)
    have b1: "borrowed [p] fs fs1" using temp_path_borrowed [of D _ fs p fs1 "[]" fs] Pair Inr assms(3) by simp
    have b2: "borrowed [p] fs (snd (spool_files D limit p 0 src fs1))"
      by (rule spool_files_borrowed [OF assms(1) _ b1]) simp
    obtain x fs2 where x: "spool_files D limit p 0 src fs1 = (x, fs2)" by (metis surj_pair)
    have b2: "borrowed [p] fs fs2" using b2 x by simp
    have c: "cleanup_paths D [p] fs2 = fs" by (rule cleanup_borrowed [OF assms(1,2) b2])
    show ?thesis
      using Pair Inr x b2 c by (cases x) (simp_all add: spool_to_disk_def del: cleanup_paths.simps)
  qed
qed

text \<open>The staging leaves behind no more than the files it has handed to the \<open>finally\<close> block.\<close>

lemma stage_on_disk_borrowed:
  assumes D: "disk_laws D" "unlinks D" "names_fresh D fs"
    and run: "stage_on_disk D P F rq rd sid version user up w fs = (y, paths, fs')"
  shows "borrowed paths fs fs'"
proof -
  obtain x fs1 where sp: "spool_to_disk D (MAX_FILE_BYTES (cfg P)) (up_data up) fs = (x, fs1)" by (metis surj_pair)
  show ?thesis
  proof (cases x)
    case (Inl e)
    then show ?thesis using run sp spool_to_disk_left [OF D, of "MAX_FILE_BYTES (cfg P)" "up_data up"]
      by (simp add: stage_on_disk_def)
  next
    case (Inr pn)
    obtain p n where pn: "pn = (p, n)" by (metis surj_pair)
    have b1: "borrowed [p] fs fs1"
      using spool_to_disk_left [OF D, of "MAX_FILE_BYTES (cfg P)" "up_data up"] sp Inr pn by simp
    obtain t fs2 where t: "temp_path D ''.encrypted'' fs1 = (t, fs2)" by (metis surj_pair)
    consider "paths = [p]" "fs' = fs1" | e where "t = Inl e" "paths = [p]" "fs' = fs2"
      | q where "t = Inr q" "paths = [p, q]"
          "fs' = snd (encrypt_to_disk D (cr P) (fr_prefix rd) p q (fr_dek rd) sid version fs2)"
      using run sp Inr pn t
      by (auto simp: stage_on_disk_def Let_def split: sum.splits prod.splits)
    then show ?thesis
    proof cases
      case 1
      then show ?thesis using b1 by simp
    next
      case (2 e)
      then show ?thesis using b1 t temp_path_Inl by metis
    next
      case (3 q)
      have "borrowed [p, q] fs fs2" using temp_path_borrowed [OF t [unfolded 3(1)] b1 D(3)] by simp
      then show ?thesis using encrypt_to_disk_borrowed [OF D(1), of q "[p, q]" fs fs2] 3(2,3) by simp
    qed
  qed
qed

lemma create_on_disk_left:
  assumes "disk_laws D" "unlinks D" "names_fresh D fs"
  shows "snd (create_on_disk D P F rq rd form user up w fs) = fs"
proof (cases "reserve P (fw_db w) (rq_now rq) (fr_secret_rid rd) (cu_id user) 1 0 (fw_quota w)")
  case (Pair r q)
  obtain y paths fs1 where st: "stage_on_disk D P F rq rd (fr_secret rd) 1 user up (set_quota q w) fs = (y, paths, fs1)"
    by (metis surj_pair)
  have "cleanup_paths D paths fs1 = fs" by (rule cleanup_borrowed [OF assms(1,2) stage_on_disk_borrowed [OF assms st]])
  then show ?thesis using Pair st by (auto simp: create_on_disk_def split: sum.split prod.split)
qed

lemma update_on_disk_left:
  assumes "disk_laws D" "unlinks D" "names_fresh D fs"
  shows "snd (update_on_disk D P F rq rd sid n note user up w fs) = fs"
proof -
  obtain y paths fs1 where st: "stage_on_disk D P F rq rd sid (nat (n + 1)) user up w fs = (y, paths, fs1)"
    by (metis surj_pair)
  have "cleanup_paths D paths fs1 = fs" by (rule cleanup_borrowed [OF assms(1,2) stage_on_disk_borrowed [OF assms st]])
  then show ?thesis using st by (auto simp: update_on_disk_def split: sum.split prod.split)
qed

lemma fetch_on_disk_borrowed:
  assumes "disk_laws D" and "borrowed [encrypted, plaintext] fs0 fs"
  shows "borrowed [encrypted, plaintext] fs0
    (snd (fetch_on_disk D P F rq pv sid version encrypted plaintext user store db fs))"
proof -
  have "borrowed [encrypted, plaintext] fs0 (snd (open_on_disk D P sid version v encrypted plaintext db (fs(encrypted \<mapsto> b))))"
    for v b
    using assms(2) decrypt_to_disk_borrowed [OF assms(1), of plaintext "[encrypted, plaintext]" fs0 "fs(encrypted \<mapsto> b)"]
    by (auto simp: open_on_disk_def split: sum.split prod.split) (metis snd_conv)+
  note open_b = this
  have "borrowed [encrypted, plaintext] fs0
      (snd (download_locked_on_disk D P rq pv sid version encrypted plaintext user db (fs(encrypted \<mapsto> b))))" for b
    using assms(2) open_b [of _ b]
    by (auto simp: download_locked_on_disk_def Let_def split: sum.split prod.split) (metis snd_conv)+
  then show ?thesis using assms(2) by (auto simp: fetch_on_disk_def split: sum.split)
qed

lemma fetch_on_disk_cases:
  assumes D: "disk_laws D" "unlinks D" "names_fresh D fs"
    and "temp_path D ''.encrypted'' fs = (Inr e, fs1)" and "temp_path D ''.download'' fs1 = (Inr p, fs2)"
    and "fetch_on_disk D P F rq pv sid version e p user store db fs2 = (y, fs3)"
  shows "cleanup_paths D [e, p] fs3 = fs" and "cleanup_paths D [p] (cleanup_paths D [e] fs3) = fs"
proof -
  have "borrowed [e] fs fs1" using temp_path_borrowed [OF assms(4), of "[]" fs] D(3) by simp
  then have "borrowed [e, p] fs fs2" using temp_path_borrowed [OF assms(5) _ D(3), of "[e]"] by simp
  from fetch_on_disk_borrowed [OF D(1) this, of P F rq pv sid version user store db] assms(6)
  have "borrowed [e, p] fs fs3" by simp
  then show "cleanup_paths D [e, p] fs3 = fs" by (rule cleanup_borrowed [OF D(1,2)])
  then show "cleanup_paths D [p] (cleanup_paths D [e] fs3) = fs" by 
    (simp add: cleanup_paths_eq [OF D(1,2)] fun_eq_iff del: cleanup_paths.simps, metis)
qed

lemma serve_download_left:
  assumes D: "disk_laws D" "unlinks D" "names_fresh D fs"
    and made: "\<forall>fs. ok (dk_mkdir D fs) \<and> ok (dk_mkstemp D ''.download'' fs)"
  shows "snd (serve_download D P F rq sid token password user w fs) = fs"
proof (cases "temp_path D ''.encrypted'' fs")
  case (Pair x fs1)
  obtain z fs2 where z: "temp_path D ''.download'' fs1 = (Inr z, fs2)"
    using made by (fastforce simp: temp_path_def ok_iff split: sum.split)
  have left: "cleanup_paths D [e, z] (snd f) = fs \<and> cleanup_paths D [z] (cleanup_paths D [e] (snd f)) = fs"
    if "x = Inr e" "f = fetch_on_disk D P F rq pv sid version e z user (fw_store w) db fs2" for e f pv version db
    using fetch_on_disk_cases [OF D _ z, of e P F rq pv sid version user "fw_store w" db "fst f" "snd f"] Pair that by simp
  show ?thesis
    using left Pair z temp_path_Inl [of D "''.encrypted''" fs _ fs1]
    by (auto simp: serve_download_def download_on_disk_def send_file_def Let_def simp del: cleanup_paths.simps
        split: sum.split prod.split) (metis snd_conv)+
qed

subsection \<open>A disk that works\<close>

definition disk_up :: "disk \<Rightarrow> bool" where
  "disk_up D \<longleftrightarrow> disk_laws D \<and> unlinks D \<and> (\<forall>p b fs. ok (fst (dk_write D p b fs))) \<and>
     (\<forall>fs. ok (dk_mkdir D fs)) \<and> (\<forall>suffix fs. ok (dk_mkstemp D suffix fs))"

lemma up_write: "disk_up D \<Longrightarrow> dk_write D p b fs = (Inr (), fs(p \<mapsto> file_content fs p @ b))"
  unfolding disk_up_def disk_laws_def by (metis ok_simps(1) fst_conv)

lemma up_temp: "disk_up D \<Longrightarrow> temp_path D suffix fs = (Inr (temp_name D suffix), fs(temp_name D suffix \<mapsto> []))"
  by (auto simp: disk_up_def temp_path_def ok_def split: sum.splits)

lemma spool_files_Nil [simp]: "spool_files D limit p n [] fs = (Inr n, fs)"
  by (simp add: spool_files.simps)

lemma encrypt_chunks_Nil [simp]: "encrypt_chunks D C dek np ap i p [] fs = (Inr (), fs)"
  by (simp add: encrypt_chunks.simps)

lemma spool_files_up:
  assumes "disk_up D" and "fs p = Some a"
  shows "case spool_loop limit n src of Inl e \<Rightarrow> fst (spool_files D limit p n src fs) = Inl e
    | Inr (b, m) \<Rightarrow> spool_files D limit p n src fs = (Inr m, fs(p \<mapsto> a @ b))"
  using assms(2)
proof (induction limit n src arbitrary: a fs rule: spool_loop.induct)
  case (1 limit n src)
  show ?case
  proof (cases "take READ_SIZE src = [] \<or> limit < n + length (take READ_SIZE src)")
    case True
    then show ?thesis using "1.prems"
      by (subst spool_files.simps, subst spool_loop.simps) (auto simp: Let_def map_upd_triv)
  next
    case False
    let ?c = "take READ_SIZE src"
    let ?r = "spool_loop limit (n + length ?c) (drop READ_SIZE src)"
    have IH: "case ?r of Inl e \<Rightarrow> fst (spool_files D limit p (n + length ?c) (drop READ_SIZE src) (fs(p \<mapsto> a @ ?c))) = Inl e
        | Inr (b, m) \<Rightarrow> spool_files D limit p (n + length ?c) (drop READ_SIZE src) (fs(p \<mapsto> a @ ?c)) =
            (Inr m, (fs(p \<mapsto> a @ ?c))(p \<mapsto> (a @ ?c) @ b))"
      by (rule "1.IH" [OF refl]) (use False in auto)
    have "spool_files D limit p n src fs = spool_files D limit p (n + length ?c) (drop READ_SIZE src) (fs(p \<mapsto> a @ ?c))"
      using False "1.prems" up_write [OF assms(1), of p ?c fs]
      by (subst spool_files.simps) (simp add: Let_def file_content_def)
    moreover have "spool_loop limit n src = bind_res ?r (\<lambda>(rest, m). Inr (?c @ rest, m))"
      using False by (subst spool_loop.simps) (simp add: Let_def)
    ultimately show ?thesis using IH by (cases ?r) auto
  qed
qed

lemma spool_to_disk_up:
  assumes "disk_up D"
  shows "case spool_upload limit src of Inl e \<Rightarrow> fst (spool_to_disk D limit src fs) = Inl e
    | Inr (b, m) \<Rightarrow> spool_to_disk D limit src fs = (Inr (temp_name D ''.upload'', m), fs(temp_name D ''.upload'' \<mapsto> b))"
  using spool_files_up [OF assms, of "fs(temp_name D ''.upload'' \<mapsto> [])" "temp_name D ''.upload''" "[]" limit 0 src]
  by (cases "spool_loop limit 0 src")
    (auto simp: spool_to_disk_def spool_upload_def up_temp [OF assms] split: prod.split simp del: cleanup_paths.simps)

lemma encrypt_chunks_up:
  assumes "disk_up D" and "fs p = Some a"
  shows "case encrypt_loop C dek np ap i src of None \<Rightarrow> fst (encrypt_chunks D C dek np ap i p src fs) = Inl (ValueError ''struct.error'')
    | Some out \<Rightarrow> encrypt_chunks D C dek np ap i p src fs = (Inr (), fs(p \<mapsto> a @ out))"
  using assms(2)
proof (induction C dek np ap i src arbitrary: a fs rule: encrypt_loop.induct)
  case (1 C dek np ap i src)
  show ?case
  proof (cases "take CHUNK_SIZE src = [] \<or> enc_frame C dek np ap i (take CHUNK_SIZE src) = None")
    case True
    then show ?thesis using "1.prems"
      by (subst encrypt_chunks.simps, subst encrypt_loop.simps) (auto simp: Let_def map_upd_triv CHUNK_SIZE_def)
  next
    case False
    then obtain f where f: "enc_frame C dek np ap i (take CHUNK_SIZE src) = Some f" "take CHUNK_SIZE src \<noteq> []" by auto
    let ?r = "encrypt_loop C dek np ap (i + 1) (drop CHUNK_SIZE src)"
    let ?d = "encrypt_chunks D C dek np ap (i + 1) p (drop CHUNK_SIZE src) (fs(p \<mapsto> a @ f))"
    have IH: "case ?r of None \<Rightarrow> fst ?d = Inl (ValueError ''struct.error'')
        | Some out \<Rightarrow> ?d = (Inr (), (fs(p \<mapsto> a @ f))(p \<mapsto> (a @ f) @ out))"
      by (rule "1.IH" [OF refl f(2,1)]) simp
    have "encrypt_chunks D C dek np ap i p src fs = ?d"
      using f "1.prems" up_write [OF assms(1), of p f fs]
      by (subst encrypt_chunks.simps) (simp add: Let_def file_content_def CHUNK_SIZE_def)
    moreover have "encrypt_loop C dek np ap i src = map_option ((@) f) ?r"
      using f by (subst encrypt_loop.simps) (simp add: Let_def CHUNK_SIZE_def)
    ultimately show ?thesis using IH by (cases ?r) auto
  qed
qed

lemma encrypt_to_disk_up:
  assumes "disk_up D" and "p \<noteq> q" and "fs p = Some src"
  shows "case encrypt_file C np src dek sid version of Inl e \<Rightarrow> fst (encrypt_to_disk D C np p q dek sid version fs) = Inl e
    | Inr (out, n, digest) \<Rightarrow> encrypt_to_disk D C np p q dek sid version fs = (Inr (n, digest), fs(q \<mapsto> out))"
proof -
  have w: "dk_write D q (file_header np) (fs(q \<mapsto> [])) = (Inr (), fs(q \<mapsto> file_header np))"
    using up_write [OF assms(1), of q "file_header np" "fs(q \<mapsto> [])"] by (simp add: file_content_def)
  have c: "file_content fs p = src" using assms(3) by (simp add: file_content_def)
  show ?thesis
  proof (cases "chacha dek")
    case (Inr key)
    show ?thesis
    proof (cases "pack_I version")
      case (Some vb)
      show ?thesis
        using encrypt_chunks_up [OF assms(1), of "fs(q \<mapsto> file_header np)" q "file_header np" C key np "uuid_bytes sid @ vb" 0 src]
        by (cases "encrypt_loop C key np (uuid_bytes sid @ vb) 0 src")
          (auto simp: encrypt_to_disk_def encrypt_file_def Inr Some w c split: sum.split prod.split)
    qed (simp add: encrypt_to_disk_def encrypt_file_def Inr)
  qed (simp add: encrypt_to_disk_def encrypt_file_def)
qed

lemma stage_on_disk_up:
  assumes "disk_up D"
  shows "fst (stage_on_disk D P F rq rd sid version user up w fs) = stage_upload P F rq rd sid version user up w"
proof (cases "spool_upload (MAX_FILE_BYTES (cfg P)) (up_data up)")
  case (Inl e)
  obtain fs1 where "spool_to_disk D (MAX_FILE_BYTES (cfg P)) (up_data up) fs = (Inl e, fs1)"
    using spool_to_disk_up [OF assms, of "MAX_FILE_BYTES (cfg P)" "up_data up" fs] Inl
    by (cases "spool_to_disk D (MAX_FILE_BYTES (cfg P)) (up_data up) fs") auto
  then show ?thesis using Inl by (simp add: stage_on_disk_def stage_upload_def)
next
  case (Inr bn)
  obtain b n where bn: "bn = (b, n)" by (metis surj_pair)
  let ?p = "temp_name D ''.upload''" and ?q = "temp_name D ''.encrypted''"
  have sp: "spool_to_disk D (MAX_FILE_BYTES (cfg P)) (up_data up) fs = (Inr (?p, n), fs(?p \<mapsto> b))"
    using spool_to_disk_up [OF assms, of "MAX_FILE_BYTES (cfg P)" "up_data up" fs] Inr bn by simp
  have enc: "case encrypt_file (cr P) (fr_prefix rd) b (fr_dek rd) sid version of
      Inl e \<Rightarrow> fst (encrypt_to_disk D (cr P) (fr_prefix rd) ?p ?q (fr_dek rd) sid version (fs(?p \<mapsto> b, ?q \<mapsto> []))) = Inl e
    | Inr (out, m, digest) \<Rightarrow> encrypt_to_disk D (cr P) (fr_prefix rd) ?p ?q (fr_dek rd) sid version (fs(?p \<mapsto> b, ?q \<mapsto> [])) =
        (Inr (m, digest), fs(?p \<mapsto> b, ?q \<mapsto> [], ?q \<mapsto> out))"
    by (rule encrypt_to_disk_up [OF assms]) (use temp_names_differ [of D] in auto)
  show ?thesis
    using enc Inr bn sp
    by (cases "encrypt_file (cr P) (fr_prefix rd) b (fr_dek rd) sid version")
      (auto simp: stage_on_disk_def stage_upload_def stage_object_store up_temp [OF assms] file_content_def Let_def
        split: sum.split prod.split)
qed

lemma decrypt_chunks_Nil [simp]: "decrypt_chunks D C dek np ap i p [] fs = (Inr (), fs)"
  by (simp add: decrypt_chunks.simps)

lemma decrypt_chunks_up:
  assumes "disk_up D" and "fs p = Some a"
  shows "case decrypt_loop C dek np ap i src of Inl e \<Rightarrow> fst (decrypt_chunks D C dek np ap i p src fs) = Inl e
    | Inr out \<Rightarrow> decrypt_chunks D C dek np ap i p src fs = (Inr (), fs(p \<mapsto> a @ out))"
  using assms(2)
proof (induction C dek np ap i src arbitrary: a fs rule: decrypt_loop.induct)
  case (1 C dek np ap i src)
  let ?len = "from_bytes (take 4 src)"
  let ?enc = "take ?len (drop 4 src)"
  show ?case
  proof (cases "take 4 src \<noteq> [] \<and> length (take 4 src) = 4 \<and> length ?enc = ?len \<and>
      (\<exists>ib p. pack_I i = Some ib \<and> aead_dec C dek (np @ ib) ?enc (ap @ ib) = Some p)")
    case False
    have stop: "case decrypt_loop C dek np ap i src of Inl e \<Rightarrow> decrypt_chunks D C dek np ap i p src fs = (Inl e, fs)
        | Inr out \<Rightarrow> out = [] \<and> decrypt_chunks D C dek np ap i p src fs = (Inr (), fs)"
    proof (cases "take 4 src \<noteq> [] \<and> length (take 4 src) = 4 \<and> length ?enc = ?len")
      case True
      with False show ?thesis
        by (cases "pack_I i"; cases "aead_dec C dek (np @ the (pack_I i)) ?enc (ap @ the (pack_I i))")
          (simp_all add: decrypt_chunks.simps [of D C dek np ap i p src fs] decrypt_loop.simps [of C dek np ap i src] Let_def)
    next
      case False
      then show ?thesis
        by (cases "take 4 src = []"; cases "length (take 4 src) = 4")
          (auto simp: min_def decrypt_chunks.simps [of D C dek np ap i p src fs] decrypt_loop.simps [of C dek np ap i src] Let_def)
    qed
    then show ?thesis using "1.prems" by (cases "decrypt_loop C dek np ap i src") (simp_all add: map_upd_triv)
  next
    case True
    then obtain ib b where f: "take 4 src \<noteq> []" "length (take 4 src) = 4" "length ?enc = ?len" "pack_I i = Some ib"
      "aead_dec C dek (np @ ib) ?enc (ap @ ib) = Some b" by blast
    let ?r = "decrypt_loop C dek np ap (i + 1) (drop ?len (drop 4 src))"
    let ?d = "decrypt_chunks D C dek np ap (i + 1) p (drop ?len (drop 4 src)) (fs(p \<mapsto> a @ b))"
    have IH: "case ?r of Inl e \<Rightarrow> fst ?d = Inl e | Inr out \<Rightarrow> ?d = (Inr (), (fs(p \<mapsto> a @ b))(p \<mapsto> (a @ b) @ out))"
      by (rule "1.IH" [OF refl _ _ refl refl _ f(4,5)]) (use f(1-3) in auto)
    have "decrypt_chunks D C dek np ap i p src fs = ?d"
      using f "1.prems" up_write [OF assms(1), of p b fs]
      by (subst decrypt_chunks.simps) (simp add: Let_def file_content_def)
    moreover have "decrypt_loop C dek np ap i src = bind_res ?r (\<lambda>rest. Inr (b @ rest))"
      using f by (subst decrypt_loop.simps) (simp add: Let_def)
    ultimately show ?thesis using IH by (cases ?r) auto
  qed
qed

lemma decrypt_to_disk_up:
  assumes "disk_up D" and "fs q = Some data"
  shows "case decrypt_file C data dek sid version of Inl e \<Rightarrow> fst (decrypt_to_disk D C q p dek sid version fs) = Inl e
    | Inr out \<Rightarrow> decrypt_to_disk D C q p dek sid version fs = (Inr (), fs(p \<mapsto> out))"
proof -
  have c: "file_content fs q = data" using assms(2) by (simp add: file_content_def)
  show ?thesis
  proof (cases "chacha dek")
    case (Inr key)
    show ?thesis
    proof (cases "pack_I version")
      case (Some vb)
      let ?np = "take 8 (drop 8 (take 20 data))" and ?ap = "uuid_bytes sid @ vb"
      show ?thesis
        using decrypt_chunks_up [OF assms(1), of "fs(p \<mapsto> [])" p "[]" C key ?np ?ap 0 "drop 20 data"]
        by (cases "decrypt_loop C key ?np ?ap 0 (drop 20 data)")
          (simp_all add: decrypt_to_disk_def decrypt_file_def c Let_def Inr Some)
    qed (simp add: decrypt_to_disk_def decrypt_file_def Inr)
  qed (simp add: decrypt_to_disk_def decrypt_file_def)
qed

lemma open_on_disk_up:
  assumes "disk_up D" and "fs q = Some data"
  shows "case open_object P sid version v data db of
      Inl e \<Rightarrow> fst (open_on_disk D P sid version v q p db fs) = Inl e
    | Inr (filename, out) \<Rightarrow> open_on_disk D P sid version v q p db fs = (Inr filename, fs(p \<mapsto> out))"
proof -
  let ?name = "\<lambda>dek. case (v_filename v, v_filename_nonce v) of
      (Some c, Some n) \<Rightarrow> decrypt_content (cr P) c n dek | _ \<Rightarrow> Inl TypeError"
  show ?thesis
  proof (cases "get_dek_for_secret (cr P) db sid (v_key v)")
    case (Inr dek)
    show ?thesis
    proof (cases "?name dek")
      case name: (Inr filename)
      obtain r fs1 where d: "decrypt_to_disk D (cr P) q p dek sid (nat version) fs = (r, fs1)" by (metis surj_pair)
      show ?thesis
        using decrypt_to_disk_up [OF assms(1), where fs = fs and q = q and data = data and C = "cr P" and dek = dek and
            sid = sid and version = "nat version" and p = p] assms(2) d
        by (cases "decrypt_file (cr P) data dek sid (nat version)")
          (auto simp: open_on_disk_def open_object_def Inr name name [simplified])
    qed (simp add: open_on_disk_def open_object_def Inr)
  qed (simp add: open_on_disk_def open_object_def)
qed

text \<open>The transaction sees the same, and leaves the plaintext in its file.\<close>

lemma download_locked_up:
  assumes "disk_up D" and "fs q = Some data"
  shows "case download_locked P rq pv sid version data user db of
      (Inl e, db') \<Rightarrow> fst (download_locked_on_disk D P rq pv sid version q p user db fs) = (Inl e, db')
    | (Inr (filename, out, v), db') \<Rightarrow>
        download_locked_on_disk D P rq pv sid version q p user db fs = ((Inr (filename, v), db'), fs(p \<mapsto> out))"
proof (cases "download_guards pv sid version db")
  case (Inr sv)
  obtain s v where sv: "sv = (s, v)" by (metis surj_pair)
  obtain r fs1 where o: "open_on_disk D P sid version v q p db fs = (r, fs1)" by (metis surj_pair)
  show ?thesis
    using open_on_disk_up [OF assms(1), where fs = fs and q = q and data = data and P = P and sid = sid and
        version = version and v = v and db = db and p = p] assms(2) o Inr sv
    by (cases "open_object P sid version v data db"; cases "record_view rq sid user (s_version s) db")
      (auto simp: download_locked_on_disk_def download_locked_def Let_def)
qed (simp add: download_locked_on_disk_def download_locked_def)

lemma create_on_disk_up:
  assumes "disk_up D"
  shows "fst (create_on_disk D P F rq rd form user up w fs) = create_file_secret P F rq rd form user up w"
proof (cases "reserve P (fw_db w) (rq_now rq) (fr_secret_rid rd) (cu_id user) 1 0 (fw_quota w)")
  case (Pair r q)
  obtain y w1 paths fs1 where st: "stage_on_disk D P F rq rd (fr_secret rd) 1 user up (set_quota q w) fs = ((y, w1), paths, fs1)"
    by (metis surj_pair)
  then have "stage_upload P F rq rd (fr_secret rd) 1 user up (set_quota q w) = (y, w1)"
    using stage_on_disk_up [OF assms, of P F rq rd "fr_secret rd" 1 user up "set_quota q w" fs] by simp
  with Pair st show ?thesis
    by (auto simp: create_on_disk_def create_file_secret_def split: sum.split prod.split)
qed

lemma update_on_disk_up:
  assumes "disk_up D"
  shows "fst (update_on_disk D P F rq rd sid n note user up w fs) = update_file_secret P F rq rd sid n note user up w"
proof -
  obtain y w1 paths fs1 where st: "stage_on_disk D P F rq rd sid (nat (n + 1)) user up w fs = ((y, w1), paths, fs1)"
    by (metis surj_pair)
  then have "stage_upload P F rq rd sid (nat (n + 1)) user up w = (y, w1)"
    using stage_on_disk_up [OF assms, of P F rq rd sid "nat (n + 1)" user up w fs] by simp
  with st show ?thesis
    by (auto simp: update_on_disk_def update_file_secret_def split: sum.split prod.split)
qed

lemma download_on_disk_up:
  assumes "disk_up D" and "names_fresh D fs"
  shows "case download_file_secret P F rq sid token password user w of
      (Inl e, w') \<Rightarrow> fst (download_on_disk D P F rq sid token password user w fs) = (Inl e, w')
    | (Inr reply, w') \<Rightarrow> \<exists>name v out. reply = file_response name out v \<and>
        download_on_disk D P F rq sid token password user w fs =
          ((Inr \<lparr>dr_path = temp_name D ''.download'', dr_name = name, dr_row = v\<rparr>, w'),
           fs(temp_name D ''.download'' \<mapsto> out))"
proof -
  let ?q = "temp_name D ''.encrypted''" and ?p = "temp_name D ''.download''"
  let ?fs = "fs(?q \<mapsto> [], ?p \<mapsto> [])"
  obtain a db1 where a: "authorize P rq sid token (fw_db w) = (a, db1)" by (metis surj_pair)
  note ups = up_temp [OF assms(1)]
  have clean: "cleanup_paths D [?q] (fs(?q \<mapsto> b, ?p \<mapsto> out)) = fs(?p \<mapsto> out)" for b out
    using assms temp_names_differ(2) [of D]
    by (auto simp: cleanup_paths_eq disk_up_def names_fresh_def fun_eq_iff simp del: cleanup_paths.simps)
  have files: "?fs(?q \<mapsto> b, ?p \<mapsto> out) = fs(?q \<mapsto> b, ?p \<mapsto> out)" for b out
    using temp_names_differ(2) [of D] by (simp add: fun_eq_iff)
  show ?thesis
  proof (cases a)
    case (Inl e)
    then show ?thesis using a by (simp add: download_file_secret_def download_on_disk_def)
  next
    case (Inr pv)
    note pv = Inr
    show ?thesis
    proof (cases "download_access P rq pv sid password user db1")
      case (Inl e)
      then show ?thesis using a pv by (simp add: download_file_secret_def download_on_disk_def download_checks_split)
    next
      case (Inr version)
      note version = Inr
      show ?thesis
      proof (cases "bind_res (download_key sid version db1) (\<lambda>key. fl_get F key (fw_store w))")
        case (Inl e)
        then show ?thesis using a pv version
          by (cases "download_key sid version db1")
            (simp_all add: download_file_secret_def download_on_disk_def download_checks_split ups fetch_on_disk_def
              del: cleanup_paths.simps)
      next
        case (Inr b)
        then obtain key where key: "download_key sid version db1 = Inr key" "fl_get F key (fw_store w) = Inr b"
          by (cases "download_key sid version db1") simp_all
        obtain r db2 where l: "download_locked P rq pv sid version b user db1 = (r, db2)" by (metis surj_pair)
        obtain d fs3 where d: "download_locked_on_disk D P rq pv sid version ?q ?p user db1 (?fs(?q \<mapsto> b)) = (d, fs3)"
          by (metis surj_pair)
        have locked: "case download_locked P rq pv sid version b user db1 of
            (Inl e, db') \<Rightarrow> d = (Inl e, db')
          | (Inr (filename, out, v), db') \<Rightarrow> (d, fs3) = ((Inr (filename, v), db'), ?fs(?q \<mapsto> b, ?p \<mapsto> out))"
          using download_locked_up [OF assms(1), where fs = "?fs(?q \<mapsto> b)" and q = ?q and data = b and P = P and rq = rq and pv = pv and
              sid = sid and version = version and user = user and db = db1 and p = ?p] unfolding d
          by (simp only: fst_conv fun_upd_same)
        show ?thesis
        proof (cases r)
          case (Inl e)
          then show ?thesis using a pv version key l d locked
            by (simp add: download_file_secret_def download_on_disk_def download_checks_split ups fetch_on_disk_def
                del: cleanup_paths.simps)
        next
          case (Inr x)
          obtain name out v where x: "x = (name, out, v)" by (metis surj_pair)
          have d': "d = (Inr (name, v), db2)" "fs3 = fs(?q \<mapsto> b, ?p \<mapsto> out)" using locked l Inr x files by simp_all
          show ?thesis using a pv version key l d d' Inr x
            by (auto simp: download_file_secret_def download_on_disk_def download_checks_split ups fetch_on_disk_def clean
                simp del: cleanup_paths.simps)
        qed
      qed
    qed
  qed
qed

lemma serve_download_up:
  assumes "disk_up D" and "names_fresh D fs"
  shows "fst (serve_download D P F rq sid token password user w fs) = download_file_secret P F rq sid token password user w"
proof -
  obtain y w' where y: "download_file_secret P F rq sid token password user w = (y, w')" by (metis surj_pair)
  obtain d fs1 where d: "download_on_disk D P F rq sid token password user w fs = (d, fs1)" by (metis surj_pair)
  show ?thesis
    using download_on_disk_up [OF assms, of P F rq sid token password user w] y d
    by (cases y) (auto simp: serve_download_def send_file_def file_content_def Let_def)
qed

subsection \<open>What the handlers promise\<close>

text \<open>C16: Whatever fails of the disk except unlink, of the services and of the request: creating a file secret and replacing a file leave
  the upload directory as it was, and so does a download once its response is sent, if its second temporary file can be made.
\<close>

theorem no_plaintext_left:
  assumes "disk_laws D" and "unlinks D" and "names_fresh D fs"
  shows "snd (create_on_disk D P F rq rd form user up w fs) = fs \<and>
    snd (update_on_disk D P F rq rd sid n note user up w fs) = fs \<and>
    ((\<forall>fs. ok (dk_mkdir D fs) \<and> ok (dk_mkstemp D ''.download'' fs)) \<longrightarrow>
      snd (serve_download D P F rq sid token password reader w fs) = fs)"
  by (simp add: create_on_disk_left [OF assms] update_on_disk_left [OF assms] serve_download_left [OF assms])

text \<open>C17: On a disk that works, the handlers with their temporary files do what \<open>create_file_secret\<close>, \<open>update_file_secret\<close>
  and \<open>download_file_secret\<close> do with values: the same answer, rows, objects, reservations and bytes.
\<close>

theorem disk_handlers_refine:
  assumes "disk_up D" and "names_fresh D fs"
  shows "fst (create_on_disk D P F rq rd form user up w fs) = create_file_secret P F rq rd form user up w \<and>
    fst (update_on_disk D P F rq rd sid n note user up w fs) = update_file_secret P F rq rd sid n note user up w \<and>
    fst (serve_download D P F rq sid token password reader w fs) = download_file_secret P F rq sid token password reader w"
  by (intro conjI create_on_disk_up [OF assms(1)] update_on_disk_up [OF assms(1)] serve_download_up [OF assms])

text \<open>
  The download makes both files before its \<open>try\<close>: when the second can not be made, the first one stays.
\<close>

lemma failed_mkstemp_leaves:
  assumes "authorize P rq sid token (fw_db w) = (Inr pv, db1)"
    and "download_access P rq pv sid password user db1 = Inr version"
    and "temp_path D ''.encrypted'' fs = (Inr p, fs1)" and "dk_mkstemp D ''.download'' fs1 = Inl e"
  shows "snd (download_on_disk D P F rq sid token password user w fs) = fs(p \<mapsto> [])"
  using assms temp_path_Inr [OF assms(3)]
  by (auto simp: download_on_disk_def temp_path_def [of D "''.download''"] split: sum.split)

subsection \<open>Witnesses\<close>

definition demo_disk :: disk where
  "demo_disk = \<lparr>dk_dir = ''/tmp/phantom-uploads'', dk_random = (\<lambda>suffix. ''0a1b2c3d''), dk_mkdir = (\<lambda>fs. Inr ()),
     dk_mkstemp = (\<lambda>suffix fs. Inr ()), dk_write = (\<lambda>p b fs. (Inr (), fs(p \<mapsto> file_content fs p @ b))),
     dk_unlink = (\<lambda>p fs. (Inr (), fs(p := None)))\<rparr>"

lemma demo_disk_facts: "disk_laws demo_disk" "unlinks demo_disk" "disk_up demo_disk" "names_fresh demo_disk Map.empty"
  by (simp_all add: demo_disk_def disk_laws_def unlinks_def disk_up_def names_fresh_def)

theorem no_plaintext_left_witness:
  "\<exists>resp w'. create_on_disk demo_disk demo_platform demo_lib demo_request sample_file_rand sample_form sample_user sample_upload
      sample_fw Map.empty = ((Inr resp, w'), Map.empty) \<and>
    snd (serve_download demo_disk demo_platform demo_lib demo_request (fc_id resp) (Some (fc_token resp)) None None w' Map.empty) =
      Map.empty"
proof -
  obtain resp w' where c: "create_file_secret demo_platform demo_lib demo_request sample_file_rand sample_form sample_user
      sample_upload sample_fw = (Inr resp, w')" using sample_file_created by blast
  have "fst (create_on_disk demo_disk demo_platform demo_lib demo_request sample_file_rand sample_form sample_user sample_upload
      sample_fw Map.empty) = (Inr resp, w')"
    using create_on_disk_up [OF demo_disk_facts(3)] c by simp
  moreover have "snd (create_on_disk demo_disk demo_platform demo_lib demo_request sample_file_rand sample_form sample_user sample_upload
      sample_fw Map.empty) = Map.empty \<and>
    snd (serve_download demo_disk demo_platform demo_lib demo_request (fc_id resp) (Some (fc_token resp)) None None w' Map.empty) =
      Map.empty"
    using no_plaintext_left [OF demo_disk_facts(1,2,4)] by (simp add: demo_disk_def)
  ultimately show ?thesis by (metis prod.collapse)
qed

theorem disk_handlers_refine_witness:
  "\<exists>resp w'. fst (create_on_disk demo_disk demo_platform demo_lib demo_request sample_file_rand sample_form sample_user
      sample_upload sample_fw Map.empty) = (Inr resp, w')"
proof -
  obtain resp w' where "create_file_secret demo_platform demo_lib demo_request sample_file_rand sample_form sample_user
      sample_upload sample_fw = (Inr resp, w')" by (use sample_file_created in blast)
  then show ?thesis
    using disk_handlers_refine [OF demo_disk_facts(3,4), of demo_platform demo_lib demo_request sample_file_rand sample_form
      sample_user sample_upload sample_fw 5 1 None None None None] by simp
qed

end
