(* ===== verification/Sessions.thy ===== *)
theory Sessions
  imports World Signed_Token
begin

text \<open>
  Accounts and sessions: the JWT helpers and the dependencies \<open>get_current_user\<close> and
  \<open>get_current_user_optional\<close> of app/core/security.py, and the handlers of app/routers/auth.py.
  Parameters (record \<open>auth_lib\<close>) are the JWT library, bcrypt and the mail server.  A session is a
  row of the table \<open>sessions\<close> that holds the digest of its refresh token; setting \<open>revoked\<close> deletes
  the row (trigger \<open>delete_session_if_invalid\<close>).
\<close>

subsection \<open>Libraries\<close>

text \<open>
  The payload of a token.  A claim of the wrong type counts as missing; \<open>exp\<close> and \<open>iat\<close> are
  seconds.
\<close>

record claims =
  cl_sub :: "string option"
  cl_role :: "string option"
  cl_sid :: "string option"
  cl_jti :: string
  cl_exp :: int
  cl_iat :: int
  cl_type :: "string option"

record auth_lib =
  jwt_encode :: "string \<Rightarrow> claims \<Rightarrow> string"                    \<comment> \<open>key, payload\<close>
  jwt_decode :: "string \<Rightarrow> micros \<Rightarrow> string \<Rightarrow> claims option"    \<comment> \<open>key, time, token; None: JWTError\<close>
  bcrypt_hashpw :: "string \<Rightarrow> bytes \<Rightarrow> string option"           \<comment> \<open>salt, password; None: ValueError\<close>
  bcrypt_checkpw :: "bytes \<Rightarrow> string \<Rightarrow> bool option"            \<comment> \<open>password, hash; None: ValueError\<close>
  smtp_send :: "string \<Rightarrow> string \<Rightarrow> bool"                       \<comment> \<open>address, code; False: an exception\<close>

text \<open>
  What the code relies on: a token decodes to its payload until its expiry time (in whole seconds)
  and not after it; a password checks against the hash made from it.
\<close>

definition jwt_ok :: "auth_lib \<Rightarrow> bool" where
  "jwt_ok A \<longleftrightarrow> (\<forall>key c now. jwt_decode A key now (jwt_encode A key c) =
     (if now div second \<le> cl_exp c then Some c else None))"

definition bcrypt_ok :: "auth_lib \<Rightarrow> bool" where
  "bcrypt_ok A \<longleftrightarrow> (\<forall>salt p h. bcrypt_hashpw A salt p = Some h \<longrightarrow> bcrypt_checkpw A p h = Some True)"

subsection \<open>app/core/security.py\<close>

definition hash_password :: "auth_lib \<Rightarrow> string \<Rightarrow> string \<Rightarrow> string res" where
  "hash_password A salt password =
     (case bcrypt_hashpw A salt password of None \<Rightarrow> Inl (ValueError ''bcrypt'') | Some h \<Rightarrow> Inr h)"

definition verify_password :: "auth_lib \<Rightarrow> string \<Rightarrow> string \<Rightarrow> bool res" where
  "verify_password A plain hashed =
     (case bcrypt_checkpw A plain hashed of None \<Rightarrow> Inl (ValueError ''bcrypt'') | Some b \<Rightarrow> Inr b)"

definition create_access_token ::
  "platform \<Rightarrow> auth_lib \<Rightarrow> micros \<Rightarrow> string \<Rightarrow> string \<Rightarrow> string \<Rightarrow> string \<Rightarrow> string" where
  "create_access_token P A now jti user_id role session_id =
     jwt_encode A (JWT_SECRET_KEY (cfg P))
       \<lparr>cl_sub = Some user_id, cl_role = Some role, cl_sid = Some session_id, cl_jti = jti,
        cl_exp = (now + JWT_ACCESS_TOKEN_EXPIRE_MINUTES (cfg P) * 60 * second) div second,
        cl_iat = now div second, cl_type = Some ''access''\<rparr>"

definition create_refresh_token ::
  "platform \<Rightarrow> auth_lib \<Rightarrow> micros \<Rightarrow> string \<Rightarrow> string \<Rightarrow> string \<Rightarrow> string \<times> micros" where
  "create_refresh_token P A now jti user_id session_id =
     (let expires_at = now + JWT_REFRESH_TOKEN_EXPIRE_DAYS (cfg P) * day in
      (jwt_encode A (JWT_SECRET_KEY (cfg P))
         \<lparr>cl_sub = Some user_id, cl_role = None, cl_sid = Some session_id, cl_jti = jti,
          cl_exp = expires_at div second, cl_iat = now div second, cl_type = Some ''refresh''\<rparr>, expires_at))"

abbreviation bearer :: "(string \<times> string) list" where
  "bearer \<equiv> [(''WWW-Authenticate'', ''Bearer'')]"

definition decode_token :: "platform \<Rightarrow> auth_lib \<Rightarrow> micros \<Rightarrow> string \<Rightarrow> claims res" where
  "decode_token P A now token =
     (case jwt_decode A (JWT_SECRET_KEY (cfg P)) now token of
        Some c \<Rightarrow> Inr c
      | None \<Rightarrow> Inl (HTTPException 401 (Msg ''Invalid or expired token.'') bearer))"

text \<open>A claim that is used as a uuid: PostgreSQL refuses a text that is none.\<close>

definition sql_uuid :: "string \<Rightarrow> uuid res" where
  "sql_uuid s = (case parse_uuid s of None \<Rightarrow> Inl InvalidTextRepresentation | Some u \<Rightarrow> Inr u)"

definition live_session :: "micros \<Rightarrow> session_row \<Rightarrow> bool" where
  "live_session now s \<longleftrightarrow> \<not> ss_revoked s \<and> now < ss_expires s"

text \<open>The join of users and sessions: the user, when the session is one of the user's and live.\<close>

definition session_user :: "micros \<Rightarrow> uuid \<Rightarrow> uuid \<Rightarrow> database \<Rightarrow> user_row option" where
  "session_user now sub sid db =
     (case user_of db sub of
        None \<Rightarrow> None
      | Some u \<Rightarrow>
          if sql_select (\<lambda>s. ss_user s = sub \<and> ss_id s = sid \<and> live_session now s) (sessions db) \<noteq> []
          then Some u else None)"

definition current_user_of :: "user_row \<Rightarrow> current_user" where
  "current_user_of u = \<lparr>cu_id = u_id u, cu_email = u_email u, cu_username = u_username u, cu_role = u_role u,
     cu_active = u_active u, cu_verified = u_verified u\<rparr>"

definition get_current_user ::
  "platform \<Rightarrow> auth_lib \<Rightarrow> request \<Rightarrow> string option \<Rightarrow> database \<Rightarrow> current_user res" where
  "get_current_user P A rq credentials db =
     (case credentials of
        None \<Rightarrow> Inl (HTTPException 401 (Msg ''Not authenticated'') bearer)
      | Some token \<Rightarrow>
      bind_res (decode_token P A (rq_now rq) token) (\<lambda>c.
        if cl_type c \<noteq> Some ''access'' then Inl (http 401 ''Wrong token type'')
        else if \<not> truthy (cl_sub c) then Inl (http 401 ''Invalid user ID'')
        else if \<not> truthy (cl_sid c) then Inl (HTTPException 401 (Msg ''Invalid or expired token'') bearer)
        else
          bind_res (sql_uuid (the (cl_sub c))) (\<lambda>sub. bind_res (sql_uuid (the (cl_sid c))) (\<lambda>sid.
            case session_user (rq_txn rq) sub sid db of
              Some u \<Rightarrow>
                if u_active u then Inr (current_user_of u)
                else Inl (HTTPException 401 (Msg ''Session revoked, expired, or user inactive'') bearer)
            | None \<Rightarrow> Inl (HTTPException 401 (Msg ''Session revoked, expired, or user inactive'') bearer)))))"

definition get_current_user_optional ::
  "platform \<Rightarrow> auth_lib \<Rightarrow> request \<Rightarrow> string option \<Rightarrow> database \<Rightarrow> current_user option res" where
  "get_current_user_optional P A rq credentials db =
     (if credentials = None then Inr None
      else case get_current_user P A rq credentials db of
        Inr u \<Rightarrow> Inr (Some u)
      | Inl (HTTPException st d h) \<Rightarrow> if st = 401 \<or> st = 403 then Inr None else Inl (HTTPException st d h)
      | Inl e \<Rightarrow> Inl e)"

subsection \<open>Registration\<close>

record register_body =
  rg_email :: string
  rg_username :: string
  rg_password :: string

definition register_fields_ok :: "register_body \<Rightarrow> bool" where
  "register_fields_ok b \<longleftrightarrow> len_within 3 64 (rg_username b) \<and> list_all username_char (rg_username b) \<and>
     len_within 8 128 (rg_password b)"

text \<open>INSERT INTO users: the primary key and the two unique columns.\<close>

definition new_user :: "uuid \<Rightarrow> string \<Rightarrow> string \<Rightarrow> string \<Rightarrow> micros \<Rightarrow> user_row" where
  "new_user uid email username hash now =
     \<lparr>u_id = uid, u_email = email, u_username = username, u_password_hash = hash, u_role = ''user'',
      u_active = True, u_verified = False, u_created = now, u_updated = now, u_delete_after = None\<rparr>"

definition user_taken :: "string \<Rightarrow> string \<Rightarrow> database \<Rightarrow> bool" where
  "user_taken email username db \<longleftrightarrow>
     sql_select (\<lambda>u. citext_eq (u_email u) email \<or> u_username u = username) (users db) \<noteq> []"

definition insert_user :: "user_row \<Rightarrow> database \<Rightarrow> database res" where
  "insert_user u db =
     (if user_of db (u_id u) \<noteq> None \<or> user_taken (u_email u) (u_username u) db then Inl UniqueViolation
      else Inr (db\<lparr>users := sql_insert u (users db)\<rparr>))"

definition register ::
  "platform \<Rightarrow> auth_lib \<Rightarrow> request \<Rightarrow> string \<Rightarrow> uuid \<Rightarrow> register_body \<Rightarrow> database \<Rightarrow> user_row res \<times> database" where
  "register P A rq salt uid body db =
     (case hash_password A salt (rg_password body) of
        Inl e \<Rightarrow> (Inl e, db)
      | Inr pw_hash \<Rightarrow>
          if user_taken (rg_email body) (rg_username body) db
          then (Inl (http 409 ''Email or username already taken''), db)
          else
            (let u = new_user uid (rg_email body) (rg_username body) pw_hash (rq_txn rq) in
             case insert_user u db of
               Inl e \<Rightarrow> (Inl e, db)
             | Inr db1 \<Rightarrow>
                 (Inr u, audit_log P rq \<lparr>ae_action = ''user_registered'', ae_actor = Some uid,
                    ae_ip = Some (rq_ip rq), ae_secret = None, ae_severity = Info\<rparr> db1)))"

subsection \<open>Login\<close>

record token_response =
  tk_access :: string
  tk_refresh :: string
  tk_expires_in :: int

text \<open>The random values of one login or refresh: the session id and the two token ids.\<close>

record session_rand =
  sr_session :: uuid
  sr_jti_access :: string
  sr_jti_refresh :: string

definition insert_session :: "platform \<Rightarrow> session_row \<Rightarrow> database \<Rightarrow> database res" where
  "insert_session P s db =
     (if \<not> inet_ok P (ss_ip s) then Inl InvalidTextRepresentation
      else if row_of ss_id (sessions db) (ss_id s) \<noteq> None
        \<or> row_of ss_token_hash (sessions db) (ss_token_hash s) \<noteq> None then Inl UniqueViolation
      else if user_of db (ss_user s) = None then Inl ForeignKeyViolation
      else Inr (db\<lparr>sessions := sql_insert s (sessions db)\<rparr>))"

text \<open>What login and refresh share: the two tokens and the row of the new session.\<close>

definition new_session ::
  "platform \<Rightarrow> auth_lib \<Rightarrow> request \<Rightarrow> session_rand \<Rightarrow> uuid \<Rightarrow> string \<Rightarrow> token_response \<times> session_row" where
  "new_session P A rq sr uid role =
     (let access = create_access_token P A (rq_now rq) (sr_jti_access sr) (uuid_str uid) role (uuid_str (sr_session sr));
          (refresh, expires_at) =
            create_refresh_token P A (rq_now rq) (sr_jti_refresh sr) (uuid_str uid) (uuid_str (sr_session sr)) in
      (\<lparr>tk_access = access, tk_refresh = refresh,
        tk_expires_in = JWT_ACCESS_TOKEN_EXPIRE_MINUTES (cfg P) * 60\<rparr>,
       \<lparr>ss_id = sr_session sr, ss_user = uid, ss_token_hash = sha256_hash (cr P) refresh,
        ss_agent = take 256 (rq_agent rq), ss_ip = rq_ip rq, ss_expires = expires_at, ss_revoked = False\<rparr>))"

definition login ::
  "platform \<Rightarrow> auth_lib \<Rightarrow> request \<Rightarrow> session_rand \<Rightarrow> string \<Rightarrow> string \<Rightarrow> database \<Rightarrow> token_response res \<times> database" where
  "login P A rq sr email password db =
     (case fetchone (sql_select (\<lambda>u. citext_eq (u_email u) email) (users db)) of
        None \<Rightarrow> (Inl (http 401 ''Invalid credentials''), db)
      | Some u \<Rightarrow>
     (case verify_password A password (u_password_hash u) of
        Inl e \<Rightarrow> (Inl e, db)
      | Inr b \<Rightarrow>
          if \<not> b then (Inl (http 401 ''Invalid credentials''), db)
          else if \<not> u_active u then (Inl (http 403 ''Account is deactivated''), db)
          else
            (let (resp, s) = new_session P A rq sr (u_id u) (u_role u) in
             case insert_session P s db of
               Inl e \<Rightarrow> (Inl e, db)
             | Inr db1 \<Rightarrow>
                 (Inr resp, audit_log P rq \<lparr>ae_action = ''user_login'', ae_actor = Some (u_id u),
                    ae_ip = Some (rq_ip rq), ae_secret = None, ae_severity = Info\<rparr> db1))))"

subsection \<open>Refresh\<close>

text \<open>
  The handler reads the session and later revokes it and inserts a new one, in one transaction
  without a row lock: \<open>refresh_check\<close> is the read, \<open>refresh_rotate\<close> the writes.
\<close>

definition refresh_check ::
  "platform \<Rightarrow> auth_lib \<Rightarrow> request \<Rightarrow> string \<Rightarrow> database \<Rightarrow> (uuid \<times> string) res" where
  "refresh_check P A rq token db =
     bind_res (decode_token P A (rq_now rq) token) (\<lambda>c.
       if cl_type c \<noteq> Some ''refresh'' then Inl (http 401 ''Wrong token type'')
       else case fetchone (sql_select (\<lambda>s. ss_token_hash s = sha256_hash (cr P) token \<and> live_session (rq_txn rq) s \<and>
                    (case user_of db (ss_user s) of None \<Rightarrow> False | Some u \<Rightarrow> u_active u)) (sessions db)) of
         None \<Rightarrow> Inl (http 401 ''Refresh token invalid or expired'')
       | Some s \<Rightarrow>
           (case user_of db (ss_user s) of
              None \<Rightarrow> Inl (http 401 ''Refresh token invalid or expired'')
            | Some u \<Rightarrow> Inr (u_id u, u_role u)))"

definition refresh_rotate ::
  "platform \<Rightarrow> auth_lib \<Rightarrow> request \<Rightarrow> session_rand \<Rightarrow> string \<Rightarrow> uuid \<times> string \<Rightarrow> database \<Rightarrow>
   token_response res \<times> database" where
  "refresh_rotate P A rq sr token who db =
     (let (resp, s) = new_session P A rq sr (fst who) (snd who);
          db1 = revoke_sessions (\<lambda>s. ss_token_hash s = sha256_hash (cr P) token) db in
      case insert_session P s db1 of
        Inl e \<Rightarrow> (Inl e, db)
      | Inr db2 \<Rightarrow>
          (Inr resp, audit_log P rq \<lparr>ae_action = ''token_refresh'', ae_actor = Some (fst who),
             ae_ip = Some (rq_ip rq), ae_secret = None, ae_severity = Info\<rparr> db2))"

definition refresh_token_endpoint ::
  "platform \<Rightarrow> auth_lib \<Rightarrow> request \<Rightarrow> session_rand \<Rightarrow> string \<Rightarrow> database \<Rightarrow> token_response res \<times> database" where
  "refresh_token_endpoint P A rq sr token db =
     (case refresh_check P A rq token db of
        Inl e \<Rightarrow> (Inl e, db)
      | Inr who \<Rightarrow> refresh_rotate P A rq sr token who db)"

subsection \<open>Logout and me\<close>

definition logout_hit :: "uuid option \<Rightarrow> uuid \<Rightarrow> string \<Rightarrow> session_row \<Rightarrow> bool" where
  "logout_hit sid sub h s \<longleftrightarrow> (case sid of None \<Rightarrow> True | Some i \<Rightarrow> ss_id s = i) \<and> ss_user s = sub \<and>
     ss_token_hash s = h \<and> \<not> ss_revoked s"

definition logout ::
  "platform \<Rightarrow> auth_lib \<Rightarrow> request \<Rightarrow> string \<Rightarrow> current_user \<Rightarrow> database \<Rightarrow> unit res \<times> database" where
  "logout P A rq token user db =
     (case decode_token P A (rq_now rq) token of
        Inl e \<Rightarrow> (Inl e, db)
      | Inr c \<Rightarrow>
     (if cl_type c \<noteq> Some ''refresh'' then (Inl (http 401 ''Wrong token type''), db)
      else if \<not> truthy (cl_sub c) then (Inl (http 401 ''Invalid token subject''), db)
      else
        (let h = sha256_hash (cr P) token;
             by_id = (if truthy (cl_sid c) then map_sum id Some (sql_uuid (the (cl_sid c))) else Inr None) in
         case bind_res (sql_uuid (the (cl_sub c))) (\<lambda>sub. bind_res by_id (\<lambda>sid. Inr (sub, sid))) of
           Inl e \<Rightarrow> (Inl e, db)
         | Inr (sub, sid) \<Rightarrow>
             if sql_select (logout_hit sid sub h) (sessions db) = []
             then (Inl (http 401 ''Session not found, already revoked, or refresh token was rotated''), db)
             else (Inr (), audit_log P rq \<lparr>ae_action = ''user_logout'', ae_actor = Some sub, ae_ip = None,
                     ae_secret = None, ae_severity = Info\<rparr> (revoke_sessions (logout_hit sid sub h) db)))))"

definition me :: "current_user \<Rightarrow> database \<Rightarrow> user_row res" where
  "me user db = (case user_of db (cu_id user) of None \<Rightarrow> Inl (http 404 ''User not found.'') | Some u \<Rightarrow> Inr u)"

subsection \<open>E-mail verification\<close>

text \<open>\<open>verification_service.send_code\<close>: without credentials, or when the server fails, it raises.\<close>

definition send_code :: "platform \<Rightarrow> auth_lib \<Rightarrow> string \<Rightarrow> string \<Rightarrow> unit res" where
  "send_code P A email code =
     (if SMTP_USERNAME (cfg P) = [] \<or> SMTP_PASSWORD (cfg P) = [] then Inl (RuntimeError ''SMTP is not configured'')
      else if smtp_send A email code then Inr () else Inl ServiceError)"

definition set_verification :: "verification_row \<Rightarrow> database \<Rightarrow> database" where
  "set_verification r db =
     db\<lparr>email_verifications := sql_insert r (sql_delete (\<lambda>e. ev_user e = ev_user r) (email_verifications db))\<rparr>"

definition request_email_verification ::
  "platform \<Rightarrow> auth_lib \<Rightarrow> request \<Rightarrow> string \<Rightarrow> current_user \<Rightarrow> database \<Rightarrow> string res \<times> database" where
  "request_email_verification P A rq code user db =
     (case user_of db (cu_id user) of
        None \<Rightarrow> (Inl (http 401 ''User not found''), db)
      | Some u \<Rightarrow>
          if u_verified u then (Inr ''Email is already verified'', db)
          else if (case row_of ev_user (email_verifications db) (cu_id user) of
                     None \<Rightarrow> False | Some e \<Rightarrow> rq_now rq - ev_requested e < 60 * second)
          then (Inl (HTTPException 429 (Msg ''Wait 60 seconds before requesting another code'') [(''Retry-After'', ''60'')]), db)
          else
            (case send_code P A (u_email u) code of
               Inl e \<Rightarrow> (Inl (http 503 ''Verification email could not be sent; try again later''), db)
             | Inr _ \<Rightarrow>
                 (Inr ''Verification code sent; expires in 15 minutes'',
                  set_verification \<lparr>ev_user = cu_id user, ev_email = u_email u, ev_hash = sha256_hash (cr P) code,
                    ev_expires = rq_clock rq + 15 * 60 * second, ev_requested = rq_clock rq\<rparr> db)))"

definition verification_hit :: "platform \<Rightarrow> request \<Rightarrow> string \<Rightarrow> user_row \<Rightarrow> verification_row \<Rightarrow> bool" where
  "verification_hit P rq code u e \<longleftrightarrow> ev_user e = u_id u \<and> citext_eq (ev_email e) (u_email u) \<and>
     ev_hash e = sha256_hash (cr P) code \<and> rq_clock rq < ev_expires e"

definition confirm_email_verification ::
  "platform \<Rightarrow> request \<Rightarrow> string \<Rightarrow> current_user \<Rightarrow> database \<Rightarrow> string res \<times> database" where
  "confirm_email_verification P rq code user db =
     (case user_of db (cu_id user) of
        None \<Rightarrow> (Inl (http 401 ''User not found''), db)
      | Some u \<Rightarrow>
          if sql_select (verification_hit P rq code u) (email_verifications db) = []
          then (Inl (http 400 ''Invalid or expired verification code''), db)
          else (Inr ''Email verified'',
                db\<lparr>email_verifications := sql_delete (verification_hit P rq code u) (email_verifications db),
                   users := sql_update (\<lambda>x. u_id x = cu_id user) (\<lambda>x. x\<lparr>u_verified := True, u_updated := rq_txn rq\<rparr>)
                     (users db)\<rparr>))"

subsection \<open>Sequences of requests, and the invariant of the account tables\<close>

text \<open>
  The table constraints: ids, addresses (without case), user names and token digests are unique,
  and every session belongs to a user.
\<close>

definition accounts_ok :: "database \<Rightarrow> bool" where
  "accounts_ok db \<longleftrightarrow> distinct (map u_id (users db)) \<and> distinct (map (\<lambda>u. str_lower (u_email u)) (users db)) \<and>
     distinct (map u_username (users db)) \<and> distinct (map ss_id (sessions db)) \<and>
     distinct (map ss_token_hash (sessions db)) \<and> ss_user ` set (sessions db) \<subseteq> u_id ` set (users db)"

datatype auth_op =
    Register request string uuid register_body
  | Login request session_rand string string
  | Refresh request session_rand string
  | Logout request string current_user
  | RequestCode request string current_user
  | ConfirmCode request string current_user

text \<open>A step gives the refresh token it issued, if any, and the new database.\<close>

definition issued_by :: "token_response res \<times> database \<Rightarrow> string list \<times> database" where
  "issued_by r = ((case fst r of Inl _ \<Rightarrow> [] | Inr resp \<Rightarrow> [tk_refresh resp]), snd r)"

fun auth_step :: "platform \<Rightarrow> auth_lib \<Rightarrow> auth_op \<Rightarrow> database \<Rightarrow> string list \<times> database" where
  "auth_step P A (Register rq salt uid body) db = ([], snd (register P A rq salt uid body db))"
| "auth_step P A (Login rq sr email pw) db = issued_by (login P A rq sr email pw db)"
| "auth_step P A (Refresh rq sr t) db = issued_by (refresh_token_endpoint P A rq sr t db)"
| "auth_step P A (Logout rq t user) db = ([], snd (logout P A rq t user db))"
| "auth_step P A (RequestCode rq code user) db = ([], snd (request_email_verification P A rq code user db))"
| "auth_step P A (ConfirmCode rq code user) db = ([], snd (confirm_email_verification P rq code user db))"

fun auth_run :: "platform \<Rightarrow> auth_lib \<Rightarrow> auth_op list \<Rightarrow> database \<Rightarrow> string list \<times> database" where
  "auth_run P A [] db = ([], db)"
| "auth_run P A (x # xs) db =
     (let (ts, db1) = auth_step P A x db; (ts', db2) = auth_run P A xs db1 in (ts @ ts', db2))"

text \<open>Every operation does one of these things to the two tables.\<close>

lemma accounts_ok_cong:
  "users db' = users db \<Longrightarrow> sessions db' = sessions db \<Longrightarrow> accounts_ok db' = accounts_ok db"
  by (simp add: accounts_ok_def)

lemma accounts_ok_audit [simp]: "accounts_ok (audit_log P rq e db) = accounts_ok db"
  by (rule accounts_ok_cong) simp_all

lemma insert_user_Inr:
  "insert_user u db = Inr db' \<longleftrightarrow> user_of db (u_id u) = None \<and> \<not> user_taken (u_email u) (u_username u) db \<and>
     db' = db\<lparr>users := sql_insert u (users db)\<rparr>"
  by (auto simp: insert_user_def)

lemma insert_session_Inr:
  "insert_session P s db = Inr db' \<longleftrightarrow> inet_ok P (ss_ip s) \<and> row_of ss_id (sessions db) (ss_id s) = None \<and>
     row_of ss_token_hash (sessions db) (ss_token_hash s) = None \<and> user_of db (ss_user s) \<noteq> None \<and>
     db' = db\<lparr>sessions := sql_insert s (sessions db)\<rparr>"
  by (auto simp: insert_session_def)

lemma accounts_ok_insert_user:
  assumes "accounts_ok db" and "insert_user u db = Inr db'" shows "accounts_ok db'"
  using assms
  by (auto simp: accounts_ok_def insert_user_Inr user_taken_def sql_select_def user_of_def row_of_None distinct_insert
      filter_empty_conv citext_eq_def rows)

lemma accounts_ok_insert_session:
  assumes "accounts_ok db" and "insert_session P s db = Inr db'" shows "accounts_ok db'"
  using assms
  by (auto simp: accounts_ok_def insert_session_Inr user_of_def row_of_None distinct_insert rows)

lemma accounts_ok_revoke: "accounts_ok db \<Longrightarrow> accounts_ok (revoke_sessions p db)"
  by (auto simp: accounts_ok_def revoke_sessions_def distinct_delete rows)

lemma new_user_sel [simp]:
  "u_id (new_user uid em un h t) = uid" "u_email (new_user uid em un h t) = em" "u_username (new_user uid em un h t) = un"
  "u_password_hash (new_user uid em un h t) = h" "u_active (new_user uid em un h t)" "\<not> u_verified (new_user uid em un h t)"
  "u_role (new_user uid em un h t) = ''user''"
  by (simp_all add: new_user_def)

lemma register_cases:
  assumes "register P A rq salt uid body db = (r, db')"
  obtains e where "r = Inl e" "db' = db"
  | h db1 e where "r = Inr (new_user uid (rg_email body) (rg_username body) h (rq_txn rq))"
      "bcrypt_hashpw A salt (rg_password body) = Some h" "\<not> user_taken (rg_email body) (rg_username body) db"
      "insert_user (new_user uid (rg_email body) (rg_username body) h (rq_txn rq)) db = Inr db1"
      "db' = audit_log P rq e db1"
  using assms
  by (auto simp: register_def hash_password_def Let_def split: option.splits sum.splits if_splits)

lemma login_cases:
  assumes "login P A rq sr email pw db = (r, db')"
  obtains e where "r = Inl e" "db' = db"
  | u resp s db1 e where "r = Inr resp" "u \<in> set (users db)" "citext_eq (u_email u) email" "u_active u"
      "bcrypt_checkpw A pw (u_password_hash u) = Some True" "new_session P A rq sr (u_id u) (u_role u) = (resp, s)"
      "insert_session P s db = Inr db1" "db' = audit_log P rq e db1"
proof -
  have mem: "u \<in> set (users db) \<and> citext_eq (u_email u) email"
    if "fetchone (sql_select (\<lambda>u. citext_eq (u_email u) email) (users db)) = Some u" for u
  proof -
    have "u \<in> set (sql_select (\<lambda>u. citext_eq (u_email u) email) (users db))"
      using that by (cases "sql_select (\<lambda>u. citext_eq (u_email u) email) (users db)") auto
    then show ?thesis by (simp add: rows)
  qed
  show thesis
    using assms that mem
    by (auto simp: login_def verify_password_def split: option.splits sum.splits if_splits prod.splits)
qed

lemma refresh_cases:
  assumes "refresh_token_endpoint P A rq sr t db = (r, db')"
  obtains e where "r = Inl e" "db' = db"
  | who resp s db1 e where "r = Inr resp" "refresh_check P A rq t db = Inr who"
      "new_session P A rq sr (fst who) (snd who) = (resp, s)"
      "insert_session P s (revoke_sessions (\<lambda>s. ss_token_hash s = sha256_hash (cr P) t) db) = Inr db1"
      "db' = audit_log P rq e db1"
  using assms
  by (auto simp: refresh_token_endpoint_def refresh_rotate_def Let_def split: sum.splits prod.splits)

lemma logout_cases:
  assumes "logout P A rq t user db = (r, db')"
  obtains e where "r = Inl e" "db' = db"
  | p e where "r = Inr ()" "db' = audit_log P rq e (revoke_sessions p db)"
  using assms
  by (auto simp: logout_def Let_def split: sum.splits prod.splits if_splits)

lemma accounts_ok_confirm:
  assumes "accounts_ok db" shows "accounts_ok (snd (confirm_email_verification P rq code user db))"
proof -
  have "accounts_ok (db\<lparr>email_verifications := l, users := sql_update p (\<lambda>x. x\<lparr>u_verified := True, u_updated := n\<rparr>) (users db)\<rparr>)"
    for l p n
    using assms by (simp add: accounts_ok_def map_sql_update image_sql_update)
  then show ?thesis using assms by (auto simp: confirm_email_verification_def split: option.split)
qed

lemma accounts_ok_request:
  "accounts_ok db \<Longrightarrow> accounts_ok (snd (request_email_verification P A rq code user db))"
  by (auto simp: request_email_verification_def set_verification_def accounts_ok_def split: option.split sum.split)

lemma accounts_ok_step: "accounts_ok db \<Longrightarrow> accounts_ok (snd (auth_step P A x db))"
proof (cases x)
  case (Register rq salt uid body)
  moreover assume "accounts_ok db"
  ultimately show ?thesis
    using register_cases [OF prod.collapse [symmetric], of P A rq salt uid body db]
    by (metis accounts_ok_audit accounts_ok_insert_user auth_step.simps(1) snd_conv)
next
  case (Login rq sr email pw)
  moreover assume "accounts_ok db"
  ultimately show ?thesis
    using login_cases [OF prod.collapse [symmetric], of P A rq sr email pw db]
    by (simp add: issued_by_def) (metis accounts_ok_audit accounts_ok_insert_session)
next
  case (Refresh rq sr t)
  moreover assume "accounts_ok db"
  ultimately show ?thesis
    using refresh_cases [OF prod.collapse [symmetric], of P A rq sr t db]
    by (simp add: issued_by_def) (metis accounts_ok_audit accounts_ok_insert_session accounts_ok_revoke)
next
  case (Logout rq t user)
  moreover assume "accounts_ok db"
  ultimately show ?thesis
    using logout_cases [OF prod.collapse [symmetric], of P A rq t user db]
    by simp (metis accounts_ok_audit accounts_ok_revoke)
qed (simp_all add: accounts_ok_confirm accounts_ok_request)

subsection \<open>Tokens\<close>

lemma decode_access [simp]:
  assumes "jwt_ok A"
  shows "decode_token P A t (create_access_token P A now jti uid role sid) =
     (if t div second \<le> (now + JWT_ACCESS_TOKEN_EXPIRE_MINUTES (cfg P) * 60 * second) div second
      then Inr \<lparr>cl_sub = Some uid, cl_role = Some role, cl_sid = Some sid, cl_jti = jti,
        cl_exp = (now + JWT_ACCESS_TOKEN_EXPIRE_MINUTES (cfg P) * 60 * second) div second,
        cl_iat = now div second, cl_type = Some ''access''\<rparr>
      else Inl (HTTPException 401 (Msg ''Invalid or expired token.'') bearer))"
  using assms by (simp add: decode_token_def create_access_token_def jwt_ok_def)

lemma decode_refresh [simp]:
  assumes "jwt_ok A"
  shows "decode_token P A t (fst (create_refresh_token P A now jti uid sid)) =
     (if t div second \<le> (now + JWT_REFRESH_TOKEN_EXPIRE_DAYS (cfg P) * day) div second
      then Inr \<lparr>cl_sub = Some uid, cl_role = None, cl_sid = Some sid, cl_jti = jti,
        cl_exp = (now + JWT_REFRESH_TOKEN_EXPIRE_DAYS (cfg P) * day) div second,
        cl_iat = now div second, cl_type = Some ''refresh''\<rparr>
      else Inl (HTTPException 401 (Msg ''Invalid or expired token.'') bearer))"
  using assms by (simp add: decode_token_def create_refresh_token_def jwt_ok_def Let_def)

lemma sql_uuid_str [simp]: "sql_uuid (uuid_str u) = Inr u"
  by (simp add: sql_uuid_def parse_uuid_str)

lemma parse_uuid_Nil [simp]: "parse_uuid [] = None"
  by (simp add: parse_uuid_def strip_braces_def Let_def)

lemma truthy_parse: "parse_uuid x = Some u \<Longrightarrow> truthy (Some x)"
  by (cases x) (simp_all add: truthy_def)

lemma truthy_uuid_str [simp]: "truthy (Some (uuid_str u))"
  by (rule truthy_parse [OF parse_uuid_str])

lemma uuid_str_not_Nil [simp]: "uuid_str u \<noteq> []"
  using truthy_uuid_str [of u] unfolding truthy_def by simp

lemma new_session_sel:
  assumes "new_session P A rq sr uid role = (resp, s)"
  shows "tk_access resp = create_access_token P A (rq_now rq) (sr_jti_access sr) (uuid_str uid) role (uuid_str (sr_session sr))"
    and "tk_refresh resp = fst (create_refresh_token P A (rq_now rq) (sr_jti_refresh sr) (uuid_str uid) (uuid_str (sr_session sr)))"
    and "ss_id s = sr_session sr" and "ss_user s = uid" and "ss_token_hash s = sha256_hash (cr P) (tk_refresh resp)"
    and "ss_ip s = rq_ip rq" and "\<not> ss_revoked s"
    and "ss_expires s = rq_now rq + JWT_REFRESH_TOKEN_EXPIRE_DAYS (cfg P) * day"
  using assms by (auto simp: new_session_def Let_def create_refresh_token_def)

lemma get_current_user_eq:
  "get_current_user P A rq (Some token) db = Inr user \<longleftrightarrow>
     (\<exists>c sub sid u s. jwt_decode A (JWT_SECRET_KEY (cfg P)) (rq_now rq) token = Some c \<and> cl_type c = Some ''access'' \<and>
        cl_sub c = Some sub \<and> parse_uuid sub = Some (u_id u) \<and> cl_sid c = Some sid \<and> parse_uuid sid = Some (ss_id s) \<and>
        user_of db (u_id u) = Some u \<and> u_active u \<and> s \<in> set (sessions db) \<and> ss_user s = u_id u \<and>
        \<not> ss_revoked s \<and> rq_txn rq < ss_expires s \<and> user = current_user_of u)"
    (is "?l \<longleftrightarrow> ?r")
proof
  assume ?l
  then obtain c sub sid where c: "jwt_decode A (JWT_SECRET_KEY (cfg P)) (rq_now rq) token = Some c" "cl_type c = Some ''access''"
      "truthy (cl_sub c)" "truthy (cl_sid c)" "sql_uuid (the (cl_sub c)) = Inr sub" "sql_uuid (the (cl_sid c)) = Inr sid"
    and u: "(case session_user (rq_txn rq) sub sid db of
        Some u \<Rightarrow> if u_active u then Inr (current_user_of u)
          else Inl (HTTPException 401 (Msg ''Session revoked, expired, or user inactive'') bearer)
      | None \<Rightarrow> Inl (HTTPException 401 (Msg ''Session revoked, expired, or user inactive'') bearer)) = Inr user"
    by (auto simp: get_current_user_def decode_token_def bind_res_eq_Inr split: if_splits option.splits)
  then obtain v where v: "session_user (rq_txn rq) sub sid db = Some v" "u_active v" "user = current_user_of v"
    by (auto split: option.splits if_splits)
  from v(1) have w: "user_of db sub = Some v"
      "sql_select (\<lambda>s. ss_user s = sub \<and> ss_id s = sid \<and> live_session (rq_txn rq) s) (sessions db) \<noteq> []"
    by (auto simp: session_user_def split: option.splits if_splits)
  then obtain s where s: "s \<in> set (sessions db)" "ss_user s = sub" "ss_id s = sid" "live_session (rq_txn rq) s"
    by (auto simp: sql_select_def filter_empty_conv)
  have "u_id v = sub" using w(1) row_of_Some by (fastforce simp: user_of_def)
  with c v w s show ?r
    by (intro exI [of _ c] exI [of _ "the (cl_sub c)"] exI [of _ "the (cl_sid c)"] exI [of _ v] exI [of _ s])
      (auto simp: sql_uuid_def truthy_def live_session_def split: option.splits)
next
  assume ?r
  then obtain c sub sid u s where c: "jwt_decode A (JWT_SECRET_KEY (cfg P)) (rq_now rq) token = Some c"
      "cl_type c = Some ''access''" "cl_sub c = Some sub" "parse_uuid sub = Some (u_id u)"
      "cl_sid c = Some sid" "parse_uuid sid = Some (ss_id s)"
    and u: "user_of db (u_id u) = Some u" "u_active u" "s \<in> set (sessions db)" "ss_user s = u_id u"
        "\<not> ss_revoked s" "rq_txn rq < ss_expires s" "user = current_user_of u"
    by blast
  have "truthy (cl_sub c)" "truthy (cl_sid c)" using c truthy_parse by auto
  moreover have "sql_select (\<lambda>s'. ss_user s' = u_id u \<and> ss_id s' = ss_id s \<and> live_session (rq_txn rq) s') (sessions db) \<noteq> []"
    using u by (auto simp: sql_select_def filter_empty_conv live_session_def)
  ultimately show ?l
    using c u by (simp add: get_current_user_def decode_token_def sql_uuid_def session_user_def)
qed

text \<open>C19: the authentication dependency accepts a token exactly when it is an unexpired access token whose subject
  is an active account and whose session is a live session of that account; the user it answers
  is the account as stored now (role and address included), not as it was when the token was made.
\<close>

theorem get_current_user_iff:
  "get_current_user P A rq (Some token) db = Inr user \<longleftrightarrow>
     (\<exists>c sub sid u s. jwt_decode A (JWT_SECRET_KEY (cfg P)) (rq_now rq) token = Some c \<and> cl_type c = Some ''access'' \<and>
        cl_sub c = Some sub \<and> parse_uuid sub = Some (u_id u) \<and> cl_sid c = Some sid \<and> parse_uuid sid = Some (ss_id s) \<and>
        user_of db (u_id u) = Some u \<and> u_active u \<and> s \<in> set (sessions db) \<and> ss_user s = u_id u \<and>
        \<not> ss_revoked s \<and> rq_txn rq < ss_expires s \<and> user = current_user_of u)"
  by (rule get_current_user_eq)
text \<open>What a new session gives its holder: both tokens work while they last.\<close>

lemma get_current_user_row:
  assumes "get_current_user P A rq token db = Inr user"
  obtains u where "u \<in> set (users db)" "u_active u" "user = current_user_of u"
proof -
  obtain t where "token = Some t" using assms by (cases token) (simp_all add: get_current_user_def)
  then obtain u where u: "user_of db (u_id u) = Some u" "u_active u" "user = current_user_of u"
    using get_current_user_eq [of P A rq t db user] assms by blast
  moreover from u(1) have "u \<in> set (users db)" using row_of_Some unfolding user_of_def by fastforce
  ultimately show thesis using that by blast
qed

lemma session_usable:
  assumes "jwt_ok A" and "new_session P A rq sr uid role = (resp, s)" and "insert_session P s db = Inr db1"
    and "user_of db uid = Some u" and "u_active u"
    and "rq_txn rq' < rq_now rq + JWT_REFRESH_TOKEN_EXPIRE_DAYS (cfg P) * day"
  shows "rq_now rq' div second \<le> (rq_now rq + JWT_ACCESS_TOKEN_EXPIRE_MINUTES (cfg P) * 60 * second) div second \<Longrightarrow>
      get_current_user P A rq' (Some (tk_access resp)) (audit_log P rq'' e db1) = Inr (current_user_of u)"
    and "rq_now rq' div second \<le> (rq_now rq + JWT_REFRESH_TOKEN_EXPIRE_DAYS (cfg P) * day) div second \<Longrightarrow>
      refresh_check P A rq' (tk_refresh resp) (audit_log P rq'' e db1) = Inr (u_id u, u_role u)"
proof -
  note n = new_session_sel [OF assms(2)]
  have db1: "db1 = db\<lparr>sessions := sql_insert s (sessions db)\<rparr>" "row_of ss_token_hash (sessions db) (ss_token_hash s) = None"
    using assms(3) by (simp_all add: insert_session_Inr)
  have uid: "u_id u = uid" using assms(4) row_of_Some by (fastforce simp: user_of_def)
  have user: "user_of (audit_log P rq'' e db1) uid = Some u" using assms(4) by (simp add: db1 user_of_def)
  have live: "live_session (rq_txn rq') s" using n(7,8) assms(6) by (simp add: live_session_def)
  show "get_current_user P A rq' (Some (tk_access resp)) (audit_log P rq'' e db1) = Inr (current_user_of u)"
    if "rq_now rq' div second \<le> (rq_now rq + JWT_ACCESS_TOKEN_EXPIRE_MINUTES (cfg P) * 60 * second) div second"
  proof -
    have "sql_select (\<lambda>s'. ss_user s' = uid \<and> ss_id s' = sr_session sr \<and> live_session (rq_txn rq') s') (sessions db1) \<noteq> []"
      using n(3,4) live by (auto simp: db1 sql_select_def filter_empty_conv rows)
    then show ?thesis
      using that user assms(1,5) by (simp add: get_current_user_def n(1) session_user_def)
  qed
  show "refresh_check P A rq' (tk_refresh resp) (audit_log P rq'' e db1) = Inr (u_id u, u_role u)"
    if "rq_now rq' div second \<le> (rq_now rq + JWT_REFRESH_TOKEN_EXPIRE_DAYS (cfg P) * day) div second"
  proof -
    have "sql_select (\<lambda>s'. ss_token_hash s' = ss_token_hash s \<and> Q s') (sessions db) = []" for Q
      using row_of_None_notin [OF db1(2)] by (auto simp: sql_select_def filter_empty_conv)
    then have "sql_select (\<lambda>s'. ss_token_hash s' = ss_token_hash s \<and> live_session (rq_txn rq') s' \<and>
        (case user_of (audit_log P rq'' e db1) (ss_user s') of None \<Rightarrow> False | Some u \<Rightarrow> u_active u))
        (sessions (audit_log P rq'' e db1)) = [s]"
      using live user n(4) assms(5) by (simp add: db1 sql_select_insert)
    then have "fetchone (sql_select (\<lambda>s'. ss_token_hash s' = sha256_hash (cr P) (tk_refresh resp) \<and> live_session (rq_txn rq') s' \<and>
        (case user_of (audit_log P rq'' e db1) (ss_user s') of None \<Rightarrow> False | Some u \<Rightarrow> u_active u))
        (sessions (audit_log P rq'' e db1))) = Some s"
      by (simp add: n(5))
    moreover have "decode_token P A (rq_now rq') (tk_refresh resp) = Inr
        \<lparr>cl_sub = Some (uuid_str uid), cl_role = None, cl_sid = Some (uuid_str (sr_session sr)), cl_jti = sr_jti_refresh sr,
         cl_exp = (rq_now rq + JWT_REFRESH_TOKEN_EXPIRE_DAYS (cfg P) * day) div second,
         cl_iat = rq_now rq div second, cl_type = Some ''refresh''\<rparr>"
      using that unfolding n(2) by (simp add: assms(1))
    ultimately show ?thesis using user n(4) by (simp add: refresh_check_def)
  qed
qed


text \<open>
  whoever registers can log in: after a successful registration the same address and password
  (and any spelling of the address) log in, with a fresh session id and token digest, from an address
  the database accepts.
\<close>

theorem register_then_login:
  assumes "register P A rq salt uid body db = (Inr u, db')" and "bcrypt_ok A" and "accounts_ok db"
    and "str_lower email = str_lower (rg_email body)" and "inet_ok P (rq_ip rq')"
    and "row_of ss_id (sessions db) (sr_session sr) = None"
    and "new_session P A rq' sr uid ''user'' = (resp, s)" and "row_of ss_token_hash (sessions db) (ss_token_hash s) = None"
  shows "\<exists>db''. login P A rq' sr email (rg_password body) db' = (Inr resp, db'') \<and>
     user_of db'' uid = Some u \<and> s \<in> set (sessions db'')"
  using assms(1)
proof (cases rule: register_cases)
  case (2 h db1 e)
  have u: "u = new_user uid (rg_email body) (rg_username body) h (rq_txn rq)" using 2(1) by simp
  have db1: "db1 = db\<lparr>users := sql_insert u (users db)\<rparr>" "user_of db uid = None"
    using 2(4) by (simp_all add: insert_user_Inr u)
  have none: "sql_select (\<lambda>x. citext_eq (u_email x) email) (users db) = []"
    using 2(3) assms(4) by (auto simp: user_taken_def sql_select_def filter_empty_conv citext_eq_def)
  have row: "fetchone (sql_select (\<lambda>x. citext_eq (u_email x) email) (users db')) = Some u"
    using assms(4) none by (simp add: 2(5) db1 sql_select_insert citext_eq_def u)
  have ver: "verify_password A (rg_password body) (u_password_hash u) = Inr True"
    using 2(2) assms(2) by (auto simp: verify_password_def bcrypt_ok_def u)
  have user: "user_of db' uid = Some u"
    using db1(2) by (simp add: 2(5) db1(1)) (simp add: user_of_def row_of_insert u)
  note n = new_session_sel [OF assms(7)]
  have "insert_session P s db' = Inr (db'\<lparr>sessions := sql_insert s (sessions db')\<rparr>)"
    using assms(5,6,8) user n by (simp add: insert_session_Inr 2(5) db1)
  moreover have "u_active u" "u_id u = uid" "u_role u = ''user''" by (simp_all add: u)
  ultimately have "login P A rq' sr email (rg_password body) db' = (Inr resp, audit_log P rq'
      \<lparr>ae_action = ''user_login'', ae_actor = Some uid, ae_ip = Some (rq_ip rq'), ae_secret = None, ae_severity = Info\<rparr>
      (db'\<lparr>sessions := sql_insert s (sessions db')\<rparr>))"
    using assms(7) by (simp add: login_def row ver)
  moreover have "user_of (db'\<lparr>sessions := sql_insert s (sessions db')\<rparr>) uid = Some u"
    using user by (simp add: user_of_def)
  ultimately show ?thesis by (simp add: rows)
qed simp
subsection \<open>A refresh token is used once\<close>

text \<open>No session carries the digest h any more.\<close>

definition retired :: "string \<Rightarrow> database \<Rightarrow> bool" where
  "retired h db \<longleftrightarrow> (\<forall>s \<in> set (sessions db). ss_token_hash s \<noteq> h)"

lemma retired_revoke: "retired h db \<Longrightarrow> retired h (revoke_sessions p db)"
  by (auto simp: retired_def revoke_sessions_def rows)

lemma retired_insert:
  "insert_session P s db = Inr db1 \<Longrightarrow> retired h db \<Longrightarrow> ss_token_hash s \<noteq> h \<Longrightarrow> retired h (audit_log P rq e db1)"
  by (auto simp: retired_def insert_session_Inr rows)

lemma retired_step:
  assumes "retired h db" and "h \<notin> sha256_hash (cr P) ` set (fst (auth_step P A x db))"
  shows "retired h (snd (auth_step P A x db))"
proof (cases x)
  case (Register rq salt uid body)
  show ?thesis
  proof (cases rule: register_cases [OF prod.collapse [symmetric], of P A rq salt uid body db])
    case 2
    with Register assms(1) show ?thesis by (simp add: retired_def insert_user_Inr)
  qed (use Register assms(1) in simp)
next
  case (Login rq sr email pw)
  show ?thesis
  proof (cases rule: login_cases [OF prod.collapse [symmetric], of P A rq sr email pw db])
    case (2 u resp s db1 e)
    moreover have "ss_token_hash s \<noteq> h"
      using assms(2) Login 2(1) new_session_sel(5) [OF 2(6)] by (auto simp: issued_by_def)
    ultimately show ?thesis using Login assms(1) by (simp add: issued_by_def retired_insert)
  qed (use Login assms(1) in \<open>simp add: issued_by_def\<close>)
next
  case (Refresh rq sr t)
  show ?thesis
  proof (cases rule: refresh_cases [OF prod.collapse [symmetric], of P A rq sr t db])
    case (2 who resp s db1 e)
    moreover have "ss_token_hash s \<noteq> h"
      using assms(2) Refresh 2(1) new_session_sel(5) [OF 2(3)] by (auto simp: issued_by_def)
    ultimately show ?thesis
      using Refresh retired_insert [OF _ retired_revoke [OF assms(1)]] by (simp add: issued_by_def)
  qed (use Refresh assms(1) in \<open>simp add: issued_by_def\<close>)
next
  case (Logout rq t user)
  show ?thesis
  proof (cases rule: logout_cases [OF prod.collapse [symmetric], of P A rq t user db])
    case 2
    with Logout retired_revoke [OF assms(1)] show ?thesis by (simp add: retired_def)
  qed (use Logout assms(1) in simp)
next
  case (RequestCode rq code user)
  with assms(1) show ?thesis
    by (simp add: retired_def request_email_verification_def set_verification_def split: option.split sum.split)
next
  case (ConfirmCode rq code user)
  with assms(1) show ?thesis
    by (simp add: retired_def confirm_email_verification_def split: option.split)
qed

lemma retired_run:
  assumes "retired h db" and "h \<notin> sha256_hash (cr P) ` set (fst (auth_run P A xs db))"
  shows "retired h (snd (auth_run P A xs db))"
  using assms
proof (induction xs arbitrary: db)
  case (Cons x xs)
  have "retired h (snd (auth_step P A x db))"
    using Cons.prems by (intro retired_step) (simp_all add: split_beta Let_def image_Un)
  from Cons.IH [OF this] Cons.prems(2) show ?case by (simp add: split_beta Let_def image_Un)
qed simp

lemma case_Some_Inr:
  "(case f of None \<Rightarrow> Inl a | Some s \<Rightarrow> (case g s of None \<Rightarrow> Inl b | Some u \<Rightarrow> Inr (k u))) = Inr y \<Longrightarrow>
     \<exists>s u. f = Some s \<and> g s = Some u \<and> y = k u"
  by (auto split: option.splits)

lemma refresh_check_user:
  assumes "refresh_check P A rq t db = Inr who"
  shows "\<exists>(s :: session_row) u. user_of db (ss_user s) = Some u \<and> who = (u_id u, u_role u)"
proof -
  obtain c :: claims where "(if cl_type c \<noteq> Some ''refresh'' then Inl (http 401 ''Wrong token type'')
       else case fetchone (sql_select (\<lambda>s. ss_token_hash s = sha256_hash (cr P) t \<and> live_session (rq_txn rq) s \<and>
                    (case user_of db (ss_user s) of None \<Rightarrow> False | Some u \<Rightarrow> u_active u)) (sessions db)) of
         None \<Rightarrow> Inl (http 401 ''Refresh token invalid or expired'')
       | Some s \<Rightarrow>
           (case user_of db (ss_user s) of
              None \<Rightarrow> Inl (http 401 ''Refresh token invalid or expired'')
            | Some u \<Rightarrow> Inr (u_id u, u_role u))) = Inr who"
    using assms unfolding refresh_check_def bind_res_eq_Inr by blast
  then show ?thesis by (cases "cl_type c = Some ''refresh''") (auto dest!: case_Some_Inr)
qed

lemma retired_refused:
  assumes "retired (sha256_hash (cr P) t) db" shows "\<not> ok (fst (refresh_token_endpoint P A rq sr t db))"
proof -
  have "sql_select (\<lambda>s. ss_token_hash s = sha256_hash (cr P) t \<and> Q s) (sessions db) = []" for Q
    using assms by (auto simp: retired_def sql_select_def filter_empty_conv)
  then have "\<not> ok (refresh_check P A rq t db)"
    by (auto simp: refresh_check_def ok_iff bind_res_eq_Inr split: if_splits)
  then show ?thesis
    by (auto simp: refresh_token_endpoint_def ok_iff split: sum.splits)
qed

text \<open>C20: a refresh token is good for one refresh: once it has been exchanged, every later attempt with it is refused,
  whatever registrations, logins, refreshes, logouts and verifications happen in between (as long
  as none of them issues a token with the same digest).
\<close>

theorem refresh_single_use:
  assumes "refresh_token_endpoint P A rq sr t db = (Inr resp, db1)"
    and "sha256_hash (cr P) t \<notin> sha256_hash (cr P) ` set (tk_refresh resp # fst (auth_run P A xs db1))"
  shows "\<not> ok (fst (refresh_token_endpoint P A rq' sr' t (snd (auth_run P A xs db1))))"
proof -
  let ?h = "sha256_hash (cr P) t"
  have "retired ?h db1"
    using assms(1)
  proof (cases rule: refresh_cases)
    case (2 who resp' s db2 e)
    have "retired ?h (revoke_sessions (\<lambda>s. ss_token_hash s = ?h) db)"
      by (auto simp: retired_def revoke_sessions_def rows)
    moreover have "ss_token_hash s \<noteq> ?h" using new_session_sel(5) [OF 2(3)] 2(1) assms(2) by auto
    ultimately show ?thesis using retired_insert 2(4,5) by simp
  qed simp
  then have "retired ?h (snd (auth_run P A xs db1))"
    using assms(2) by (intro retired_run) simp_all
  then show ?thesis by (rule retired_refused)
qed

text \<open>
  single use does not hold for requests that overlap: the session is read without a lock, so two requests that
  both read it before either writes are both served, and one token has become two sessions.
\<close>

theorem refresh_race:
  assumes "refresh_check P A rq1 t db = Inr who" and "refresh_check P A rq2 t db = Inr who"
    and "new_session P A rq1 sr1 (fst who) (snd who) = (resp1, s1)" and "new_session P A rq2 sr2 (fst who) (snd who) = (resp2, s2)"
    and "inet_ok P (rq_ip rq1)" and "inet_ok P (rq_ip rq2)"
    and "distinct (ss_id s1 # ss_id s2 # map ss_id (sessions db))"
    and "distinct (sha256_hash (cr P) t # ss_token_hash s1 # ss_token_hash s2 # [])"
    and "row_of ss_token_hash (sessions db) (ss_token_hash s1) = None" and "row_of ss_token_hash (sessions db) (ss_token_hash s2) = None"
  shows "\<exists>db1 db2. refresh_rotate P A rq1 sr1 t who db = (Inr resp1, db1) \<and> refresh_rotate P A rq2 sr2 t who db1 = (Inr resp2, db2) \<and>
     s1 \<in> set (sessions db2) \<and> s2 \<in> set (sessions db2)"
proof -
  let ?p = "\<lambda>s. ss_token_hash s = sha256_hash (cr P) t"
  have user: "user_of db (fst who) \<noteq> None"
  proof -
    obtain s :: session_row and u where "user_of db (ss_user s) = Some u" "who = (u_id u, u_role u)"
      using refresh_check_user [OF assms(1)] by blast
    moreover from this(1) have "u_id u = ss_user s" using row_of_Some by (fastforce simp: user_of_def)
    ultimately show ?thesis by simp
  qed
  note n1 = new_session_sel [OF assms(3)] and n2 = new_session_sel [OF assms(4)]
  let ?db0 = "revoke_sessions ?p db"
  let ?db1 = "?db0\<lparr>sessions := sql_insert s1 (sessions ?db0)\<rparr>"
  have i1: "insert_session P s1 ?db0 = Inr ?db1"
    unfolding insert_session_Inr
  proof (intro conjI refl)
    show "inet_ok P (ss_ip s1)" using assms(5) n1(6) by simp
    show "row_of ss_id (sessions ?db0) (ss_id s1) = None" using assms(7) by (auto simp: row_of_None revoke_sessions_def rows)
    show "row_of ss_token_hash (sessions ?db0) (ss_token_hash s1) = None"
      using assms(9) by (auto simp: row_of_None revoke_sessions_def rows)
    show "user_of ?db0 (ss_user s1) \<noteq> None" using user n1(4) by (simp add: user_of_def revoke_sessions_def)
  qed
  define l1 where "l1 = audit_log P rq1 \<lparr>ae_action = ''token_refresh'', ae_actor = Some (fst who),
             ae_ip = Some (rq_ip rq1), ae_secret = None, ae_severity = Info\<rparr> ?db1"
  have l1: "sessions l1 = sql_insert s1 (sql_delete ?p (sessions db))" "users l1 = users db"
    by (simp_all add: l1_def revoke_sessions_def)
  let ?db2 = "(revoke_sessions ?p l1)\<lparr>sessions := sql_insert s2 (sessions (revoke_sessions ?p l1))\<rparr>"
  have i2: "insert_session P s2 (revoke_sessions ?p l1) = Inr ?db2"
    unfolding insert_session_Inr
  proof (intro conjI refl)
    show "inet_ok P (ss_ip s2)" using assms(6) n2(6) by simp
    show "row_of ss_id (sessions (revoke_sessions ?p l1)) (ss_id s2) = None"
      using assms(7) by (auto simp: row_of_None revoke_sessions_def set_sql l1)
    show "row_of ss_token_hash (sessions (revoke_sessions ?p l1)) (ss_token_hash s2) = None"
      using assms(8,10) by (auto simp: row_of_None revoke_sessions_def set_sql l1)
    show "user_of (revoke_sessions ?p l1) (ss_user s2) \<noteq> None"
      using user n2(4) by (simp add: user_of_def revoke_sessions_def l1)
  qed
  have "refresh_rotate P A rq1 sr1 t who db = (Inr resp1, l1)"
    using assms(3) i1 by (simp add: refresh_rotate_def l1_def)
  moreover obtain l2 where "refresh_rotate P A rq2 sr2 t who l1 = (Inr resp2, l2)" "sessions l2 = sessions ?db2"
    using assms(4) i2 by (simp add: refresh_rotate_def)
  moreover have "s1 \<in> set (sessions ?db2)" "s2 \<in> set (sessions ?db2)"
    using assms(8) by (auto simp: revoke_sessions_def l1 rows)
  ultimately show ?thesis by auto
qed

subsection \<open>Logout\<close>

text \<open>logging out ends the session: afterwards neither the refresh token that was handed in nor any
  access token of that session is accepted, for that account or any other.
\<close>

theorem logout_ends_session:
  assumes "logout P A rq token user db = (Inr (), db')" and "accounts_ok db"
    and "jwt_decode A (JWT_SECRET_KEY (cfg P)) (rq_now rq) token = Some c" and "cl_sid c = Some sid" and "sid \<noteq> []"
  shows "\<not> ok (fst (refresh_token_endpoint P A rq' sr token db')) \<and>
     (\<forall>access c'. jwt_decode A (JWT_SECRET_KEY (cfg P)) (rq_now rq') access = Some c' \<longrightarrow> cl_sid c' = Some sid \<longrightarrow>
        \<not> ok (get_current_user P A rq' (Some access) db'))"
proof -
  let ?h = "sha256_hash (cr P) token"
  have "truthy (cl_sid c)" using assms(4,5) by (simp add: truthy_def)
  note res = this
  obtain i where i: "parse_uuid sid = Some i"
    using res assms(1,3,4)
    by (cases "parse_uuid sid")
      (auto simp: logout_def decode_token_def sql_uuid_def Let_def split: sum.splits prod.splits if_splits option.splits)
  obtain sub where
    hit: "sql_select (logout_hit (Some i) sub ?h) (sessions db) \<noteq> []" and
    db': "\<exists>e. db' = audit_log P rq e (revoke_sessions (logout_hit (Some i) sub ?h) db)"
    using res i assms(1,3,4)
    by (auto simp: logout_def decode_token_def sql_uuid_def Let_def split: sum.splits prod.splits if_splits option.splits)
  from hit obtain s where s: "s \<in> set (sessions db)" "logout_hit (Some i) sub ?h s"
    by (auto simp: sql_select_def filter_empty_conv)
  have gone: "ss_id x \<noteq> i \<and> ss_token_hash x \<noteq> ?h" if x: "x \<in> set (sessions db')" for x
  proof -
    from x db' have x: "x \<in> set (sessions db)" "\<not> logout_hit (Some i) sub ?h x"
      by (auto simp: revoke_sessions_def rows)
    have d: "distinct (map ss_id (sessions db))" "distinct (map ss_token_hash (sessions db))"
      using assms(2) by (simp_all add: accounts_ok_def)
    have "x = s" if "ss_id x = ss_id s \<or> ss_token_hash x = ss_token_hash s"
      using that d x(1) s(1) by (auto simp: distinct_map inj_on_def)
    with x(2) s show ?thesis by (auto simp: logout_hit_def)
  qed
  have "retired ?h db'" using gone by (auto simp: retired_def)
  moreover have "\<not> ok (get_current_user P A rq' (Some access) db')"
    if "jwt_decode A (JWT_SECRET_KEY (cfg P)) (rq_now rq') access = Some c'" "cl_sid c' = Some sid" for access c'
    using that i gone unfolding ok_iff get_current_user_iff by auto
  ultimately show ?thesis using retired_refused by blast
qed

subsection \<open>E-mail verification\<close>

lemma confirm_Inr:
  "confirm_email_verification P rq code user db = (Inr m, db') \<longleftrightarrow>
     (\<exists>u. user_of db (cu_id user) = Some u \<and> m = ''Email verified'' \<and>
        (\<exists>e \<in> set (email_verifications db). verification_hit P rq code u e) \<and>
        db' = db\<lparr>email_verifications := sql_delete (verification_hit P rq code u) (email_verifications db),
                 users := sql_update (\<lambda>x. u_id x = cu_id user) (\<lambda>x. x\<lparr>u_verified := True, u_updated := rq_txn rq\<rparr>)
                   (users db)\<rparr>)"
  by (auto simp: confirm_email_verification_def sql_select_def filter_empty_conv split: option.splits)

text \<open>
  the code that is mailed verifies the address: confirmed by the same account within 15 minutes, with the
  address unchanged, it succeeds and marks the account verified; and it does so once, a second
  confirmation with any code fails until a new one is requested.
\<close>

theorem verification_roundtrip:
  assumes "request_email_verification P A rq code user db = (Inr m, db1)" and "user_of db (cu_id user) = Some u"
    and "\<not> u_verified u" and "rq_clock rq' < rq_clock rq + 15 * 60 * second"
  shows "\<exists>db2. confirm_email_verification P rq' code user db1 = (Inr ''Email verified'', db2) \<and>
     (\<exists>u'. user_of db2 (cu_id user) = Some u' \<and> u_verified u' \<and> u_email u' = u_email u) \<and>
     \<not> ok (fst (confirm_email_verification P rq'' code' user db2))"
proof -
  have uid: "u_id u = cu_id user" using assms(2) row_of_Some by (fastforce simp: user_of_def)
  define row where "row = \<lparr>ev_user = cu_id user, ev_email = u_email u, ev_hash = sha256_hash (cr P) code,
      ev_expires = rq_clock rq + 15 * 60 * second, ev_requested = rq_clock rq\<rparr>"
  have db1: "db1 = set_verification row db"
    using assms(1-3) by (auto simp: request_email_verification_def row_def split: option.splits if_splits sum.splits)
  have user1: "user_of db1 (cu_id user) = Some u" using assms(2) by (simp add: db1 set_verification_def user_of_def)
  have hit: "verification_hit P rq' code u row"
    using assms(4) by (simp add: verification_hit_def row_def uid citext_eq_def)
  define db2 where "db2 = db1\<lparr>email_verifications := sql_delete (verification_hit P rq' code u) (email_verifications db1),
      users := sql_update (\<lambda>x. u_id x = cu_id user) (\<lambda>x. x\<lparr>u_verified := True, u_updated := rq_txn rq'\<rparr>) (users db1)\<rparr>"
  have "confirm_email_verification P rq' code user db1 = (Inr ''Email verified'', db2)"
    using user1 hit by (auto simp: confirm_Inr db2_def) (auto simp: db1 set_verification_def rows)
  moreover have user2: "user_of db2 (cu_id user) = Some (u\<lparr>u_verified := True, u_updated := rq_txn rq'\<rparr>)"
    using user1 by (simp add: db2_def user_of_def row_of_update)
  moreover have "\<not> ok (fst (confirm_email_verification P rq'' code' user db2))"
  proof -
    have "ev_user e \<noteq> cu_id user" if "e \<in> set (email_verifications db2)" for e
      using that hit by (auto simp: db2_def db1 set_verification_def rows row_def)
    then have "sql_select (verification_hit P rq'' code' (u\<lparr>u_verified := True, u_updated := rq_txn rq'\<rparr>)) (email_verifications db2) = []"
      by (auto simp: sql_select_def filter_empty_conv verification_hit_def uid)
    then show ?thesis by (simp add: confirm_email_verification_def user2)
  qed
  ultimately show ?thesis by auto
qed

subsection \<open>Libraries for witnesses\<close>

text \<open>
  A token that writes its fields one after the other, each character behind a plus sign and each
  field closed by a dot: one concrete encoding with the laws \<open>jwt_ok\<close> and \<open>bcrypt_ok\<close>.
\<close>

definition enc_field :: "string \<Rightarrow> string" where
  "enc_field s = concat (map (\<lambda>c. [CHR ''+'', c]) s) @ ''.''"

fun dec_fields :: "string \<Rightarrow> string \<Rightarrow> string list" where
  "dec_fields cur [] = []"
| "dec_fields cur [c] = [rev cur]"
| "dec_fields cur (c # d # cs) = (if c = CHR ''+'' then dec_fields (d # cur) cs else rev cur # dec_fields [] (d # cs))"

lemma dec_fields_enc:
  "dec_fields cur (enc_field s @ rest) = (rev cur @ s) # dec_fields [] rest"
proof (induction s arbitrary: cur)
  case Nil
  then show ?case by (cases rest) (simp_all add: enc_field_def)
next
  case (Cons c s)
  have "enc_field (c # s) @ rest = CHR ''+'' # c # (enc_field s @ rest)" by (simp add: enc_field_def)
  then show ?case using Cons [of "c # cur"] by simp
qed

definition opt_field :: "string option \<Rightarrow> string" where
  "opt_field x = (case x of None \<Rightarrow> ''-'' | Some s \<Rightarrow> CHR ''='' # s)"

definition field_opt :: "string \<Rightarrow> string option" where
  "field_opt f = (case f of c # s \<Rightarrow> if c = CHR ''='' then Some s else None | [] \<Rightarrow> None)"

lemma field_opt [simp]: "field_opt (opt_field x) = x"
  by (cases x) (simp_all add: field_opt_def opt_field_def)

definition demo_jwt_encode :: "string \<Rightarrow> claims \<Rightarrow> string" where
  "demo_jwt_encode key c = concat (map enc_field [key, opt_field (cl_sub c), opt_field (cl_role c), opt_field (cl_sid c),
     py_str_int (cl_exp c), py_str_int (cl_iat c), opt_field (cl_type c), cl_jti c])"

definition demo_jwt_decode :: "string \<Rightarrow> micros \<Rightarrow> string \<Rightarrow> claims option" where
  "demo_jwt_decode key now t =
     (case dec_fields [] t of
        [k, sub, role, sid, e, i, ty, jti] \<Rightarrow>
          (case (py_int 10 e, py_int 10 i) of
             (Some e, Some i) \<Rightarrow>
               if k = key \<and> now div second \<le> e
               then Some \<lparr>cl_sub = field_opt sub, cl_role = field_opt role, cl_sid = field_opt sid, cl_jti = jti,
                 cl_exp = e, cl_iat = i, cl_type = field_opt ty\<rparr> else None
           | _ \<Rightarrow> None)
      | _ \<Rightarrow> None)"

definition demo_auth :: auth_lib where
  "demo_auth = \<lparr>jwt_encode = demo_jwt_encode, jwt_decode = demo_jwt_decode,
     bcrypt_hashpw = (\<lambda>salt p. if length p \<le> 72 then Some (''pw:'' @ p) else None),
     bcrypt_checkpw = (\<lambda>p h. if length p \<le> 72 then Some (h = ''pw:'' @ p) else None),
     smtp_send = (\<lambda>_ _. True)\<rparr>"

lemma demo_jwt_ok: "jwt_ok demo_auth"
proof -
  have "dec_fields [] (demo_jwt_encode key c) = [key, opt_field (cl_sub c), opt_field (cl_role c), opt_field (cl_sid c),
     py_str_int (cl_exp c), py_str_int (cl_iat c), opt_field (cl_type c), cl_jti c]" for key c
    using dec_fields_enc [of "[]" _ "[]"] by (simp add: demo_jwt_encode_def dec_fields_enc)
  then show ?thesis by (simp add: jwt_ok_def demo_auth_def demo_jwt_decode_def py_int_str)
qed

lemma demo_bcrypt_ok: "bcrypt_ok demo_auth"
  by (simp add: bcrypt_ok_def demo_auth_def)
definition sample_rand1 :: session_rand where
  "sample_rand1 = \<lparr>sr_session = 7, sr_jti_access = ''j1'', sr_jti_refresh = ''j2''\<rparr>"

definition sample_rand2 :: session_rand where
  "sample_rand2 = \<lparr>sr_session = 8, sr_jti_access = ''j3'', sr_jti_refresh = ''j4''\<rparr>"

definition alice :: user_row where
  "alice = \<lparr>u_id = 1, u_email = ''a@x.io'', u_username = ''alice'', u_password_hash = ''pw:p'', u_role = ''user'',
     u_active = True, u_verified = False, u_created = 0, u_updated = 0, u_delete_after = None\<rparr>"

lemma alice_sel [simp]:
  "u_id alice = 1" "u_email alice = ''a@x.io''" "u_username alice = ''alice''" "u_password_hash alice = ''pw:p''"
  "u_role alice = ''user''" "u_active alice" "\<not> u_verified alice"
  by (simp_all add: alice_def)

lemma sample_spelling [simp]: "str_lower ''A@x.io'' = ''a@x.io''" "str_lower ''a@x.io'' = ''a@x.io''"
    "str_lower ''B@x.io'' = ''b@x.io''" "str_lower ''b@x.io'' = ''b@x.io''"
  by code_simp+

definition alice_db :: database where
  "alice_db = empty_db\<lparr>users := [alice]\<rparr>"

lemma alice_db_sel [simp]:
  "users alice_db = [alice]" "sessions alice_db = []" "email_verifications alice_db = []"
  "user_of alice_db 1 = Some alice"
  by (simp_all add: alice_db_def empty_db_def user_of_def)

lemma alice_accounts_ok: "accounts_ok alice_db" "accounts_ok empty_db"
  by (simp_all add: accounts_ok_def) (simp_all add: empty_db_def)

lemma demo_inet [simp]: "inet_ok demo_platform (rq_ip demo_request)"
  by (simp add: demo_request_def)

lemma alice_login:
  "\<exists>resp s. new_session demo_platform demo_auth demo_request sample_rand1 1 ''user'' = (resp, s) \<and>
     login demo_platform demo_auth demo_request sample_rand1 ''A@x.io'' ''p'' alice_db =
       (Inr resp, audit_log demo_platform demo_request \<lparr>ae_action = ''user_login'', ae_actor = Some 1,
          ae_ip = Some (rq_ip demo_request), ae_secret = None, ae_severity = Info\<rparr> (alice_db\<lparr>sessions := [s]\<rparr>))"
proof -
  obtain resp s where n: "new_session demo_platform demo_auth demo_request sample_rand1 1 ''user'' = (resp, s)"
    by fastforce
  note ns = new_session_sel [OF n]
  have "insert_session demo_platform s alice_db = Inr (alice_db\<lparr>sessions := [s]\<rparr>)"
    using ns(4,6) by (simp add: insert_session_Inr sql_insert_def demo_request_def)
  moreover have "fetchone (sql_select (\<lambda>u. citext_eq (u_email u) ''A@x.io'') (users alice_db)) = Some alice"
    by (simp add: sql_select_def citext_eq_def)
  moreover have "verify_password demo_auth ''p'' ''pw:p'' = Inr True"
    by (simp add: verify_password_def demo_auth_def)
  ultimately show ?thesis using n by (simp add: login_def)
qed

lemma demo_settings_jwt [simp]:
  "JWT_ACCESS_TOKEN_EXPIRE_MINUTES demo_settings = 15" "JWT_REFRESH_TOKEN_EXPIRE_DAYS demo_settings = 30"
  by (simp_all add: demo_settings_def)



theorem register_then_login_witness:
  "\<exists>u db' resp db''. register demo_platform demo_auth demo_request ''salt'' 2
       \<lparr>rg_email = ''B@x.io'', rg_username = ''bob'', rg_password = ''password1''\<rparr> empty_db = (Inr u, db') \<and>
     login demo_platform demo_auth demo_request sample_rand1 ''b@x.io'' ''password1'' db' = (Inr resp, db'')"
proof -
  let ?b = "\<lparr>rg_email = ''B@x.io'', rg_username = ''bob'', rg_password = ''password1''\<rparr>"
  obtain u db' where r: "register demo_platform demo_auth demo_request ''salt'' 2 ?b empty_db = (Inr u, db')"
    by (simp add: register_def hash_password_def demo_auth_def user_taken_def empty_db_def sql_select_def insert_user_def
        user_of_def Let_def)
  obtain resp s where n: "new_session demo_platform demo_auth demo_request sample_rand1 2 ''user'' = (resp, s)"
    by fastforce
  have "str_lower ''b@x.io'' = str_lower (rg_email ?b)" by simp
  moreover have "row_of ss_id (sessions empty_db) (sr_session sample_rand1) = None"
      "row_of ss_token_hash (sessions empty_db) (ss_token_hash s) = None"
    by (simp_all add: empty_db_def)
  ultimately show ?thesis
    using register_then_login [OF r demo_bcrypt_ok alice_accounts_ok(2) _ demo_inet _ n] r by fastforce
qed
text \<open>A digest that looks at the last character of the token id only, to keep the computations small.\<close>

definition last_digest :: "bytes \<Rightarrow> nat" where
  "last_digest s = (case rev s of _ # c # _ \<Rightarrow> of_char c | _ \<Rightarrow> 0)"

lemma last_digest_jwt [simp]:
  assumes "cl_jti c = js @ [j]" shows "last_digest (demo_jwt_encode key c) = of_char j"
  using assms by (simp add: demo_jwt_encode_def last_digest_def enc_field_def)

definition auth_platform :: platform where
  "auth_platform = demo_platform\<lparr>cr := tag_crypto\<lparr>sha256 := last_digest\<rparr>\<rparr>"

lemma auth_platform_sel [simp]:
  "cfg auth_platform = demo_settings" "sha256 (cr auth_platform) = last_digest" "inet_ok auth_platform = (\<lambda>s. s \<noteq> ''unknown'')"
  by (simp_all add: auth_platform_def)

definition sample_session :: "session_rand \<Rightarrow> token_response \<times> session_row" where
  "sample_session sr = new_session auth_platform demo_auth demo_request sr 1 ''user''"

lemma sample_session:
  "sha256_hash (cr auth_platform) (tk_refresh (fst (sample_session sample_rand1))) = hexdigest 50"
  "sha256_hash (cr auth_platform) (tk_refresh (fst (sample_session sample_rand2))) = hexdigest 52"
  "ss_id (snd (sample_session sample_rand1)) = 7" "ss_id (snd (sample_session sample_rand2)) = 8"
  "ss_token_hash (snd (sample_session sample_rand1)) = hexdigest 50"
  "ss_token_hash (snd (sample_session sample_rand2)) = hexdigest 52"
  by (simp_all add: sample_session_def new_session_def create_refresh_token_def sha256_hash_def sample_rand1_def sample_rand2_def
      demo_auth_def last_digest_jwt [of _ "''j''"] Let_def)

lemma sample_digests [simp]: "hexdigest 50 \<noteq> hexdigest 52" "hexdigest 52 \<noteq> hexdigest 50" "hexdigest 54 \<noteq> hexdigest 50"
    "hexdigest 50 \<noteq> hexdigest 54"
  by code_simp+

lemma demo_request_sel [simp]: "rq_ip demo_request = ''10.0.0.1''" "rq_now demo_request = 1000 * second"
    "rq_txn demo_request = 1000 * second" "rq_clock demo_request = 1000 * second"
  by (simp_all add: demo_request_def)

text \<open>A database in which alice has the first session, and a refresh of it.\<close>

definition session_db :: database where
  "session_db = alice_db\<lparr>sessions := [snd (sample_session sample_rand1)]\<rparr>"

lemma session_db_sel [simp]: "users session_db = [alice]" "sessions session_db = [snd (sample_session sample_rand1)]"
    "user_of session_db 1 = Some alice" "user_of session_db 2 = None"
  by (simp_all add: session_db_def user_of_def)

lemma sample_check:
  "refresh_check auth_platform demo_auth demo_request (tk_refresh (fst (sample_session sample_rand1))) session_db = Inr (1, ''user'')"
proof -
  have n: "new_session auth_platform demo_auth demo_request sample_rand1 1 ''user'' =
      (fst (sample_session sample_rand1), snd (sample_session sample_rand1))"
    by (simp add: sample_session_def)
  have "insert_session auth_platform (snd (sample_session sample_rand1)) alice_db = Inr session_db"
    using new_session_sel(4,6) [OF n] by (simp add: insert_session_Inr session_db_def sql_insert_def)
  from session_usable(2) [OF demo_jwt_ok n this, of alice demo_request demo_request
      "\<lparr>ae_action = [], ae_actor = None, ae_ip = None, ae_secret = None, ae_severity = Info\<rparr>"]
  show ?thesis
    by (simp add: audit_log_eq audit_accepts_def audit_actions_def)
qed

lemma sample_refresh:
  "\<exists>db'. refresh_token_endpoint auth_platform demo_auth demo_request sample_rand2
      (tk_refresh (fst (sample_session sample_rand1))) session_db = (Inr (fst (sample_session sample_rand2)), db')"
proof -
  have n: "new_session auth_platform demo_auth demo_request sample_rand2 1 ''user'' =
      (fst (sample_session sample_rand2), snd (sample_session sample_rand2))"
    by (simp add: sample_session_def)
  obtain resp s where p: "sample_session sample_rand2 = (resp, s)" by fastforce
  have "ss_id s = 8" "ss_token_hash s = hexdigest 52" "ss_user s = 1" "ss_ip s = ''10.0.0.1''"
    using sample_session(4,6) new_session_sel(4,6) [OF n] by (simp_all add: p)
  then show ?thesis
    using n p by (simp add: refresh_token_endpoint_def sample_check refresh_rotate_def insert_session_def revoke_sessions_def
        sql_delete_def sample_session user_of_def)
qed

theorem refresh_single_use_witness:
  "\<not> ok (fst (refresh_token_endpoint auth_platform demo_auth demo_request sample_rand1 (tk_refresh (fst (sample_session sample_rand1)))
     (snd (refresh_token_endpoint auth_platform demo_auth demo_request sample_rand2
       (tk_refresh (fst (sample_session sample_rand1))) session_db))))"
proof -
  obtain db' where r: "refresh_token_endpoint auth_platform demo_auth demo_request sample_rand2
      (tk_refresh (fst (sample_session sample_rand1))) session_db = (Inr (fst (sample_session sample_rand2)), db')"
    using sample_refresh by blast
  from refresh_single_use [OF r, of "[]" demo_request sample_rand1] r show ?thesis by (simp add: sample_session)
qed

theorem refresh_race_witness:
  "\<exists>db1 db2. refresh_rotate auth_platform demo_auth demo_request sample_rand2 (tk_refresh (fst (sample_session sample_rand1))) (1, ''user'') session_db =
       (Inr (fst (sample_session sample_rand2)), db1) \<and>
     (\<exists>resp. refresh_rotate auth_platform demo_auth demo_request (sample_rand2\<lparr>sr_session := 9, sr_jti_refresh := ''j6''\<rparr>)
       (tk_refresh (fst (sample_session sample_rand1))) (1, ''user'') db1 = (Inr resp, db2)) \<and>
     {8, 9} \<subseteq> ss_id ` set (sessions db2)"
proof -
  let ?r3 = "sample_rand2\<lparr>sr_session := 9, sr_jti_refresh := ''j6''\<rparr>"
  have s3: "ss_id (snd (sample_session ?r3)) = 9" "ss_token_hash (snd (sample_session ?r3)) = hexdigest 54"
    by (simp_all add: sample_session_def new_session_def create_refresh_token_def sha256_hash_def demo_auth_def
        last_digest_jwt [of _ "''j''"] Let_def)
  have n: "new_session auth_platform demo_auth demo_request sr (fst (1, ''user'')) (snd (1, ''user'')) =
      (fst (sample_session sr), snd (sample_session sr))" for sr
    by (simp add: sample_session_def)
  have d: "hexdigest 54 \<noteq> hexdigest 52" by code_simp
  have "\<exists>db1 db2. refresh_rotate auth_platform demo_auth demo_request sample_rand2 (tk_refresh (fst (sample_session sample_rand1))) (1, ''user'') session_db =
       (Inr (fst (sample_session sample_rand2)), db1) \<and>
    refresh_rotate auth_platform demo_auth demo_request ?r3 (tk_refresh (fst (sample_session sample_rand1))) (1, ''user'') db1 =
       (Inr (fst (sample_session ?r3)), db2) \<and>
    snd (sample_session sample_rand2) \<in> set (sessions db2) \<and> snd (sample_session ?r3) \<in> set (sessions db2)"
    by (rule refresh_race [OF sample_check sample_check n n]) (simp_all add: sample_session s3 d d [symmetric])
  then obtain db1 db2 where r: "refresh_rotate auth_platform demo_auth demo_request sample_rand2 (tk_refresh (fst (sample_session sample_rand1))) (1, ''user'') session_db =
       (Inr (fst (sample_session sample_rand2)), db1)"
    "refresh_rotate auth_platform demo_auth demo_request ?r3 (tk_refresh (fst (sample_session sample_rand1))) (1, ''user'') db1 =
       (Inr (fst (sample_session ?r3)), db2)"
    "snd (sample_session sample_rand2) \<in> set (sessions db2)" "snd (sample_session ?r3) \<in> set (sessions db2)"
    by blast
  moreover have "8 \<in> ss_id ` set (sessions db2)" "9 \<in> ss_id ` set (sessions db2)"
    using r(3,4) s3(1) sample_session(4) by (metis imageI)+
  ultimately show ?thesis by blast
qed

theorem logout_ends_session_witness:
  "\<exists>db'. logout auth_platform demo_auth demo_request (tk_refresh (fst (sample_session sample_rand1))) sample_user session_db = (Inr (), db') \<and>
     \<not> ok (fst (refresh_token_endpoint auth_platform demo_auth demo_request sample_rand2 (tk_refresh (fst (sample_session sample_rand1))) db'))"
proof -
  let ?t = "tk_refresh (fst (sample_session sample_rand1))"
  obtain c where c: "jwt_decode demo_auth (JWT_SECRET_KEY (cfg auth_platform)) (rq_now demo_request) ?t = Some c"
      "cl_sub c = Some (uuid_str 1)" "cl_sid c = Some (uuid_str 7)" "cl_type c = Some ''refresh''"
    using demo_jwt_ok
    by (auto simp: sample_session_def new_session_def create_refresh_token_def sample_rand1_def jwt_ok_def Let_def)
  have hit: "logout_hit (Some 7) 1 (hexdigest 50) (snd (sample_session sample_rand1))"
    by (simp add: logout_hit_def sample_session) (simp add: sample_session_def new_session_def Let_def create_refresh_token_def)
  obtain db' where l: "logout auth_platform demo_auth demo_request ?t sample_user session_db = (Inr (), db')"
    using c hit by (simp add: logout_def decode_token_def sample_session sql_select_def)
  have "accounts_ok session_db"
    by (simp add: accounts_ok_def) (simp add: sample_session_def new_session_def Let_def create_refresh_token_def)
  from logout_ends_session [OF l this c(1,3)] l show ?thesis by auto
qed

theorem verification_roundtrip_witness:
  "\<exists>m db1 db2. request_email_verification demo_platform demo_auth demo_request ''c0de'' sample_user alice_db = (Inr m, db1) \<and>
     confirm_email_verification demo_platform demo_request ''c0de'' sample_user db1 = (Inr ''Email verified'', db2) \<and>
     \<not> ok (fst (confirm_email_verification demo_platform demo_request ''c0de'' sample_user db2))"
proof -
  have u: "user_of alice_db (cu_id sample_user) = Some alice" by (simp add: sample_user_def)
  obtain m db1 where r: "request_email_verification demo_platform demo_auth demo_request ''c0de'' sample_user alice_db = (Inr m, db1)"
    by (simp add: request_email_verification_def u send_code_def demo_auth_def demo_settings_def)
  have "rq_clock demo_request < rq_clock demo_request + 15 * 60 * second" by simp
  from verification_roundtrip [OF r u alice_sel(7) this] r show ?thesis by blast
qed

end
