(* ===== verification/File_Store.thy ===== *)
theory File_Store
  imports File_Uploads Cleanup
begin

text \<open>
  The life of stored objects.  The atomic actions of all handlers and workers on the tables that
  name objects and on the store are a step relation; the handlers are sequences of these steps, so
  what every step keeps holds for every interleaving of uploads, publications, deletions, views,
  sweeps and runs of the storage worker.  The one timing assumption is a guard of the publishing
  steps: the row of pending_uploads is still there, that is, an upload is published within the 15
  minutes the worker leaves it.
\<close>

subsection \<open>The invariant\<close>

text \<open>
  Every object of a version is stored and every stored object is live, pending or queued; the three
  are disjoint, and no two pending uploads share an object.
\<close>

definition file_inv :: "database \<Rightarrow> objects \<Rightarrow> bool" where
  "file_inv db st \<longleftrightarrow> store_ok (dom st) db \<and> pending_objects db \<inter> outbox_objects db = {} \<and>
     distinct (map pu_object (pending_uploads db))"

text \<open>A run of the worker on the store: what it deletes goes, what fails may have gone, the rest stays.\<close>

definition worker_store :: "(string \<Rightarrow> string option) \<Rightarrow> string set \<Rightarrow> objects \<Rightarrow> objects \<Rightarrow> bool" where
  "worker_store s3 tried st st' \<longleftrightarrow>
     (\<forall>k. if k \<in> tried then st' k = None \<or> s3 k \<noteq> None \<and> st' k = st k else st' k = st k)"

text \<open>A step that touches none of the three tables and not the store.\<close>

definition same_objects :: "database \<Rightarrow> database \<Rightarrow> bool" where
  "same_objects db db' \<longleftrightarrow> secret_versions db' = secret_versions db \<and> deletion_outbox db' = deletion_outbox db \<and>
     pending_uploads db' = pending_uploads db"

inductive store_step :: "platform \<Rightarrow> database \<times> objects \<Rightarrow> database \<times> objects \<Rightarrow> bool" for P where
  staged: "insert_pending r db = Inr db' \<Longrightarrow> pu_object r \<notin> live_objects db \<union> outbox_objects db \<Longrightarrow>
     store_step P (db, st) (db', st)"
| uploaded: "store_laws F \<Longrightarrow> r \<in> set (pending_uploads db) \<Longrightarrow>
     store_step P (db, st) (db, snd (fl_put F (pu_object r) b st))"
| dropped: "store_laws F \<Longrightarrow> k \<notin> live_objects db \<Longrightarrow> store_step P (db, st) (db, snd (fl_del F k st))"
| published: "file_rows P F rq rd form rules owner up s token db = Inr db' \<Longrightarrow>
     r \<in> set (pending_uploads db) \<Longrightarrow> pu_id r = fr_pending rd \<Longrightarrow> pu_object r = st_key s \<Longrightarrow> st (st_key s) \<noteq> None \<Longrightarrow>
     store_step P (db, st) (db', st)"
| replaced: "file_version_rows rq rd sid n nt user up s db = Inr db1 \<Longrightarrow>
     r \<in> set (pending_uploads db) \<Longrightarrow> pu_id r = fr_pending rd \<Longrightarrow> pu_object r = st_key s \<Longrightarrow> st (st_key s) \<noteq> None \<Longrightarrow>
     store_step P (db, st) (commit_with_audit P rq action sid user db db1, st)"
| deleted: "store_step P (db, st) (delete_secrets clock p db, st)"
| viewed: "store_step P (db, st) (update_view_count clock sid n v db, st)"
| swept: "sweep_rows rq db = ((dead, gone, n), db') \<Longrightarrow> \<forall>p \<in> set (pending_uploads db). pu_user p \<notin> u_id ` set gone \<Longrightarrow>
     store_step P (db, st) (db', st)"
| cleaned: "process_storage_cleanup s3 rq w = (c, w') \<Longrightarrow> worker_store s3 (attempted (rq_clock rq) (wd_db w)) st st' \<Longrightarrow>
     store_step P (wd_db w, st) (wd_db w', st')"
| other: "same_objects db db' \<Longrightarrow> store_step P (db, st) (db', st)"

lemma file_invD:
  assumes "file_inv db st"
  shows "object_rows_ok db" "live_objects db \<subseteq> dom st" "dom st \<subseteq> live_objects db \<union> pending_objects db \<union> queued_objects db"
    "pending_objects db \<inter> outbox_objects db = {}" "distinct (map pu_object (pending_uploads db))"
    "live_objects db \<inter> outbox_objects db = {}" "live_objects db \<inter> pending_objects db = {}"
  using assms unfolding file_inv_def store_ok_def object_rows_ok_def by blast+

text \<open>What every step keeps: the invariant, the outbox, and the bytes of what stays live.\<close>

definition step_keeps :: "database \<Rightarrow> objects \<Rightarrow> database \<Rightarrow> objects \<Rightarrow> bool" where
  "step_keeps db st db' st' \<longleftrightarrow> file_inv db' st' \<and> outbox_objects db \<subseteq> outbox_objects db' \<and>
     (\<forall>k \<in> live_objects db. k \<in> live_objects db' \<and> st' k = st k \<or> k \<in> outbox_objects db')"

lemma step_keepsI:
  assumes "object_rows_ok db'" and "live_objects db' \<subseteq> dom st'"
    and "dom st' \<subseteq> live_objects db' \<union> pending_objects db' \<union> queued_objects db'"
    and "pending_objects db' \<inter> outbox_objects db' = {}" and "distinct (map pu_object (pending_uploads db'))"
    and "outbox_objects db \<subseteq> outbox_objects db'"
    and "\<And>k. k \<in> live_objects db \<Longrightarrow> k \<in> live_objects db' \<and> st' k = st k \<or> k \<in> outbox_objects db'"
  shows "step_keeps db st db' st'"
  using assms by (simp add: step_keeps_def file_inv_def store_ok_def)

text \<open>A step on the store alone that leaves the live objects as they are.\<close>

lemma store_change_keeps:
  assumes "file_inv db st" and "\<And>x. x \<in> live_objects db \<Longrightarrow> st' x = st x"
    and "dom st' \<subseteq> dom st \<union> pending_objects db"
  shows "step_keeps db st db st'"
proof (rule step_keepsI)
  note inv = file_invD [OF assms(1)]
  show "live_objects db \<subseteq> dom st'"
  proof
    fix x assume "x \<in> live_objects db"
    with inv(2) assms(2) show "x \<in> dom st'" by (metis domIff subsetD)
  qed
  show "dom st' \<subseteq> live_objects db \<union> pending_objects db \<union> queued_objects db" using assms(3) inv(3) by blast
qed (use file_invD [OF assms(1)] assms(2) in auto)

lemma same_objects_keeps:
  assumes "file_inv db st" and "same_objects db db'" shows "step_keeps db st db' st"
  using assms store_ok_cong [of db' db "dom st"]
  by (simp add: step_keeps_def file_inv_def same_objects_def object_sets_def)

lemma staged_keeps:
  assumes "file_inv db st" and "insert_pending r db = Inr db'" and "pu_object r \<notin> live_objects db \<union> outbox_objects db"
  shows "step_keeps db st db' st"
proof -
  note inv = file_invD [OF assms(1)]
  from assms(2) have db': "db' = db\<lparr>pending_uploads := sql_insert r (pending_uploads db)\<rparr>"
    and new: "\<forall>p \<in> set (pending_uploads db). pu_id p \<noteq> pu_id r \<and> pu_object p \<noteq> pu_object r"
    by (auto simp: insert_pending_Inr)
  have sets: "live_objects db' = live_objects db" "outbox_objects db' = outbox_objects db" "queued_objects db' = queued_objects db"
    "pending_objects db' = insert (pu_object r) (pending_objects db)"
    by (simp_all add: db' object_sets_def set_sql)
  have "distinct (map pu_id (pending_uploads db'))" "distinct (map pu_object (pending_uploads db'))"
    using inv(1,5) new by (auto simp: db' distinct_insert object_rows_ok_def)
  moreover have "secret_versions db' = secret_versions db" "deletion_outbox db' = deletion_outbox db" by (simp_all add: db')
  moreover from calculation have "object_rows_ok db'"
    using inv(1) assms(3) unfolding object_rows_ok_def sets by simp blast
  ultimately have fin: "object_rows_ok db'" "distinct (map pu_object (pending_uploads db'))" by simp_all
  show ?thesis
    by (rule step_keepsI) (use fin inv(2-4) assms(3) in \<open>auto simp: sets\<close>)
qed

lemma dom_put:
  assumes "store_laws F"
  shows "dom (snd (fl_put F k b st)) \<subseteq> insert k (dom st) \<and> dom st \<subseteq> dom (snd (fl_put F k b st)) \<and>
    (\<forall>x. x \<noteq> k \<longrightarrow> snd (fl_put F k b st) x = st x)"
  using put_cases [OF assms, of k b st] by auto

lemma dom_del:
  assumes "store_laws F"
  shows "dom (snd (fl_del F k st)) \<subseteq> dom st \<and> dom st \<subseteq> insert k (dom (snd (fl_del F k st))) \<and>
    (\<forall>x. x \<noteq> k \<longrightarrow> snd (fl_del F k st) x = st x)"
  using del_cases [OF assms, of k st] by (auto split: if_splits)

lemma uploaded_keeps:
  assumes "file_inv db st" and "store_laws F" and "r \<in> set (pending_uploads db)"
  shows "step_keeps db st db (snd (fl_put F (pu_object r) b st))"
proof (rule store_change_keeps [OF assms(1)])
  note d = dom_put [OF assms(2), of "pu_object r" b st]
  have k: "pu_object r \<in> pending_objects db" using assms(3) by (simp add: pending_objects_def)
  then have "pu_object r \<notin> live_objects db" using file_invD(7) [OF assms(1)] by blast
  then show "x \<in> live_objects db \<Longrightarrow> snd (fl_put F (pu_object r) b st) x = st x" for x using d by metis
  show "dom (snd (fl_put F (pu_object r) b st)) \<subseteq> dom st \<union> pending_objects db" using d k by blast
qed

lemma dropped_keeps:
  assumes "file_inv db st" and "store_laws F" and "k \<notin> live_objects db"
  shows "step_keeps db st db (snd (fl_del F k st))"
proof (rule store_change_keeps [OF assms(1)])
  note d = dom_del [OF assms(2), of k st]
  show "x \<in> live_objects db \<Longrightarrow> snd (fl_del F k st) x = st x" for x using assms(3) d by metis
  show "dom (snd (fl_del F k st)) \<subseteq> dom st \<union> pending_objects db" using d by blast
qed

text \<open>A row that becomes a version takes its object from the pending uploads.\<close>

lemma publish_keeps:
  assumes "file_inv db st" and v: "secret_versions db' = sql_insert v (secret_versions db)" "v_object v = Some k"
      "\<forall>v' \<in> set (secret_versions db). v_object v' \<noteq> Some k"
    and box: "deletion_outbox db' = deletion_outbox db"
    and p: "pending_uploads db' = sql_delete (\<lambda>p. pu_id p = pid) (pending_uploads db)"
      "r \<in> set (pending_uploads db)" "pu_id r = pid" "pu_object r = k" "st k \<noteq> None"
  shows "step_keeps db st db' st"
proof -
  note inv = file_invD [OF assms(1)]
  have sets: "live_objects db' = insert k (live_objects db)" "outbox_objects db' = outbox_objects db"
    "queued_objects db' = queued_objects db"
    using v(2) by (auto simp: live_objects_def outbox_objects_def queued_objects_def box v(1) set_sql)
  have ids: "distinct (map pu_id (pending_uploads db))" using inv(1) by (simp add: object_rows_ok_def)
  have same: "q = r" if "q \<in> set (pending_uploads db)" "pu_object q = k \<or> pu_id q = pid" for q
    using that(2) row_by_id [OF ids that(1) p(2)] row_by_id [OF inv(5) that(1) p(2)] p(3,4) by auto
  have pend: "pending_objects db' = pending_objects db - {k}"
  proof -
    have "pu_id q = pid \<longleftrightarrow> pu_object q = k" if "q \<in> set (pending_uploads db)" for q
      using same [OF that] p(3,4) by metis
    then show ?thesis by (auto simp: pending_objects_def p(1) set_sql)
  qed
  have k: "k \<in> pending_objects db" using p(2,4) by (auto simp: pending_objects_def)
  have d: "distinct (map pu_id (pending_uploads db'))" "distinct (map pu_object (pending_uploads db'))"
    using ids inv(5) by (simp_all add: p(1) distinct_delete)
  have one: "v_secret a = v_secret b" if "a \<in> set (secret_versions db')" "b \<in> set (secret_versions db')"
      "v_object a \<noteq> None" "v_object a = v_object b" for a b
  proof -
    from that(1,2) consider "a = v" "b = v" | "a = v" "b \<in> set (secret_versions db)" | "a \<in> set (secret_versions db)" "b = v"
      | "a \<in> set (secret_versions db)" "b \<in> set (secret_versions db)" by (auto simp: v(1) set_sql)
    then show ?thesis
    proof cases
      case 4
      then show ?thesis using inv(1) that(3,4) unfolding object_rows_ok_def by blast
    qed (use that(4) v(2,3) in auto)
  qed
  have "object_rows_ok db'"
    unfolding object_rows_ok_def
  proof (intro conjI)
    show "distinct (map o_id (deletion_outbox db'))" using inv(1) by (simp add: box object_rows_ok_def)
    show "live_objects db' \<inter> outbox_objects db' = {}" using inv(4,6) k by (auto simp: sets)
    show "live_objects db' \<inter> pending_objects db' = {}" using inv(7) by (auto simp: sets pend)
    show "\<forall>a \<in> set (secret_versions db'). \<forall>b \<in> set (secret_versions db').
        v_object a \<noteq> None \<longrightarrow> v_object a = v_object b \<longrightarrow> v_secret a = v_secret b" by (intro ballI impI one)
  qed (rule d(1))
  then show ?thesis
  proof (rule step_keepsI)
    show "live_objects db' \<subseteq> dom st" using inv(2) p(5) by (auto simp: sets)
    show "dom st \<subseteq> live_objects db' \<union> pending_objects db' \<union> queued_objects db'" using inv(3) by (auto simp: sets pend)
    show "pending_objects db' \<inter> outbox_objects db' = {}" using inv(4) by (auto simp: sets pend)
  qed (use d in \<open>simp_all add: sets\<close>)
qed

lemma deleted_keeps:
  assumes "file_inv db st" shows "step_keeps db st (delete_secrets clock p db) st"
proof -
  let ?db = "delete_secrets clock p db"
  note inv = file_invD [OF assms]
  have ok: "store_ok (dom st) ?db" using assms by (intro delete_secrets_store_ok) (simp add: file_inv_def)
  have box: "outbox_objects ?db = outbox_objects db \<union> dropped_objects p db"
    using delete_secrets_grows [of p db clock] by (simp add: box_grows_def outbox_objects_def)
  have split: "live_objects db = live_objects ?db \<union> dropped_objects p db" by (rule live_objects_split [OF inv(1)])
  have pend: "pending_objects ?db = pending_objects db" by (simp add: pending_objects_def)
  have "pending_objects ?db \<inter> outbox_objects ?db = {}"
    using inv(4,7) unfolding pend box split by blast
  then show ?thesis
    using ok inv(5) box split by (auto simp: step_keeps_def file_inv_def)
qed

lemma keeps_trans:
  assumes "step_keeps db st db1 st1" and "step_keeps db1 st1 db2 st2" shows "step_keeps db st db2 st2"
  unfolding step_keeps_def
proof (intro conjI ballI)
  show "file_inv db2 st2" "outbox_objects db \<subseteq> outbox_objects db2" using assms unfolding step_keeps_def by blast+
  show "k \<in> live_objects db2 \<and> st2 k = st k \<or> k \<in> outbox_objects db2" if "k \<in> live_objects db" for k
  proof (cases "k \<in> outbox_objects db1")
    case True
    then show ?thesis using assms(2) unfolding step_keeps_def by blast
  next
    case False
    then have "k \<in> live_objects db1" "st1 k = st k" using assms(1) that unfolding step_keeps_def by blast+
    then show ?thesis using assms(2) unfolding step_keeps_def by force
  qed
qed

lemma keeps_refl: "file_inv db st \<Longrightarrow> step_keeps db st db st"
  by (simp add: step_keeps_def)

lemma viewed_keeps:
  assumes "file_inv db st" shows "step_keeps db st (update_view_count clock sid n v db) st"
proof -
  let ?db1 = "db\<lparr>secrets := sql_update (\<lambda>s. s_id s = sid) (\<lambda>s. s\<lparr>s_view_count := n, s_viewed := v\<rparr>) (secrets db)\<rparr>"
  have s: "step_keeps db st (?db1\<lparr>audit_logs := l\<rparr>) st" "step_keeps db st ?db1 st" for l
    by (rule same_objects_keeps [OF assms]; simp add: same_objects_def)+
  then have "step_keeps db st (delete_secrets clock p (?db1\<lparr>audit_logs := l\<rparr>)) st" for p l
    by (intro keeps_trans [OF s(1) deleted_keeps]) (simp add: step_keeps_def)
  with s show ?thesis by (simp add: update_view_count_def Let_def split: option.split)
qed

lemma swept_keeps:
  assumes "file_inv db st" and "sweep_rows rq db = ((dead, gone, n), db')"
    and "\<forall>p \<in> set (pending_uploads db). pu_user p \<notin> u_id ` set gone"
  shows "step_keeps db st db' st"
proof -
  let ?db = "delete_secrets (rq_clock rq) (sweep_secret rq) db"
  have ok: "store_ok (dom st) db" using assms(1) by (simp add: file_inv_def)
  note o = sweep_rows_store_ok [OF assms(2) ok assms(3)]
  have "step_keeps db st ?db st" by (rule deleted_keeps [OF assms(1)])
  moreover have "pending_uploads ?db = pending_uploads db" by simp
  ultimately show ?thesis
    using o by (simp add: step_keeps_def file_inv_def pending_objects_def)
qed

lemma cleaned_keeps:
  assumes "file_inv (wd_db w) st" and "process_storage_cleanup s3 rq w = (c, w')"
    and "worker_store s3 (attempted (rq_clock rq) (wd_db w)) st st'"
  shows "step_keeps (wd_db w) st (wd_db w') st'"
proof -
  let ?db = "wd_db w" and ?db' = "wd_db w'" and ?t = "attempted (rq_clock rq) (wd_db w)"
  note inv = file_invD [OF assms(1)]
  have d: "distinct (map o_id (deletion_outbox ?db))" using inv(1) by (simp add: object_rows_ok_def)
  note t = worker_tables [OF assms(2) d]
  have ws: "if k \<in> ?t then st' k = None \<or> s3 k \<noteq> None \<and> st' k = st k else st' k = st k" for k
    using assms(3) unfolding worker_store_def by blast
  have "dom st - ?t \<subseteq> dom st'" using ws by (auto simp: domIff split: if_splits)
  moreover have "dom st' \<subseteq> dom st - {k \<in> ?t. s3 k = None}"
  proof
    fix k assume "k \<in> dom st'"
    then have "st' k \<noteq> None" by (simp add: domIff)
    then have "st' k = st k" "\<not> (k \<in> ?t \<and> s3 k = None)" using ws [of k] by (auto split: if_splits)
    with \<open>st' k \<noteq> None\<close> show "k \<in> dom st - {k \<in> ?t. s3 k = None}" by (simp add: domIff)
  qed
  ultimately have ok: "store_ok (dom st') ?db'"
    using assms(1) by (intro worker_store_ok [OF assms(2)]) (simp_all add: file_inv_def)
  have box: "outbox_objects ?db' = outbox_objects ?db" by (simp add: outbox_objects_def t(1) image_image)
  have live: "live_objects ?db' = live_objects ?db" by (subst t(3)) (simp add: live_objects_def)
  have pend: "pending_objects ?db' \<subseteq> pending_objects ?db" by (auto simp: pending_objects_def t(2))
  have "st' k = st k" if "k \<in> live_objects ?db" for k
  proof -
    have "k \<notin> ?t" using attempted_not_live [OF inv(1), of "rq_clock rq"] that by blast
    then show ?thesis using ws [of k] by simp
  qed
  moreover have "pending_objects ?db' \<inter> outbox_objects ?db' = {}" using inv(4) pend unfolding box by blast
  moreover have "distinct (map pu_object (pending_uploads ?db'))" using inv(5) by (simp add: t(2) distinct_map_filter)
  ultimately show ?thesis using ok by (simp add: step_keeps_def file_inv_def box live)
qed

lemma commit_with_audit_keeps:
  assumes "file_inv db st" and "step_keeps db st db1 st"
  shows "step_keeps db st (commit_with_audit P rq action sid user db db1) st"
proof -
  have "step_keeps db st (db1\<lparr>audit_logs := l\<rparr>) st" for l
    using assms(2) by (rule keeps_trans, intro same_objects_keeps)
      (use assms(2) in \<open>simp_all add: step_keeps_def same_objects_def\<close>)
  with assms keeps_refl show ?thesis by (simp add: commit_with_audit_def commit_audit)
qed

lemma store_step_keeps:
  assumes "store_step P c c'" and "file_inv (fst c) (snd c)"
  shows "step_keeps (fst c) (snd c) (fst c') (snd c')"
  using assms
proof (induction rule: store_step.induct)
  case (published F rq rd form rules owner up s token db db' r st)
  note f = file_rows_Inr [OF published(1)]
  have "step_keeps db st db' st"
    by (rule publish_keeps [where v = "file_version rq (fr_secret rd) 1 1 s up owner (ff_note form)" and r = r])
      (use published f in \<open>simp_all add: f(2) with_file_rows_def Let_def split_beta file_version_def\<close>)
  then show ?case by simp
next
  case (replaced rq rd sid n nt user up s db db1 r st action)
  note f = file_version_rows_Inr [OF replaced(1)]
  have "step_keeps db st db1 st"
    by (rule publish_keeps [where r = r and
          v = "file_version rq sid (n + 1) (max_key_version db sid + 1) s up (cu_id user) nt"])
      (use replaced f in \<open>simp_all add: f(2) with_version_rows_def file_version_def\<close>)
  then show ?case using replaced.prems by (simp add: commit_with_audit_keeps)
qed (simp_all add: staged_keeps uploaded_keeps dropped_keeps deleted_keeps viewed_keeps swept_keeps cleaned_keeps
      same_objects_keeps)

interpretation sw: stepwise "store_step P" "\<lambda>c. file_inv (fst c) (snd c)"
    "\<lambda>c c'. step_keeps (fst c) (snd c) (fst c') (snd c')"
proof unfold_locales
  show "file_inv (fst c') (snd c') \<and> step_keeps (fst c) (snd c) (fst c') (snd c')"
    if "file_inv (fst c) (snd c)" and "store_step P c c'" for c c'
    using store_step_keeps [OF that(2,1)] by (simp add: step_keeps_def)
qed (auto intro: keeps_refl keeps_trans)

subsection \<open>The handlers are sequences of these steps\<close>

abbreviation fw_state :: "file_world \<Rightarrow> database \<times> objects" where
  "fw_state w \<equiv> (fw_db w, fw_store w)"

lemma step_other: "same_objects db db' \<Longrightarrow> (store_step P)\<^sup>*\<^sup>* (db, st) (db', st)"
  by (intro r_into_rtranclp store_step.other)

lemma same_objects_audit_logs [simp]: "same_objects db (db\<lparr>audit_logs := l\<rparr>)" "same_objects db (audit_log P rq e db)"
  by (simp_all add: same_objects_def)

lemma stage_leaves_steps:
  assumes "stage_leaves k key w w'" and "k \<notin> live_objects (fw_db w) \<union> outbox_objects (fw_db w)"
  shows "(store_step P)\<^sup>*\<^sup>* (fw_state w) (fw_state w')"
  using assms(1) unfolding stage_leaves_def
proof (elim conjE exE disjE)
  fix l assume "fw_store w' = fw_store w" "fw_db w' = (fw_db w)\<lparr>audit_logs := l\<rparr>"
  then show ?thesis using step_other [of "fw_db w" "(fw_db w)\<lparr>audit_logs := l\<rparr>"] by simp
next
  fix row :: pending_row and b
  assume st: "fw_store w' \<in> {fw_store w, (fw_store w)(k \<mapsto> b)}" and row: "pu_object row = k"
    and i: "insert_pending row (fw_db w) = Inr (fw_db w')"
    and db': "fw_db w' = (fw_db w)\<lparr>pending_uploads := sql_insert row (pending_uploads (fw_db w))\<rparr>"
  have s: "store_step P (fw_state w) (fw_db w', fw_store w)"
    using assms(2) row by (intro store_step.staged [OF i]) simp
  have "row \<in> set (pending_uploads (fw_db w'))" by (simp add: db' set_sql)
  then have "store_step P (fw_db w', fw_store w) (fw_db w', snd (fl_put demo_lib (pu_object row) b (fw_store w)))"
    by (rule store_step.uploaded [OF demo_lib_laws])
  then have "store_step P (fw_db w', fw_store w) (fw_db w', (fw_store w)(k \<mapsto> b))" by (simp add: demo_lib_def row)
  with s st show ?thesis by (auto intro: rtranclp.rtrancl_into_rtrancl)
qed

lemma give_back_steps:
  assumes "store_laws F" and "\<forall>k. key = Some k \<longrightarrow> k \<notin> live_objects (fw_db w)"
  shows "(store_step P)\<^sup>*\<^sup>* (fw_state w) (fw_state (give_back F key rs w))"
proof (cases key)
  case (Some k)
  then have "store_step P (fw_state w) (fw_db w, snd (fl_del F k (fw_store w)))"
    using assms by (intro store_step.dropped) simp_all
  then show ?thesis using Some by (simp add: give_back_def r_into_rtranclp)
qed simp

lemma staged_steps:
  assumes "stage_upload P F rq rd sid version user up w = (Inr s, w')" and F: "store_laws F"
    and new: "object_key_of sid version (fr_object rd) \<notin> live_objects (fw_db w) \<union> outbox_objects (fw_db w)"
  shows "(store_step P')\<^sup>*\<^sup>* (fw_state w) (fw_state w')"
    and "\<exists>r \<in> set (pending_uploads (fw_db w')). pu_id r = fr_pending rd \<and> pu_object r = st_key s"
    and "fw_store w' (st_key s) \<noteq> None" and "live_objects (fw_db w') = live_objects (fw_db w)"
    and "st_key s \<notin> live_objects (fw_db w')"
proof -
  note f = stage_upload_Inr [OF assms(1)]
  let ?row = "pending_of rq rd sid version user (length (up_data up))"
  have db': "fw_db w' = (fw_db w)\<lparr>pending_uploads := sql_insert ?row (pending_uploads (fw_db w))\<rparr>"
    using f(7) by (simp add: insert_pending_Inr)
  have st: "fw_store w' = (fw_store w)(st_key s \<mapsto> st_encrypted s)" by (rule staged_stored [OF F assms(1)])
  have "stage_leaves (st_key s) (Some (st_key s)) w w'"
    using f(6,7,9) st db' by (auto simp: stage_leaves_def pending_of_def intro!: exI [of _ ?row])
  then show "(store_step P')\<^sup>*\<^sup>* (fw_state w) (fw_state w')"
    using new by (intro stage_leaves_steps [of "st_key s"]) (simp_all add: f(6))
  show "\<exists>r \<in> set (pending_uploads (fw_db w')). pu_id r = fr_pending rd \<and> pu_object r = st_key s"
    by (simp add: db' set_sql f(6)) (simp add: pending_of_def)
  show "fw_store w' (st_key s) \<noteq> None" by (simp add: st)
  show "live_objects (fw_db w') = live_objects (fw_db w)" by (simp add: db' live_objects_def)
  with new show "st_key s \<notin> live_objects (fw_db w')" by (simp add: f(6))
qed

lemma create_steps:
  assumes "create_file_secret P F rq rd form user up w = (r, w')" and F: "store_laws F"
    and new: "object_key_of (fr_secret rd) 1 (fr_object rd) \<notin> live_objects (fw_db w) \<union> outbox_objects (fw_db w)"
  shows "(store_step P)\<^sup>*\<^sup>* (fw_state w) (fw_state w')"
proof (cases r)
  case (Inl e)
  from assms(1) [unfolded this] show ?thesis
  proof (cases rule: create_file_secret_Inl)
    case (reserve q)
    then show ?thesis by simp
  next
    case (stage r q br key w1)
    from stage_upload_Inl [OF stage(2) F]
    have lv: "stage_leaves (object_key_of (fr_secret rd) 1 (fr_object rd)) key (set_quota q w) w1" by simp
    have "live_objects (fw_db w1) = live_objects (fw_db w)"
      using stage_leaves_db [OF lv] by (auto simp: live_objects_def)
    moreover have "key \<in> {None, Some (object_key_of (fr_secret rd) 1 (fr_object rd))}"
      using lv unfolding stage_leaves_def by auto
    ultimately have "(store_step P)\<^sup>*\<^sup>* (fw_state w1) (fw_state w')"
      unfolding stage(3) using new by (intro give_back_steps [OF F]) auto
    moreover have "(store_step P)\<^sup>*\<^sup>* (fw_state w) (fw_state w1)"
      using stage_leaves_steps [OF lv, of P] new by simp
    ultimately show ?thesis by (rule rtranclp_trans [rotated])
  next
    case (publish r q s w1)
    have "(store_step P)\<^sup>*\<^sup>* (fw_state w) (fw_state w1)"
      using staged_steps(1) [OF publish(2) F, of P] new by simp
    moreover have "(store_step P)\<^sup>*\<^sup>* (fw_state w1) (fw_state w')"
      unfolding publish(3) using staged_steps(5) [OF publish(2) F] new by (intro give_back_steps [OF F]) simp
    ultimately show ?thesis by (rule rtranclp_trans)
  qed
next
  case (Inr resp)
  obtain res q s w1 rules db1 where
    st: "stage_upload P F rq rd (fr_secret rd) 1 user up (set_quota q w) = (Inr s, w1)"
    and rows: "file_rows P F rq rd form rules (cu_id user) up s (fc_token resp) (fw_db w1) = Inr db1"
    and w': "fw_db w' = audit_log P rq (uploaded_entry rq (fr_secret rd) user) db1" "fw_store w' = fw_store w1"
    by (rule create_file_secret_Inr [OF assms(1) [unfolded Inr]]) (rule that; assumption)
  have new': "object_key_of (fr_secret rd) 1 (fr_object rd) \<notin> live_objects (fw_db (set_quota q w)) \<union> outbox_objects (fw_db (set_quota q w))"
    using new by simp
  note ss = staged_steps [OF st F new']
  from ss(2) obtain row where "row \<in> set (pending_uploads (fw_db w1))" "pu_id row = fr_pending rd" "pu_object row = st_key s" by blast
  with rows ss(3) have "store_step P (fw_state w1) (db1, fw_store w1)" by (intro store_step.published)
  moreover have "(store_step P)\<^sup>*\<^sup>* (db1, fw_store w1) (fw_state w')" unfolding w' by (rule step_other) simp
  ultimately have "(store_step P)\<^sup>*\<^sup>* (fw_state w1) (fw_state w')" by (rule converse_rtranclp_into_rtranclp)
  with ss(1) [of P] show ?thesis by (simp add: rtranclp_trans)
qed

lemma update_steps:
  assumes "update_file_secret P F rq rd sid n nt user up w = (r, w')" and F: "store_laws F"
    and new: "object_key_of sid (nat (n + 1)) (fr_object rd) \<notin> live_objects (fw_db w) \<union> outbox_objects (fw_db w)"
  shows "(store_step P)\<^sup>*\<^sup>* (fw_state w) (fw_state w')"
proof (cases "file_update_guards P sid n user (fw_db w)")
  case (Inl e)
  then show ?thesis using assms(1) by (simp add: update_file_secret_def)
next
  case g: (Inr u)
  obtain y w1 where st: "stage_upload P F rq rd sid (nat (n + 1)) user up w = (y, w1)" by (metis surj_pair)
  show ?thesis
  proof (cases y)
    case (Inl x)
    obtain e br key where x: "x = (e, br, key)" by (cases x)
    have w': "w' = give_back F key [br] w1" using assms(1) g st Inl x by (simp add: update_file_secret_def)
    from stage_upload_Inl [OF st [unfolded Inl x] F]
    have lv: "stage_leaves (object_key_of sid (nat (n + 1)) (fr_object rd)) key w w1" by simp
    have "live_objects (fw_db w1) = live_objects (fw_db w)"
      using stage_leaves_db [OF lv] by (auto simp: live_objects_def)
    moreover have "key \<in> {None, Some (object_key_of sid (nat (n + 1)) (fr_object rd))}"
      using lv unfolding stage_leaves_def by auto
    ultimately have "(store_step P)\<^sup>*\<^sup>* (fw_state w1) (fw_state w')"
      unfolding w' using new by (intro give_back_steps [OF F]) auto
    with stage_leaves_steps [OF lv new, of P] show ?thesis by (rule rtranclp_trans)
  next
    case y: (Inr s)
    note ss = staged_steps [OF st [unfolded y] F new]
    have after: "(store_step P)\<^sup>*\<^sup>* (fw_state w1) (fw_state w')"
    proof (cases "file_version_rows rq rd sid n nt user up s (fw_db w1)")
      case (Inl e)
      then have "w' = give_back F (Some (st_key s)) [Some (st_reservation s)] w1"
        using assms(1) g st y by (simp add: update_file_secret_def)
      then show ?thesis
        using give_back_steps [OF F, of "Some (st_key s)" w1 P "[Some (st_reservation s)]"] ss(5) by simp
    next
      case (Inr db1)
      from ss(2) obtain row where "row \<in> set (pending_uploads (fw_db w1))" "pu_id row = fr_pending rd" "pu_object row = st_key s" by blast
      with Inr ss(3) have "store_step P (fw_state w1) (commit_with_audit P rq ''secret_updated'' sid user (fw_db w1) db1, fw_store w1)"
        by (intro store_step.replaced)
      moreover obtain x w2 where c: "commit_or_reconcile [st_reservation s] (cu_id user)
          (set_db (commit_with_audit P rq ''secret_updated'' sid user (fw_db w1) db1) w1) = (x, w2)" by (metis surj_pair)
      have "w' = w2" using assms(1) g st y Inr c by (cases x) (simp_all add: update_file_secret_def)
      then have "fw_state w' = (commit_with_audit P rq ''secret_updated'' sid user (fw_db w1) db1, fw_store w1)"
        using commit_or_reconcile_sel [OF c] by simp
      ultimately show ?thesis by (simp add: r_into_rtranclp)
    qed
    with ss(1) [of P] show ?thesis by (rule rtranclp_trans)
  qed
qed

lemma download_Inl:
  assumes "download_file_secret P F rq sid token password user w = (Inl e, w')"
  shows "\<exists>l. w' = set_db ((fw_db w)\<lparr>audit_logs := l\<rparr>) w"
proof -
  obtain x db1 where a: "authorize P rq sid token (fw_db w) = (x, db1)" by (metis surj_pair)
  have db1: "\<exists>l. db1 = (fw_db w)\<lparr>audit_logs := l\<rparr>"
    using a audit_log_eta db_eta(1) [of "fw_db w"]
    by (auto simp: authorize_def split: option.splits sum.splits prod.splits if_splits)
  have "snd (download_locked P rq v sid n enc user db1) = db1" if "fst (download_locked P rq v sid n enc user db1) = Inl e'" for v n enc e'
    using that by (auto simp: download_locked_def Let_def split: sum.splits prod.splits)
  then have "w' = set_db db1 w"
    using assms a
    by (auto simp: download_file_secret_def split: sum.splits prod.splits) (metis fst_conv snd_conv)+
  with db1 show ?thesis by blast
qed

lemma download_steps:
  assumes "download_file_secret P F rq sid token password user w = (r, w')"
  shows "(store_step P)\<^sup>*\<^sup>* (fw_state w) (fw_state w')"
proof (cases r)
  case (Inl e)
  from download_Inl [OF assms [unfolded this]] obtain l where l: "w' = set_db ((fw_db w)\<lparr>audit_logs := l\<rparr>) w" by blast
  have "(store_step P)\<^sup>*\<^sup>* (fw_state w) ((fw_db w)\<lparr>audit_logs := l\<rparr>, fw_store w)" by (rule step_other) simp
  then show ?thesis by (simp add: l)
next
  case (Inr reply)
  show ?thesis
  proof (rule download_Inr [OF assms [unfolded Inr]])
    fix s p v key enc name data m db1
    assume rv: "record_view rq sid user (s_version s) (fw_db w) = Inr (m, db1)"
      and w': "w' = set_db (commit_txn (fw_db w) (audit_log_conn P rq (viewed_entry rq sid user)
        (update_view_count (rq_clock rq) sid (s_view_count s + 1) (s_max_views s \<le> s_view_count s + 1) db1))) w"
    let ?db2 = "update_view_count (rq_clock rq) sid (s_view_count s + 1) (s_max_views s \<le> s_view_count s + 1) db1"
    have "same_objects (fw_db w) db1"
      using rv by (auto simp: record_view_def same_objects_def split: option.splits if_splits)
    then have "(store_step P)\<^sup>*\<^sup>* (fw_state w) (db1, fw_store w)" by (rule step_other)
    also have "store_step P (db1, fw_store w) (?db2, fw_store w)" by (rule store_step.viewed)
    also have "(store_step P)\<^sup>*\<^sup>* (?db2, fw_store w) (?db2\<lparr>audit_logs := l\<rparr>, fw_store w)" for l by (rule step_other) simp
    finally have "(store_step P)\<^sup>*\<^sup>* (fw_state w) (?db2\<lparr>audit_logs := l\<rparr>, fw_store w)" for l .
    then show ?thesis by (simp add: w' commit_audit)
  qed
qed

text \<open>C13: creating, replacing and downloading a file are sequences of the atomic steps, on every path and
  whatever fails; all they need is that the generated object key is new.
\<close>

theorem file_handlers_are_steps:
  assumes "store_laws F"
    and "object_key_of (fr_secret rd) 1 (fr_object rd) \<notin> live_objects (fw_db w) \<union> outbox_objects (fw_db w)"
    and "object_key_of sid (nat (n + 1)) (fr_object rd) \<notin> live_objects (fw_db w) \<union> outbox_objects (fw_db w)"
  shows "(store_step P)\<^sup>*\<^sup>* (fw_state w) (fw_state (snd (create_file_secret P F rq rd form user up w))) \<and>
    (store_step P)\<^sup>*\<^sup>* (fw_state w) (fw_state (snd (update_file_secret P F rq rd sid n nt user up w))) \<and>
    (store_step P)\<^sup>*\<^sup>* (fw_state w) (fw_state (snd (download_file_secret P F rq sid token password viewer w)))"
  using create_steps [OF prod.collapse [symmetric] assms(1,2)] update_steps [OF prod.collapse [symmetric] assms(1,3)]
    download_steps [OF prod.collapse [symmetric]] by simp


lemma file_inv_empty:
  "secret_versions db = [] \<Longrightarrow> deletion_outbox db = [] \<Longrightarrow> pending_uploads db = [] \<Longrightarrow> file_inv db Map.empty"
  by (simp add: file_inv_def store_ok_def object_rows_ok_def object_sets_def)

theorem file_handlers_are_steps_witness:
  "(store_step demo_platform)\<^sup>*\<^sup>* (fw_state sample_fw)
     (fw_state (snd (create_file_secret demo_platform demo_lib demo_request sample_file_rand sample_form sample_user
        sample_upload sample_fw)))"
  using file_handlers_are_steps [OF demo_lib_laws, of sample_file_rand sample_fw 5 1]
  by (simp add: live_objects_def outbox_objects_def sample_fw_def sample_world_def empty_db_def)


end
