(* ===== verification/Admin.thy ===== *)
theory Admin
  imports Cleanup Sessions File_Store
begin

text \<open>
  app/routers/admin.py, app/routers/stats.py and app/routers/quotas.py: user administration, the
  audit log viewer, the manual sweep, the public counters and the quota limits.  The dependency
  \<open>require_admin\<close> has run: a handler gets the user it let through.
\<close>

definition admin_entry :: "request \<Rightarrow> string \<Rightarrow> severity \<Rightarrow> current_user \<Rightarrow> audit_entry" where
  "admin_entry rq action sev admin =
     \<lparr>ae_action = action, ae_actor = Some (cu_id admin), ae_ip = Some (rq_ip rq), ae_secret = None, ae_severity = sev\<rparr>"

definition cleanup_expired ::
  "platform \<Rightarrow> (string \<Rightarrow> string option) \<Rightarrow> request \<Rightarrow> string \<Rightarrow> current_user \<Rightarrow> world \<Rightarrow> sweep_result res \<times> world" where
  "cleanup_expired P s3_delete rq token admin w =
     (case fallback_sweep P s3_delete rq token w of
        (Inl e, w1) \<Rightarrow> (Inl e, w1)
      | (Inr r, w1) \<Rightarrow>
          (Inr r, w1\<lparr>wd_db := audit_log P rq (admin_entry rq ''admin_cleanup'' Warning admin) (wd_db w1)\<rparr>))"

subsection \<open>The audit log\<close>

text \<open>
  The actions of the enum AuditAction of app/schemas.py.  All are values of the database's enum, which
  has five more: the actions of updates, restores, files and quotas are written as plain strings.
\<close>

definition AuditAction :: "string list" where
  "AuditAction = [''user_registered'', ''user_login'', ''user_logout'', ''token_refresh'', ''secret_created'',
     ''secret_viewed'', ''secret_deleted'', ''secret_expired'', ''key_rotated'', ''user_removed'',
     ''admin_role_change'', ''admin_user_toggle'', ''admin_cleanup'', ''rate_limit_hit'', ''invalid_token'']"

lemma AuditAction_values:
  "set AuditAction \<subseteq> set audit_actions"
  "set audit_actions - set AuditAction =
     {''secret_updated'', ''secret_version_restored'', ''file_uploaded'', ''malware_detected'', ''admin_quota_update''}"
  by (auto simp: AuditAction_def audit_actions_def)

record audit_query =
  aq_action :: "string option"
  aq_severity :: "string option"
  aq_actor :: "uuid option"
  aq_secret :: "uuid option"

definition severity_name :: "severity \<Rightarrow> string" where
  "severity_name s = (case s of Info \<Rightarrow> ''info'' | Warning \<Rightarrow> ''warning'' | Critical \<Rightarrow> ''critical'')"

text \<open>The WHERE clause; the casts to the two enums fail on any other string.\<close>

definition audit_where :: "audit_query \<Rightarrow> (audit_row \<Rightarrow> bool) res" where
  "audit_where q =
     (if truthy (aq_action q) \<and> the (aq_action q) \<notin> set audit_actions then Inl InvalidTextRepresentation
      else if truthy (aq_severity q) \<and> the (aq_severity q) \<notin> {''info'', ''warning'', ''critical''}
      then Inl InvalidTextRepresentation
      else Inr (\<lambda>a.
        (truthy (aq_action q) \<longrightarrow> a_action a = the (aq_action q)) \<and>
        (truthy (aq_severity q) \<longrightarrow> severity_name (a_severity a) = the (aq_severity q)) \<and>
        (aq_actor q \<noteq> None \<longrightarrow> a_actor a = aq_actor q) \<and>
        (aq_secret q \<noteq> None \<longrightarrow> a_secret a = aq_secret q)))"

definition list_audit_logs :: "audit_query \<Rightarrow> nat \<Rightarrow> nat \<Rightarrow> database \<Rightarrow> audit_row page res" where
  "list_audit_logs q page page_size db =
     bind_res (audit_where q) (\<lambda>p.
       Inr (paginate page page_size (order_desc a_created (sql_select p (audit_logs db)))))"

subsection \<open>Users\<close>

record user_item =
  ui_id :: uuid
  ui_email :: string
  ui_username :: string
  ui_role :: string
  ui_active :: bool
  ui_created :: micros
  ui_updated :: micros
  ui_delete_after :: "micros option"

definition user_item_of :: "user_row \<Rightarrow> user_item" where
  "user_item_of u =
     \<lparr>ui_id = u_id u, ui_email = u_email u, ui_username = u_username u, ui_role = u_role u, ui_active = u_active u,
      ui_created = u_created u, ui_updated = u_updated u, ui_delete_after = u_delete_after u\<rparr>"

definition list_users :: "nat \<Rightarrow> nat \<Rightarrow> database \<Rightarrow> user_item page" where
  "list_users page page_size db = paginate page page_size (map user_item_of (order_desc u_created (users db)))"

text \<open>UPDATE users fires the trigger that sets updated_at.\<close>

definition set_role :: "micros \<Rightarrow> role \<Rightarrow> user_row \<Rightarrow> user_row" where
  "set_role now r u = u\<lparr>u_role := role_name r, u_updated := now\<rparr>"

definition change_role ::
  "platform \<Rightarrow> request \<Rightarrow> uuid \<Rightarrow> role \<Rightarrow> current_user \<Rightarrow> database \<Rightarrow> user_item res \<times> database" where
  "change_role P rq user_id role admin db =
     (if user_id = cu_id admin then (Inl (http 400 ''Cannot change your own role''), db)
      else
        (let db1 = db\<lparr>users := sql_update (\<lambda>u. u_id u = user_id) (set_role (rq_txn rq) role) (users db)\<rparr> in
         case user_of db1 user_id of
           None \<Rightarrow> (Inl (http 404 ''User not found''), db1)
         | Some u \<Rightarrow> (Inr (user_item_of u), audit_log P rq (admin_entry rq ''admin_role_change'' Critical admin) db1)))"

definition switch_user_activation ::
  "platform \<Rightarrow> request \<Rightarrow> uuid \<Rightarrow> current_user \<Rightarrow> database \<Rightarrow> (uuid \<times> bool \<times> micros option) res \<times> database" where
  "switch_user_activation P rq user_id admin db =
     (if user_id = cu_id admin then (Inl (http 400 ''Cannot change your own activation status''), db)
      else
        (let db1 = db\<lparr>users := sql_update (\<lambda>u. u_id u = user_id) (toggle_user (rq_txn rq)) (users db)\<rparr> in
         case user_of db1 user_id of
           None \<Rightarrow> (Inl (http 404 ''User not found''), db1)
         | Some u \<Rightarrow>
             (Inr (u_id u, u_active u, u_delete_after u),
              audit_log P rq (admin_entry rq ''admin_user_toggle'' Warning admin) db1)))"

subsection \<open>Counters and quotas\<close>

record stats_response =
  sp_created :: nat
  sp_viewed :: nat
  sp_active :: nat

definition get_stats :: "request \<Rightarrow> database \<Rightarrow> stats_response" where
  "get_stats rq db =
     \<lparr>sp_created = length (secrets db), sp_viewed = length (sql_select s_viewed (secrets db)),
      sp_active = length (sql_select (\<lambda>s. rq_txn rq < s_expires s \<and> s_view_count s < s_max_views s) (secrets db))\<rparr>"

definition get_quota ::
  "platform \<Rightarrow> current_user \<Rightarrow> world \<Rightarrow> (int \<times> int \<times> int \<times> int) res \<times> world" where
  "get_quota P user w =
     (case usage P (wd_db w) (cu_id user) (wd_quota w) of (r, q) \<Rightarrow> (r, w\<lparr>wd_quota := q\<rparr>))"

text \<open>The upsert of the limits; the bounds of the body are checked before the handler runs.\<close>

definition set_limits :: "quota_row \<Rightarrow> database \<Rightarrow> database" where
  "set_limits r db =
     db\<lparr>user_quotas := (if row_of q_user (user_quotas db) (q_user r) = None then sql_insert r (user_quotas db)
        else sql_update (\<lambda>q. q_user q = q_user r) (\<lambda>_. r) (user_quotas db))\<rparr>"

definition quota_update_ok :: "int option \<Rightarrow> int option \<Rightarrow> bool" where
  "quota_update_ok max_secrets max_bytes \<longleftrightarrow>
     (\<forall>m. max_secrets = Some m \<longrightarrow> 1 \<le> m) \<and> (\<forall>m. max_bytes = Some m \<longrightarrow> 1 \<le> m)"

definition update_quota ::
  "platform \<Rightarrow> request \<Rightarrow> uuid \<Rightarrow> int option \<Rightarrow> int option \<Rightarrow> current_user \<Rightarrow> world \<Rightarrow>
   (int \<times> int \<times> int \<times> int) res \<times> world" where
  "update_quota P rq user_id max_secrets max_bytes admin w =
     (if user_of (wd_db w) user_id = None then (Inl (http 404 ''User not found''), w)
      else
        (let db1 = set_limits \<lparr>q_user = user_id, q_secrets = max_secrets, q_bytes = max_bytes\<rparr> (wd_db w) in
         case usage P db1 user_id (wd_quota w) of
           (Inl e, q) \<Rightarrow> (Inl e, w\<lparr>wd_db := db1, wd_quota := q\<rparr>)
         | (Inr r, q) \<Rightarrow>
             (Inr r, w\<lparr>wd_db := audit_log P rq (admin_entry rq ''admin_quota_update'' Warning admin) db1, wd_quota := q\<rparr>)))"

subsection \<open>An administrator remains\<close>

definition admin_left :: "database \<Rightarrow> bool" where
  "admin_left db \<longleftrightarrow> (\<exists>u \<in> set (users db). u_active u \<and> role_from_str (u_role u) = Some ADMIN)"

text \<open>
  One request after the other: an account operation of anyone, or an operation of an administrator whose
  token \<open>get_current_user\<close> accepts and whose role \<open>require_admin\<close> lets through.
\<close>

inductive admin_step :: "platform \<Rightarrow> auth_lib \<Rightarrow> world \<Rightarrow> world \<Rightarrow> bool" for P A where
  account: "admin_step P A w (w\<lparr>wd_db := snd (auth_step P A x (wd_db w))\<rparr>)"
| role: "get_current_user P A rq token (wd_db w) = Inr user \<Longrightarrow> require_role ADMIN user = Inr admin \<Longrightarrow>
    admin_step P A w (w\<lparr>wd_db := snd (change_role P rq uid r admin (wd_db w))\<rparr>)"
| switch: "get_current_user P A rq token (wd_db w) = Inr user \<Longrightarrow> require_role ADMIN user = Inr admin \<Longrightarrow>
    admin_step P A w (w\<lparr>wd_db := snd (switch_user_activation P rq uid admin (wd_db w))\<rparr>)"
| sweep: "get_current_user P A rq token (wd_db w) = Inr user \<Longrightarrow> require_role ADMIN user = Inr admin \<Longrightarrow>
    admin_step P A w (snd (cleanup_expired P s3 rq lock admin w))"

lemma acting_admin:
  assumes "get_current_user P A rq token db = Inr user" and "require_role ADMIN user = Inr admin"
  obtains u where "u \<in> set (users db)" "u_id u = cu_id admin" "u_active u" "role_from_str (u_role u) = Some ADMIN"
proof -
  obtain u where u: "u \<in> set (users db)" "u_active u" "user = current_user_of u"
    using assms(1) by (rule get_current_user_row)
  have "admin = user" using assms(2) by (simp add: require_role_Inr)
  obtain r where r: "role_from_str (u_role u) = Some r" "ADMIN \<le> r"
    using assms(2) u(3) by (auto simp: require_role_Inr current_user_of_def)
  have "r = ADMIN" using r(2) by (cases r) (simp_all add: less_eq_role_def role_value_def)
  note \<open>admin = user\<close> r(1) [unfolded this]
  then show thesis using that [of u] u by (simp add: current_user_of_def)
qed

lemma admin_left_update:
  assumes "u \<in> set (users db)" "\<not> p u" "u_active u" "role_from_str (u_role u) = Some ADMIN"
  shows "admin_left (db\<lparr>users := sql_update p f (users db)\<rparr>)"
  using assms by (force simp: admin_left_def sql_update_def)

lemma admin_left_audit [simp]: "admin_left (audit_log P rq e db) = admin_left db"
  by (simp add: admin_left_def)

lemma change_role_snd:
  "snd (change_role P rq uid r admin db) = db \<and> uid = cu_id admin \<or>
   uid \<noteq> cu_id admin \<and> (\<exists>db'. users db' = sql_update (\<lambda>u. u_id u = uid) (set_role (rq_txn rq) r) (users db) \<and>
     sessions db' = sessions db \<and> snd (change_role P rq uid r admin db) = db')"
  by (auto simp: change_role_def Let_def split: option.splits)

lemma switch_snd:
  "snd (switch_user_activation P rq uid admin db) = db \<and> uid = cu_id admin \<or>
   uid \<noteq> cu_id admin \<and> (\<exists>db'. users db' = sql_update (\<lambda>u. u_id u = uid) (toggle_user (rq_txn rq)) (users db) \<and>
     sessions db' = sessions db \<and> snd (switch_user_activation P rq uid admin db) = db')"
  by (auto simp: switch_user_activation_def Let_def split: option.splits)

lemma admin_left_users: "users db' = users db \<Longrightarrow> admin_left db' = admin_left db"
  by (simp add: admin_left_def)

text \<open>What accounts do themselves neither takes the role away nor gives it.\<close>

lemma auth_step_keeps_admin: "admin_left (snd (auth_step P A x db)) = admin_left db"
proof (cases x)
  case (Register rq salt uid body)
  obtain r db' where run: "register P A rq salt uid body db = (r, db')" by fastforce
  have no: "role_from_str ''user'' \<noteq> Some ADMIN" by code_simp
  from run have "admin_left db' = admin_left db"
    by (rule register_cases) (use no in \<open>auto simp: insert_user_Inr rows admin_left_def new_user_def\<close>)
  then show ?thesis by (simp add: Register run)
next
  case (Login rq sr email pw)
  obtain r db' where run: "login P A rq sr email pw db = (r, db')" by fastforce
  then have u: "users db' = users db" by (rule login_cases) (simp_all add: insert_session_Inr)
  then show ?thesis by (simp add: Login run admin_left_users [OF u] issued_by_def)
next
  case (Refresh rq sr t)
  obtain r db' where run: "refresh_token_endpoint P A rq sr t db = (r, db')" by fastforce
  then have u: "users db' = users db"
    by (rule refresh_cases) (simp_all add: insert_session_Inr revoke_sessions_def)
  then show ?thesis by (simp add: Refresh run admin_left_users [OF u] issued_by_def)
next
  case (Logout rq t user)
  obtain r db' where run: "logout P A rq t user db = (r, db')" by fastforce
  then have u: "users db' = users db" by (rule logout_cases) (simp_all add: revoke_sessions_def)
  then show ?thesis by (simp add: Logout run admin_left_users [OF u])
next
  case (RequestCode rq code user)
  have u: "users (snd (request_email_verification P A rq code user db)) = users db"
    by (simp add: request_email_verification_def set_verification_def split: option.split sum.split)
  then show ?thesis by (simp add: RequestCode admin_left_users [OF u])
next
  case (ConfirmCode rq code user)
  have "admin_left (db\<lparr>email_verifications := l, users := sql_update p (\<lambda>x. x\<lparr>u_verified := True, u_updated := n\<rparr>) (users db)\<rparr>)
      = admin_left db" for l p n
    using bex_sql_update [of "\<lambda>u. u_active u \<and> role_from_str (u_role u) = Some ADMIN" "\<lambda>x. x\<lparr>u_verified := True, u_updated := n\<rparr>" p "users db"]
    by (simp add: admin_left_def)
  then show ?thesis by (simp add: ConfirmCode confirm_email_verification_def split: option.split)
qed

lemma cleanup_users:
  assumes "u \<in> set (users (wd_db w))" "u_active u"
  shows "u \<in> set (users (wd_db (snd (cleanup_expired P s3 rq lock admin w))))"
proof -
  have f [simp]: "users (fold (\<lambda>x. audit_log P rq (g x)) xs db) = users db" for g :: "'a \<Rightarrow> audit_entry" and xs db
    by (induction xs arbitrary: db) simp_all
  have f' [simp]: "users (fold (\<lambda>x. audit_log P rq (g x)) xs db) = users db" for g :: "'a \<Rightarrow> audit_entry" and xs db
    by (induction xs arbitrary: db) simp_all
  have "u \<in> set (users db1)" if "sweep_rows rq (wd_db w) = ((dead, gone, n), db1)" for dead gone n db1
    using assms by (simp add: sweep_rows_tables(4) [OF that] sweep_user_def)
  then have sw: "u \<in> set (users (snd (sweep_rows rq (wd_db w))))" by (metis prod.exhaust snd_conv)
  have "users (wd_db (snd (process_storage_cleanup s3 rq w'))) = users (wd_db w')" for w'
    by (simp add: process_storage_cleanup_def split_beta Let_def)
  then have "u \<in> set (users (wd_db (snd (fallback_sweep P s3 rq lock w))))"
    using sw assms(1) by (simp add: fallback_sweep_def split_beta Let_def split: option.split prod.split)
  then show ?thesis
    by (auto simp: cleanup_expired_def split: prod.split sum.split)
qed

lemma admin_step_keeps:
  assumes "admin_step P A w w'" shows "admin_left (wd_db w') = admin_left (wd_db w)"
  using assms
proof cases
  case (account x)
  then show ?thesis by (simp add: auth_step_keeps_admin)
next
  case (role rq token user admin uid r)
  obtain u where u: "u \<in> set (users (wd_db w))" "u_id u = cu_id admin" "u_active u" "role_from_str (u_role u) = Some ADMIN"
    using role(2,3) by (rule acting_admin)
  then have "admin_left (wd_db w)" by (auto simp: admin_left_def)
  then show ?thesis
    using change_role_snd [of P rq uid r admin "wd_db w"] admin_left_update [OF u(1) _ u(3,4)] u(2)
    by (auto simp: role(1) admin_left_def)
next
  case (switch rq token user admin uid)
  obtain u where u: "u \<in> set (users (wd_db w))" "u_id u = cu_id admin" "u_active u" "role_from_str (u_role u) = Some ADMIN"
    using switch(2,3) by (rule acting_admin)
  then have "admin_left (wd_db w)" by (auto simp: admin_left_def)
  then show ?thesis
    using switch_snd [of P rq uid admin "wd_db w"] admin_left_update [OF u(1) _ u(3,4)] u(2)
    by (auto simp: switch(1) admin_left_def)
next
  case (sweep rq token user admin s3 lock)
  obtain u where u: "u \<in> set (users (wd_db w))" "u_active u" "role_from_str (u_role u) = Some ADMIN"
    using sweep(2,3) by (rule acting_admin)
  then have "u \<in> set (users (wd_db w'))" by (simp add: sweep(1) cleanup_users)
  with u show ?thesis by (auto simp: admin_left_def)
qed

interpretation ad: stepwise "admin_step P A" "\<lambda>_. True" "\<lambda>w w'. admin_left (wd_db w') = admin_left (wd_db w)"
  by unfold_locales (simp_all add: admin_step_keeps)

text \<open>C24: while requests are served one after the other, the system neither loses its last administrator nor
  gets its first one: whatever accounts do, and whatever administrators do to each other, some active
  account keeps the role; and where none has it no sequence of requests gives it to anyone.
\<close>

theorem an_admin_remains:
  assumes "(admin_step P A)\<^sup>*\<^sup>* w w'" shows "admin_left (wd_db w') = admin_left (wd_db w)"
  using ad.reach [OF assms] by simp

text \<open>An administrator with a session, and a second account.\<close>

definition root :: user_row where
  "root = alice\<lparr>u_role := ''admin''\<rparr>"

definition bob :: user_row where
  "bob = alice\<lparr>u_id := 2, u_email := ''b@x.io'', u_username := ''bob''\<rparr>"

definition root_session :: "token_response \<times> session_row" where
  "root_session = new_session auth_platform demo_auth demo_request sample_rand1 1 ''admin''"

definition admin_db :: database where
  "admin_db = empty_db\<lparr>users := [root, bob], sessions := [snd root_session]\<rparr>"

lemma root_sel [simp]: "u_id root = 1" "u_role root = ''admin''" "u_active root" "u_id bob = 2" "u_active bob" "u_role bob = ''user''"
  by (simp_all add: root_def bob_def)

lemma admin_db_sel [simp]: "users admin_db = [root, bob]" "sessions admin_db = [snd root_session]" "audit_logs admin_db = []"
    "user_of admin_db 1 = Some root" "user_of admin_db 2 = Some bob"
  by (simp_all add: admin_db_def empty_db_def user_of_def)

lemma role_from_admin [simp]: "role_from_str ''admin'' = Some ADMIN"
  by code_simp

lemma session_authenticated:
  assumes "jwt_ok A" and "new_session P A rq sr uid role = (resp, s)" and "s \<in> set (sessions db)"
    and "user_of db uid = Some u" and "u_active u"
    and "rq_txn rq' < rq_now rq + JWT_REFRESH_TOKEN_EXPIRE_DAYS (cfg P) * day"
    and "rq_now rq' div second \<le> (rq_now rq + JWT_ACCESS_TOKEN_EXPIRE_MINUTES (cfg P) * 60 * second) div second"
  shows "get_current_user P A rq' (Some (tk_access resp)) db = Inr (current_user_of u)"
proof -
  note n = new_session_sel [OF assms(2)]
  have "sql_select (\<lambda>s'. ss_user s' = uid \<and> ss_id s' = sr_session sr \<and> live_session (rq_txn rq') s') (sessions db) \<noteq> []"
    using n assms(3,6) by (auto simp: sql_select_def filter_empty_conv live_session_def)
  then show ?thesis using assms(1,4,5,7) by (simp add: get_current_user_def n(1) session_user_def)
qed

lemma root_authenticated:
  "get_current_user auth_platform demo_auth demo_request (Some (tk_access (fst root_session))) admin_db = Inr (current_user_of root)"
proof -
  have n: "new_session auth_platform demo_auth demo_request sample_rand1 1 ''admin'' = (fst root_session, snd root_session)"
    by (simp add: root_session_def)
  show ?thesis by (rule session_authenticated [OF demo_jwt_ok n]) simp_all
qed

lemma root_allowed: "require_role ADMIN (current_user_of root) = Inr (current_user_of root)"
  by (simp add: require_role_Inr current_user_of_def)

theorem an_admin_remains_witness:
  "admin_left (snd (switch_user_activation auth_platform demo_request 2 (current_user_of root) admin_db))"
proof -
  let ?w = "sample_world\<lparr>wd_db := admin_db\<rparr>"
  have "admin_step auth_platform demo_auth ?w
      (?w\<lparr>wd_db := snd (switch_user_activation auth_platform demo_request 2 (current_user_of root) (wd_db ?w))\<rparr>)"
    by (rule admin_step.switch [where rq = demo_request and token = "Some (tk_access (fst root_session))", OF _ root_allowed])
      (simp add: root_authenticated)
  then have "(admin_step auth_platform demo_auth)\<^sup>*\<^sup>* ?w
      (?w\<lparr>wd_db := snd (switch_user_activation auth_platform demo_request 2 (current_user_of root) (wd_db ?w))\<rparr>)"
    by (rule r_into_rtranclp)
  from an_admin_remains [OF this]
  show ?thesis by (simp add: admin_left_def)
qed

subsection \<open>The counters and the severity filter\<close>

definition none_viewed :: "database \<Rightarrow> bool" where
  "none_viewed db \<longleftrightarrow> (\<forall>s \<in> set (secrets db). \<not> s_viewed s)"

lemma none_viewed_stats: "sp_viewed (get_stats rq db) = 0 \<longleftrightarrow> none_viewed db"
  by (auto simp: get_stats_def none_viewed_def sql_select_def filter_empty_conv)

lemma none_viewed_cong: "secrets db' = secrets db \<Longrightarrow> none_viewed db' = none_viewed db"
  by (simp add: none_viewed_def)

text \<open>The flag and the deletion of the row go together.\<close>

lemma none_viewed_count:
  assumes "none_viewed db" and "secret_of db sid = Some s"
  shows "none_viewed (update_view_count clock sid n (s_max_views s \<le> n) db)"
  using assms by (auto simp: none_viewed_def secrets_view_count set_sql_update sql_delete_def split: if_splits)

lemma none_viewed_retrieve:
  assumes "retrieve_secret P rq secret_id pw token user db = (r, db')" and "text_content db" and "none_viewed db"
  shows "none_viewed db'"
proof (cases r)
  case (Inl e)
  then obtain l where "db' = db\<lparr>audit_logs := l\<rparr>" using assms(1,2) retrieve_secret_Inl by blast
  then show ?thesis using assms(3) by (simp add: none_viewed_def)
next
  case (Inr x)
  then have "retrieve_secret P rq secret_id pw token user db = (Inr (fst x, snd x), db')" using assms(1) by simp
  then obtain sid and p :: policy_row where
    "retrieve_locked P rq (p_version p) sid pw user db = (Inr (fst x, snd x), db')"
    by (rule retrieve_secret_Inr) (rule that; assumption)
  then obtain s db1 n where g: "retrieve_guards P rq (p_version p) sid pw user db = Inr s"
    and v: "record_view rq sid user (s_version s) db = Inr (n, db1)" and db': "db' = viewed_db P rq sid user s db1"
    by (rule retrieve_locked_Inr) (rule that; assumption)
  have s: "secret_of db1 sid = Some s"
    using g record_view_frame(1) [OF v] by (simp add: retrieve_guards_Inr secret_of_def)
  have "none_viewed db1" using assms(3) none_viewed_cong [OF record_view_frame(1) [OF v]] by simp
  then show ?thesis unfolding db' viewed_db_def
    by (intro none_viewed_count) (simp_all add: none_viewed_def s)
qed

lemma none_viewed_download:
  assumes "download_file_secret P F rq sid token pw user w = (r, w')" and "none_viewed (fw_db w)"
  shows "none_viewed (fw_db w')"
proof (cases r)
  case (Inl e)
  from download_Inl [OF assms(1) [unfolded this]] obtain l where "w' = set_db ((fw_db w)\<lparr>audit_logs := l\<rparr>) w" by blast
  then show ?thesis using assms(2) by (simp add: none_viewed_def)
next
  case (Inr reply)
  show ?thesis
  proof (rule download_Inr [OF assms(1) [unfolded Inr]])
    fix s p v key enc name data m db1
    assume s: "secret_of (fw_db w) sid = Some s" and rv: "record_view rq sid user (s_version s) (fw_db w) = Inr (m, db1)"
      and w': "w' = set_db (commit_txn (fw_db w) (audit_log_conn P rq (viewed_entry rq sid user)
        (update_view_count (rq_clock rq) sid (s_view_count s + 1) (s_max_views s \<le> s_view_count s + 1) db1))) w"
    have "secret_of db1 sid = Some s" "none_viewed db1"
      using s assms(2) record_view_frame(1) [OF rv] by (simp_all add: secret_of_def none_viewed_def)
    then have "none_viewed (update_view_count (rq_clock rq) sid (s_view_count s + 1) (s_max_views s \<le> s_view_count s + 1) db1)"
      by (intro none_viewed_count)
    then show ?thesis using assms(2) by (simp add: w' commit_txn_def audit_log_conn_eq none_viewed_def)
  qed
qed

text \<open>
  no view is ever counted by the public statistics: the flag they count is set on the last view
  only, and that view deletes the row.  Requests for texts and for files, whatever their outcome, leave the
  counter at 0.
\<close>

theorem stats_viewed_stays_zero:
  assumes "retrieve_secret P rq secret_id pw token user db = (r, db')" and "text_content db"
    and "download_file_secret P F rq' sid token' pw' user' w = (r', w')"
    and "sp_viewed (get_stats rq1 db) = 0" and "sp_viewed (get_stats rq1 (fw_db w)) = 0"
  shows "sp_viewed (get_stats rq2 db') = 0 \<and> sp_viewed (get_stats rq2 (fw_db w')) = 0"
  using none_viewed_retrieve [OF assms(1,2)] none_viewed_download [OF assms(3)] assms(4,5)
  by (simp add: none_viewed_stats)

theorem stats_viewed_stays_zero_witness:
  "\<exists>c nt db'. retrieve_secret demo_platform demo_request (uuid_str 5) None None None live_db = (Inr (c, nt), db') \<and>
     sp_viewed (get_stats demo_request db') = 0"
proof -
  obtain c nt db' where r: "retrieve_secret demo_platform demo_request (uuid_str 5) None None None live_db = (Inr (c, nt), db')"
    using live_db_retrieved by blast
  obtain r' w' where d: "download_file_secret demo_platform demo_lib demo_request 5 None None None
      (set_db live_db sample_fw) = (r', w')" by fastforce
  have "text_content live_db" "none_viewed live_db"
    by (simp_all add: text_content_def none_viewed_def live_db_sel)
  from stats_viewed_stays_zero [OF r this(1) d, of demo_request demo_request] r this(2) show ?thesis
    by (simp add: none_viewed_stats)
qed

text \<open>
  the audit log can not be searched for warnings or critical events: an entry of either severity that a
  handler writes does not change what the filter on a severity other than info answers.
\<close>

theorem severity_filter_blind:
  assumes "aq_severity q = Some sev" and "sev = ''warning'' \<or> sev = ''critical''"
  shows "list_audit_logs q page n (audit_log P rq e db) = list_audit_logs q page n db"
proof -
  have "sql_select p (sql_insert (audit_row_of rq e) l) = sql_select p l" if "\<not> p (audit_row_of rq e)" for p l
    using that by (simp add: sql_insert_def sql_select_def)
  moreover have "\<not> p (audit_row_of rq e)" if "audit_where q = Inr p" for p
    using that assms by (auto simp: audit_where_def audit_row_of_def severity_name_def split: if_splits)
  ultimately show ?thesis
    by (auto simp: list_audit_logs_def bind_res_def audit_log_eq split: sum.split)
qed

theorem severity_filter_blind_witness:
  "\<exists>p. list_audit_logs \<lparr>aq_action = None, aq_severity = Some ''critical'', aq_actor = None, aq_secret = None\<rparr> 1 50
     (snd (change_role demo_platform demo_request 2 ADMIN (current_user_of root) admin_db)) = Inr p \<and> pg_total p = 0 \<and>
   length (audit_logs (snd (change_role demo_platform demo_request 2 ADMIN (current_user_of root) admin_db))) = 1"
proof -
  let ?q = "\<lparr>aq_action = None, aq_severity = Some ''critical'', aq_actor = None, aq_secret = None\<rparr>"
  let ?db = "admin_db\<lparr>users := [root, set_role (1000 * second) ADMIN bob]\<rparr>"
  have c: "change_role demo_platform demo_request 2 ADMIN (current_user_of root) admin_db =
      (Inr (user_item_of (set_role (1000 * second) ADMIN bob)),
       audit_log demo_platform demo_request (admin_entry demo_request ''admin_role_change'' Critical (current_user_of root)) ?db)"
    by (simp add: change_role_def sql_update_def user_of_def current_user_of_def set_role_def)
  have "list_audit_logs ?q 1 50 (audit_log demo_platform demo_request e ?db) = list_audit_logs ?q 1 50 ?db" for e
    by (rule severity_filter_blind [of _ "''critical''"]) simp_all
  moreover have "\<exists>p. list_audit_logs ?q 1 50 ?db = Inr p \<and> pg_total p = 0"
    by (simp add: list_audit_logs_def audit_where_def bind_res_def paginate_def sql_select_def order_desc_def)
  moreover have "length (audit_logs (audit_log demo_platform demo_request
      (admin_entry demo_request ''admin_role_change'' Critical (current_user_of root)) ?db)) = 1"
    by (simp add: audit_log_eq audit_accepts_def admin_entry_def audit_actions_def current_user_of_def user_of_def sql_insert_def)
  ultimately show ?thesis by (simp add: c)
qed

subsection \<open>Concurrent administrators, and deactivation\<close>

lemma set_role_sel [simp]: "u_id (set_role n r u) = u_id u" "role_from_str (u_role (set_role n r u)) = Some r"
  by (simp_all add: set_role_def)

text \<open>
  the invariant needs the requests one after the other.  Two administrators whose requests both pass
  \<open>require_admin\<close> before either has written can take each other's role away: both requests
  succeed, and if there was no third administrator none is left.
\<close>

theorem admins_can_demote_each_other:
  assumes "get_current_user P A rq1 token1 db = Inr a" and "require_role ADMIN a = Inr a"
    and "get_current_user P A rq2 token2 db = Inr b" and "require_role ADMIN b = Inr b"
    and "cu_id a \<noteq> cu_id b" and "r \<noteq> ADMIN"
    and "\<forall>u \<in> set (users db). role_from_str (u_role u) = Some ADMIN \<longrightarrow> u_id u = cu_id a \<or> u_id u = cu_id b"
  shows "\<exists>ub db1 ua db2. change_role P rq1 (cu_id b) r a db = (Inr ub, db1) \<and>
    change_role P rq2 (cu_id a) r b db1 = (Inr ua, db2) \<and> \<not> admin_left db2"
proof -
  have row: "\<exists>u. user_of db (cu_id x) = Some u" if "get_current_user P A rq t db = Inr x" for rq t x
    using that by (rule get_current_user_row) (metis current_user_of_def current_user.select_convs(1) imageI option.exhaust
        row_of_None user_of_def)
  obtain ua ub where u: "user_of db (cu_id a) = Some ua" "user_of db (cu_id b) = Some ub"
    using row [OF assms(1)] row [OF assms(3)] by blast
  let ?db1 = "db\<lparr>users := sql_update (\<lambda>u. u_id u = cu_id b) (set_role (rq_txn rq1) r) (users db)\<rparr>"
  let ?e1 = "admin_entry rq1 ''admin_role_change'' Critical a"
  let ?l = "audit_log P rq1 ?e1 ?db1"
  let ?db2 = "?l\<lparr>users := sql_update (\<lambda>u. u_id u = cu_id a) (set_role (rq_txn rq2) r) (users ?l)\<rparr>"
  have c1: "change_role P rq1 (cu_id b) r a db = (Inr (user_item_of (set_role (rq_txn rq1) r ub)), ?l)"
    using assms(5) u(2) by (simp add: change_role_def user_of_def row_of_update set_role_def)
  have c2: "change_role P rq2 (cu_id a) r b ?l =
      (Inr (user_item_of (set_role (rq_txn rq2) r ua)), audit_log P rq2 (admin_entry rq2 ''admin_role_change'' Critical b) ?db2)"
    using assms(5) u(1) by (simp add: change_role_def user_of_def row_of_update set_role_def)
  have "role_from_str (u_role x) \<noteq> Some ADMIN" if "x \<in> set (users ?db2)" for x
  proof -
    let ?f = "\<lambda>n i y. if u_id y = i then set_role n r y else y"
    from that obtain y where y: "y \<in> set (users db)" "x = ?f (rq_txn rq2) (cu_id a) (?f (rq_txn rq1) (cu_id b) y)"
      by (auto simp: sql_update_def)
    then show ?thesis using assms(6,7) by (cases "u_id y = cu_id a"; cases "u_id y = cu_id b") auto
  qed
  then have "\<not> admin_left ?db2" by (auto simp: admin_left_def)
  with c1 c2 show ?thesis by auto
qed

text \<open>Two administrators.\<close>

definition root_session2 :: "token_response \<times> session_row" where
  "root_session2 = new_session auth_platform demo_auth demo_request sample_rand2 2 ''admin''"

definition two_admins :: database where
  "two_admins = empty_db\<lparr>users := [root, bob\<lparr>u_role := ''admin''\<rparr>], sessions := [snd root_session, snd root_session2]\<rparr>"

lemma two_admins_authenticated:
  "get_current_user auth_platform demo_auth demo_request (Some (tk_access (fst root_session))) two_admins = Inr (current_user_of root)"
  "get_current_user auth_platform demo_auth demo_request (Some (tk_access (fst root_session2))) two_admins =
     Inr (current_user_of (bob\<lparr>u_role := ''admin''\<rparr>))"
proof -
  have n: "new_session auth_platform demo_auth demo_request sample_rand1 1 ''admin'' = (fst root_session, snd root_session)"
    "new_session auth_platform demo_auth demo_request sample_rand2 2 ''admin'' = (fst root_session2, snd root_session2)"
    by (simp_all add: root_session_def root_session2_def)
  show "get_current_user auth_platform demo_auth demo_request (Some (tk_access (fst root_session))) two_admins = Inr (current_user_of root)"
    by (rule session_authenticated [OF demo_jwt_ok n(1)]) (simp_all add: two_admins_def user_of_def)
  show "get_current_user auth_platform demo_auth demo_request (Some (tk_access (fst root_session2))) two_admins =
      Inr (current_user_of (bob\<lparr>u_role := ''admin''\<rparr>))"
    by (rule session_authenticated [OF demo_jwt_ok n(2)]) (simp_all add: two_admins_def user_of_def)
qed

theorem admins_can_demote_each_other_witness:
  "\<exists>ub db1 ua db2. change_role auth_platform demo_request 2 USER (current_user_of root) two_admins = (Inr ub, db1) \<and>
     change_role auth_platform demo_request 1 USER (current_user_of (bob\<lparr>u_role := ''admin''\<rparr>)) db1 = (Inr ua, db2) \<and>
     \<not> admin_left db2"
proof -
  let ?b = "bob\<lparr>u_role := ''admin''\<rparr>"
  have b: "require_role ADMIN (current_user_of ?b) = Inr (current_user_of ?b)"
    by (simp add: require_role_Inr current_user_of_def)
  have id: "cu_id (current_user_of root) = 1" "cu_id (current_user_of ?b) = 2" by (simp_all add: current_user_of_def)
  have "\<forall>u \<in> set (users two_admins). u_id u = 1 \<or> u_id u = 2" by (simp add: two_admins_def)
  then show ?thesis
    using admins_can_demote_each_other [OF two_admins_authenticated(1) root_allowed two_admins_authenticated(2) b, of USER]
    by (simp add: id)
qed

text \<open>deactivating an account takes effect at once and is undone by a second switch: from then on no token of
  the account is accepted, the sweep removes the account from two days later on and not before, and
  reactivation in between clears the date.
\<close>

theorem deactivation_effective:
  assumes "switch_user_activation P rq uid admin db = (Inr reply, db1)" and "accounts_ok db"
    and "user_of db uid = Some u" and "u_active u"
  shows "reply = (uid, False, Some (rq_txn rq + 2 * day)) \<and>
    (\<forall>A rq' token user. get_current_user P A rq' token db1 = Inr user \<longrightarrow> cu_id user \<noteq> uid) \<and>
    (\<forall>rq'. uid \<in> u_id ` set (users (snd (sweep_rows rq' db1))) \<longleftrightarrow> rq_txn rq' < rq_txn rq + 2 * day) \<and>
    (\<forall>rq2. \<exists>db2. switch_user_activation P rq2 uid admin db1 = (Inr (uid, True, None), db2) \<and>
       (\<forall>rq'. uid \<in> u_id ` set (users (snd (sweep_rows rq' db2)))))"
proof -
  have id: "u_id u = uid" "u \<in> set (users db)" using assms(3) row_of_Some unfolding user_of_def by fastforce+
  let ?d = "\<lambda>rq db. db\<lparr>users := sql_update (\<lambda>u. u_id u = uid) (toggle_user (rq_txn rq)) (users db)\<rparr>"
  let ?log = "\<lambda>rq. audit_log P rq (admin_entry rq ''admin_user_toggle'' Warning admin)"
  have ne: "uid \<noteq> cu_id admin" using assms(1) by (auto simp: switch_user_activation_def split: if_splits)
  have sw: "switch_user_activation P rq uid admin db =
      (Inr (uid, \<not> u_active v, if u_active v then Some (rq_txn rq + 2 * day) else None), ?log rq (?d rq db))"
    if "user_of db uid = Some v" "u_id v = uid" for rq db v
    using that ne by (simp add: switch_user_activation_def user_of_def row_of_update toggle_user_def Let_def)
  have d1: "reply = (uid, False, Some (rq_txn rq + 2 * day))" "db1 = ?log rq (?d rq db)"
    using assms(1,4) sw [OF assms(3) id(1), of rq] by simp_all
  let ?u1 = "toggle_user (rq_txn rq) u"
  have u1: "user_of db1 uid = Some ?u1" "u_id ?u1 = uid" "\<not> u_active ?u1" "u_delete_after ?u1 = Some (rq_txn rq + 2 * day)"
    using assms(3,4) id(1) by (simp_all add: d1(2) user_of_def row_of_update toggle_user_def Let_def)
  have only: "x = v" if "x \<in> set (users db')" "u_id x = uid" "user_of db' uid = Some v"
      "map u_id (users db') = map u_id (users db)" for x v db'
    using that row_of_distinct [of u_id "users db'" x] assms(2) by (simp add: accounts_ok_def user_of_def)
  have ids: "map u_id (users (?log rq (?d rq db'))) = map u_id (users db')" for rq db'
    by (simp add: sql_update_def toggle_user_def Let_def)
  have ids1: "map u_id (users db1) = map u_id (users db)" unfolding d1(2) by (rule ids)
  have swept: "uid \<in> u_id ` set (users (snd (sweep_rows rq' db'))) \<longleftrightarrow> \<not> sweep_user rq' v"
    if "user_of db' uid = Some v" "u_id v = uid" "map u_id (users db') = map u_id (users db)" for rq' db' v
  proof -
    obtain dead gone n db'' where r: "sweep_rows rq' db' = ((dead, gone, n), db'')" by (metis prod.exhaust)
    note m = only [OF _ _ that(1,3)]
    have v: "v \<in> set (users db')" using that(1) row_of_Some unfolding user_of_def by fastforce
    have "uid \<in> u_id ` {x \<in> set (users db'). \<not> sweep_user rq' x} \<longleftrightarrow> \<not> sweep_user rq' v"
      using m v that(2) by blast
    then show ?thesis by (simp add: r sweep_rows_tables(4) [OF r])
  qed
  have "cu_id user \<noteq> uid" if "get_current_user P A rq' token db1 = Inr user" for A rq' token user
  proof (rule get_current_user_row [OF that])
    fix x assume x: "x \<in> set (users db1)" "u_active x" "user = current_user_of x"
    have "u_id x = uid \<Longrightarrow> x = ?u1" using only [OF x(1) _ u1(1) ids1] by simp
    then show ?thesis using x(2,3) u1(3) by (auto simp: current_user_of_def)
  qed
  moreover have "uid \<in> u_id ` set (users (snd (sweep_rows rq' db1))) \<longleftrightarrow> rq_txn rq' < rq_txn rq + 2 * day" for rq'
    using u1(3,4) by (auto simp: swept [OF u1(1,2) ids1] sweep_user_def)
  moreover have "\<exists>db2. switch_user_activation P rq2 uid admin db1 = (Inr (uid, True, None), db2) \<and>
       (\<forall>rq'. uid \<in> u_id ` set (users (snd (sweep_rows rq' db2))))" for rq2
  proof -
    let ?u2 = "toggle_user (rq_txn rq2) ?u1" and ?db2 = "?log rq2 (?d rq2 db1)"
    have u2: "user_of ?db2 uid = Some ?u2" "u_id ?u2 = uid" "u_active ?u2"
      using u1(1) id(1) u1(3) by (simp_all add: user_of_def row_of_update toggle_user_def Let_def)
    have ids2: "map u_id (users ?db2) = map u_id (users db)" using ids [of rq2 db1] ids1 by simp
    have "uid \<in> u_id ` set (users (snd (sweep_rows rq' ?db2)))" for rq'
      using u2(3) by (simp add: swept [OF u2(1,2) ids2] sweep_user_def)
    moreover have "switch_user_activation P rq2 uid admin db1 = (Inr (uid, True, None), ?db2)"
      using sw [OF u1(1,2), of rq2] u1(3) by simp
    ultimately show ?thesis by blast
  qed
  ultimately show ?thesis using d1(1) by blast
qed

theorem deactivation_effective_witness:
  "\<exists>db1. switch_user_activation auth_platform demo_request 2 (current_user_of root) admin_db =
       (Inr (2, False, Some (1000 * second + 2 * day)), db1) \<and>
     2 \<in> u_id ` set (users (snd (sweep_rows demo_request db1)))"
proof -
  obtain reply db1 where s: "switch_user_activation auth_platform demo_request 2 (current_user_of root) admin_db = (Inr reply, db1)"
    by (simp add: switch_user_activation_def current_user_of_def user_of_def row_of_update toggle_user_def Let_def
        sql_update_def)
  have "accounts_ok admin_db"
    by (simp add: accounts_ok_def)
      (simp add: root_def bob_def alice_def root_session_def new_session_def create_refresh_token_def Let_def)
  from deactivation_effective [OF s this, of bob] s show ?thesis by auto
qed

end
