(* ===== verification/Responses.thy ===== *)
theory Responses
  imports Admin Secret_Versions
begin

text \<open>
  What a client is sent: the response models of app/schemas.py, app/schemas_access.py, app/schemas_versioning.py and
  app/schemas_quotas.py as JSON.  A model names the columns that leave the server.  Shown: the
  answers of the endpoints about secrets, versions, views, accounts and quotas do not depend on any content, key,
  password digest or token that is stored.  The printing of a datetime is the parameter \<open>isoformat\<close>.  The items of the audit log
  carry a free-form dictionary and are not modelled.
\<close>

subsection \<open>JSON\<close>

datatype json = JNull | JBool bool | JInt int | JStr string | JList "json list" | JObject "(string \<times> json) list"

definition jopt :: "('a \<Rightarrow> json) \<Rightarrow> 'a option \<Rightarrow> json" where
  "jopt f x = (case x of None \<Rightarrow> JNull | Some y \<Rightarrow> f y)"

abbreviation juuid :: "uuid \<Rightarrow> json" where "juuid u \<equiv> JStr (uuid_str u)"
abbreviation jnat :: "nat \<Rightarrow> json" where "jnat n \<equiv> JInt (int n)"

text \<open>An answer: a status and a body.  What the framework makes of an exception is the parameter \<open>err\<close>.\<close>

definition respond :: "(exc \<Rightarrow> nat \<times> json) \<Rightarrow> nat \<Rightarrow> ('a \<Rightarrow> json) \<Rightarrow> 'a res \<Rightarrow> nat \<times> json" where
  "respond err status f r = (case r of Inl e \<Rightarrow> err e | Inr x \<Rightarrow> (status, f x))"

subsection \<open>Accounts\<close>

definition user_response :: "(micros \<Rightarrow> string) \<Rightarrow> user_row \<Rightarrow> json" where
  "user_response isoformat u =
     JObject [(''id'', juuid (u_id u)), (''email'', JStr (u_email u)), (''username'', JStr (u_username u)),
       (''role'', JStr (u_role u)), (''is_active'', JBool (u_active u)), (''is_verified'', JBool (u_verified u)),
       (''created_at'', JStr (isoformat (u_created u)))]"

definition token_json :: "token_response \<Rightarrow> json" where
  "token_json t =
     JObject [(''access_token'', JStr (tk_access t)), (''refresh_token'', JStr (tk_refresh t)),
       (''token_type'', JStr ''bearer''), (''expires_in'', JInt (tk_expires_in t))]"

definition admin_user_response :: "(micros \<Rightarrow> string) \<Rightarrow> user_item \<Rightarrow> json" where
  "admin_user_response isoformat u =
     JObject [(''id'', juuid (ui_id u)), (''email'', JStr (ui_email u)), (''username'', JStr (ui_username u)),
       (''role'', JStr (ui_role u)), (''is_active'', JBool (ui_active u)), (''created_at'', JStr (isoformat (ui_created u))),
       (''updated_at'', JStr (isoformat (ui_updated u))), (''delete_after'', jopt (JStr \<circ> isoformat) (ui_delete_after u))]"

definition page_json :: "('a \<Rightarrow> json) \<Rightarrow> 'a page \<Rightarrow> (string \<times> json) list" where
  "page_json f p =
     [(''items'', JList (map f (pg_items p))), (''total'', jnat (pg_total p)), (''page'', jnat (pg_page p)),
      (''page_size'', jnat (pg_size p))]"

definition admin_user_list_response :: "(micros \<Rightarrow> string) \<Rightarrow> user_item page \<Rightarrow> json" where
  "admin_user_list_response isoformat p = JObject (page_json (admin_user_response isoformat) p)"

definition user_status_response :: "(micros \<Rightarrow> string) \<Rightarrow> uuid \<times> bool \<times> micros option \<Rightarrow> json" where
  "user_status_response isoformat r =
     (case r of (u, active, delete_after) \<Rightarrow>
        JObject [(''user_id'', juuid u), (''is_active'', JBool active), (''delete_after'', jopt (JStr \<circ> isoformat) delete_after)])"

text \<open>\<open>ran_at\<close> is read from the clock when the sweep ends.\<close>

definition cleanup_response :: "(micros \<Rightarrow> string) \<Rightarrow> micros \<Rightarrow> sweep_result \<Rightarrow> json" where
  "cleanup_response isoformat ran_at r =
     JObject [(''secrets_deleted'', jnat (sr_secrets r)), (''sessions_deleted'', jnat (sr_sessions r)),
       (''users_deleted'', jnat (sr_users r)), (''ran_at'', JStr (isoformat ran_at))]"

definition message_response :: "string \<Rightarrow> json" where
  "message_response m = JObject [(''message'', JStr m)]"

definition stats_json :: "stats_response \<Rightarrow> json" where
  "stats_json s =
     JObject [(''total_secrets_created'', jnat (sp_created s)), (''total_secrets_viewed'', jnat (sp_viewed s)),
       (''active_secrets'', jnat (sp_active s))]"

definition quota_response :: "int \<times> int \<times> int \<times> int \<Rightarrow> json" where
  "quota_response q =
     (case q of (s, b, ms, mb) \<Rightarrow>
        JObject [(''active_secrets'', JInt s), (''file_bytes'', JInt b), (''max_active_secrets'', JInt ms),
          (''max_file_bytes'', JInt mb)])"

subsection \<open>Secrets\<close>

definition secret_create_json :: "(micros \<Rightarrow> string) \<Rightarrow> create_response \<Rightarrow> json" where
  "secret_create_json isoformat r =
     JObject [(''secret_id'', juuid (cp_id r)), (''share_url'', JStr (cp_url r)), (''signed_token'', JStr (cp_token r)),
       (''expires_at'', JStr (isoformat (cp_expires r))), (''qr_code'', JStr (cp_qr r))]"

definition secret_content_json :: "(micros \<Rightarrow> string) \<Rightarrow> secret_content \<Rightarrow> json" where
  "secret_content_json isoformat c =
     JObject [(''content'', JStr (ct_content c)), (''created_at'', JStr (isoformat (ct_created c))),
       (''expires_at'', JStr (isoformat (ct_expires c))), (''views_remaining'', JInt (ct_remaining c)),
       (''client_encrypted'', JBool (ct_client_encrypted c)), (''version'', JInt (ct_version c))]"

definition payload_name :: "payload \<Rightarrow> string" where
  "payload_name p = (case p of Text \<Rightarrow> ''text'' | File \<Rightarrow> ''file'')"

definition secret_info_json :: "(micros \<Rightarrow> string) \<Rightarrow> info_response \<Rightarrow> json" where
  "secret_info_json isoformat s =
     JObject [(''exists'', JBool True), (''created_at'', JStr (isoformat (si_created s))), (''expires_at'', JStr (isoformat (si_expires s))),
       (''password_protected'', JBool (si_protected s)), (''viewed'', JBool (si_viewed s)),
       (''view_count'', JInt (si_view_count s)), (''max_views'', JInt (si_max_views s)),
       (''current_version'', JInt (si_version s)), (''payload_type'', JStr (payload_name (si_payload s))),
       (''location_restricted'', JBool (si_location s)), (''policy_version'', JInt (si_policy_version s))]"

definition secret_list_item :: "(micros \<Rightarrow> string) \<Rightarrow> secret_row \<Rightarrow> json" where
  "secret_list_item isoformat s =
     JObject [(''id'', juuid (s_id s)), (''created_at'', JStr (isoformat (s_created s))), (''expires_at'', JStr (isoformat (s_expires s))),
       (''viewed'', JBool (s_viewed s)), (''view_count'', JInt (s_view_count s)), (''max_views'', JInt (s_max_views s)),
       (''password_protected'', JBool (s_protected s)), (''notify_on_view'', JBool (s_notify s))]"

definition secret_list_response :: "(micros \<Rightarrow> string) \<Rightarrow> secret_row page \<Rightarrow> json" where
  "secret_list_response isoformat p = JObject (page_json (secret_list_item isoformat) p)"

definition key_rotate_response :: "(micros \<Rightarrow> string) \<Rightarrow> uuid \<Rightarrow> micros \<Rightarrow> int \<Rightarrow> json" where
  "key_rotate_response isoformat sid now version =
     JObject [(''secret_id'', juuid sid), (''new_key_version'', JInt version), (''rotated_at'', JStr (isoformat now))]"

definition secret_version_item :: "(micros \<Rightarrow> string) \<Rightarrow> version_item \<Rightarrow> json" where
  "secret_version_item isoformat v =
     JObject [(''version'', JInt (vi_version v)), (''plaintext_size'', JInt (vi_size v)),
       (''created_by'', jopt juuid (vi_created_by v)), (''change_note'', jopt JStr (vi_note v)),
       (''created_at'', JStr (isoformat (vi_created v))), (''is_current'', JBool (vi_current v))]"

definition secret_version_list :: "(micros \<Rightarrow> string) \<Rightarrow> int \<times> version_item list \<Rightarrow> json" where
  "secret_version_list isoformat r =
     JObject [(''items'', JList (map (secret_version_item isoformat) (snd r))), (''current_version'', JInt (fst r))]"

definition secret_update_response :: "(micros \<Rightarrow> string) \<Rightarrow> uuid \<Rightarrow> int \<times> micros \<Rightarrow> json" where
  "secret_update_response isoformat sid r =
     JObject [(''secret_id'', juuid sid), (''version'', JInt (fst r)), (''updated_at'', JStr (isoformat (snd r)))]"

definition location_policy_json :: "policy_response \<Rightarrow> json" where
  "location_policy_json r =
     JObject [(''secret_id'', juuid (pr_secret r)), (''allowed_cidrs'', JList (map JStr (pr_cidrs r))),
       (''allowed_countries'', JList (map JStr (pr_countries r))), (''location_policy_mode'', JStr (pr_mode r)),
       (''geoip_fail_closed'', JBool (pr_fail_closed r)), (''policy_version'', JInt (pr_version r)),
       (''signed_token'', JStr (pr_token r)), (''share_url'', JStr (pr_url r))]"

text \<open>The id of a view is its number in the table's sequence, which the rows do not hold: an argument.\<close>

definition secret_view_item :: "(micros \<Rightarrow> string) \<Rightarrow> (view_row \<Rightarrow> int) \<Rightarrow> view_row \<Rightarrow> json" where
  "secret_view_item isoformat number w =
     JObject [(''id'', JInt (number w)), (''viewer_id'', jopt juuid (w_viewer w)), (''viewer_email'', jopt JStr (w_email w)),
       (''email_verified'', JBool (w_verified w)), (''viewed_at'', JStr (isoformat (w_at w))),
       (''content_version'', jopt JInt (w_version w))]"

definition secret_views_response :: "(micros \<Rightarrow> string) \<Rightarrow> (view_row \<Rightarrow> int) \<Rightarrow> views_page \<Rightarrow> json" where
  "secret_views_response isoformat number p =
     JObject (page_json (secret_view_item isoformat number) (vp_page p) @ [(''retain_until'', JStr (isoformat (vp_retain p)))])"

subsection \<open>What is secret\<close>

text \<open>
  The database without its secrets: contents and their nonces, keys, file names and digests, the digests of passwords, refresh tokens
  and verification codes, share links and the addresses that are notified.
\<close>

definition redact_user :: "user_row \<Rightarrow> user_row" where
  "redact_user u = u\<lparr>u_password_hash := []\<rparr>"

definition redact_secret :: "secret_row \<Rightarrow> secret_row" where
  "redact_secret s = s\<lparr>s_content := None, s_nonce := None, s_password_hash := None, s_signed_token := None,
     s_notify_email := None, s_webhook := None\<rparr>"

definition redact_version :: "version_row \<Rightarrow> version_row" where
  "redact_version v = v\<lparr>v_content := None, v_nonce := None, v_key := None, v_filename := None, v_filename_nonce := None,
     v_digest := None\<rparr>"

definition redact :: "database \<Rightarrow> database" where
  "redact db = db\<lparr>users := map redact_user (users db), sessions := map (\<lambda>s. s\<lparr>ss_token_hash := []\<rparr>) (sessions db),
     secrets := map redact_secret (secrets db), secret_keys := [],
     secret_versions := map redact_version (secret_versions db),
     email_verifications := map (\<lambda>e. e\<lparr>ev_hash := []\<rparr>) (email_verifications db)\<rparr>"

lemma redact_rows [simp]:
  "u_id (redact_user u) = u_id u" "u_created (redact_user u) = u_created u" "user_item_of (redact_user u) = user_item_of u"
  "user_response isoformat (redact_user u) = user_response isoformat u"
  "s_id (redact_secret s) = s_id s" "s_owner (redact_secret s) = s_owner s" "s_created (redact_secret s) = s_created s"
  "s_viewed (redact_secret s) = s_viewed s" "s_expires (redact_secret s) = s_expires s" "s_version (redact_secret s) = s_version s"
  "s_protected (redact_secret s) = s_protected s" "s_payload (redact_secret s) = s_payload s"
  "s_view_count (redact_secret s) = s_view_count s" "s_max_views (redact_secret s) = s_max_views s"
  "secret_list_item isoformat (redact_secret s) = secret_list_item isoformat s"
  "v_secret (redact_version v) = v_secret v" "v_version (redact_version v) = v_version v" "v_size (redact_version v) = v_size v"
  "v_object (redact_version v) = v_object v" "v_created_by (redact_version v) = v_created_by v"
  "v_note (redact_version v) = v_note v" "v_created (redact_version v) = v_created v"
  by (simp_all add: redact_user_def user_item_of_def user_response_def redact_secret_def secret_list_item_def redact_version_def)

lemma redact_tables [simp]:
  "users (redact db) = map redact_user (users db)" "secrets (redact db) = map redact_secret (secrets db)"
  "secret_versions (redact db) = map redact_version (secret_versions db)" "access_policies (redact db) = access_policies db"
  "secret_tracking (redact db) = secret_tracking db" "secret_views (redact db) = secret_views db"
  "user_quotas (redact db) = user_quotas db" "deletion_outbox (redact db) = deletion_outbox db"
  by (simp_all add: redact_def)

text \<open>Selection, order and the page do not see what a map on the rows leaves alone.\<close>

lemma sql_select_map: "(\<And>r. p (f r) = p r) \<Longrightarrow> sql_select p (map f t) = map f (sql_select p t)"
  by (simp add: sql_select_def filter_map comp_def)

lemma row_of_map: "(\<And>r. key (f r) = key r) \<Longrightarrow> row_of key (map f t) k = map_option f (row_of key t k)"
  by (simp add: row_of_def sql_select_map) (simp add: fetchone_def split: list.split)

lemma insort_key_map: "(\<And>r. key (f r) = key r) \<Longrightarrow> insort_key key (f x) (map f t) = map f (insort_key key x t)"
  by (induction t) simp_all

lemma order_desc_map: "(\<And>r. key (f r) = key r) \<Longrightarrow> order_desc key (map f t) = map f (order_desc key t)"
proof -
  assume k: "\<And>r. key (f r) = key r"
  have "sort_key key (map f t) = map f (sort_key key t)" by (induction t) (simp_all add: insort_key_map k)
  then show ?thesis by (simp add: order_desc_def rev_map)
qed

lemma page_json_map:
  "(\<And>r. g (f r) = g r) \<Longrightarrow> page_json g (paginate page n (map f t)) = page_json g (paginate page n t)"
  by (simp add: page_json_def paginate_def take_map drop_map comp_def)

lemma secret_of_redact: "secret_of (redact db) sid = map_option redact_secret (secret_of db sid)"
  by (simp add: secret_of_def row_of_map)

lemma user_of_redact: "user_of (redact db) u = map_option redact_user (user_of db u)"
  by (simp add: user_of_def row_of_map)

lemma durable_usage_redact: "durable_usage (redact db) u = durable_usage db u"
  by (simp add: durable_usage_def Let_def sql_select_map sum_of_def comp_def image_image)

lemma usage_redact: "usage P (redact db) u q = usage P db u q"
proof -
  have same: "reconcile_user (redact db) u q = reconcile_user db u q" "limits_for_user P (redact db) u = limits_for_user P db u"
    unfolding reconcile_user_def limits_for_user_def durable_usage_redact by simp_all
  show ?thesis unfolding usage_def same by (rule refl)
qed

lemma list_where_redact: "list_where rq owner viewed expired (redact_secret s) = list_where rq owner viewed expired s"
  unfolding list_where_def redact_rows by (rule refl)

lemma policy_of_redact: "policy_of (redact db) sid = policy_of db sid"
  by (simp add: policy_of_def)

text \<open>C18: The answers about accounts, secrets, versions, views, totals and quotas are the same for a database
  without its secrets: whatever they reveal, in a page, a filter, an order, a total or an error, is no content, key, digest or token.
\<close>

theorem metadata_hides_secrets:
  "respond err 200 (user_response isoformat) (me user (redact db)) = respond err 200 (user_response isoformat) (me user db) \<and>
   admin_user_list_response isoformat (list_users page n (redact db)) = admin_user_list_response isoformat (list_users page n db) \<and>
   secret_list_response isoformat (list_secrets rq page n viewed expired user (redact db)) =
     secret_list_response isoformat (list_secrets rq page n viewed expired user db) \<and>
   respond err 200 (secret_info_json isoformat) (secret_info sid (redact db)) = respond err 200 (secret_info_json isoformat) (secret_info sid db) \<and>
   respond err 200 (secret_version_list isoformat) (list_secret_versions sid user (redact db)) =
     respond err 200 (secret_version_list isoformat) (list_secret_versions sid user db) \<and>
   respond err 200 (secret_views_response isoformat number) (secret_views_of rq sid page n user (redact db)) =
     respond err 200 (secret_views_response isoformat number) (secret_views_of rq sid page n user db) \<and>
   stats_json (get_stats rq (redact db)) = stats_json (get_stats rq db) \<and>
   respond err 200 quota_response (fst (get_quota P user (w\<lparr>wd_db := redact db\<rparr>))) =
     respond err 200 quota_response (fst (get_quota P user (w\<lparr>wd_db := db\<rparr>)))"
proof (intro conjI)
  show "respond err 200 (user_response isoformat) (me user (redact db)) = respond err 200 (user_response isoformat) (me user db)"
    by (cases "user_of db (cu_id user)") (simp_all add: me_def user_of_redact respond_def)
  show "admin_user_list_response isoformat (list_users page n (redact db)) = admin_user_list_response isoformat (list_users page n db)"
    by (simp add: admin_user_list_response_def list_users_def order_desc_map comp_def)
  show "secret_list_response isoformat (list_secrets rq page n viewed expired user (redact db)) =
      secret_list_response isoformat (list_secrets rq page n viewed expired user db)"
    by (simp add: secret_list_response_def list_secrets_def list_where_redact sql_select_map order_desc_map page_json_map)
  show "respond err 200 (secret_info_json isoformat) (secret_info sid (redact db)) = respond err 200 (secret_info_json isoformat) (secret_info sid db)"
    by (cases "secret_of db sid"; cases "policy_of db sid") (simp_all add: secret_info_def secret_of_redact policy_of_redact)
  show "respond err 200 (secret_version_list isoformat) (list_secret_versions sid user (redact db)) =
      respond err 200 (secret_version_list isoformat) (list_secret_versions sid user db)"
    by (cases "secret_of db sid") (simp_all add: list_secret_versions_def secret_of_redact sql_select_map order_desc_map comp_def)
  show "respond err 200 (secret_views_response isoformat number) (secret_views_of rq sid page n user (redact db)) =
      respond err 200 (secret_views_response isoformat number) (secret_views_of rq sid page n user db)"
    unfolding secret_views_of_def redact_tables by (rule refl)
  show "stats_json (get_stats rq (redact db)) = stats_json (get_stats rq db)"
    by (simp add: get_stats_def sql_select_map)
  show "respond err 200 quota_response (fst (get_quota P user (w\<lparr>wd_db := redact db\<rparr>))) =
      respond err 200 quota_response (fst (get_quota P user (w\<lparr>wd_db := db\<rparr>)))"
    by (simp add: get_quota_def usage_redact split: prod.split)
qed

end
