(* ===== verification/Rate_Limit.thy ===== *)
theory Rate_Limit
  imports World
begin

text \<open>
  app/core/rate_limit.py: a sliding window per caller and scope, kept in a Redis sorted set of
  random tokens scored by the time of the request.  The Lua script prunes, counts, and adds or
  refuses in one step.  Scores are microseconds.  The key's own expiry (the window after the last
  accepted request) removes only entries that pruning would remove, so it is part of the pruning.
\<close>

type_synonym window = "(string \<times> micros) list"

type_synonym rate_store = "string \<Rightarrow> window"

definition zset_add :: "string \<Rightarrow> micros \<Rightarrow> window \<Rightarrow> window" where
  "zset_add token score z = filter (\<lambda>e. fst e \<noteq> token) z @ [(token, score)]"

text \<open>The score of the first entry of ZRANGE 0 0, the least one.\<close>

definition oldest_score :: "window \<Rightarrow> micros option" where
  "oldest_score z = (case z of [] \<Rightarrow> None | e # es \<Rightarrow> Some (fold (\<lambda>x m. min (snd x) m) es (snd e)))"

text \<open>ZREMRANGEBYSCORE key 0 window_start takes these entries away.\<close>

definition stale :: "micros \<Rightarrow> string \<times> micros \<Rightarrow> bool" where
  "stale window_start e \<longleftrightarrow> 0 \<le> snd e \<and> snd e \<le> window_start"

text \<open>Accepted flag, count, oldest score ('0' for none).\<close>

definition sliding_window :: "micros \<Rightarrow> micros \<Rightarrow> int \<Rightarrow> string \<Rightarrow> window \<Rightarrow> (bool \<times> int \<times> micros option) \<times> window" where
  "sliding_window now window_start max_requests token z =
     (let z1 = filter (\<lambda>e. \<not> stale window_start e) z;
          count = int (length z1) in
      if max_requests \<le> count then ((False, count, oldest_score z1), z1)
      else ((True, count + 1, None), zset_add token now z1))"

text \<open>\<open>int(x)\<close> of a float truncates towards zero.\<close>

definition retry_after_of :: "micros option \<Rightarrow> micros \<Rightarrow> int \<Rightarrow> int" where
  "retry_after_of oldest now window_seconds =
     (case oldest of
        None \<Rightarrow> window_seconds
      | Some t \<Rightarrow> if t = 0 then window_seconds
                   else max 1 (trunc_seconds (t + window_seconds * second - now)))"

definition too_many :: "micros \<Rightarrow> int \<Rightarrow> int \<Rightarrow> int \<Rightarrow> exc" where
  "too_many now max_requests window_seconds retry_after =
     HTTPException 429
       (Msg (''Rate limit exceeded. Max '' @ py_str_int max_requests @ '' requests per '' @
             py_str_int window_seconds @ ''s.''))
       [(''Retry-After'', py_str_int retry_after), (''X-RateLimit-Limit'', py_str_int max_requests),
        (''X-RateLimit-Reset'', py_str_int (trunc_seconds now + retry_after))]"

text \<open>Without a Redis client the limiter lets everything through.\<close>

definition rate_limit ::
  "micros \<Rightarrow> string \<Rightarrow> string \<Rightarrow> int \<Rightarrow> int \<Rightarrow> rate_store option \<Rightarrow> unit res \<times> rate_store option" where
  "rate_limit now token key max_requests window_seconds redis =
     (case redis of
        None \<Rightarrow> (Inr (), None)
      | Some st \<Rightarrow>
          (let ((accepted, count, oldest), z) =
                 sliding_window now (now - window_seconds * second) max_requests token (st key) in
           if \<not> accepted
           then (Inl (too_many now max_requests window_seconds (retry_after_of oldest now window_seconds)),
                 Some (st(key := z)))
           else (Inr (), Some (st(key := z)))))"

text \<open>\<open>limiter\<close>: the key of a request; user id and client address are the attributes of request.state.\<close>

definition limiter_key :: "string \<Rightarrow> bool \<Rightarrow> string option \<Rightarrow> string option \<Rightarrow> string option \<Rightarrow> string" where
  "limiter_key scope force_ip user_id client_ip host =
     (let identifier =
            (if truthy user_id \<and> \<not> force_ip then ''user:'' @ the user_id
             else ''ip:'' @ (if truthy client_ip then the client_ip
                             else case host of Some h \<Rightarrow> h | None \<Rightarrow> ''unknown''));
          prefix = (if scope = [] then ''phantom:ratelimit'' else ''phantom:ratelimit:'' @ scope) in
      prefix @ '':'' @ identifier)"

subsection \<open>How many requests a window lets through\<close>

definition in_window :: "micros \<Rightarrow> int \<Rightarrow> micros list \<Rightarrow> nat" where
  "in_window t w ts = length (filter (\<lambda>s. t - w * second < s \<and> s \<le> t) ts)"

text \<open>Requests of one caller, in the order the script runs them; the times it accepted.\<close>

fun accepted_times :: "int \<Rightarrow> int \<Rightarrow> (micros \<times> string) list \<Rightarrow> window \<Rightarrow> micros list" where
  "accepted_times n w [] z = []"
| "accepted_times n w ((now, token) # rs) z =
     (let ((accepted, count, oldest), z') = sliding_window now (now - w * second) n token z in
      if accepted then now # accepted_times n w rs z' else accepted_times n w rs z')"

lemma in_window_simps [simp]:
  "in_window t w [] = 0"
  "in_window t w (s # ts) = (if t - w * second < s \<and> s \<le> t then 1 else 0) + in_window t w ts"
  "in_window t w (as @ bs) = in_window t w as + in_window t w bs"
  by (auto simp: in_window_def)

lemma in_window_length: "in_window t w ts \<le> length ts"
  by (simp add: in_window_def)

lemma in_window_future: "\<forall>s \<in> set ts. t < s \<Longrightarrow> in_window t w ts = 0"
  by (auto simp: in_window_def filter_empty_conv)

lemma accepted_after: "s \<in> set (accepted_times n w rs z) \<Longrightarrow> s \<in> fst ` set rs"
proof (induction rs arbitrary: z)
  case (Cons r rs)
  obtain now token where r: "r = (now, token)" by (cases r)
  from Cons show ?case by (fastforce simp: r Let_def split_beta split: if_splits)
qed simp

lemma in_window_prune:
  assumes "now \<le> t"
  shows "in_window t w (map snd (filter (\<lambda>e. \<not> stale (now - w * second) e) z)) =
    in_window t w (map snd z)"
  using assms by (induction z) (auto simp: stale_def)

lemma in_window_filter: "in_window t w (map snd (filter p z)) \<le> in_window t w (map snd z)"
  by (induction z) auto

lemma window_bound:
  assumes "sorted (map fst rs)" "distinct (map snd rs)" "fst ` set z \<inter> snd ` set rs = {}"
    and "\<forall>t. in_window t w (map snd z) \<le> nat n" and "0 < n"
  shows "in_window t w (map snd z) + in_window t w (accepted_times n w rs z) \<le> nat n"
  using assms
proof (induction rs arbitrary: z)
  case (Cons r rs)
  obtain now token where r: "r = (now, token)" by (cases r)
  let ?p = "filter (\<lambda>e. \<not> stale (now - w * second) e) z"
  have later: "\<forall>s \<in> set (accepted_times n w rs z'). now \<le> s" for z'
    using accepted_after [of _ n w rs z'] Cons.prems(1) by (fastforce simp: r)
  show ?case
  proof (cases "int (length ?p) < n")
    case True
    have tok: "zset_add token now ?p = ?p @ [(token, now)]"
    proof -
      have "filter (\<lambda>e. fst e \<noteq> token) ?p = ?p"
      proof (rule filter_True)
        have "token \<notin> fst ` set z" using Cons.prems(3) by (simp add: r)
        then have "fst e \<noteq> token" if "e \<in> set z" for e using that by (metis imageI)
        then show "\<forall>e \<in> set ?p. fst e \<noteq> token" by simp
      qed
      then show ?thesis by (simp only: zset_add_def)
    qed
    have step: "accepted_times n w (r # rs) z = now # accepted_times n w rs (?p @ [(token, now)])"
      using True by (simp add: r sliding_window_def Let_def tok)
    have "in_window t' w (map snd (?p @ [(token, now)])) \<le> nat n" for t'
    proof -
      have "in_window t' w (map snd (?p @ [(token, now)])) \<le> length (map snd (?p @ [(token, now)]))"
        by (rule in_window_length)
      also have "\<dots> \<le> nat n" using True by simp
      finally show ?thesis .
    qed
    then have inv: "\<forall>t. in_window t w (map snd (?p @ [(token, now)])) \<le> nat n" by blast
    have dis: "fst ` set (?p @ [(token, now)]) \<inter> snd ` set rs = {}"
      using Cons.prems(2,3) by (auto simp: r)
    have ih: "in_window t w (map snd (?p @ [(token, now)])) +
        in_window t w (accepted_times n w rs (?p @ [(token, now)])) \<le> nat n"
      using Cons.prems(1,2) by (intro Cons.IH [OF _ _ dis inv Cons.prems(5)]) (simp_all add: r)
    show ?thesis
    proof (cases "now \<le> t")
      case True
      then show ?thesis using ih in_window_prune [OF True, of w z] by (simp add: step)
    next
      case False
      then have "in_window t w (now # accepted_times n w rs (?p @ [(token, now)])) = 0"
        using later [of "?p @ [(token, now)]"] by (intro in_window_future) auto
      then show ?thesis using Cons.prems(4) by (simp add: step)
    qed
  next
    case False
    have step: "accepted_times n w (r # rs) z = accepted_times n w rs ?p"
      using False by (simp add: r sliding_window_def Let_def)
    have "in_window t' w (map snd ?p) \<le> nat n" for t'
      using in_window_filter Cons.prems(4) le_trans by blast
    then have inv: "\<forall>t. in_window t w (map snd ?p) \<le> nat n" by blast
    have dis: "fst ` set ?p \<inter> snd ` set rs = {}" using Cons.prems(3) by (auto simp: r)
    have ih: "in_window t w (map snd ?p) + in_window t w (accepted_times n w rs ?p) \<le> nat n"
      using Cons.prems(1,2) by (intro Cons.IH [OF _ _ dis inv Cons.prems(5)]) (simp_all add: r)
    show ?thesis
    proof (cases "now \<le> t")
      case True
      then show ?thesis using ih in_window_prune [OF True, of w z] by (simp add: step)
    next
      case False
      then have "in_window t w (accepted_times n w rs ?p) = 0"
        using later [of ?p] by (intro in_window_future) auto
      then show ?thesis using Cons.prems(4) by (simp add: step)
    qed
  qed
qed simp

text \<open>whatever requests a caller sends (with distinct random tokens, in time order), no window of
  the configured length contains more accepted requests than the limit.\<close>

theorem rate_limit_window:
  assumes "sorted (map fst rs)" "distinct (map snd rs)" "0 < n"
  shows "in_window t w (accepted_times n w rs []) \<le> nat n"
  using window_bound [OF assms(1,2), of "[]" w n t] assms(3) by simp

theorem rate_limit_window_witness:
  "accepted_times 1 10 [(5 * second, ''a''), (6 * second, ''b''), (16 * second, ''c'')] [] = [5 * second, 16 * second] \<and>
   in_window (16 * second) 10 (accepted_times 1 10 [(5 * second, ''a''), (6 * second, ''b''), (16 * second, ''c'')] []) \<le> 1"
  using rate_limit_window [of "[(5 * second, ''a''), (6 * second, ''b''), (16 * second, ''c'')]" 1 "16 * second" 10]
  by (simp add: sliding_window_def zset_add_def stale_def)

lemma oldest_score_min:
  assumes "oldest_score z = Some t"
  shows "\<exists>e \<in> set z. snd e = t" "e \<in> set z \<Longrightarrow> t \<le> snd e"
proof -
  obtain e0 es where z: "z = e0 # es" using assms by (cases z) (auto simp: oldest_score_def)
  have "fold (\<lambda>x m. min (snd x) m) es a \<in> insert a (snd ` set es)" for a :: micros
  proof (induction es arbitrary: a)
    case (Cons x es)
    from Cons.IH [of "min (snd x) a"] show ?case by (cases "snd x \<le> a") (simp_all add: min_def, auto)
  qed simp
  from this [of "snd e0"] have "t \<in> snd ` set z" using assms z by (auto simp: oldest_score_def)
  then show "\<exists>e \<in> set z. snd e = t" by (auto simp: image_iff)
  have "fold (\<lambda>x m. min (snd x) m) es a \<le> a \<and> (\<forall>e \<in> set es. fold (\<lambda>x m. min (snd x) m) es a \<le> snd e)" for a :: micros
  proof (induction es arbitrary: a)
    case (Cons x es)
    from Cons.IH [of "min (snd x) a"] show ?case by auto
  qed simp
  then show "e \<in> set z \<Longrightarrow> t \<le> snd e" using assms z by (auto simp: oldest_score_def)
qed

text \<open>a refused request is told to come back after at least one second and at most the window, and
  a request that comes one second after that time, with nothing accepted in between, is accepted;
  refusing does not count against the caller.\<close>

theorem retry_after_correct:
  assumes "rate_limit now token key n w (Some st) = (Inl e, Some st')"
    and "0 < n" "0 < w" and "\<forall>x \<in> set (st key). 0 < snd x \<and> snd x \<le> now"
  shows "\<exists>r. 1 \<le> r \<and> r \<le> w \<and> e = too_many now n w r \<and>
    length (st' key) \<le> length (st key) \<and>
    (int (length (st' key)) = n \<longrightarrow>
      (\<forall>now2 token2. now + (r + 1) * second \<le> now2 \<longrightarrow>
         fst (rate_limit now2 token2 key n w (Some st')) = Inr ()))"
proof -
  let ?z = "filter (\<lambda>e. \<not> stale (now - w * second) e) (st key)"
  let ?r = "retry_after_of (oldest_score ?z) now w"
  from assms(1) have full: "n \<le> int (length ?z)" and e: "e = too_many now n w ?r" and st': "st' = st(key := ?z)"
    by (auto simp: rate_limit_def sliding_window_def Let_def split: if_splits)
  obtain t where t: "oldest_score ?z = Some t"
    using full assms(2) by (cases ?z) (auto simp: oldest_score_def)
  obtain x where x: "x \<in> set ?z" "snd x = t" using oldest_score_min(1) [OF t] by blast
  then have tb: "0 < t" "t \<le> now" "now - w * second < t" using assms(4) by (auto simp: stale_def)
  have r: "?r = max 1 ((t + w * second - now) div second)"
    using tb unfolding t retry_after_of_def by (simp add: trunc_seconds_def)
  have "(t + w * second - now) div second \<le> w * second div second"
    using tb by (intro zdiv_mono1) auto
  then have bounds: "1 \<le> ?r" "?r \<le> w" using assms(3) r by auto
  have later: "fst (rate_limit now2 token2 key n w (Some st')) = Inr ()"
    if "int (length (st' key)) = n" "now + (?r + 1) * second \<le> now2" for now2 token2
  proof -
    have "t + w * second - now < (?r + 1) * second"
    proof -
      have "t + w * second - now < ((t + w * second - now) div second + 1) * second"
        using div_mult_mod_eq [of "t + w * second - now" second] pos_mod_bound [of second "t + w * second - now"]
        by (simp add: algebra_simps)
      also have "\<dots> \<le> (?r + 1) * second" using r by simp
      finally show ?thesis .
    qed
    then have "t \<le> now2 - w * second" using that(2) by linarith
    then have "length (filter (\<lambda>e. \<not> stale (now2 - w * second) e) ?z) < length ?z"
      using x tb(1) by (intro length_filter_less [of x]) (auto simp: stale_def)
    then show ?thesis
      using that(1) by (simp add: rate_limit_def sliding_window_def Let_def st' split: if_splits)
  qed
  have "length (st' key) \<le> length (st key)" by (simp add: st')
  with bounds e later show ?thesis by blast
qed

theorem retry_after_correct_witness:
  "\<exists>e st'. rate_limit (6 * second) ''b'' ''k'' 1 10 (Some (\<lambda>_. [(''a'', 5 * second)])) = (Inl e, Some st') \<and>
     (\<exists>r. 1 \<le> r \<and> r \<le> 10 \<and> e = too_many (6 * second) 1 10 r)"
proof -
  obtain e st' where r: "rate_limit (6 * second) ''b'' ''k'' 1 10 (Some (\<lambda>_. [(''a'', 5 * second)])) = (Inl e, Some st')"
    by (simp add: rate_limit_def sliding_window_def Let_def stale_def)
  show ?thesis using retry_after_correct [OF r] r by auto
qed

subsection \<open>Script caching\<close>

text \<open>
  \<open>_eval_script\<close>: EVALSHA with the digest cached in the module, and one reload when it fails, for whatever
  reason (the server has forgotten the script, or the connection broke before or after the server ran
  the command).
\<close>

datatype network = Up | Down | Reply_Lost

record script_state =
  sc_sha :: bool           \<comment> \<open>\<open>_script_sha\<close> is set\<close>
  sc_loaded :: bool        \<comment> \<open>the server knows the script\<close>
  sc_window :: window      \<comment> \<open>the sorted set of the key\<close>

definition script_load :: "network \<Rightarrow> script_state \<Rightarrow> unit res \<times> script_state" where
  "script_load net s =
     (case net of
        Up \<Rightarrow> (Inr (), s\<lparr>sc_loaded := True\<rparr>)
      | Down \<Rightarrow> (Inl ServiceError, s)
      | Reply_Lost \<Rightarrow> (Inl ServiceError, s\<lparr>sc_loaded := True\<rparr>))"

definition evalsha ::
  "network \<Rightarrow> micros \<Rightarrow> micros \<Rightarrow> int \<Rightarrow> string \<Rightarrow> script_state \<Rightarrow> (bool \<times> int \<times> micros option) res \<times> script_state" where
  "evalsha net now window_start max_requests token s =
     (if net = Down \<or> \<not> sc_loaded s then (Inl ServiceError, s)
      else
        (let (r, z) = sliding_window now window_start max_requests token (sc_window s) in
         (if net = Reply_Lost then Inl ServiceError else Inr r, s\<lparr>sc_window := z\<rparr>)))"

definition eval_script ::
  "network \<Rightarrow> network \<Rightarrow> network \<Rightarrow> network \<Rightarrow> micros \<Rightarrow> micros \<Rightarrow> int \<Rightarrow> string \<Rightarrow> script_state \<Rightarrow>
   (bool \<times> int \<times> micros option) res \<times> script_state" where
  "eval_script net1 net2 net3 net4 now window_start max_requests token s =
     (case (if sc_sha s then (Inr (), s) else script_load net1 s) of
        (Inl e, s1) \<Rightarrow> (Inl e, s1)
      | (Inr _, s1) \<Rightarrow>
     (case evalsha net2 now window_start max_requests token (s1\<lparr>sc_sha := True\<rparr>) of
        (Inr r, s2) \<Rightarrow> (Inr r, s2)
      | (Inl _, s2) \<Rightarrow>
     (case script_load net3 s2 of
        (Inl e, s3) \<Rightarrow> (Inl e, s3)
      | (Inr _, s3) \<Rightarrow> evalsha net4 now window_start max_requests token s3)))"

definition added_once :: "string \<Rightarrow> micros \<Rightarrow> window \<Rightarrow> window \<Rightarrow> bool" where
  "added_once token now z z' \<longleftrightarrow> set z' \<subseteq> insert (token, now) (set z) \<and>
     length (filter (\<lambda>e. fst e = token) z') \<le> 1"

lemma sliding_window_added:
  assumes "sliding_window now ws n token z1 = (r, z2)" and "added_once token now z z1"
  shows "added_once token now z z2"
proof -
  have "length (filter (\<lambda>e. fst e = token) (filter p z1)) \<le> length (filter (\<lambda>e. fst e = token) z1)" for p
    by (induction z1) auto
  from le_trans [OF this] show ?thesis using assms
    by (auto simp: added_once_def sliding_window_def Let_def zset_add_def split: if_splits)
qed

lemma evalsha_added:
  "added_once token now z (sc_window s) \<Longrightarrow> added_once token now z (sc_window (snd (evalsha net now ws n token s)))"
  by (auto simp: evalsha_def sliding_window_added split: prod.split)

lemma script_load_window [simp]: "sc_window (snd (script_load net s)) = sc_window s"
  by (simp add: script_load_def split: network.split)

text \<open>
  the caching is transparent: over a connection that works the outcome is the one of the script, whether the digest
  was cached and whether the server had forgotten the script; and whatever breaks at whatever point, the
  request enters the set at most once, although the script may have run twice.
\<close>

theorem eval_script_transparent:
  assumes "\<forall>e \<in> set (sc_window s). fst e \<noteq> token"
  shows "(\<exists>s'. eval_script Up Up Up Up now ws n token s = (Inr (fst (sliding_window now ws n token (sc_window s))), s') \<and>
      sc_window s' = snd (sliding_window now ws n token (sc_window s))) \<and>
    added_once token now (sc_window s) (sc_window (snd (eval_script net1 net2 net3 net4 now ws n token s)))"
proof
  show "\<exists>s'. eval_script Up Up Up Up now ws n token s = (Inr (fst (sliding_window now ws n token (sc_window s))), s') \<and>
      sc_window s' = snd (sliding_window now ws n token (sc_window s))"
    by (cases "sc_sha s"; cases "sc_loaded s")
      (simp_all add: eval_script_def script_load_def evalsha_def split_beta Let_def)
  have "filter (\<lambda>e. fst e = token) (sc_window s) = []" using assms by (auto simp: filter_empty_conv)
  then have start: "added_once token now (sc_window s) (sc_window s)" by (auto simp: added_once_def)
  obtain r1 s1 where 1: "(if sc_sha s then (Inr (), s) else script_load net1 s) = (r1, s1)" by fastforce
  have w1: "sc_window s1 = sc_window s"
    using 1 script_load_window [of net1 s] by (cases "sc_sha s") simp_all
  obtain r2 s2 where 2: "evalsha net2 now ws n token (s1\<lparr>sc_sha := True\<rparr>) = (r2, s2)" by fastforce
  have a2: "added_once token now (sc_window s) (sc_window s2)"
    using evalsha_added [of token now "sc_window s" "s1\<lparr>sc_sha := True\<rparr>" net2 ws n] start by (simp add: 2 w1)
  obtain r3 s3 where 3: "script_load net3 s2 = (r3, s3)" by fastforce
  have w3: "sc_window s3 = sc_window s2" using script_load_window [of net3 s2] by (simp add: 3)
  have a4: "added_once token now (sc_window s) (sc_window (snd (evalsha net4 now ws n token s3)))"
    using evalsha_added [of token now "sc_window s" s3 net4 ws n] a2 by (simp add: w3)
  show "added_once token now (sc_window s) (sc_window (snd (eval_script net1 net2 net3 net4 now ws n token s)))"
    using start a2 a4 w1 w3 by (simp add: eval_script_def 1 2 3 split: sum.split)
qed

theorem eval_script_transparent_witness:
  "added_once ''t'' 5 [] (sc_window (snd (eval_script Up Reply_Lost Up Up 5 0 1 ''t''
     \<lparr>sc_sha = False, sc_loaded = False, sc_window = []\<rparr>)))"
  using eval_script_transparent [of "\<lparr>sc_sha = False, sc_loaded = False, sc_window = []\<rparr>" "''t''" 5 0 1 Up Reply_Lost Up Up]
  by simp

text \<open>In the last slot the second run refuses a request that the first has counted.\<close>

lemma lost_reply_refuses:
  "fst (eval_script Up Reply_Lost Up Up 5 0 1 ''t'' \<lparr>sc_sha = False, sc_loaded = False, sc_window = []\<rparr>) = Inr (False, 1, Some 5)"
  by (simp add: eval_script_def script_load_def evalsha_def sliding_window_def zset_add_def stale_def oldest_score_def)

end
