(* ===== verification/Routes.thy ===== *)
theory Routes
  imports Rate_Limit Sessions Client_IP
begin

text \<open>
  The wiring of the application: the routes the routers declare (path, method, rate limit and
  authentication dependency of every handler), the order in which app/main.py, app/routers/files.py and
  app/routers/secrets.py register them, and what happens to a request before its handler runs: the
  middleware resolves the address, the router picks the route, the limiter of the route runs
  (\<open>dependencies=[...]\<close> come before the parameters) and then the authentication dependency.
  The router of the web framework is a parameter.
\<close>

subsection \<open>Routes\<close>

datatype http_method = GET | POST | PUT | PATCH | DELETE

text \<open>\<open>limiter(max_requests, window_seconds, scope, force_ip)\<close>.\<close>

record limit =
  lm_max :: int
  lm_window :: int
  lm_scope :: string
  lm_force_ip :: bool

text \<open>The \<open>current_user\<close> parameter of a handler: none, \<open>get_current_user_optional\<close>, \<open>get_current_user\<close>, a role.\<close>

datatype gate = Public | Optional_User | Logged_In | Require role

record route =
  rt_method :: http_method
  rt_path :: string
  rt_limit :: "limit option"
  rt_gate :: gate
  rt_handler :: string

definition Route :: "http_method \<Rightarrow> string \<Rightarrow> limit option \<Rightarrow> gate \<Rightarrow> string \<Rightarrow> route" where
  "Route m p l g h = \<lparr>rt_method = m, rt_path = p, rt_limit = l, rt_gate = g, rt_handler = h\<rparr>"

definition limiter :: "int \<Rightarrow> int \<Rightarrow> string \<Rightarrow> bool \<Rightarrow> limit option" where
  "limiter n w scope force_ip = Some \<lparr>lm_max = n, lm_window = w, lm_scope = scope, lm_force_ip = force_ip\<rparr>"

definition require_readonly :: gate where "require_readonly = Require READONLY"
definition require_user :: gate where "require_user = Require USER"
definition require_admin :: gate where "require_admin = Require ADMIN"

subsubsection \<open>app/routers/auth.py\<close>

definition route_register :: route where
  "route_register = Route POST ''/register'' (limiter 10 3600 ''register'' True) Public ''register''"

definition route_login :: route where
  "route_login = Route POST ''/login'' (limiter 20 60 ''login'' False) Public ''login''"

definition route_refresh :: route where
  "route_refresh = Route POST ''/refresh'' (limiter 60 60 ''refresh'' False) Public ''refresh_token_endpoint''"

definition route_logout :: route where
  "route_logout = Route POST ''/logout'' None Logged_In ''logout''"

definition route_me :: route where
  "route_me = Route GET ''/me'' None Logged_In ''me''"

definition route_verification_request :: route where
  "route_verification_request = Route POST ''/verification/request''
     (limiter 5 900 ''email_verification_request'' True) Logged_In ''request_email_verification''"

definition route_verification_confirm :: route where
  "route_verification_confirm = Route POST ''/verification/confirm''
     (limiter 10 900 ''email_verification_confirm'' True) Logged_In ''confirm_email_verification''"

subsubsection \<open>app/routers/files.py, file_versions.py\<close>

definition route_create_file :: route where
  "route_create_file = Route POST ''/files'' None require_user ''create_file_secret''"

definition route_download :: route where
  "route_download = Route GET ''/{secret_id}/file'' None Optional_User ''download_file_secret''"

definition route_update_file :: route where
  "route_update_file = Route PUT ''/{secret_id}/file'' None require_user ''update_file_secret''"

subsubsection \<open>app/routers/secrets.py, secret_versions.py, secret_access.py, secret_views.py\<close>

definition route_create_secret :: route where
  "route_create_secret = Route POST '''' (limiter 30 60 ''secret_create'' False) require_user ''create_secret''"

definition route_get_secret :: route where
  "route_get_secret = Route POST ''/{secret_id}'' (limiter 100 60 ''secret_retrieve'' False) Optional_User ''get_secret''"

definition route_get_secret_browser :: route where
  "route_get_secret_browser = Route GET ''/{secret_id}'' (limiter 100 60 ''secret_retrieve'' False) Optional_User
     ''get_secret_browser''"

definition route_secret_info :: route where
  "route_secret_info = Route GET ''/{secret_id}/info'' None Public ''secret_info''"

definition route_list_secrets :: route where
  "route_list_secrets = Route GET '''' None require_user ''list_secrets''"

definition route_delete_secret :: route where
  "route_delete_secret = Route DELETE ''/{secret_id}'' None require_user ''delete_secret''"

definition route_rotate_key :: route where
  "route_rotate_key = Route POST ''/{secret_id}/rotate-key'' (limiter 10 60 ''rotate_key'' False) require_user
     ''rotate_secret_key''"

definition route_view_page :: route where
  "route_view_page = Route GET ''/view/{secret_id}'' None Public ''secret_view_page''"

definition route_update_secret :: route where
  "route_update_secret = Route PUT ''/{secret_id}'' None require_user ''update_secret''"

definition route_list_versions :: route where
  "route_list_versions = Route GET ''/{secret_id}/versions'' None require_user ''list_secret_versions''"

definition route_restore_version :: route where
  "route_restore_version = Route POST ''/{secret_id}/versions/{version}/restore'' None require_user
     ''restore_secret_version''"

definition route_location_policy :: route where
  "route_location_policy = Route PUT ''/{secret_id}/access-policy'' None require_user ''update_location_policy''"

definition route_secret_views :: route where
  "route_secret_views = Route GET ''/{secret_id}/views'' None Logged_In ''secret_views''"

subsubsection \<open>app/routers/quotas.py, admin.py, stats.py, and app/main.py\<close>

definition route_get_quota :: route where
  "route_get_quota = Route GET ''/quota'' None require_user ''get_quota''"

definition route_update_quota :: route where
  "route_update_quota = Route PATCH ''/admin/users/{user_id}/quota'' None require_admin ''update_quota''"

definition route_cleanup :: route where
  "route_cleanup = Route DELETE ''/cleanup'' None require_admin ''cleanup_expired''"

definition route_audit_logs :: route where
  "route_audit_logs = Route GET ''/audit-logs'' None require_admin ''audit_logs''"

definition route_list_users :: route where
  "route_list_users = Route GET ''/users'' None require_admin ''list_users''"

definition route_change_role :: route where
  "route_change_role = Route PATCH ''/users/{user_id}/role'' None require_admin ''change_role''"

definition route_switch_user :: route where
  "route_switch_user = Route PATCH ''/users/{user_id}/switch'' None require_admin ''switch_user_activation''"

definition route_stats :: route where
  "route_stats = Route GET ''/stats'' None Public ''get_stats''"

definition route_root :: route where
  "route_root = Route GET ''/'' None Public ''root''"

definition route_health :: route where
  "route_health = Route GET ''/health'' None Public ''health''"

subsection \<open>Registration\<close>

text \<open>A router puts its prefix before the paths of its routes, those of the routers it includes too.\<close>

definition with_prefix :: "string \<Rightarrow> route list \<Rightarrow> route list" where
  "with_prefix prefix rs = map (\<lambda>r. r\<lparr>rt_path := prefix @ rt_path r\<rparr>) rs"

definition auth_router :: "route list" where
  "auth_router = with_prefix ''/api/auth''
     [route_register, route_login, route_refresh, route_logout, route_me, route_verification_request,
      route_verification_confirm]"

definition file_versions_router :: "route list" where
  "file_versions_router = [route_update_file]"

definition files_router :: "route list" where
  "files_router = with_prefix ''/api/secrets'' ([route_create_file, route_download] @ file_versions_router)"

definition secret_versions_router :: "route list" where
  "secret_versions_router = [route_update_secret, route_list_versions, route_restore_version]"

definition secret_access_router :: "route list" where
  "secret_access_router = [route_location_policy]"

definition secret_views_router :: "route list" where
  "secret_views_router = [route_secret_views]"

definition secrets_router :: "route list" where
  "secrets_router = with_prefix ''/api/secrets''
     ([route_create_secret, route_get_secret, route_get_secret_browser, route_secret_info, route_list_secrets,
       route_delete_secret, route_rotate_key, route_view_page] @
      secret_versions_router @ secret_access_router @ secret_views_router)"

definition quotas_router :: "route list" where
  "quotas_router = with_prefix ''/api'' [route_get_quota, route_update_quota]"

definition admin_router :: "route list" where
  "admin_router = with_prefix ''/api/admin''
     [route_cleanup, route_audit_logs, route_list_users, route_change_role, route_switch_user]"

definition stats_router :: "route list" where
  "stats_router = with_prefix ''/api'' [route_stats]"

definition app_routes :: "route list" where
  "app_routes = auth_router @ files_router @ secrets_router @ quotas_router @ admin_router @ stats_router @
     [route_root, route_health]"

subsection \<open>The router of the framework\<close>

text \<open>The parts of a path between its slashes; a part of a template in braces is a parameter.\<close>

fun parts :: "string \<Rightarrow> string list" where
  "parts [] = [[]]"
| "parts (c # cs) =
     (if c = CHR ''/'' then [] # parts cs
      else case parts cs of [] \<Rightarrow> [[c]] | p # ps \<Rightarrow> (c # p) # ps)"

definition parameter :: "string \<Rightarrow> bool" where
  "parameter t \<longleftrightarrow> (case t of c # _ \<Rightarrow> c = CHR ''{'' | [] \<Rightarrow> False)"

text \<open>A parameter stands for any part that is not empty.\<close>

definition part_matches :: "string \<Rightarrow> string \<Rightarrow> bool" where
  "part_matches t s \<longleftrightarrow> (if parameter t then s \<noteq> [] else s = t)"

definition path_matches :: "string \<Rightarrow> string \<Rightarrow> bool" where
  "path_matches template path \<longleftrightarrow> list_all2 part_matches (parts template) (parts path)"

definition route_matches :: "http_method \<Rightarrow> string \<Rightarrow> route \<Rightarrow> bool" where
  "route_matches m path r \<longleftrightarrow> rt_method r = m \<and> path_matches (rt_path r) path"

text \<open>What the code relies on: the first route registered that matches serves the request.\<close>

record framework =
  fw_select :: "route list \<Rightarrow> http_method \<Rightarrow> string \<Rightarrow> route option"
  fw_no_route :: "http_method \<Rightarrow> string \<Rightarrow> exc"

definition routing_ok :: "framework \<Rightarrow> bool" where
  "routing_ok F \<longleftrightarrow> (\<forall>rs m path. fw_select F rs m path = List.find (route_matches m path) rs)"

subsection \<open>Before the handler\<close>

record http_request =
  hr_method :: http_method
  hr_path :: string
  hr_peer :: "string option"
  hr_forwarded :: "string option"
  hr_bearer :: "string option"
  hr_meta :: request

text \<open>Nothing in the sources sets \<open>request.state.user_id\<close>: the limiter reads None.\<close>

definition run_limiter ::
  "string option \<Rightarrow> request \<Rightarrow> string \<Rightarrow> limit option \<Rightarrow> rate_store option \<Rightarrow> unit res \<times> rate_store option" where
  "run_limiter host rq token l redis =
     (case l of
        None \<Rightarrow> (Inr (), redis)
      | Some l \<Rightarrow>
          rate_limit (rq_now rq) token (limiter_key (lm_scope l) (lm_force_ip l) None (Some (rq_ip rq)) host)
            (lm_max l) (lm_window l) redis)"

definition authenticate ::
  "platform \<Rightarrow> auth_lib \<Rightarrow> request \<Rightarrow> gate \<Rightarrow> string option \<Rightarrow> database \<Rightarrow> current_user option res" where
  "authenticate P A rq g credentials db =
     (case g of
        Public \<Rightarrow> Inr None
      | Optional_User \<Rightarrow> get_current_user_optional P A rq credentials db
      | Logged_In \<Rightarrow> map_sum id Some (get_current_user P A rq credentials db)
      | Require r \<Rightarrow> map_sum id Some (bind_res (get_current_user P A rq credentials db) (require_role r)))"

text \<open>The route whose handler runs, with the user and the address it is given.\<close>

definition admit ::
  "framework \<Rightarrow> platform \<Rightarrow> auth_lib \<Rightarrow> http_request \<Rightarrow> string \<Rightarrow> database \<Rightarrow> rate_store option \<Rightarrow>
   (route \<times> current_user option \<times> string) res \<times> rate_store option" where
  "admit F P A h token db redis =
     (case resolve_client_ip P (hr_peer h) (hr_forwarded h) of
        Inl e \<Rightarrow> (Inl e, redis)
      | Inr ip \<Rightarrow>
     (case fw_select F app_routes (hr_method h) (hr_path h) of
        None \<Rightarrow> (Inl (fw_no_route F (hr_method h) (hr_path h)), redis)
      | Some r \<Rightarrow>
          (let rq = (hr_meta h)\<lparr>rq_ip := ip\<rparr> in
           case run_limiter (hr_peer h) rq token (rt_limit r) redis of
             (Inl e, redis1) \<Rightarrow> (Inl e, redis1)
           | (Inr _, redis1) \<Rightarrow>
               (map_sum id (\<lambda>u. (r, u, ip)) (authenticate P A rq (rt_gate r) (hr_bearer h) db), redis1))))"

subsection \<open>Every route is reached\<close>

text \<open>The path of a route with its parameters filled in.\<close>

fun fill :: "string list \<Rightarrow> string list \<Rightarrow> string list" where
  "fill [] args = []"
| "fill (t # ts) args =
     (if parameter t \<and> args \<noteq> [] then hd args # fill ts (tl args) else t # fill ts args)"

fun slash_join :: "string list \<Rightarrow> string" where
  "slash_join [] = []"
| "slash_join [p] = p"
| "slash_join (p # q # ps) = p @ ''/'' @ slash_join (q # ps)"

definition url :: "route \<Rightarrow> string list \<Rightarrow> string" where
  "url r args = slash_join (fill (parts (rt_path r)) args)"

text \<open>What the clients fill in: identifiers and version numbers.\<close>

definition id_char :: "char \<Rightarrow> bool" where
  "id_char c \<longleftrightarrow> c \<in> set ''0123456789abcdef-''"

definition id_text :: "string \<Rightarrow> bool" where
  "id_text s \<longleftrightarrow> s \<noteq> [] \<and> list_all id_char s"

lemma parts_nonempty [simp]: "parts s \<noteq> []"
  by (induction s) (auto split: list.split)

lemma parts_no_slash: "p \<in> set (parts s) \<Longrightarrow> CHR ''/'' \<notin> set p"
proof (induction s arbitrary: p)
  case (Cons c cs)
  show ?case
  proof (cases "c = CHR ''/''")
    case True
    with Cons show ?thesis by auto
  next
    case False
    obtain q qs where "parts cs = q # qs" by (cases "parts cs") simp_all
    with Cons False show ?thesis by auto
  qed
qed simp

lemma parts_append: "CHR ''/'' \<notin> set p \<Longrightarrow> parts (p @ CHR ''/'' # s) = p # parts s"
  by (induction p) auto

lemma parts_plain: "CHR ''/'' \<notin> set p \<Longrightarrow> parts p = [p]"
  by (induction p) auto

lemma parts_join: "ps \<noteq> [] \<Longrightarrow> \<forall>p \<in> set ps. CHR ''/'' \<notin> set p \<Longrightarrow> parts (slash_join ps) = ps"
  by (induction ps rule: slash_join.induct) (simp_all add: parts_plain parts_append)

lemma fill_nonempty [simp]: "fill ts args = [] \<longleftrightarrow> ts = []"
  by (cases ts) simp_all

lemma fill_no_slash:
  "\<forall>t \<in> set ts. CHR ''/'' \<notin> set t \<Longrightarrow> \<forall>a \<in> set args. CHR ''/'' \<notin> set a \<Longrightarrow> \<forall>p \<in> set (fill ts args). CHR ''/'' \<notin> set p"
proof (induction ts args rule: fill.induct)
  case (2 t ts args)
  have tl: "\<forall>a \<in> set (tl args). CHR ''/'' \<notin> set a" using 2(4) by (cases args) simp_all
  show ?case
  proof (cases "parameter t \<and> args \<noteq> []")
    case True
    then have "hd args \<in> set args" by simp
    then show ?thesis using 2(1) [OF True _ tl] 2(3,4) True by simp
  next
    case False
    then have "fill (t # ts) args = t # fill ts args" by (simp only: fill.simps if_False)
    then show ?thesis using 2(2) [OF False _ 2(4)] 2(3) by simp
  qed
qed simp

lemma id_text_no_slash: "id_text a \<Longrightarrow> CHR ''/'' \<notin> set a"
  by (auto simp: id_text_def id_char_def list_all_iff)

lemma parts_url:
  assumes "\<forall>a \<in> set args. id_text a" shows "parts (url r args) = fill (parts (rt_path r)) args"
  unfolding url_def
proof (rule parts_join)
  have "\<forall>t \<in> set (parts (rt_path r)). CHR ''/'' \<notin> set t" by (simp add: parts_no_slash)
  then show "\<forall>p \<in> set (fill (parts (rt_path r)) args). CHR ''/'' \<notin> set p"
    using assms by (intro fill_no_slash) (simp_all add: id_text_no_slash)
qed simp

text \<open>A literal part that no identifier can be taken for.\<close>

definition plain_literal :: "string \<Rightarrow> bool" where
  "plain_literal t \<longleftrightarrow> parameter t \<or> t = [] \<or> \<not> list_all id_char t"

lemma matches_fill:
  assumes "\<forall>t \<in> set ts'. plain_literal t" and "\<forall>a \<in> set args. id_text a"
  shows "list_all2 part_matches ts' (fill ts args) = list_all2 part_matches ts' ts"
  using assms
proof (induction ts args arbitrary: ts' rule: fill.induct)
  case (2 t ts args)
  show ?case
  proof (cases ts')
    case (Cons t' ts'')
    show ?thesis
    proof (cases "parameter t \<and> args \<noteq> []")
      case True
      then have id: "id_text (hd args)" "\<forall>a \<in> set (tl args). id_text a"
        using 2(4) by (simp_all add: list.set_sel(2))
      have "list_all2 part_matches ts'' (fill ts (tl args)) = list_all2 part_matches ts'' ts"
        using 2(1) [OF True _ id(2)] 2(3) Cons by simp
      moreover have "part_matches t' (hd args) = part_matches t' t"
        using True id(1) 2(3) Cons by (auto simp: part_matches_def plain_literal_def id_text_def parameter_def)
      ultimately show ?thesis using True by (simp add: Cons)
    next
      case False
      have "list_all2 part_matches ts'' (fill ts args) = list_all2 part_matches ts'' ts"
        using 2(2) [OF False _ 2(4)] 2(3) Cons by simp
      moreover have "fill (t # ts) args = t # fill ts args" using False by (simp only: fill.simps if_False)
      ultimately show ?thesis by (simp only: Cons list_all2_Cons)
    qed
  qed (simp split: list.split)
qed simp

lemma app_routes_plain: "list_all (\<lambda>r. list_all plain_literal (parts (rt_path r))) app_routes"
  by code_simp

lemma app_routes_first: "list_all (\<lambda>r. List.find (route_matches (rt_method r) (rt_path r)) app_routes = Some r) app_routes"
  by code_simp

lemma find_cong: "(\<And>x. x \<in> set xs \<Longrightarrow> p x = q x) \<Longrightarrow> List.find p xs = List.find q xs"
  by (induction xs) auto

lemma select_route:
  assumes "routing_ok F" and "r \<in> set app_routes" and "\<forall>a \<in> set args. id_text a"
  shows "fw_select F app_routes (rt_method r) (url r args) = Some r"
proof -
  have "route_matches (rt_method r) (url r args) r' = route_matches (rt_method r) (rt_path r) r'"
    if "r' \<in> set app_routes" for r'
  proof -
    have "\<forall>t \<in> set (parts (rt_path r')). plain_literal t"
      using app_routes_plain that by (simp add: list_all_iff)
    from matches_fill [OF this assms(3)] show ?thesis
      by (simp add: route_matches_def path_matches_def parts_url [OF assms(3)])
  qed
  then have "List.find (route_matches (rt_method r) (url r args)) app_routes =
      List.find (route_matches (rt_method r) (rt_path r)) app_routes" by (rule find_cong)
  then show ?thesis using assms(1,2) app_routes_first by (simp add: routing_ok_def list_all_iff)
qed

text \<open>C27: no route is hidden by one registered before it: a request with the method of a route and its path, filled
  with identifiers and version numbers, is served by that route.
\<close>

theorem route_reached:
  assumes "routing_ok F" and "r \<in> set app_routes" and "\<forall>a \<in> set args. id_text a"
  shows "fw_select F app_routes (rt_method r) (url r args) = Some r"
  using assms by (rule select_route)

lemma id_text_digits: "ds \<noteq> [] \<Longrightarrow> \<forall>d \<in> set ds. d < 16 \<Longrightarrow> id_text (map digit_char ds)"
proof -
  have all: "list_all (\<lambda>d. id_char (digit_char d)) [0..<16]" by code_simp
  assume "ds \<noteq> []" "\<forall>d \<in> set ds. d < 16"
  then show ?thesis using all by (auto simp: id_text_def list_all_iff)
qed

lemma id_text_uuid [simp]: "id_text (uuid_str u)"
proof -
  let ?h = "hex_fixed 32 (unat u)"
  have "?h \<noteq> []" by (metis hex_fixed_def length_digits_be length_map list.size(3) zero_neq_numeral)
  have h: "list_all id_char ?h"
    using id_text_digits [of "digits_be 16 32 (unat u)"] set_digits_be [of 16 _ 32 "unat u"]
    by (simp add: hex_fixed_def id_text_def list_all_iff) (metis length_digits_be list.set_cases list.size(3) zero_neq_numeral)
  have "id_char CHR ''-''" by code_simp
  then show ?thesis using h
    by (auto simp: id_text_def uuid_str_def Let_def list_all_iff dest: in_set_takeD in_set_dropD)
qed

lemma id_text_number [simp]: "id_text (py_str_int (int n))"
  using id_text_digits [of "nat_digits n"] nat_digits_props [of n] by (fastforce simp: py_str_int_def)

subsection \<open>No handler runs for a caller its gate refuses\<close>

lemma admit_Inr:
  assumes "routing_ok F" and "admit F P A h token db redis = (Inr (r, u, ip), redis')"
  shows "r \<in> set app_routes" "route_matches (hr_method h) (hr_path h) r"
    "resolve_client_ip P (hr_peer h) (hr_forwarded h) = Inr ip"
    "authenticate P A ((hr_meta h)\<lparr>rq_ip := ip\<rparr>) (rt_gate r) (hr_bearer h) db = Inr u"
proof -
  have f: "List.find (route_matches (hr_method h) (hr_path h)) app_routes = Some r"
      "resolve_client_ip P (hr_peer h) (hr_forwarded h) = Inr ip"
      "authenticate P A ((hr_meta h)\<lparr>rq_ip := ip\<rparr>) (rt_gate r) (hr_bearer h) db = Inr u"
    using assms by (auto simp: admit_def routing_ok_def Let_def map_sum_def split: sum.splits option.splits prod.splits)
  then show "resolve_client_ip P (hr_peer h) (hr_forwarded h) = Inr ip"
      "authenticate P A ((hr_meta h)\<lparr>rq_ip := ip\<rparr>) (rt_gate r) (hr_bearer h) db = Inr u" by simp_all
  show "r \<in> set app_routes" "route_matches (hr_method h) (hr_path h) r"
    using f(1) by (auto simp: find_Some_iff)
qed

text \<open>The account behind a request, with the session its token names.\<close>

definition signed_in :: "request \<Rightarrow> database \<Rightarrow> current_user option \<Rightarrow> bool" where
  "signed_in rq db u \<longleftrightarrow> (\<exists>row \<in> set (users db). u = Some (current_user_of row) \<and> u_active row \<and>
     (\<exists>s \<in> set (sessions db). ss_user s = u_id row \<and> live_session (rq_txn rq) s))"

lemma get_current_user_signed_in:
  assumes "get_current_user P A rq credentials db = Inr user" shows "signed_in rq db (Some user)"
proof -
  obtain t where "credentials = Some t" using assms by (cases credentials) (simp_all add: get_current_user_def)
  then obtain u s where u: "user_of db (u_id u) = Some u" "u_active u" "user = current_user_of u"
      "s \<in> set (sessions db)" "ss_user s = u_id u" "\<not> ss_revoked s" "rq_txn rq < ss_expires s"
    using get_current_user_eq [of P A rq t db user] assms by blast
  moreover from u(1) have "u \<in> set (users db)" using row_of_Some unfolding user_of_def by fastforce
  ultimately show ?thesis by (auto simp: signed_in_def live_session_def)
qed

lemma authenticate_Inr:
  assumes "authenticate P A rq g credentials db = Inr u"
  shows "g \<noteq> Public \<and> g \<noteq> Optional_User \<Longrightarrow> signed_in rq db u"
    and "g = Require m \<Longrightarrow> \<exists>user r. u = Some user \<and> role_from_str (cu_role user) = Some r \<and> m \<le> r"
  using assms get_current_user_signed_in [of P A rq credentials db]
  by (cases g; auto simp: authenticate_def map_sum_def bind_res_eq_Inr require_role_Inr split: sum.splits)+

definition path_under :: "string \<Rightarrow> string \<Rightarrow> bool" where
  "path_under base path \<longleftrightarrow> take (length (parts base)) (parts path) = parts base"

lemma path_matches_under:
  "path_matches template path \<Longrightarrow> path_under base path \<Longrightarrow>
     list_all2 part_matches (take (length (parts base)) (parts template)) (parts base)"
  unfolding path_matches_def path_under_def by (metis list_all2_takeI)

definition open_handlers :: "string list" where
  "open_handlers =
     [''register'', ''login'', ''refresh_token_endpoint'', ''get_secret'', ''get_secret_browser'', ''secret_info'',
      ''download_file_secret'', ''secret_view_page'', ''get_stats'', ''root'', ''health'']"

lemma app_routes_gates:
  "list_all (\<lambda>r. (rt_gate r = Public \<or> rt_gate r = Optional_User \<longrightarrow> rt_handler r \<in> set open_handlers) \<and>
     (list_all2 part_matches (take (length (parts ''/api/admin'')) (parts (rt_path r))) (parts ''/api/admin'') \<longrightarrow>
        rt_gate r = Require ADMIN) \<and>
     (list_all2 part_matches (take (length (parts ''/api/secrets'')) (parts (rt_path r))) (parts ''/api/secrets'') \<longrightarrow>
        rt_method r \<noteq> GET \<and> rt_handler r \<noteq> ''get_secret'' \<longrightarrow> rt_gate r = Require USER)) app_routes"
  by code_simp

lemma ADMIN_le [simp]: "ADMIN \<le> r \<longleftrightarrow> r = ADMIN"
  by (cases r) (simp_all add: less_eq_role_def role_value_def)


subsection \<open>How often a handler runs\<close>

text \<open>
  Requests in the order the limiter sees them, each with the random token of the limiter and the database it
  meets; the handlers that run, with time and address.
\<close>

fun serve_all ::
  "framework \<Rightarrow> platform \<Rightarrow> auth_lib \<Rightarrow> (http_request \<times> string \<times> database) list \<Rightarrow> rate_store option \<Rightarrow>
   (micros \<times> string \<times> route) list" where
  "serve_all F P A [] redis = []"
| "serve_all F P A ((h, token, db) # xs) redis =
     (case admit F P A h token db redis of
        (Inl _, redis1) \<Rightarrow> serve_all F P A xs redis1
      | (Inr (r, u, ip), redis1) \<Rightarrow> (rq_now (hr_meta h), ip, r) # serve_all F P A xs redis1)"

definition limited_by :: "string \<Rightarrow> string \<Rightarrow> micros \<times> string \<times> route \<Rightarrow> bool" where
  "limited_by scope ip x \<longleftrightarrow> fst (snd x) = ip \<and> map_option lm_scope (rt_limit (snd (snd x))) = Some scope"

text \<open>The key and the limit of a request.\<close>

definition limiter_call :: "framework \<Rightarrow> platform \<Rightarrow> http_request \<Rightarrow> (string \<times> limit) option" where
  "limiter_call F P h =
     (case resolve_client_ip P (hr_peer h) (hr_forwarded h) of
        Inl e \<Rightarrow> None
      | Inr ip \<Rightarrow>
          (case fw_select F app_routes (hr_method h) (hr_path h) of
             None \<Rightarrow> None
           | Some r \<Rightarrow> map_option (\<lambda>l. (limiter_key (lm_scope l) (lm_force_ip l) None (Some ip) (hr_peer h), l)) (rt_limit r)))"

lemma app_routes_limits:
  "list_all (\<lambda>r. case rt_limit r of None \<Rightarrow> True | Some l \<Rightarrow>
     lm_scope l \<noteq> [] \<and> list_all (\<lambda>c. c \<noteq> CHR '':'') (lm_scope l) \<and> 0 < lm_max l \<and>
     list_all (\<lambda>r'. case rt_limit r' of None \<Rightarrow> True | Some l' \<Rightarrow> lm_scope l' = lm_scope l \<longrightarrow> l' = l) app_routes) app_routes"
  by code_simp

lemma limiter_key_eq:
  "scope \<noteq> [] \<Longrightarrow> limiter_key scope f None ip host = ''phantom:ratelimit:'' @ scope @ CHR '':'' #
     (''ip:'' @ (if truthy ip then the ip else case host of Some h \<Rightarrow> h | None \<Rightarrow> ''unknown''))"
  by (simp add: limiter_key_def)

lemma colon_split:
  "CHR '':'' \<notin> set a \<Longrightarrow> CHR '':'' \<notin> set b \<Longrightarrow> a @ CHR '':'' # x = b @ CHR '':'' # y \<Longrightarrow> a = b"
proof (induction a arbitrary: b)
  case Nil
  then show ?case by (cases b) auto
next
  case (Cons c a)
  then show ?case by (cases b) auto
qed

lemma limiter_call_Some:
  assumes "routing_ok F" and "limiter_call F P h = Some (k, l)"
  shows "\<exists>r \<in> set app_routes. rt_limit r = Some l"
    and "\<exists>ip. k = limiter_key (lm_scope l) (lm_force_ip l) None (Some ip) (hr_peer h)"
  using assms by (auto simp: limiter_call_def routing_ok_def find_Some_iff split: sum.splits option.splits)

lemma limit_facts:
  assumes "r \<in> set app_routes" and "rt_limit r = Some l"
  shows "lm_scope l \<noteq> []" "CHR '':'' \<notin> set (lm_scope l)" "0 < lm_max l"
proof -
  have "lm_scope l \<noteq> [] \<and> list_all (\<lambda>c. c \<noteq> CHR '':'') (lm_scope l) \<and> 0 < lm_max l"
    using bspec [OF app_routes_limits [unfolded list_all_iff [of _ app_routes]] assms(1)]
    unfolding assms(2) option.case by blast
  then show "lm_scope l \<noteq> []" "CHR '':'' \<notin> set (lm_scope l)" "0 < lm_max l"
    by (auto simp: list_all_iff)
qed

lemma same_scope:
  assumes "r \<in> set app_routes" "rt_limit r = Some l" "r' \<in> set app_routes" "rt_limit r' = Some l'"
    and "lm_scope l' = lm_scope l"
  shows "l' = l"
proof -
  have "\<forall>r' \<in> set app_routes. case rt_limit r' of None \<Rightarrow> True | Some l' \<Rightarrow> lm_scope l' = lm_scope l \<longrightarrow> l' = l"
    using bspec [OF app_routes_limits [unfolded list_all_iff [of _ app_routes]] assms(1)]
    unfolding assms(2) option.case by blast
  from bspec [OF this assms(3)] show ?thesis using assms(5) unfolding assms(4) option.case by blast
qed

lemma same_key_same_limit:
  assumes "routing_ok F" and "limiter_call F P h = Some (limiter_key (lm_scope l) f None ip host, l')"
    and "r \<in> set app_routes" and "rt_limit r = Some l"
  shows "l' = l"
proof -
  obtain r' where r': "r' \<in> set app_routes" "rt_limit r' = Some l'" using limiter_call_Some(1) [OF assms(1,2)] by blast
  note s = limit_facts [OF assms(3,4)] and s' = limit_facts [OF r']
  have "lm_scope l' = lm_scope l"
    using limiter_call_Some(2) [OF assms(1,2)] colon_split [OF s'(2) s(2)]
    by (simp add: limiter_key_eq s(1) s'(1)) metis
  then show ?thesis using same_scope [OF assms(3,4) r'] by simp
qed

lemma admit_limiter:
  assumes "admit F P A h token db (Some st) = (res, redis')"
  shows "limiter_call F P h = None \<Longrightarrow> redis' = Some st \<and> (\<forall>r u ip. res = Inr (r, u, ip) \<longrightarrow> rt_limit r = None)"
    and "limiter_call F P h = Some (k, l) \<Longrightarrow>
      \<exists>acc c old z. sliding_window (rq_now (hr_meta h)) (rq_now (hr_meta h) - lm_window l * second) (lm_max l) token (st k) =
        ((acc, c, old), z) \<and> redis' = Some (st(k := z)) \<and>
        (\<forall>r u ip. res = Inr (r, u, ip) \<longrightarrow> acc \<and> rt_limit r = Some l \<and>
           k = limiter_key (lm_scope l) (lm_force_ip l) None (Some ip) (hr_peer h))"
proof -
  let ?now = "rq_now (hr_meta h)"
  assume "limiter_call F P h = None"
  then show "redis' = Some st \<and> (\<forall>r u ip. res = Inr (r, u, ip) \<longrightarrow> rt_limit r = None)"
    using assms by (auto simp: limiter_call_def admit_def run_limiter_def map_sum_def split: sum.splits option.splits)
next
  let ?now = "rq_now (hr_meta h)"
  assume c: "limiter_call F P h = Some (k, l)"
  obtain ip r where r: "resolve_client_ip P (hr_peer h) (hr_forwarded h) = Inr ip"
      "fw_select F app_routes (hr_method h) (hr_path h) = Some r" "rt_limit r = Some l"
      "k = limiter_key (lm_scope l) (lm_force_ip l) None (Some ip) (hr_peer h)"
    using c by (auto simp: limiter_call_def split: sum.splits option.splits)
  obtain acc c old z where w: "sliding_window ?now (?now - lm_window l * second) (lm_max l) token (st k) = ((acc, c, old), z)"
    by (metis prod.exhaust)
  show "\<exists>acc c old z. sliding_window ?now (?now - lm_window l * second) (lm_max l) token (st k) = ((acc, c, old), z) \<and>
      redis' = Some (st(k := z)) \<and> (\<forall>r u ip. res = Inr (r, u, ip) \<longrightarrow> acc \<and> rt_limit r = Some l \<and>
        k = limiter_key (lm_scope l) (lm_force_ip l) None (Some ip) (hr_peer h))"
  proof (intro exI conjI)
    show "sliding_window ?now (?now - lm_window l * second) (lm_max l) token (st k) = ((acc, c, old), z)" by (rule w)
    have l: "run_limiter (hr_peer h) ((hr_meta h)\<lparr>rq_ip := ip\<rparr>) token (Some l) (Some st) =
        (if acc then Inr () else Inl (too_many ?now (lm_max l) (lm_window l) (retry_after_of old ?now (lm_window l))),
         Some (st(k := z)))"
      using w by (simp add: r(4) run_limiter_def rate_limit_def)
    show "redis' = Some (st(k := z))"
      using assms by (auto simp: admit_def r(1-3) l split: if_splits)
    show "\<forall>r u ip. res = Inr (r, u, ip) \<longrightarrow> acc \<and> rt_limit r = Some l \<and>
        k = limiter_key (lm_scope l) (lm_force_ip l) None (Some ip) (hr_peer h)"
      using assms r(3) by (auto simp: admit_def r(1,2,4) l map_sum_def split: if_splits sum.splits)
  qed
qed

text \<open>The requests that share a key of the limiter.\<close>

definition calls_of :: "framework \<Rightarrow> platform \<Rightarrow> string \<Rightarrow> (http_request \<times> string \<times> database) list \<Rightarrow> (micros \<times> string) list" where
  "calls_of F P k xs =
     map (\<lambda>(h, token, _). (rq_now (hr_meta h), token)) (filter (\<lambda>(h, _). map_option fst (limiter_call F P h) = Some k) xs)"

lemma limited_run_le:
  fixes l host ip
  defines "k \<equiv> limiter_key (lm_scope l) False None (Some ip) host"
  assumes F: "routing_ok F" and r: "r \<in> set app_routes" "rt_limit r = Some l" and ip: "ip \<noteq> []"
  shows "in_window t w (map fst (filter (limited_by (lm_scope l) ip) (serve_all F P A xs (Some st)))) \<le>
    in_window t w (accepted_times (lm_max l) (lm_window l) (calls_of F P k xs) (st k))"
proof (induction xs arbitrary: st)
  case (Cons x xs)
  obtain h token db where x: "x = (h, token, db)" by (cases x)
  obtain res redis where a: "admit F P A h token db (Some st) = (res, redis)" by fastforce
  let ?q = "limited_by (lm_scope l) ip"
  note key = limiter_key_eq [OF limit_facts(1) [OF r]]
  show ?case
  proof (cases "limiter_call F P h")
    case None
    note n = admit_limiter(1) [OF a None]
    have "filter ?q (serve_all F P A (x # xs) (Some st)) = filter ?q (serve_all F P A xs (Some st))"
      using n by (auto simp: x a limited_by_def split: sum.split)
    then show ?thesis using Cons [of st] None by (simp add: calls_of_def x)
  next
    case (Some kl)
    obtain k' l' where c: "limiter_call F P h = Some (k', l')" using Some by (cases kl) simp
    obtain acc c' old z where w: "sliding_window (rq_now (hr_meta h)) (rq_now (hr_meta h) - lm_window l' * second) (lm_max l')
        token (st k') = ((acc, c', old), z)" "redis = Some (st(k' := z))"
      and got: "\<forall>r u ip. res = Inr (r, u, ip) \<longrightarrow> acc \<and> rt_limit r = Some l' \<and>
           k' = limiter_key (lm_scope l') (lm_force_ip l') None (Some ip) (hr_peer h)"
      using admit_limiter(2) [OF a c] by blast
    show ?thesis
    proof (cases "k' = k")
      case True
      have l': "l' = l" using same_key_same_limit [OF F _ r] c True unfolding k_def by blast
      have calls: "calls_of F P k (x # xs) = (rq_now (hr_meta h), token) # calls_of F P k xs"
        by (simp add: calls_of_def x c True)
      have ih: "in_window t w (map fst (filter ?q (serve_all F P A xs redis))) \<le>
          in_window t w (accepted_times (lm_max l) (lm_window l) (calls_of F P k xs) z)"
        using Cons [of "st(k := z)"] unfolding w(2) True by (simp only: fun_upd_same)
      have times: "accepted_times (lm_max l) (lm_window l) (calls_of F P k (x # xs)) (st k) =
          (if acc then [rq_now (hr_meta h)] else []) @ accepted_times (lm_max l) (lm_window l) (calls_of F P k xs) z"
        using w(1) by (simp add: calls l' True)
      show ?thesis
      proof (cases res)
        case (Inl e)
        then show ?thesis using ih times by (simp add: x a)
      next
        case (Inr b)
        then obtain r' u ip' where res: "res = Inr (r', u, ip')" by (cases b) simp
        have acc by (metis got res)
        then show ?thesis using ih res times \<open>acc\<close> by (simp add: x a)
      qed
    next
      case False
      have "filter ?q (serve_all F P A (x # xs) (Some st)) = filter ?q (serve_all F P A xs (Some (st(k' := z))))"
        using got False ip by (auto simp: x a w(2) limited_by_def k_def key split: sum.split)
      moreover have "calls_of F P k (x # xs) = calls_of F P k xs" using False by (simp add: calls_of_def x c)
      moreover have "(st(k' := z)) k = st k" using False by (intro fun_upd_other) simp
      ultimately show ?thesis using Cons [of "st(k' := z)"] by (simp only:)
    qed
  qed
qed simp


text \<open>
  The download of a file takes the same password as the retrieval of a text, and has no limiter: whatever the
  store holds, every anonymous attempt reaches the handler, and leaves no trace in the store.
\<close>

lemma file_password_unlimited:
  assumes "routing_ok F" and "ip_text_ok P" and "hr_method h = GET" and "hr_path h = url r [uuid_str u]"
    and "r = route_download\<lparr>rt_path := ''/api/secrets/{secret_id}/file''\<rparr>" and "hr_bearer h = None"
  shows "\<exists>ip. admit F P A h token db redis = (Inr (r, None, ip), redis)"
proof -
  have "r \<in> set app_routes" unfolding assms(5) by code_simp
  moreover have "rt_method r = GET" by (simp add: assms(5) route_download_def Route_def)
  ultimately have sel: "fw_select F app_routes (hr_method h) (hr_path h) = Some r"
    using select_route [OF assms(1), of r "[uuid_str u]"] by (simp add: assms(3,4))
  obtain ip where "resolve_client_ip P (hr_peer h) (hr_forwarded h) = Inr ip"
    using resolve_client_ip_parses [OF assms(2)] by blast
  moreover have "rt_limit r = None" "rt_gate r = Optional_User" by (simp_all add: assms(5) route_download_def Route_def)
  ultimately show ?thesis
    by (simp add: admit_def sel run_limiter_def authenticate_def get_current_user_optional_def assms(6))
qed

subsection \<open>Witnesses\<close>

definition demo_framework :: framework where
  "demo_framework =
     \<lparr>fw_select = (\<lambda>rs m path. List.find (route_matches m path) rs), fw_no_route = (\<lambda>m path. http 404 ''Not Found'')\<rparr>"

lemma demo_routing_ok: "routing_ok demo_framework"
  by (simp add: routing_ok_def demo_framework_def)

theorem route_reached_witness:
  "fw_select demo_framework app_routes GET (url (route_secret_info\<lparr>rt_path := ''/api/secrets/{secret_id}/info''\<rparr>) [uuid_str 5]) =
     Some (route_secret_info\<lparr>rt_path := ''/api/secrets/{secret_id}/info''\<rparr>)"
proof -
  have "route_secret_info\<lparr>rt_path := ''/api/secrets/{secret_id}/info''\<rparr> \<in> set app_routes" by code_simp
  from route_reached [OF demo_routing_ok this, of "[uuid_str 5]"] show ?thesis
    by (simp add: route_secret_info_def Route_def)
qed

text \<open>A login, and the metadata of a secret.\<close>

definition login_request :: http_request where
  "login_request = \<lparr>hr_method = POST, hr_path = ''/api/auth/login'', hr_peer = Some (demo_ip_str (V4 7)), hr_forwarded = None,
     hr_bearer = None, hr_meta = demo_request\<rparr>"

lemma login_route:
  "List.find (route_matches POST ''/api/auth/login'') app_routes = Some (route_login\<lparr>rt_path := ''/api/auth/login''\<rparr>)"
  by code_simp

lemma login_ip: "resolve_client_ip demo_platform (Some (demo_ip_str (V4 7))) None = Inr (demo_ip_str (V4 7))"
  proof -
  have "ip_parse demo_platform (demo_ip_str (V4 7)) = Some (V4 7)" using demo_ip_text_ok by (simp add: ip_text_ok_def)
  moreover have "demo_ip_str (V4 7) \<noteq> []" by (simp add: demo_ip_str_def)
  ultimately show ?thesis by (simp add: resolve_client_ip_def demo_normalize)
qed

lemma login_limit: "rt_limit route_login = Some \<lparr>lm_max = 20, lm_window = 60, lm_scope = ''login'', lm_force_ip = False\<rparr>"
  "rt_gate route_login = Public" "rt_handler route_login = ''login''"
  by (simp_all add: route_login_def Route_def limiter_def)

lemma login_admitted:
  "\<exists>redis'. admit demo_framework demo_platform A login_request token db (Some (\<lambda>_. [])) =
     (Inr (route_login\<lparr>rt_path := ''/api/auth/login''\<rparr>, None, demo_ip_str (V4 7)), redis')"
  by (simp add: admit_def login_request_def login_ip demo_framework_def login_route login_limit run_limiter_def
      rate_limit_def sliding_window_def authenticate_def)



end
