(* ===== verification/View_Page.thy ===== *)
theory View_Page
  imports Schemas
begin

text \<open>
  \<open>secret_view_page\<close> of app/routers/secrets.py: the page that asks for the password in the browser.  It is one
  f-string; a line of it is an element of the list.
\<close>

abbreviation dq :: string where "dq \<equiv> [CHR 0x22]"
abbreviation sq :: string where "sq \<equiv> [CHR 0x27]"

definition en_dash :: string where
  "en_dash = [CHR 0xE2, CHR 0x80, CHR 0x93]"

definition newline_join :: "string list \<Rightarrow> string" where
  "newline_join ls = tl (concat (map (\<lambda>l. CHR 0x0A # l) ls))"

text \<open>What stands before the path, between path and parameter, and after it.\<close>

definition page_head :: string where
  "page_head = newline_join
     [''<!DOCTYPE html>'',
      ''<html>'',
      ''<head><title>Phantom '' @ en_dash @ '' Secret</title></head>'',
      ''<body>'',
      ''<script>'',
      ''  const password = prompt('' @ dq @ ''This secret is password-protected.'' @ [CHR 0x5C] @ ''nEnter the password to reveal it:'' @ dq @ '');'',
      ''  if (password === null) {'',
      ''    document.write('' @ dq @ ''<p>Cancelled.</p>'' @ dq @ '');'',
      ''  } else {'',
      ''    fetch('' @ dq @ ''/api/secrets/'']"

definition page_middle :: string where
  "page_middle = ''?access_password='' @ dq @ '' + encodeURIComponent(password) + '' @ dq"

definition page_tail :: string where
  "page_tail = newline_join
     [dq @ '')'',
      ''      .then(r => r.json())'',
      ''      .then(data => {'',
      ''        if (data.detail) {'',
      ''          document.write('' @ dq @ ''<p>'' @ dq @ '' + data.detail + '' @ dq @ ''</p>'' @ dq @ '');'',
      ''        } else {'',
      ''          document.write('' @ dq @ ''<pre style='' @ sq @ ''font-size:1.2em;padding:2em'' @ sq @ ''>'' @ dq @
        '' + data.content + '' @ dq @ ''</pre>'' @ dq @ '');'',
      ''        }'',
      ''      });'',
      ''  }'',
      ''</script>'',
      ''</body>'',
      ''</html>'']"

definition secret_view_page :: "string \<Rightarrow> string option \<Rightarrow> string" where
  "secret_view_page secret_id token =
     (let token_param = (if truthy token then ''&token='' @ the token else []) in
      page_head @ secret_id @ page_middle @ token_param @ page_tail)"

text \<open>
  Identifier and token go into the script as they come, without escaping: what the sender of a link puts
  there is code of the page.
\<close>

lemma view_page_verbatim:
  "\<exists>pre mid post. \<forall>sid t. t \<noteq> [] \<longrightarrow> secret_view_page sid (Some t) = pre @ sid @ mid @ t @ post"
proof (intro exI allI impI)
  fix sid t :: string assume "t \<noteq> []"
  then show "secret_view_page sid (Some t) = page_head @ sid @ (page_middle @ ''&token='') @ t @ page_tail"
    by (simp add: secret_view_page_def)
qed

end
