(* ===== verification/Middleware.thy ===== *)
theory Middleware
  imports Client_IP Schemas
begin

text \<open>
  app/middleware/audit.py: the middleware around every handler resolves the client's address into the request
  and sets the security headers of the response; and the health endpoints of main.py.  Header names are
  in lower case, as they are stored in a response.  The identifier of the current trace is an argument.
\<close>

record response =
  rs_status :: nat
  rs_headers :: "(string \<times> string) list"

text \<open>\<open>response.headers[key] = value\<close>: the first entry of the name is overwritten, further ones are deleted.\<close>

fun set_header :: "string \<Rightarrow> string \<Rightarrow> (string \<times> string) list \<Rightarrow> (string \<times> string) list" where
  "set_header k v [] = [(k, v)]"
| "set_header k v ((k', v') # hs) = (if k' = k then (k, v) # filter (\<lambda>h. fst h \<noteq> k) hs else (k', v') # set_header k v hs)"

definition header_values :: "string \<Rightarrow> (string \<times> string) list \<Rightarrow> string list" where
  "header_values k hs = map snd (filter (\<lambda>h. fst h = k) hs)"

definition dispatch ::
  "platform \<Rightarrow> string option \<Rightarrow> string option \<Rightarrow> string option \<Rightarrow> (request \<Rightarrow> response res) \<Rightarrow> request \<Rightarrow> response res" where
  "dispatch P peer forwarded_for trace_id call_next rq =
     bind_res (resolve_client_ip P peer forwarded_for) (\<lambda>ip.
     bind_res (call_next (rq\<lparr>rq_ip := ip\<rparr>)) (\<lambda>resp.
       (let hs1 = set_header ''x-content-type-options'' ''nosniff'' (rs_headers resp);
            hs2 = set_header ''x-frame-options'' ''DENY'' hs1;
            hs3 = set_header ''referrer-policy'' ''no-referrer'' hs2;
            hs4 = set_header ''cache-control'' ''no-store'' hs3;
            hs5 = (if truthy trace_id then set_header ''x-trace-id'' (the trace_id) hs4 else hs4) in
        Inr (resp\<lparr>rs_headers := hs5\<rparr>))))"

definition root_endpoint :: "string \<Rightarrow> string \<Rightarrow> (string \<times> string) list" where
  "root_endpoint name version = [(''service'', name), (''version'', version), (''status'', ''ok'')]"

definition health :: "unit res \<Rightarrow> (string \<times> string) list" where
  "health ping =
     (let db_ok = (case ping of Inr _ \<Rightarrow> True | Inl _ \<Rightarrow> False) in
      [(''database'', if db_ok then ''ok'' else ''error''), (''status'', if db_ok then ''ok'' else ''degraded'')])"

subsection \<open>What the client sees\<close>

lemma header_values_set:
  "header_values k (set_header k' v hs) = (if k = k' then [v] else header_values k hs)"
proof (induction hs)
  case (Cons h hs)
  have "filter (\<lambda>h. fst h = k) (filter (\<lambda>h. fst h \<noteq> k') hs) = (if k = k' then [] else filter (\<lambda>h. fst h = k) hs)"
    by (simp add: filter_filter) (metis (mono_tags, lifting) filter_cong)
  with Cons show ?case by (cases h) (auto simp: header_values_def)
qed (simp add: header_values_def)

lemma dispatch_Inr:
  assumes "ip_text_ok P"
  obtains ip where "ip = ''unknown'' \<or> (\<exists>a. ip_parse P ip = Some a)"
    "resolve_client_ip P peer forwarded_for = Inr ip"
  using resolve_client_ip_parses [OF assms, of peer forwarded_for] by blast

text \<open>
  every response a handler answers leaves with exactly one value of each security header, whatever the
  handler set itself, its status and other headers untouched; the handler sees an address that is \<open>unknown\<close> or
  parses; and the middleware adds no failure of its own.
\<close>

theorem dispatch_protects:
  assumes "ip_text_ok P"
  shows "\<exists>ip. (ip = ''unknown'' \<or> (\<exists>a. ip_parse P ip = Some a)) \<and>
    (case call_next (rq\<lparr>rq_ip := ip\<rparr>) of
       Inl e \<Rightarrow> dispatch P peer xff trace_id call_next rq = Inl e
     | Inr resp \<Rightarrow> (\<exists>resp'. dispatch P peer xff trace_id call_next rq = Inr resp' \<and> rs_status resp' = rs_status resp \<and>
         (\<forall>k. header_values k (rs_headers resp') =
            (if k = ''x-content-type-options'' then [''nosniff'']
             else if k = ''x-frame-options'' then [''DENY'']
             else if k = ''referrer-policy'' then [''no-referrer'']
             else if k = ''cache-control'' then [''no-store'']
             else if k = ''x-trace-id'' \<and> truthy trace_id then [the trace_id]
             else header_values k (rs_headers resp)))))"
proof (rule dispatch_Inr [OF assms, of peer xff])
  fix ip assume ip: "ip = ''unknown'' \<or> (\<exists>a. ip_parse P ip = Some a)" "resolve_client_ip P peer xff = Inr ip"
  show ?thesis
  proof (intro exI [of _ ip] conjI ip(1))
    show "case call_next (rq\<lparr>rq_ip := ip\<rparr>) of
       Inl e \<Rightarrow> dispatch P peer xff trace_id call_next rq = Inl e
     | Inr resp \<Rightarrow> (\<exists>resp'. dispatch P peer xff trace_id call_next rq = Inr resp' \<and> rs_status resp' = rs_status resp \<and>
         (\<forall>k. header_values k (rs_headers resp') =
            (if k = ''x-content-type-options'' then [''nosniff'']
             else if k = ''x-frame-options'' then [''DENY'']
             else if k = ''referrer-policy'' then [''no-referrer'']
             else if k = ''cache-control'' then [''no-store'']
             else if k = ''x-trace-id'' \<and> truthy trace_id then [the trace_id]
             else header_values k (rs_headers resp))))"
      by (simp add: dispatch_def ip(2) Let_def header_values_set split: sum.split)
  qed
qed

theorem dispatch_protects_witness:
  "\<exists>resp. dispatch demo_platform (Some (demo_ip_str (V4 7))) None None
     (\<lambda>rq. Inr \<lparr>rs_status = 200, rs_headers = [(''cache-control'', ''public''), (''cache-control'', ''max-age=60'')]\<rparr>) demo_request
       = Inr resp \<and> header_values ''cache-control'' (rs_headers resp) = [''no-store'']"
proof -
  let ?h = "\<lambda>rq :: request. Inr \<lparr>rs_status = 200, rs_headers = [(''cache-control'', ''public''), (''cache-control'', ''max-age=60'')]\<rparr>"
  from dispatch_protects [OF demo_ip_text_ok, where call_next = ?h and rq = demo_request and
      peer = "Some (demo_ip_str (V4 7))" and xff = None and trace_id = None]
  show ?thesis by auto
qed

end
