(* ===== verification/Expiry_Worker.thy ===== *)
theory Expiry_Worker
  imports Cleanup
begin

text \<open>
  The loops of app/services/cleanup_service.py around the operations of \<open>Cleanup\<close>: the listener for expired
  Redis keys, the periodic sweep, and the worker that runs both, or the sweep alone when Redis was
  not there at the start.  Exceptions in a round are printed and the loop goes on.
\<close>

definition REDIS_EXPIRY_PREFIX :: string where "REDIS_EXPIRY_PREFIX = ''phantom:expiry:''"

text \<open>A message of the subscription: its type and its data.\<close>

definition starts_with :: "string \<Rightarrow> string \<Rightarrow> bool" where
  "starts_with p s \<longleftrightarrow> take (length p) s = p"

definition listen_message ::
  "platform \<Rightarrow> request \<Rightarrow> string \<Rightarrow> string \<times> string \<Rightarrow> world \<Rightarrow> world" where
  "listen_message P rq token message w =
     (if fst message \<noteq> ''pmessage'' then w
      else if \<not> starts_with REDIS_EXPIRY_PREFIX (snd message) then w
      else case parse_uuid (drop (length REDIS_EXPIRY_PREFIX) (snd message)) of
        None \<Rightarrow> w
      | Some sid \<Rightarrow> snd (delete_expired_secret P rq token sid w))"

definition fallback_round ::
  "platform \<Rightarrow> (string \<Rightarrow> string option) \<Rightarrow> request \<Rightarrow> string \<Rightarrow> world \<Rightarrow> world" where
  "fallback_round P s3 rq token w = snd (fallback_sweep P s3 rq token w)"

datatype cleanup_event =
    Expired request string "string \<times> string"
  | Round request string "string \<Rightarrow> string option"

text \<open>The events a worker handles; \<open>listening\<close> is decided once, when it starts.\<close>

definition worker_event :: "platform \<Rightarrow> bool \<Rightarrow> cleanup_event \<Rightarrow> world \<Rightarrow> world" where
  "worker_event P listening ev w =
     (case ev of
        Expired rq token message \<Rightarrow> if listening then listen_message P rq token message w else w
      | Round rq token s3 \<Rightarrow> fallback_round P s3 rq token w)"

definition expiry_worker :: "platform \<Rightarrow> cleanup_event list \<Rightarrow> world \<Rightarrow> world" where
  "expiry_worker P evs w = fold (worker_event P (wd_quota w \<noteq> None)) evs w"

subsection \<open>From creation to expiry\<close>

lemma starts_with_append [simp]: "starts_with p (p @ s)"
  by (simp add: starts_with_def)

lemma create_schedules:
  assumes "create_secret P rq rd rid body user w = (Inr resp, w')"
  shows "wd_keys w' (REDIS_EXPIRY_PREFIX @ uuid_str (rd_uuid rd)) =
      Some (uuid_str (rd_uuid rd), rq_now rq + sc_ttl body * hour)"
    and "wd_quota w' \<noteq> None" and "secret_of (wd_db w') (rd_uuid rd) \<noteq> None" and "cp_id resp = rd_uuid rd"
proof -
  obtain r q q' token db1 where c: "reserve P (wd_db w) (rq_now rq) rid (cu_id user) 1 0 (wd_quota w) = (Inr r, q)"
    "commit r q = (Inr (), q')" "wd_quota w' = q'"
    "\<exists>s. secret_of (wd_db w') (rd_uuid rd) = Some s \<and> cp_expires resp = s_expires s" "cp_id resp = rd_uuid rd"
    using assms by (rule create_secret_Inr) (rule that; assumption)
  have q': "q' \<noteq> None" using c(2) by (auto simp: commit_def split: option.splits)
  then show "wd_quota w' \<noteq> None" using c(3) by simp
  show "secret_of (wd_db w') (rd_uuid rd) \<noteq> None" "cp_id resp = rd_uuid rd" using c(4,5) by auto
  show "wd_keys w' (REDIS_EXPIRY_PREFIX @ uuid_str (rd_uuid rd)) =
      Some (uuid_str (rd_uuid rd), rq_now rq + sc_ttl body * hour)"
    using assms c(1,2) q'
    by (auto simp: create_secret_def Let_def schedule_expiry_def redis_setex_def REDIS_EXPIRY_PREFIX_def
        split: sum.splits prod.splits option.splits)
qed

lemma listen_deletes:
  assumes "wd_quota w \<noteq> None"
    and "redis_get (rq_now rq) (wd_keys w) (''phantom:lock:'' @ uuid_str sid) = None"
    and w1: "w1 = listen_message P rq token (''pmessage'', REDIS_EXPIRY_PREFIX @ uuid_str sid) w"
  shows "secret_of (wd_db w1) sid = None"
    and "sid' \<noteq> sid \<Longrightarrow> secret_of (wd_db w1) sid' = secret_of (wd_db w) sid'"
    and "secret_of (wd_db w) sid = None \<Longrightarrow> secrets (wd_db w1) = secrets (wd_db w)"
proof -
  have run: "w1 = snd (delete_expired_secret P rq token sid w)"
    by (simp add: w1 listen_message_def parse_uuid_str)
  have db: "secrets (wd_db w1) = sql_delete (\<lambda>s. s_id s = sid) (secrets (wd_db w))"
    using assms(1,2)
    by (auto simp: run delete_expired_secret_def acquire_lock_def Let_def split: option.split prod.split)
  show "secret_of (wd_db w1) sid = None" "sid' \<noteq> sid \<Longrightarrow> secret_of (wd_db w1) sid' = secret_of (wd_db w) sid'"
    by (simp_all add: secret_of_def db row_of_delete)
  show "secrets (wd_db w1) = secrets (wd_db w)" if "secret_of (wd_db w) sid = None"
    using row_of_None_notin [OF that [unfolded secret_of_def]] unfolding db sql_delete_def by (simp add: filter_id_conv)
qed



text \<open>
  without Redis nothing ever expires: a worker that starts when Redis is unavailable announces that it runs the
  database sweep only, but every round of it fails on the sweep lock, which is in Redis, and the
  database is never touched.
\<close>

theorem no_redis_no_cleanup:
  assumes "wd_quota w = None" shows "expiry_worker P evs w = w"
proof -
  have step: "worker_event P False ev w = w" for ev
    using assms by (cases ev) (simp_all add: worker_event_def fallback_round_def fallback_sweep_def)
  have "fold (worker_event P False) evs w = w" by (induction evs) (simp_all add: step)
  then show ?thesis using assms by (simp add: expiry_worker_def)
qed

theorem no_redis_no_cleanup_witness:
  "expiry_worker demo_platform [Round demo_request ''t'' (\<lambda>_. None), Round demo_request ''t'' (\<lambda>_. None)]
     (sweep_world\<lparr>wd_quota := None\<rparr>) = sweep_world\<lparr>wd_quota := None\<rparr>"
  by (rule no_redis_no_cleanup) simp

end
