(* ===== verification/Notifications.thy ===== *)
theory Notifications
  imports Secrets "HOL-Library.Multiset"
begin

text \<open>
  app/services/notification_service.py and app/services/notification_worker.py: the publication of view
  notifications, the topology of queues and dead-letter queues, the two consumers, and the loop that
  retries what failed.  A body is the JSON object it encodes; the trace headers are left out.
  RabbitMQ's direct exchanges and dead-lettering are modelled on the declared topology; whether a
  publication raises, and what the SMTP server and a webhook answer, are arguments.
\<close>

subsection \<open>Topology\<close>

definition NOTIFICATION_EXCHANGE :: string where "NOTIFICATION_EXCHANGE = ''phantom.notifications''"
definition EMAIL_QUEUE :: string where "EMAIL_QUEUE = ''phantom.email''"
definition WEBHOOK_QUEUE :: string where "WEBHOOK_QUEUE = ''phantom.webhook''"
definition EMAIL_ROUTING_KEY :: string where "EMAIL_ROUTING_KEY = ''notify.email''"
definition WEBHOOK_ROUTING_KEY :: string where "WEBHOOK_ROUTING_KEY = ''notify.webhook''"
definition EMAIL_DLQ :: string where "EMAIL_DLQ = ''phantom.email.dlq''"
definition WEBHOOK_DLQ :: string where "WEBHOOK_DLQ = ''phantom.webhook.dlq''"
definition DLX :: string where "DLX = ''phantom.dlx''"
definition MAX_RETRIES :: int where "MAX_RETRIES = 3"
definition RETRY_BASE_DELAY :: int where "RETRY_BASE_DELAY = 1"

record topology =
  tp_bindings :: "(string \<times> string \<times> string) list"   \<comment> \<open>exchange, routing key, queue\<close>
  tp_dead :: "(string \<times> string \<times> string) list"        \<comment> \<open>queue, dead-letter exchange and key\<close>

definition setup_topology :: topology where
  "setup_topology =
     \<lparr>tp_bindings =
        [(NOTIFICATION_EXCHANGE, EMAIL_ROUTING_KEY, EMAIL_QUEUE),
         (NOTIFICATION_EXCHANGE, WEBHOOK_ROUTING_KEY, WEBHOOK_QUEUE),
         (DLX, EMAIL_DLQ, EMAIL_DLQ),
         (DLX, WEBHOOK_DLQ, WEBHOOK_DLQ)],
      tp_dead = [(EMAIL_QUEUE, DLX, EMAIL_DLQ), (WEBHOOK_QUEUE, DLX, WEBHOOK_DLQ)]\<rparr>"

type_synonym json_body = "(string \<times> string) list"

record message =
  ms_body :: json_body
  ms_headers :: "string \<rightharpoonup> string"

type_synonym queues = "string \<Rightarrow> message list"

text \<open>A direct exchange appends to every queue bound with the routing key.\<close>

definition exchange_publish :: "string \<Rightarrow> string \<Rightarrow> message \<Rightarrow> queues \<Rightarrow> queues" where
  "exchange_publish exchange key m qs =
     fold (\<lambda>(e, k, q) qs. if e = exchange \<and> k = key then qs(q := qs q @ [m]) else qs) (tp_bindings setup_topology) qs"

text \<open>A message rejected without requeue goes to the dead-letter exchange of its queue.\<close>

definition dead_letter :: "string \<Rightarrow> message \<Rightarrow> queues \<Rightarrow> queues" where
  "dead_letter queue m qs =
     (case map_of (tp_dead setup_topology) queue of
        None \<Rightarrow> qs
      | Some (exchange, key) \<Rightarrow> exchange_publish exchange key m qs)"

subsection \<open>Publication\<close>

text \<open>
  \<open>ready\<close>: the worker has set the exchange; \<open>up key\<close>: the publication does not raise.  Both failures are
  swallowed.
\<close>

definition publish :: "bool \<Rightarrow> (string \<Rightarrow> bool) \<Rightarrow> string \<Rightarrow> json_body \<Rightarrow> queues \<Rightarrow> queues" where
  "publish ready up routing_key payload qs =
     (if \<not> ready then qs
      else if \<not> up routing_key then qs
      else exchange_publish NOTIFICATION_EXCHANGE routing_key \<lparr>ms_body = payload, ms_headers = Map.empty\<rparr> qs)"

definition email_payload :: "string \<Rightarrow> string \<Rightarrow> string \<Rightarrow> json_body" where
  "email_payload recipient secret_id ip = [(''to'', recipient), (''secret_id'', secret_id), (''actor_ip'', ip)]"

definition webhook_payload :: "string \<Rightarrow> string \<Rightarrow> string \<Rightarrow> json_body" where
  "webhook_payload url secret_id ip =
     [(''url'', url), (''secret_id'', secret_id), (''event'', ''secret_viewed''), (''actor_ip'', ip)]"

definition notify_secret_viewed ::
  "settings \<Rightarrow> bool \<Rightarrow> (string \<Rightarrow> bool) \<Rightarrow> string \<Rightarrow> string option \<Rightarrow> string option \<Rightarrow> string option \<Rightarrow> queues \<Rightarrow> queues" where
  "notify_secret_viewed S ready up secret_id notify_email webhook_url actor_ip qs =
     (let ip = (if truthy actor_ip then the actor_ip else ''unknown'');
          qs1 = (if truthy notify_email then
                   if SMTP_USERNAME S = [] \<or> SMTP_PASSWORD S = [] then qs
                   else publish ready up EMAIL_ROUTING_KEY (email_payload (the notify_email) secret_id ip) qs
                 else qs) in
      if truthy webhook_url
      then publish ready up WEBHOOK_ROUTING_KEY (webhook_payload (the webhook_url) secret_id ip) qs1
      else qs1)"

text \<open>
  The background task of a retrieval, with the notice the handler made: it names the secret as the request
  did.
\<close>

definition run_notice ::
  "settings \<Rightarrow> bool \<Rightarrow> (string \<Rightarrow> bool) \<Rightarrow> string \<Rightarrow> view_notice option \<Rightarrow> queues \<Rightarrow> queues" where
  "run_notice S ready up secret_id n qs =
     (case n of
        None \<Rightarrow> qs
      | Some v \<Rightarrow> notify_secret_viewed S ready up secret_id (vn_email v) (vn_webhook v) (Some (vn_ip v)) qs)"

subsection \<open>The consumers\<close>

record email =
  em_subject :: string
  em_from :: string
  em_to :: string
  em_html :: string

definition html_line :: "nat \<Rightarrow> string \<Rightarrow> string" where
  "html_line indent s = [CHR 0x0A] @ replicate indent (CHR '' '') @ s"

definition build_email :: "settings \<Rightarrow> string \<Rightarrow> string \<Rightarrow> string \<Rightarrow> email" where
  "build_email S recipient secret_id actor_ip =
     \<lparr>em_subject = ''Your Phantom Share secret was viewed'', em_from = SMTP_FROM S, em_to = recipient,
      em_html =
        html_line 4 ''<html><body>'' @
        html_line 6 (''<p>Your secret <strong>'' @ secret_id @ ''</strong> was accessed.</p>'') @
        html_line 6 (''<p>Viewer IP: <code>'' @ actor_ip @ ''</code></p>'') @
        html_line 6 ''<p>If this was unexpected, consider revoking further access.</p>'' @
        html_line 4 ''</body></html>'' @
        html_line 4 []\<rparr>"

text \<open>\<open>mail\<close>: the session with the SMTP server does not raise.\<close>

definition send_smtp :: "settings \<Rightarrow> (email \<Rightarrow> bool) \<Rightarrow> string \<Rightarrow> string \<Rightarrow> string \<Rightarrow> unit res" where
  "send_smtp S mail recipient secret_id actor_ip =
     (if mail (build_email S recipient secret_id actor_ip) then Inr () else Inl ServiceError)"

definition payload_get :: "json_body \<Rightarrow> string \<Rightarrow> string res" where
  "payload_get p k = (case map_of p k of None \<Rightarrow> Inl KeyError | Some v \<Rightarrow> Inr v)"

definition handle_email :: "settings \<Rightarrow> (email \<Rightarrow> bool) \<Rightarrow> message \<Rightarrow> unit res" where
  "handle_email S mail m =
     bind_res (payload_get (ms_body m) ''to'') (\<lambda>recipient.
     bind_res (payload_get (ms_body m) ''secret_id'') (\<lambda>secret_id.
     bind_res (payload_get (ms_body m) ''actor_ip'') (\<lambda>actor_ip.
       send_smtp S mail recipient secret_id actor_ip)))"

text \<open>\<open>post url json\<close>: the status of the answer, or None when the client raises.\<close>

definition handle_webhook :: "(string \<Rightarrow> json_body \<Rightarrow> nat option) \<Rightarrow> message \<Rightarrow> unit res" where
  "handle_webhook post m =
     bind_res (payload_get (ms_body m) ''url'') (\<lambda>url.
     bind_res (payload_get (ms_body m) ''secret_id'') (\<lambda>secret_id.
     bind_res (payload_get (ms_body m) ''event'') (\<lambda>event.
     bind_res (payload_get (ms_body m) ''actor_ip'') (\<lambda>actor_ip.
       case post url [(''secret_id'', secret_id), (''event'', event), (''actor_ip'', actor_ip)] of
         None \<Rightarrow> Inl ServiceError
       | Some status \<Rightarrow> if 200 \<le> status \<and> status < 300 then Inr () else Inl ServiceError))))"

subsection \<open>The worker\<close>

text \<open>
  Where the retry loop is: polling the dead-letter queues that are left of this round (none left:
  asleep until the next round), backing off with a message it holds unacknowledged, or
  ended by an exception (which \<open>gather(return_exceptions=True)\<close> swallows) with the message unacknowledged.
\<close>

datatype loop_pos =
    Polling "(string \<times> string) list"
  | Backoff message int "(string \<times> string) list"
  | Ended message string

definition retry_queues :: "(string \<times> string) list" where
  "retry_queues = [(EMAIL_DLQ, EMAIL_ROUTING_KEY), (WEBHOOK_DLQ, WEBHOOK_ROUTING_KEY)]"

record alert =
  al_body :: json_body
  al_key :: string
  al_attempts :: int

record worker =
  wk_queues :: queues
  wk_loop :: loop_pos
  wk_sent :: "(string \<times> json_body) list"   \<comment> \<open>routing key and body of what was delivered\<close>
  wk_alerts :: "alert list"

definition fire_critical_alert :: "json_body \<Rightarrow> string \<Rightarrow> int \<Rightarrow> worker \<Rightarrow> worker" where
  "fire_critical_alert body routing_key attempts w =
     w\<lparr>wk_alerts := wk_alerts w @ [\<lparr>al_body = body, al_key = routing_key, al_attempts = attempts\<rparr>]\<rparr>"

definition attempt_of :: "message \<Rightarrow> int option" where
  "attempt_of m = (case ms_headers m ''x-retry-attempt'' of None \<Rightarrow> Some 1 | Some s \<Rightarrow> map_option (\<lambda>n. n + 1) (py_int 10 s))"

definition retry_delay :: "int \<Rightarrow> int" where
  "retry_delay attempt = RETRY_BASE_DELAY * 2 ^ nat (attempt - 1)"

text \<open>One round of \<open>while True\<close>: get a message from the queue that is polled, and give it up or back off.\<close>

definition poll :: "worker \<Rightarrow> worker" where
  "poll w =
     (case wk_loop w of
        Polling [] \<Rightarrow> w\<lparr>wk_loop := Polling retry_queues\<rparr>
      | Polling ((dlq, key) # rest) \<Rightarrow>
          (case wk_queues w dlq of
             [] \<Rightarrow> w\<lparr>wk_loop := Polling rest\<rparr>
           | m # ms \<Rightarrow>
               (let w1 = w\<lparr>wk_queues := (wk_queues w)(dlq := ms)\<rparr> in
                case attempt_of m of
                  None \<Rightarrow> w1\<lparr>wk_loop := Ended m key\<rparr>
                | Some attempt \<Rightarrow>
                    if MAX_RETRIES < attempt then fire_critical_alert (ms_body m) key attempt w1
                    else w1\<lparr>wk_loop := Backoff m attempt ((dlq, key) # rest)\<rparr>))
      | _ \<Rightarrow> w)"

text \<open>After the delay: publish again with the new header, then acknowledge.\<close>

definition republish :: "bool \<Rightarrow> worker \<Rightarrow> worker" where
  "republish up w =
     (case wk_loop w of
        Backoff m attempt ((dlq, key) # rest) \<Rightarrow>
          if up then
            w\<lparr>wk_queues := exchange_publish NOTIFICATION_EXCHANGE key
                 \<lparr>ms_body = ms_body m, ms_headers = (ms_headers m)(''x-retry-attempt'' \<mapsto> py_str_int attempt)\<rparr> (wk_queues w),
               wk_loop := Polling ((dlq, key) # rest)\<rparr>
          else w\<lparr>wk_loop := Ended m key\<rparr>
      | _ \<Rightarrow> w)"

text \<open>
  A consumer finishes one of the messages it was given (up to the prefetch count, so not always the
  first): \<open>message.process(requeue=False)\<close> acknowledges, or rejects when the handler raised.
\<close>

definition drop_nth :: "nat \<Rightarrow> 'a list \<Rightarrow> 'a list" where
  "drop_nth i xs = take i xs @ drop (Suc i) xs"

definition process :: "string \<Rightarrow> string \<Rightarrow> nat \<Rightarrow> (message \<Rightarrow> unit res) \<Rightarrow> worker \<Rightarrow> worker" where
  "process queue key i handler w =
     (if i < length (wk_queues w queue) then
        (let m = wk_queues w queue ! i;
             qs = (wk_queues w)(queue := drop_nth i (wk_queues w queue)) in
         case handler m of
           Inr _ \<Rightarrow> w\<lparr>wk_queues := qs, wk_sent := wk_sent w @ [(key, ms_body m)]\<rparr>
         | Inl _ \<Rightarrow> w\<lparr>wk_queues := dead_letter queue m qs\<rparr>)
      else w)"

datatype event =
    Notify "string \<Rightarrow> bool" string "view_notice option"
  | Email nat "email \<Rightarrow> bool"
  | Webhook nat "string \<Rightarrow> json_body \<Rightarrow> nat option"
  | Poll
  | Republish bool

definition worker_step :: "settings \<Rightarrow> event \<Rightarrow> worker \<Rightarrow> worker" where
  "worker_step S ev w =
     (case ev of
        Notify up secret_id n \<Rightarrow> w\<lparr>wk_queues := run_notice S True up secret_id n (wk_queues w)\<rparr>
      | Email i mail \<Rightarrow> process EMAIL_QUEUE EMAIL_ROUTING_KEY i (handle_email S mail) w
      | Webhook i post \<Rightarrow> process WEBHOOK_QUEUE WEBHOOK_ROUTING_KEY i (handle_webhook post) w
      | Poll \<Rightarrow> poll w
      | Republish up \<Rightarrow> republish up w)"

definition worker_run :: "settings \<Rightarrow> event list \<Rightarrow> worker \<Rightarrow> worker" where
  "worker_run S evs w = fold (worker_step S) evs w"

text \<open>What \<open>notification_worker\<close> starts from: the declared queues and the loop asleep.\<close>

definition notification_worker :: "queues \<Rightarrow> worker" where
  "notification_worker qs = \<lparr>wk_queues = qs, wk_loop = Polling [], wk_sent = [], wk_alerts = []\<rparr>"

end
