(* ===== verification/Notification_Worker.thy ===== *)
theory Notification_Worker
  imports Notifications "HOL-Library.Sublist"
begin

text \<open>
  What the notification worker promises, over every interleaving of publications, consumers and
  the retry loop: no notification is lost or duplicated, none is tried more than four times, and
  while the loop lives each one is in the end delivered or reported.
\<close>

subsection \<open>The topology at work\<close>

lemmas names = NOTIFICATION_EXCHANGE_def DLX_def EMAIL_QUEUE_def WEBHOOK_QUEUE_def EMAIL_ROUTING_KEY_def
  WEBHOOK_ROUTING_KEY_def EMAIL_DLQ_def WEBHOOK_DLQ_def

lemma names_distinct [simp]:
  "distinct [EMAIL_QUEUE, WEBHOOK_QUEUE, EMAIL_DLQ, WEBHOOK_DLQ]" "EMAIL_ROUTING_KEY \<noteq> WEBHOOK_ROUTING_KEY"
  "WEBHOOK_ROUTING_KEY \<noteq> EMAIL_ROUTING_KEY" "NOTIFICATION_EXCHANGE \<noteq> DLX"
  by (simp_all add: names)

lemma queues_neq [simp]:
  "EMAIL_QUEUE \<noteq> WEBHOOK_QUEUE" "EMAIL_QUEUE \<noteq> EMAIL_DLQ" "EMAIL_QUEUE \<noteq> WEBHOOK_DLQ"
  "WEBHOOK_QUEUE \<noteq> EMAIL_QUEUE" "WEBHOOK_QUEUE \<noteq> EMAIL_DLQ" "WEBHOOK_QUEUE \<noteq> WEBHOOK_DLQ"
  "EMAIL_DLQ \<noteq> EMAIL_QUEUE" "EMAIL_DLQ \<noteq> WEBHOOK_QUEUE" "EMAIL_DLQ \<noteq> WEBHOOK_DLQ"
  "WEBHOOK_DLQ \<noteq> EMAIL_QUEUE" "WEBHOOK_DLQ \<noteq> WEBHOOK_QUEUE" "WEBHOOK_DLQ \<noteq> EMAIL_DLQ"
  by (simp_all add: names)

lemma exchange_publish_simps [simp]:
  "exchange_publish NOTIFICATION_EXCHANGE EMAIL_ROUTING_KEY m qs = qs(EMAIL_QUEUE := qs EMAIL_QUEUE @ [m])"
  "exchange_publish NOTIFICATION_EXCHANGE WEBHOOK_ROUTING_KEY m qs = qs(WEBHOOK_QUEUE := qs WEBHOOK_QUEUE @ [m])"
  by (simp_all add: exchange_publish_def setup_topology_def names)

lemma dead_letter_simps [simp]:
  "dead_letter EMAIL_QUEUE m qs = qs(EMAIL_DLQ := qs EMAIL_DLQ @ [m])"
  "dead_letter WEBHOOK_QUEUE m qs = qs(WEBHOOK_DLQ := qs WEBHOOK_DLQ @ [m])"
  by (simp_all add: dead_letter_def exchange_publish_def setup_topology_def names)

text \<open>What the background task of a retrieval puts into the queues.\<close>

definition notice_messages :: "settings \<Rightarrow> (string \<Rightarrow> bool) \<Rightarrow> string \<Rightarrow> view_notice option \<Rightarrow> (string \<times> json_body) list" where
  "notice_messages S up secret_id n =
     (case n of
        None \<Rightarrow> []
      | Some v \<Rightarrow>
          (let ip = (if vn_ip v = [] then ''unknown'' else vn_ip v) in
           (if truthy (vn_email v) \<and> SMTP_USERNAME S \<noteq> [] \<and> SMTP_PASSWORD S \<noteq> [] \<and> up EMAIL_ROUTING_KEY
            then [(EMAIL_ROUTING_KEY, email_payload (the (vn_email v)) secret_id ip)] else []) @
           (if truthy (vn_webhook v) \<and> up WEBHOOK_ROUTING_KEY
            then [(WEBHOOK_ROUTING_KEY, webhook_payload (the (vn_webhook v)) secret_id ip)] else [])))"

definition accepted :: "settings \<Rightarrow> event list \<Rightarrow> (string \<times> json_body) list" where
  "accepted S evs = concat (map (\<lambda>ev. case ev of Notify up i n \<Rightarrow> notice_messages S up i n | _ \<Rightarrow> []) evs)"

lemma accepted_simps [simp]: "accepted S [] = []"
    "accepted S (ev # evs) = (case ev of Notify up i n \<Rightarrow> notice_messages S up i n | _ \<Rightarrow> []) @ accepted S evs"
  by (simp_all add: accepted_def)

definition fresh :: "(string \<times> json_body) list \<Rightarrow> string \<Rightarrow> message list" where
  "fresh ps key = map (\<lambda>(k, p). \<lparr>ms_body = p, ms_headers = Map.empty\<rparr>) (filter (\<lambda>(k, p). k = key) ps)"

lemma run_notice_queues:
  "run_notice S True up i n qs =
     qs(EMAIL_QUEUE := qs EMAIL_QUEUE @ fresh (notice_messages S up i n) EMAIL_ROUTING_KEY,
        WEBHOOK_QUEUE := qs WEBHOOK_QUEUE @ fresh (notice_messages S up i n) WEBHOOK_ROUTING_KEY)"
  by (auto simp: run_notice_def notify_secret_viewed_def notice_messages_def publish_def fresh_def Let_def fun_eq_iff
      split: option.split)

subsection \<open>Nothing is lost\<close>

definition held :: "loop_pos \<Rightarrow> (string \<times> json_body) multiset" where
  "held pos =
     (case pos of Polling _ \<Rightarrow> {#} | Backoff m a rest \<Rightarrow> {#(snd (hd rest), ms_body m)#} | Ended m key \<Rightarrow> {#(key, ms_body m)#})"

definition bodies :: "string \<Rightarrow> message list \<Rightarrow> (string \<times> json_body) multiset" where
  "bodies key ms = image_mset (\<lambda>m. (key, ms_body m)) (mset ms)"

lemma bodies_simps [simp]: "bodies key [] = {#}" "bodies key (m # ms) = add_mset (key, ms_body m) (bodies key ms)"
    "bodies key (xs @ ys) = bodies key xs + bodies key ys"
  by (simp_all add: bodies_def)

lemma bodies_drop: "i < length q \<Longrightarrow> bodies key q = add_mset (key, ms_body (q ! i)) (bodies key (drop_nth i q))"
proof -
  assume "i < length q"
  then have "q = take i q @ q ! i # drop (Suc i) q" by (rule id_take_nth_drop)
  then have "bodies key q = bodies key (take i q @ q ! i # drop (Suc i) q)" by (rule arg_cong)
  then show ?thesis by (simp add: drop_nth_def)
qed

definition in_flight :: "worker \<Rightarrow> (string \<times> json_body) multiset" where
  "in_flight w =
     bodies EMAIL_ROUTING_KEY (wk_queues w EMAIL_QUEUE) + bodies EMAIL_ROUTING_KEY (wk_queues w EMAIL_DLQ) +
     bodies WEBHOOK_ROUTING_KEY (wk_queues w WEBHOOK_QUEUE) + bodies WEBHOOK_ROUTING_KEY (wk_queues w WEBHOOK_DLQ) +
     held (wk_loop w)"

definition resolved :: "worker \<Rightarrow> (string \<times> json_body) multiset" where
  "resolved w = mset (wk_sent w) + mset (map (\<lambda>a. (al_key a, al_body a)) (wk_alerts w))"

text \<open>The loop is where the code can be: what is left of a round is an end of the list of queues.\<close>

definition loop_ok :: "worker \<Rightarrow> bool" where
  "loop_ok w \<longleftrightarrow>
     (case wk_loop w of
        Polling xs \<Rightarrow> xs \<in> {[], tl retry_queues, retry_queues}
      | Backoff m a xs \<Rightarrow> xs \<in> {tl retry_queues, retry_queues}
      | Ended m key \<Rightarrow> key \<in> snd ` set retry_queues)"

lemma tl_retry_queues [simp]: "tl retry_queues = [(WEBHOOK_DLQ, WEBHOOK_ROUTING_KEY)]"
  by (simp add: retry_queues_def)

text \<open>The cases of a step of the loop.\<close>

lemma loop_cases:
  assumes "loop_ok w"
  obtains "wk_loop w = Polling []"
  | dlq key rest where "wk_loop w = Polling ((dlq, key) # rest)"
      "(dlq, key, rest) = (EMAIL_DLQ, EMAIL_ROUTING_KEY, tl retry_queues) \<or> (dlq, key, rest) = (WEBHOOK_DLQ, WEBHOOK_ROUTING_KEY, [])"
  | m a dlq key rest where "wk_loop w = Backoff m a ((dlq, key) # rest)"
      "(dlq, key, rest) = (EMAIL_DLQ, EMAIL_ROUTING_KEY, tl retry_queues) \<or> (dlq, key, rest) = (WEBHOOK_DLQ, WEBHOOK_ROUTING_KEY, [])"
  | m key where "wk_loop w = Ended m key" "key \<in> snd ` set retry_queues"
  using assms by (cases "wk_loop w") (auto simp: loop_ok_def retry_queues_def)

lemma bodies_fresh: "bodies EMAIL_ROUTING_KEY (fresh (notice_messages S up i n) EMAIL_ROUTING_KEY) +
    bodies WEBHOOK_ROUTING_KEY (fresh (notice_messages S up i n) WEBHOOK_ROUTING_KEY) = mset (notice_messages S up i n)"
  by (auto simp: notice_messages_def fresh_def Let_def split: option.split)

lemma process_conserves:
  assumes "queue = EMAIL_QUEUE \<and> key = EMAIL_ROUTING_KEY \<or> queue = WEBHOOK_QUEUE \<and> key = WEBHOOK_ROUTING_KEY"
  shows "resolved (process queue key i h w) + in_flight (process queue key i h w) = resolved w + in_flight w"
    and "wk_loop (process queue key i h w) = wk_loop w"
  using assms bodies_drop [of i "wk_queues w queue" key]
  by (auto simp: process_def Let_def in_flight_def resolved_def split: sum.split)

lemma poll_conserves:
  assumes "loop_ok w"
  shows "resolved (poll w) + in_flight (poll w) = resolved w + in_flight w \<and> loop_ok (poll w)"
  using assms
proof (cases rule: loop_cases)
  case (2 dlq key rest)
  then show ?thesis
    by (cases "wk_queues w dlq")
      (auto simp: poll_def in_flight_def resolved_def held_def loop_ok_def Let_def fire_critical_alert_def retry_queues_def
        split: option.split)
qed (auto simp: poll_def in_flight_def resolved_def held_def loop_ok_def retry_queues_def)

lemma republish_conserves:
  assumes "loop_ok w"
  shows "resolved (republish up w) + in_flight (republish up w) = resolved w + in_flight w \<and> loop_ok (republish up w)"
  using assms
  by (cases rule: loop_cases) (auto simp: republish_def in_flight_def resolved_def held_def loop_ok_def retry_queues_def)

lemma step_conserves:
  assumes "loop_ok w"
  shows "resolved (worker_step S ev w) + in_flight (worker_step S ev w) = resolved w + in_flight w + mset (accepted S [ev]) \<and>
    loop_ok (worker_step S ev w)"
proof (cases ev)
  case (Notify up i n)
  have "loop_ok (worker_step S ev w)" using assms by (simp add: Notify worker_step_def loop_ok_def)
  moreover have "in_flight (worker_step S ev w) = in_flight w + mset (notice_messages S up i n)"
    using bodies_fresh [of S up i n] by (simp add: Notify worker_step_def in_flight_def run_notice_queues)
  ultimately show ?thesis by (simp add: Notify worker_step_def resolved_def)
qed (use assms process_conserves poll_conserves republish_conserves in \<open>simp_all add: worker_step_def loop_ok_def\<close>)

lemma run_conserves:
  assumes "loop_ok w"
  shows "resolved (worker_run S evs w) + in_flight (worker_run S evs w) = resolved w + in_flight w + mset (accepted S evs)"
  using assms
proof (induction evs arbitrary: w)
  case (Cons ev evs)
  from Cons.IH [of "worker_step S ev w"] step_conserves [OF Cons.prems, of S ev] show ?case
    by (simp add: worker_run_def ac_simps)
qed (simp add: worker_run_def)


subsection \<open>Attempts\<close>

text \<open>
  A message in a consumer's queue is on its first to fourth attempt; one in a dead-letter queue has failed
  it; the loop backs off at most three times.
\<close>

definition attempt_ok :: "message \<Rightarrow> bool" where
  "attempt_ok m \<longleftrightarrow> (\<exists>a. attempt_of m = Some a \<and> 1 \<le> a \<and> a \<le> MAX_RETRIES + 1)"

definition attempts_ok :: "worker \<Rightarrow> bool" where
  "attempts_ok w \<longleftrightarrow>
     (\<forall>q \<in> {EMAIL_QUEUE, WEBHOOK_QUEUE, EMAIL_DLQ, WEBHOOK_DLQ}. list_all attempt_ok (wk_queues w q)) \<and>
     (case wk_loop w of Backoff m a rest \<Rightarrow> 1 \<le> a \<and> a \<le> MAX_RETRIES | _ \<Rightarrow> True) \<and>
     list_all (\<lambda>a. al_attempts a = MAX_RETRIES + 1) (wk_alerts w)"

text \<open>The deliveries a message may still be tried: in a consumer's queue this one included.\<close>

definition tries_left :: "message \<Rightarrow> nat" where
  "tries_left m = nat (MAX_RETRIES + 2 - the (attempt_of m))"

definition tries :: "worker \<Rightarrow> nat" where
  "tries w =
     sum_list (map tries_left (wk_queues w EMAIL_QUEUE)) + sum_list (map tries_left (wk_queues w WEBHOOK_QUEUE)) +
     sum_list (map (\<lambda>m. tries_left m - 1) (wk_queues w EMAIL_DLQ)) +
     sum_list (map (\<lambda>m. tries_left m - 1) (wk_queues w WEBHOOK_DLQ)) +
     (case wk_loop w of Backoff m a rest \<Rightarrow> nat (MAX_RETRIES + 1 - a) | _ \<Rightarrow> 0)"

lemma sum_drop_nth: "i < length q \<Longrightarrow> sum_list (map f q) = f (q ! i) + sum_list (map f (drop_nth i q))"
  for f :: "'a \<Rightarrow> nat"
proof -
  assume "i < length q"
  then have "q = take i q @ q ! i # drop (Suc i) q" by (rule id_take_nth_drop)
  then have "sum_list (map f q) = sum_list (map f (take i q @ q ! i # drop (Suc i) q))" by (rule arg_cong)
  then show ?thesis by (simp add: drop_nth_def)
qed

lemma list_all_drop_nth: "list_all P q \<Longrightarrow> list_all P (drop_nth i q)"
  by (auto simp: list_all_iff drop_nth_def dest: in_set_takeD in_set_dropD)

lemma attempt_of_retry [simp]:
  "attempt_of \<lparr>ms_body = b, ms_headers = h(''x-retry-attempt'' \<mapsto> py_str_int a)\<rparr> = Some (a + 1)"
  by (simp add: attempt_of_def py_int_str)

lemma attempt_of_fresh [simp]: "attempt_of \<lparr>ms_body = b, ms_headers = Map.empty\<rparr> = Some 1"
  by (simp add: attempt_of_def)

lemma fresh_attempts: "list_all attempt_ok (fresh ps key)" "m \<in> set (fresh ps key) \<Longrightarrow> attempt_of m = Some 1"
  by (auto simp: fresh_def list_all_iff attempt_ok_def MAX_RETRIES_def)

lemma tries_fresh: "sum_list (map tries_left (fresh ps key)) = 4 * length (filter (\<lambda>(k, p). k = key) ps)"
  by (induction ps) (auto simp: fresh_def tries_left_def MAX_RETRIES_def)

definition is_delivery :: "event \<Rightarrow> worker \<Rightarrow> bool" where
  "is_delivery ev w =
     (case ev of
        Email i _ \<Rightarrow> i < length (wk_queues w EMAIL_QUEUE)
      | Webhook i _ \<Rightarrow> i < length (wk_queues w WEBHOOK_QUEUE)
      | _ \<Rightarrow> False)"

fun deliveries :: "settings \<Rightarrow> event list \<Rightarrow> worker \<Rightarrow> nat" where
  "deliveries S [] w = 0"
| "deliveries S (ev # evs) w = (if is_delivery ev w then 1 else 0) + deliveries S evs (worker_step S ev w)"

lemma tries_left_pos: "attempt_ok m \<Longrightarrow> 0 < tries_left m \<and> tries_left m \<le> 4"
  by (auto simp: attempt_ok_def tries_left_def MAX_RETRIES_def)

lemma process_attempts:
  assumes "queue = EMAIL_QUEUE \<or> queue = WEBHOOK_QUEUE" and "attempts_ok w"
  shows "attempts_ok (process queue key i h w)"
    and "tries (process queue key i h w) + (if i < length (wk_queues w queue) then 1 else 0) \<le> tries w"
proof -
  have all: "list_all attempt_ok (wk_queues w queue)" using assms by (auto simp: attempts_ok_def)
  have nth: "i < length (wk_queues w queue) \<Longrightarrow> attempt_ok (wk_queues w queue ! i)"
    using all by (simp add: list_all_length)
  show "attempts_ok (process queue key i h w)"
    using assms all nth
    by (auto simp: process_def attempts_ok_def Let_def list_all_drop_nth split: sum.split)
  show "tries (process queue key i h w) + (if i < length (wk_queues w queue) then 1 else 0) \<le> tries w"
  proof (cases "i < length (wk_queues w queue)")
    case True
    then have "0 < tries_left (wk_queues w queue ! i)" using all tries_left_pos by (simp add: list_all_length)
    then show ?thesis
      using assms(1) True sum_drop_nth [OF True, of tries_left]
      by (auto simp: process_def tries_def Let_def split: sum.split)
  qed (simp add: process_def)
qed

lemma poll_attempts:
  assumes "loop_ok w" and "attempts_ok w"
  shows "attempts_ok (poll w) \<and> tries (poll w) \<le> tries w"
  using assms(1)
proof (cases rule: loop_cases)
  case (2 dlq key rest)
  show ?thesis
  proof (cases "wk_queues w dlq")
    case Nil
    then show ?thesis using 2 assms(2) by (auto simp: poll_def attempts_ok_def tries_def)
  next
    case (Cons m ms)
    then have "attempt_ok m" using 2 assms(2) by (auto simp: attempts_ok_def)
    then obtain a where "attempt_of m = Some a" "1 \<le> a" "a \<le> 4" by (auto simp: attempt_ok_def MAX_RETRIES_def)
    then show ?thesis
      using 2 Cons assms(2)
      by (auto simp: poll_def attempts_ok_def tries_def tries_left_def fire_critical_alert_def MAX_RETRIES_def Let_def)
  qed
qed (use assms(2) in \<open>auto simp: poll_def attempts_ok_def tries_def\<close>)

lemma republish_attempts:
  assumes "loop_ok w" and "attempts_ok w"
  shows "attempts_ok (republish up w) \<and> tries (republish up w) \<le> tries w"
  using assms(1)
proof (cases rule: loop_cases)
  case (3 m a dlq key rest)
  then have "1 \<le> a" "a \<le> 3" using assms(2) by (simp_all add: attempts_ok_def MAX_RETRIES_def)
  then show ?thesis
    using 3 assms(2)
    by (auto simp: republish_def attempts_ok_def tries_def tries_left_def attempt_ok_def MAX_RETRIES_def)
qed (use assms(2) in \<open>auto simp: republish_def attempts_ok_def tries_def\<close>)

lemma notice_keys: "length (filter (\<lambda>(k, p). k = EMAIL_ROUTING_KEY) (notice_messages S up i n)) +
    length (filter (\<lambda>(k, p). k = WEBHOOK_ROUTING_KEY) (notice_messages S up i n)) = length (notice_messages S up i n)"
  by (auto simp: notice_messages_def Let_def split: option.split)

lemma step_attempts:
  assumes "loop_ok w" and "attempts_ok w"
  shows "attempts_ok (worker_step S ev w) \<and>
    tries (worker_step S ev w) + (if is_delivery ev w then 1 else 0) \<le> tries w + 4 * length (accepted S [ev])"
proof (cases ev)
  case (Notify up i n)
  then show ?thesis
    using assms(2) notice_keys [of S up i n]
    by (auto simp: worker_step_def attempts_ok_def run_notice_queues fresh_attempts(1) tries_def tries_fresh is_delivery_def)
next
  case (Email i mail)
  then show ?thesis using process_attempts [of EMAIL_QUEUE w _ i] assms(2) by (simp add: worker_step_def is_delivery_def)
next
  case (Webhook i post)
  then show ?thesis using process_attempts [of WEBHOOK_QUEUE w _ i] assms(2) by (simp add: worker_step_def is_delivery_def)
qed (use assms poll_attempts republish_attempts in \<open>simp_all add: worker_step_def is_delivery_def\<close>)

lemma run_attempts:
  assumes "loop_ok w" and "attempts_ok w"
  shows "loop_ok (worker_run S evs w) \<and> attempts_ok (worker_run S evs w) \<and>
    deliveries S evs w + tries (worker_run S evs w) \<le> tries w + 4 * length (accepted S evs)"
  using assms
proof (induction evs arbitrary: w)
  case (Cons ev evs)
  have l: "loop_ok (worker_step S ev w)" using step_conserves [OF Cons.prems(1)] by blast
  note a = step_attempts [OF Cons.prems, of S ev]
  note i = Cons.IH [OF l conjunct1 [OF a]]
  have r: "worker_run S (ev # evs) w = worker_run S evs (worker_step S ev w)" by (simp add: worker_run_def)
  have "length (accepted S (ev # evs)) = length (accepted S [ev]) + length (accepted S evs)"
    by (simp split: event.split)
  then show ?case using a i unfolding r by auto
qed (simp add: worker_run_def)


subsection \<open>Every notification is resolved\<close>

text \<open>
  A fair schedule: the consumers take what is in their queues, otherwise the loop goes on; \<open>mail k\<close> and
  \<open>post k\<close> are what the outside answers at step k.  Publications of the loop succeed.
\<close>

definition next_event :: "(email \<Rightarrow> bool) \<Rightarrow> (string \<Rightarrow> json_body \<Rightarrow> nat option) \<Rightarrow> worker \<Rightarrow> event" where
  "next_event mail post w =
     (if wk_queues w EMAIL_QUEUE \<noteq> [] then Email 0 mail
      else if wk_queues w WEBHOOK_QUEUE \<noteq> [] then Webhook 0 post
      else case wk_loop w of Backoff _ _ _ \<Rightarrow> Republish True | _ \<Rightarrow> Poll)"

fun serve ::
  "settings \<Rightarrow> (nat \<Rightarrow> email \<Rightarrow> bool) \<Rightarrow> (nat \<Rightarrow> string \<Rightarrow> json_body \<Rightarrow> nat option) \<Rightarrow> nat \<Rightarrow> worker \<Rightarrow> worker" where
  "serve S mail post 0 w = w"
| "serve S mail post (Suc n) w = serve S mail post n (worker_step S (next_event (mail n) (post n) w) w)"

text \<open>The steps a message is away from its end, at most.\<close>

definition steps_left :: "message \<Rightarrow> nat" where
  "steps_left m = nat (14 - 3 * the (attempt_of m))"

definition work :: "worker \<Rightarrow> nat" where
  "work w =
     sum_list (map steps_left (wk_queues w EMAIL_QUEUE)) + sum_list (map steps_left (wk_queues w WEBHOOK_QUEUE)) +
     sum_list (map (\<lambda>m. steps_left m - 1) (wk_queues w EMAIL_DLQ)) +
     sum_list (map (\<lambda>m. steps_left m - 1) (wk_queues w WEBHOOK_DLQ)) +
     (case wk_loop w of Backoff m a rest \<Rightarrow> nat (12 - 3 * a) | _ \<Rightarrow> 0)"

text \<open>The polls of empty queues before the loop reaches a message.\<close>

definition idle :: "worker \<Rightarrow> nat" where
  "idle w =
     (if wk_queues w EMAIL_QUEUE \<noteq> [] \<or> wk_queues w WEBHOOK_QUEUE \<noteq> [] then 0
      else case wk_loop w of
        Polling xs \<Rightarrow>
          if xs = [] then (if wk_queues w EMAIL_DLQ = [] then 2 else 1)
          else if xs = tl retry_queues then
            (if wk_queues w WEBHOOK_DLQ \<noteq> [] then 0 else 2)
          else (if wk_queues w EMAIL_DLQ \<noteq> [] then 0 else 1)
      | _ \<Rightarrow> 0)"

lemma idle_le: "idle w \<le> 2"
  by (auto simp: idle_def split: loop_pos.split)

definition alive :: "worker \<Rightarrow> bool" where
  "alive w \<longleftrightarrow> (case wk_loop w of Ended _ _ \<Rightarrow> False | _ \<Rightarrow> True)"

lemma attempt_okE:
  assumes "attempt_ok m" obtains a where "attempt_of m = Some a" "1 \<le> a" "a \<le> 4"
  using assms by (auto simp: attempt_ok_def MAX_RETRIES_def)

lemma steps_left_ge: "attempt_ok m \<Longrightarrow> 2 \<le> steps_left m"
  by (auto simp: steps_left_def elim!: attempt_okE)

text \<open>A consumer's step, and a step of the loop that finds a message, are work.\<close>

lemma process_work:
  assumes "queue = EMAIL_QUEUE \<or> queue = WEBHOOK_QUEUE" and "attempts_ok w" and "wk_queues w queue \<noteq> []"
  shows "work (process queue key 0 h w) < work w"
proof -
  obtain m ms where q: "wk_queues w queue = m # ms" using assms(3) by (cases "wk_queues w queue") auto
  then have "attempt_ok m" using assms(1,2) by (auto simp: attempts_ok_def)
  then have "2 \<le> steps_left m" by (rule steps_left_ge)
  then show ?thesis using assms(1) q by (auto simp: process_def work_def drop_nth_def Let_def split: sum.split)
qed

lemma republish_work:
  assumes "loop_ok w" and "attempts_ok w" and "wk_loop w = Backoff m a xs"
  shows "work (republish True w) < work w"
  using assms(1)
proof (cases rule: loop_cases)
  case (3 m a dlq key rest)
  then have "1 \<le> a" "a \<le> 3" using assms(2) by (simp_all add: attempts_ok_def MAX_RETRIES_def)
  then show ?thesis using 3 by (auto simp: republish_def work_def steps_left_def)
qed (use assms(3) in simp_all)

lemma poll_progress:
  assumes "loop_ok w" and "attempts_ok w" and "wk_loop w = Polling xs" and "in_flight w \<noteq> {#}"
    and "wk_queues w EMAIL_QUEUE = []" and "wk_queues w WEBHOOK_QUEUE = []"
  shows "work (poll w) < work w \<or> work (poll w) = work w \<and> idle (poll w) < idle w"
    and "alive (poll w)"
proof -
  have dlq: "wk_queues w EMAIL_DLQ \<noteq> [] \<or> wk_queues w WEBHOOK_DLQ \<noteq> []"
    using assms(3-6) by (auto simp: in_flight_def held_def)
  have ok: "\<exists>a. attempt_of m = Some a \<and> 1 \<le> a \<and> a \<le> 4" if "wk_queues w q = m # ms" "q = EMAIL_DLQ \<or> q = WEBHOOK_DLQ" for m ms q
    using that assms(2) by (auto simp: attempts_ok_def MAX_RETRIES_def attempt_ok_def)
  show "work (poll w) < work w \<or> work (poll w) = work w \<and> idle (poll w) < idle w"
    using assms(1)
  proof (cases rule: loop_cases)
    case 1
    then show ?thesis using dlq assms(5,6) by (auto simp: poll_def work_def idle_def retry_queues_def)
  next
    case (2 dlq key rest)
    show ?thesis
    proof (cases "wk_queues w dlq")
      case Nil
      then show ?thesis using 2 dlq assms(5,6) by (auto simp: poll_def work_def idle_def retry_queues_def)
    next
      case (Cons m ms)
      then obtain a where "attempt_of m = Some a" "1 \<le> a" "a \<le> 4" using ok 2(2) by blast
      then show ?thesis
        using 2 Cons by (auto simp: poll_def work_def steps_left_def fire_critical_alert_def MAX_RETRIES_def Let_def)
    qed
  qed (use assms(3) in simp_all)
  show "alive (poll w)"
    using assms(1)
  proof (cases rule: loop_cases)
    case (2 dlq key rest)
    then show ?thesis
      using ok [of dlq] by (cases "wk_queues w dlq")
        (auto simp: poll_def alive_def fire_critical_alert_def Let_def split: option.split)
  qed (use assms(3) in \<open>simp_all add: poll_def alive_def\<close>)
qed

lemma next_event_progress:
  assumes "loop_ok w" and "attempts_ok w" and "alive w" and "in_flight w \<noteq> {#}"
    and eq: "w' = worker_step S (next_event mail post w) w"
  shows "3 * work w' + idle w' < 3 * work w + idle w \<and> alive w'"
proof -
  have less: ?thesis if "work w' < work w \<or> work w' = work w \<and> idle w' < idle w" "alive w'"
    using that idle_le [of w'] by auto
  have loop: "wk_loop (process q k i h w) = wk_loop w" for q k i h
    by (simp add: process_def Let_def split: sum.split)
  consider "wk_queues w EMAIL_QUEUE \<noteq> []" | "wk_queues w EMAIL_QUEUE = []" "wk_queues w WEBHOOK_QUEUE \<noteq> []"
    | m a xs where "wk_queues w EMAIL_QUEUE = []" "wk_queues w WEBHOOK_QUEUE = []" "wk_loop w = Backoff m a xs"
    | xs where "wk_queues w EMAIL_QUEUE = []" "wk_queues w WEBHOOK_QUEUE = []" "wk_loop w = Polling xs"
    using assms(3) by (cases "wk_loop w") (auto simp: alive_def)
  then show ?thesis
  proof cases
    case 1
    then have "w' = process EMAIL_QUEUE EMAIL_ROUTING_KEY 0 (handle_email S mail) w"
      by (simp add: eq worker_step_def next_event_def)
    then show ?thesis using process_work [of EMAIL_QUEUE w] 1 assms(2,3) less by (simp add: alive_def loop)
  next
    case 2
    then have "w' = process WEBHOOK_QUEUE WEBHOOK_ROUTING_KEY 0 (handle_webhook post) w"
      by (simp add: eq worker_step_def next_event_def)
    then show ?thesis using process_work [of WEBHOOK_QUEUE w] 2 assms(2,3) less by (simp add: alive_def loop)
  next
    case (3 m a xs)
    then have w': "w' = republish True w" by (simp add: eq worker_step_def next_event_def)
    have "alive w'" using 3(3) by (simp add: w' republish_def alive_def split: list.split)
    then show ?thesis using republish_work [OF assms(1,2) 3(3)] less by (simp add: w')
  next
    case (4 xs)
    then have "w' = poll w" by (simp add: eq worker_step_def next_event_def)
    then show ?thesis using poll_progress [OF assms(1,2) 4(3) assms(4) 4(1,2)] less by simp
  qed
qed

lemma resolved_stays:
  assumes "loop_ok w" and "in_flight w = {#}"
  shows "in_flight (serve S mail post n w) = {#} \<and> resolved (serve S mail post n w) = resolved w"
  using assms
proof (induction n arbitrary: w)
  case (Suc n)
  let ?w = "worker_step S (next_event (mail n) (post n) w) w"
  have "accepted S [next_event (mail n) (post n) w] = []"
    by (simp add: next_event_def split: loop_pos.split)
  then have eq: "resolved ?w + in_flight ?w = resolved w" "loop_ok ?w"
    using step_conserves [OF Suc.prems(1), of S "next_event (mail n) (post n) w"] Suc.prems(2) by simp_all
  have "wk_queues w EMAIL_QUEUE = []" "wk_queues w WEBHOOK_QUEUE = []" "wk_queues w EMAIL_DLQ = []"
      "wk_queues w WEBHOOK_DLQ = []" "\<exists>xs. wk_loop w = Polling xs"
    using Suc.prems(2) by (auto simp: in_flight_def held_def bodies_def split: loop_pos.splits)
  then have "in_flight ?w = {#}"
    using Suc.prems(1)
    by (auto simp: next_event_def worker_step_def poll_def in_flight_def held_def loop_ok_def retry_queues_def)
  with eq Suc.IH [of ?w] show ?case by simp
qed simp

lemma serve_resolves:
  assumes "loop_ok w" and "attempts_ok w" and "alive w" and "3 * work w + idle w \<le> n"
  shows "in_flight (serve S mail post n w) = {#} \<and> resolved (serve S mail post n w) = resolved w + in_flight w"
  using assms
proof (induction n arbitrary: w)
  case 0
  then have "in_flight w = {#}" using next_event_progress [OF _ _ _ _ refl, of w] by fastforce
  then show ?case by simp
next
  case (Suc n)
  let ?e = "next_event (mail n) (post n) w"
  let ?w = "worker_step S ?e w"
  show ?case
  proof (cases "in_flight w = {#}")
    case True
    then show ?thesis using resolved_stays [OF Suc.prems(1) True, of S mail post "Suc n"] by simp
  next
    case False
    note p = next_event_progress [OF Suc.prems(1-3) False refl, of S "mail n" "post n"]
    have "accepted S [?e] = []" by (simp add: next_event_def split: loop_pos.split)
    then have c: "resolved ?w + in_flight ?w = resolved w + in_flight w" "loop_ok ?w"
      using step_conserves [OF Suc.prems(1), of S ?e] by simp_all
    have "attempts_ok ?w" using step_attempts [OF Suc.prems(1,2), of S ?e] by blast
    with Suc.IH [of ?w] c p Suc.prems(4) show ?thesis by simp
  qed
qed

text \<open>C23: while the retry loop lives every notification is resolved: from any state the worker can be in, whatever the
  mail server and the webhooks answer and whenever, a bounded number of steps of a fair schedule
  empties all queues, and each notification that was in flight has been delivered or reported, once.
\<close>

theorem notifications_resolved:
  assumes "loop_ok w" and "attempts_ok w" and "alive w" and "3 * work w + 2 \<le> n"
  shows "in_flight (serve S mail post n w) = {#} \<and>
    mset (wk_sent (serve S mail post n w)) + mset (map (\<lambda>a. (al_key a, al_body a)) (wk_alerts (serve S mail post n w))) =
      resolved w + in_flight w"
  using serve_resolves [OF assms(1-3), of n] assms(4) idle_le [of w] by (simp add: resolved_def)

text \<open>A notice for a secret with both channels, and a worker that has it in its queues.\<close>

definition sample_notice :: view_notice where
  "sample_notice = \<lparr>vn_secret = 5, vn_email = Some ''a@x.io'', vn_webhook = Some ''https://h.io'', vn_ip = ''10.0.0.1''\<rparr>"

definition sample_worker :: worker where
  "sample_worker = worker_step demo_settings (Notify (\<lambda>_. True) (uuid_str 5) (Some sample_notice)) (notification_worker (\<lambda>_. []))"

lemma start_ok: "loop_ok (notification_worker (\<lambda>_. []))" "attempts_ok (notification_worker (\<lambda>_. []))"
  by (simp_all add: notification_worker_def loop_ok_def attempts_ok_def)

lemma sample_messages: "length (notice_messages demo_settings (\<lambda>_. True) (uuid_str 5) (Some sample_notice)) = 2"
  by (simp add: notice_messages_def sample_notice_def demo_settings_def Let_def)

lemma sample_worker_ok:
  "loop_ok sample_worker" "attempts_ok sample_worker" "alive sample_worker"
  "resolved sample_worker + in_flight sample_worker = mset (notice_messages demo_settings (\<lambda>_. True) (uuid_str 5) (Some sample_notice))"
proof -
  have e: "resolved (notification_worker (\<lambda>_. [])) = {#}" "in_flight (notification_worker (\<lambda>_. [])) = {#}"
    by (simp_all add: notification_worker_def resolved_def in_flight_def held_def)
  show "loop_ok sample_worker" "resolved sample_worker + in_flight sample_worker =
      mset (notice_messages demo_settings (\<lambda>_. True) (uuid_str 5) (Some sample_notice))"
    using step_conserves [OF start_ok(1), of demo_settings "Notify (\<lambda>_. True) (uuid_str 5) (Some sample_notice)"] e
    by (simp_all add: sample_worker_def)
  show "attempts_ok sample_worker"
    using step_attempts [OF start_ok] by (simp add: sample_worker_def)
  show "alive sample_worker" by (simp add: sample_worker_def worker_step_def notification_worker_def alive_def)
qed



text \<open>Neither the mail server nor the webhook ever answers: both notifications are reported.\<close>

theorem notifications_resolved_witness:
  "\<exists>n. in_flight (serve demo_settings (\<lambda>_ _. False) (\<lambda>_ _ _. None) n sample_worker) = {#} \<and>
     length (wk_sent (serve demo_settings (\<lambda>_ _. False) (\<lambda>_ _ _. None) n sample_worker)) +
     length (wk_alerts (serve demo_settings (\<lambda>_ _. False) (\<lambda>_ _ _. None) n sample_worker)) = 2"
proof -
  let ?n = "3 * work sample_worker + 2"
  let ?w = "serve demo_settings (\<lambda>_ _. False) (\<lambda>_ _ _. None) ?n sample_worker"
  note r = notifications_resolved [OF sample_worker_ok(1-3), of ?n demo_settings "\<lambda>_ _. False" "\<lambda>_ _ _. None"]
  have "size (mset (wk_sent ?w) + mset (map (\<lambda>a. (al_key a, al_body a)) (wk_alerts ?w))) = 2"
    using r sample_worker_ok(4) sample_messages by simp
  then show ?thesis using r by (intro exI [of _ ?n]) simp
qed

subsection \<open>When the loop has ended\<close>

lemma ended_stays:
  assumes "wk_loop w = Ended m key"
  shows "wk_loop (worker_run S evs w) = Ended m key \<and> wk_alerts (worker_run S evs w) = wk_alerts w \<and>
    prefix (wk_queues w EMAIL_DLQ) (wk_queues (worker_run S evs w) EMAIL_DLQ) \<and>
    prefix (wk_queues w WEBHOOK_DLQ) (wk_queues (worker_run S evs w) WEBHOOK_DLQ)"
  using assms
proof (induction evs arbitrary: w)
  case (Cons ev evs)
  let ?w = "worker_step S ev w"
  have "wk_loop ?w = Ended m key" "wk_alerts ?w = wk_alerts w" "prefix (wk_queues w EMAIL_DLQ) (wk_queues ?w EMAIL_DLQ)"
      "prefix (wk_queues w WEBHOOK_DLQ) (wk_queues ?w WEBHOOK_DLQ)"
    using Cons.prems
    by (cases ev; auto simp: worker_step_def run_notice_queues process_def poll_def republish_def Let_def split: sum.split)+
  with Cons.IH [of ?w] show ?case by (auto simp: worker_run_def intro: prefix_order.trans)
qed (simp add: worker_run_def)

text \<open>
  a single publication of the retry loop that fails ends it for good: from then on, whatever happens, no
  failed notification is tried again and none is reported; what is in the dead-letter queues stays there.
\<close>

theorem failed_republish_strands:
  assumes "wk_loop w = Backoff m a ((dlq, key) # rest)"
  shows "wk_alerts (worker_run S (Republish False # evs) w) = wk_alerts w \<and>
    prefix (wk_queues w EMAIL_DLQ) (wk_queues (worker_run S (Republish False # evs) w) EMAIL_DLQ) \<and>
    prefix (wk_queues w WEBHOOK_DLQ) (wk_queues (worker_run S (Republish False # evs) w) WEBHOOK_DLQ)"
proof -
  let ?w = "worker_step S (Republish False) w"
  have "wk_loop ?w = Ended m key" "wk_alerts ?w = wk_alerts w" "wk_queues ?w = wk_queues w"
    using assms by (simp_all add: worker_step_def republish_def)
  then show ?thesis using ended_stays [of ?w m key S evs] by (simp add: worker_run_def)
qed

theorem failed_republish_strands_witness:
  "\<exists>m. prefix [m] (wk_queues (worker_run demo_settings [Republish False, Poll, Poll, Poll]
     (notification_worker (\<lambda>q. if q = WEBHOOK_DLQ then [m] else [])\<lparr>wk_loop := Backoff m 1 retry_queues\<rparr>)) WEBHOOK_DLQ)"
proof -
  let ?m = "\<lparr>ms_body = [], ms_headers = Map.empty\<rparr>"
  let ?w = "notification_worker (\<lambda>q. if q = WEBHOOK_DLQ then [?m] else [])\<lparr>wk_loop := Backoff ?m 1 retry_queues\<rparr>"
  have l: "wk_loop ?w = Backoff ?m 1 ((EMAIL_DLQ, EMAIL_ROUTING_KEY) # tl retry_queues)"
    by (simp add: retry_queues_def)
  from failed_republish_strands [OF l, of demo_settings "[Poll, Poll, Poll]"] show ?thesis
    by (auto simp: notification_worker_def)
qed

subsection \<open>From the retrieval to the queues\<close>

text \<open>a successful retrieval of a secret with notifications on queues one message per configured channel, with the
  viewer's address, and one without queues none; the e-mail is left out when SMTP is not configured,
  and an exchange that refuses a message costs that message only.
\<close>

theorem view_is_notified:
  assumes "retrieve_secret P rq secret_id pw token user db = (Inr (c, n), db')" and "rq_ip rq \<noteq> []"
  shows "\<exists>sid s. parse_uuid secret_id = Some sid \<and> secret_of db sid = Some s \<and>
    mset (notice_messages (cfg P) up secret_id n) =
      (if s_notify s \<and> truthy (s_notify_email s) \<and> SMTP_USERNAME (cfg P) \<noteq> [] \<and> SMTP_PASSWORD (cfg P) \<noteq> [] \<and> up EMAIL_ROUTING_KEY
       then {#(EMAIL_ROUTING_KEY, email_payload (the (s_notify_email s)) secret_id (rq_ip rq))#} else {#}) +
      (if s_notify s \<and> truthy (s_webhook s) \<and> up WEBHOOK_ROUTING_KEY
       then {#(WEBHOOK_ROUTING_KEY, webhook_payload (the (s_webhook s)) secret_id (rq_ip rq))#} else {#}) \<and>
    (\<forall>qs. run_notice (cfg P) True up secret_id n qs = qs(
       EMAIL_QUEUE := qs EMAIL_QUEUE @ fresh (notice_messages (cfg P) up secret_id n) EMAIL_ROUTING_KEY,
       WEBHOOK_QUEUE := qs WEBHOOK_QUEUE @ fresh (notice_messages (cfg P) up secret_id n) WEBHOOK_ROUTING_KEY))"
proof -
  obtain sid and p :: policy_row where p: "parse_uuid secret_id = Some sid"
      "retrieve_locked P rq (p_version p) sid pw user db = (Inr (c, n), db')"
    using assms(1) by (rule retrieve_secret_Inr) (rule that; assumption)
  from p(2) obtain s where s: "secret_of db sid = Some s"
    "n = (if s_notify s then Some \<lparr>vn_secret = sid, vn_email = s_notify_email s,
       vn_webhook = s_webhook s, vn_ip = rq_ip rq\<rparr> else None)"
    by (rule retrieve_locked_Inr) (rule that; simp add: retrieve_guards_Inr)
  show ?thesis
    using p(1) s assms(2)
    by (intro exI [of _ sid] exI [of _ s]) (simp add: run_notice_queues notice_messages_def Let_def)
qed

theorem view_is_notified_witness:
  "\<exists>c n db'. retrieve_secret demo_platform demo_request (uuid_str 5) None None None live_db = (Inr (c, n), db') \<and>
     mset (notice_messages (cfg demo_platform) (\<lambda>_. True) (uuid_str 5) n) =
       {#(EMAIL_ROUTING_KEY, email_payload ''n@x.io'' (uuid_str 5) ''10.0.0.1'')#}"
proof -
  obtain c n db' where r: "retrieve_secret demo_platform demo_request (uuid_str 5) None None None live_db = (Inr (c, n), db')"
    using live_db_retrieved by blast
  have row: "s_notify live_row" "s_notify_email live_row = Some ''n@x.io''" "s_webhook live_row = None"
    by (simp_all add: live_row_def created_row_def sample_body_def)
  have cfg: "SMTP_USERNAME (cfg demo_platform) \<noteq> []" "SMTP_PASSWORD (cfg demo_platform) \<noteq> []" "rq_ip demo_request = ''10.0.0.1''"
    by (simp_all add: demo_platform_def demo_settings_def demo_request_def)
  from view_is_notified [OF r, of "\<lambda>_. True"] r live_db_sel(1) row cfg show ?thesis
    by (auto simp: parse_uuid_str)
qed

end
