(* ===== verification/Lifespan.thy ===== *)
theory Lifespan
  imports Prelude
begin

text \<open>
  The life of the process: the context manager \<open>lifespan\<close> of app/main.py with the modules it starts and
  stops, app/core/database.py and app/core/redis_client.py, and the exchange reference of
  app/services/notification_service.py.  What the pool, the Redis client and the two background tasks do
  is an argument; the asyncio calls (a finished task gives its result or raises again, \<open>wait_for\<close> cancels
  what takes too long, cancelling a finished task changes nothing) are modelled.
\<close>

datatype resource = Missing | Opened | Closed

record app_state =
  ap_pool :: resource
  ap_redis :: resource
  ap_exchange :: bool

definition new_app :: app_state where
  "new_app = \<lparr>ap_pool = Missing, ap_redis = Missing, ap_exchange = False\<rparr>"

subsection \<open>Connections\<close>

text \<open>The pool object is there before it is opened.\<close>

definition init_pool :: "unit res \<Rightarrow> app_state \<Rightarrow> unit res \<times> app_state" where
  "init_pool pool_open a =
     (let a1 = a\<lparr>ap_pool := Closed\<rparr> in
      case pool_open of Inl e \<Rightarrow> (Inl e, a1) | Inr _ \<Rightarrow> (Inr (), a1\<lparr>ap_pool := Opened\<rparr>))"

definition get_pool :: "app_state \<Rightarrow> resource res" where
  "get_pool a =
     (if ap_pool a = Missing then Inl (RuntimeError ''Database pool is not initialized.'') else Inr (ap_pool a))"

definition close_pool :: "app_state \<Rightarrow> app_state" where
  "close_pool a = (if ap_pool a \<noteq> Missing then a\<lparr>ap_pool := Closed\<rparr> else a)"

text \<open>
  \<open>from_url\<close> makes the client without connecting; the first command is CONFIG SET, whose failure is
  printed and swallowed.
\<close>

definition init_redis :: "unit res \<Rightarrow> unit res \<Rightarrow> app_state \<Rightarrow> unit res \<times> app_state" where
  "init_redis from_url config_set a =
     (case from_url of
        Inl e \<Rightarrow> (Inl e, a)
      | Inr _ \<Rightarrow>
          (case config_set of
             Inl printed \<Rightarrow> (Inr (), a\<lparr>ap_redis := Opened\<rparr>)
           | Inr _ \<Rightarrow> (Inr (), a\<lparr>ap_redis := Opened\<rparr>)))"

definition get_redis :: "app_state \<Rightarrow> resource res" where
  "get_redis a =
     (if ap_redis a = Missing then Inl (RuntimeError ''Redis client is not initialized.'') else Inr (ap_redis a))"

definition close_redis :: "app_state \<Rightarrow> app_state" where
  "close_redis a = (if ap_redis a \<noteq> Missing then a\<lparr>ap_redis := Closed\<rparr> else a)"

definition set_exchange :: "app_state \<Rightarrow> app_state" where
  "set_exchange a = a\<lparr>ap_exchange := True\<rparr>"

definition clear_exchange :: "app_state \<Rightarrow> app_state" where
  "clear_exchange a = a\<lparr>ap_exchange := False\<rparr>"

subsection \<open>Startup\<close>

datatype task = Running | Returned | Raised exc

text \<open>What one round of the health-check loop sees.\<close>

record observation =
  ob_ready :: bool
  ob_exchange :: bool
  ob_task :: task
  ob_time :: micros

definition loop_timeout :: micros where
  "loop_timeout = 5 * second"

text \<open>
  \<open>while not rabbitmq_ready.is_set()\<close>, from round \<open>k\<close> on: the result of the loop (an exception of the
  worker is raised again) and the round in which it ends.  None: the loop does not end.
\<close>

partial_function (option) wait_ready :: "micros \<Rightarrow> (nat \<Rightarrow> observation) \<Rightarrow> nat \<Rightarrow> (unit res \<times> nat) option" where
  "wait_ready start_time obs k =
     (if ob_ready (obs k) then Some (Inr (), k)
      else case ob_task (obs k) of
        Raised e \<Rightarrow> Some (Inl e, k)
      | Returned \<Rightarrow> Some (Inr (), k)
      | Running \<Rightarrow>
          if loop_timeout < ob_time (obs k) - start_time then Some (Inr (), k)
          else wait_ready start_time obs (Suc k))"

text \<open>
  Up to the \<open>yield\<close>.  The worker sets the exchange on its way to being ready.
\<close>

definition startup ::
  "unit res \<Rightarrow> unit res \<Rightarrow> unit res \<Rightarrow> micros \<Rightarrow> (nat \<Rightarrow> observation) \<Rightarrow> app_state \<Rightarrow> (unit res \<times> app_state) option" where
  "startup pool_open from_url config_set start_time obs a =
     (case init_pool pool_open a of
        (Inl e, a1) \<Rightarrow> Some (Inl e, a1)
      | (Inr _, a1) \<Rightarrow>
          (let a2 = snd (init_redis from_url config_set a1) in
           case wait_ready start_time obs 0 of
             None \<Rightarrow> None
           | Some (r, k) \<Rightarrow> Some (r, if ob_exchange (obs k) then set_exchange a2 else a2)))"

subsection \<open>Shutdown\<close>

text \<open>
  \<open>stop_worker\<close> sets the event the retry loop reads between two passes; \<open>busy\<close> is the time until the loop reads
  it.  \<open>wait_for\<close> gives the worker ten seconds and cancels it; a cancelled worker does not reach
  \<open>clear_exchange\<close>.  A worker that has raised raises again.
\<close>

definition stop_notification :: "task \<Rightarrow> micros \<Rightarrow> app_state \<Rightarrow> unit res \<times> app_state" where
  "stop_notification t busy a =
     (case t of
        Raised e \<Rightarrow> (Inl e, a)
      | Returned \<Rightarrow> (Inr (), a)
      | Running \<Rightarrow> (Inr (), if busy < 10 * second then clear_exchange a else a))"

text \<open>\<open>cleanup_task.cancel()\<close>, and the task awaited.\<close>

definition stop_cleanup :: "task \<Rightarrow> unit res" where
  "stop_cleanup t = (case t of Raised e \<Rightarrow> Inl e | Returned \<Rightarrow> Inr () | Running \<Rightarrow> Inr ())"

definition shutdown :: "task \<Rightarrow> micros \<Rightarrow> task \<Rightarrow> app_state \<Rightarrow> unit res \<times> app_state" where
  "shutdown notification_task busy cleanup_task a =
     (case stop_notification notification_task busy a of
        (Inl e, a1) \<Rightarrow> (Inl e, a1)
      | (Inr _, a1) \<Rightarrow>
     (case stop_cleanup cleanup_task of
        Inl e \<Rightarrow> (Inl e, a1)
      | Inr _ \<Rightarrow> (Inr (), close_redis (close_pool a1))))"

subsection \<open>The loop ends, and what decides\<close>

text \<open>The rounds before the one that ends the loop.\<close>

definition undecided :: "micros \<Rightarrow> observation \<Rightarrow> bool" where
  "undecided start_time ob \<longleftrightarrow> \<not> ob_ready ob \<and> ob_task ob = Running \<and> ob_time ob - start_time \<le> loop_timeout"

lemma wait_ready_step:
  "undecided t (obs k) \<Longrightarrow> wait_ready t obs k = wait_ready t obs (Suc k)"
  by (subst wait_ready.simps) (simp add: undecided_def)

lemma wait_ready_end:
  "\<not> undecided t (obs k) \<Longrightarrow> wait_ready t obs k =
     Some (case ob_task (obs k) of Raised e \<Rightarrow> if ob_ready (obs k) then Inr () else Inl e | _ \<Rightarrow> Inr (), k)"
  by (subst wait_ready.simps) (auto simp: undecided_def split: task.split)

lemma wait_ready_first:
  assumes "\<not> undecided t (obs n)"
  shows "\<exists>k \<le> n. \<not> undecided t (obs k) \<and> (\<forall>j < k. undecided t (obs j)) \<and> wait_ready t obs 0 = wait_ready t obs k"
proof -
  let ?k = "LEAST k. \<not> undecided t (obs k)"
  have k: "\<not> undecided t (obs ?k)" "?k \<le> n" using assms by (rule LeastI, rule Least_le)
  have before: "undecided t (obs j)" if "j < ?k" for j using that not_less_Least by blast
  have "j \<le> ?k \<Longrightarrow> wait_ready t obs 0 = wait_ready t obs j" for j
  proof (induction j)
    case (Suc j)
    then show ?case using wait_ready_step [of t obs j] before [of j] by simp
  qed simp
  then show ?thesis using k before by blast
qed

text \<open>C40: startup ends, one way or another: a round sleeps a tenth of a second, so at the latest in round 51 the loop
  is over.  The application serves exactly when the pool opened and the worker had not crashed before the
  broker was ready or the time was up; whether Redis could be reached makes no difference, and the
  Redis client counts as initialised even when it could not.
\<close>

theorem startup_ends:
  assumes "\<And>k. start_time + int k * 100000 \<le> ob_time (obs k)"
  shows "\<exists>r a'. startup pool_open from_url config_set start_time obs new_app = Some (r, a') \<and>
    (case pool_open of
       Inl e \<Rightarrow> r = Inl e \<and> ap_pool a' \<noteq> Opened
     | Inr _ \<Rightarrow> ap_pool a' = Opened \<and>
         (\<forall>cs. map_option fst (startup pool_open from_url cs start_time obs new_app) = Some r) \<and>
         (get_redis a' = Inr Opened \<longleftrightarrow> from_url = Inr ()) \<and>
         (\<exists>k \<le> 51. (\<forall>j < k. undecided start_time (obs j)) \<and> \<not> undecided start_time (obs k) \<and>
            ap_exchange a' = ob_exchange (obs k) \<and>
            (r = Inr () \<longleftrightarrow> ob_ready (obs k) \<or> (\<forall>e. ob_task (obs k) \<noteq> Raised e))))"
proof (cases pool_open)
  case (Inl e)
  then show ?thesis by (simp add: startup_def init_pool_def)
next
  case (Inr u)
  have "\<not> undecided start_time (obs 51)" using assms [of 51] by (simp add: undecided_def loop_timeout_def)
  from wait_ready_first [of start_time obs, OF this] obtain k where k: "k \<le> 51" "\<not> undecided start_time (obs k)"
      "\<forall>j < k. undecided start_time (obs j)" "wait_ready start_time obs 0 = wait_ready start_time obs k" by blast
  note w = k(4) [unfolded wait_ready_end [of start_time obs, OF k(2)]]
  show ?thesis
    using k(1-3) by (auto simp: Inr startup_def init_pool_def init_redis_def w Let_def new_app_def set_exchange_def
        get_redis_def split: task.splits sum.splits intro!: exI [of _ k])
qed

text \<open>shutdown releases pool and Redis exactly when neither background task has crashed: the exception of a crashed
  task, logged long before, is raised again and skips everything after it.
\<close>

theorem shutdown_releases:
  assumes "ap_pool a = Opened" and "ap_redis a \<noteq> Missing"
  shows "case shutdown notification_task busy cleanup_task a of (r, a') \<Rightarrow>
    (r = Inr () \<longleftrightarrow> (\<forall>e. notification_task \<noteq> Raised e) \<and> (\<forall>e. cleanup_task \<noteq> Raised e)) \<and>
    (r = Inr () \<longrightarrow> ap_pool a' = Closed \<and> ap_redis a' = Closed) \<and>
    (\<forall>e. r = Inl e \<longrightarrow> (notification_task = Raised e \<or> cleanup_task = Raised e) \<and> ap_pool a' = Opened \<and>
       ap_redis a' = ap_redis a)"
  using assms
  by (auto simp: shutdown_def stop_notification_def stop_cleanup_def close_pool_def close_redis_def clear_exchange_def
      split: task.splits)

text \<open>The retry loop sleeps thirty seconds between two passes: unless a third of it is left, the worker is cut off.\<close>

lemma stop_cuts_off:
  "10 * second \<le> busy \<Longrightarrow> ap_exchange a \<Longrightarrow> ap_exchange (snd (shutdown Running busy t a))"
  by (auto simp: shutdown_def stop_notification_def stop_cleanup_def close_pool_def close_redis_def split: task.splits)

definition slow_start :: "nat \<Rightarrow> observation" where
  "slow_start k = \<lparr>ob_ready = k = 3, ob_exchange = 2 \<le> k, ob_task = Running, ob_time = int k * 100000\<rparr>"

theorem startup_ends_witness:
  "\<exists>a'. startup (Inr ()) (Inr ()) (Inl ServiceError) 0 slow_start new_app = Some (Inr (), a') \<and>
     get_redis a' = Inr Opened"
proof -
  from startup_ends [of 0 slow_start "Inr ()" "Inr ()" "Inl ServiceError"]
  show ?thesis by (auto simp: slow_start_def)
qed

theorem shutdown_releases_witness:
  "shutdown (Raised ServiceError) 0 Running \<lparr>ap_pool = Opened, ap_redis = Opened, ap_exchange = True\<rparr> =
     (Inl ServiceError, \<lparr>ap_pool = Opened, ap_redis = Opened, ap_exchange = True\<rparr>)"
  using shutdown_releases [of "\<lparr>ap_pool = Opened, ap_redis = Opened, ap_exchange = True\<rparr>" "Raised ServiceError" Running 0]
  by (simp add: shutdown_def stop_notification_def)

end
