(* ===== verification/Storage_Service.thy ===== *)
theory Storage_Service
  imports Files
begin

text \<open>
  app/services/storage_service.py: the adapter between the service and the S3 client.  The client
  (boto3) is a parameter that works on objects named by bucket and key; a local file is an entry of a
  file system from paths to bytes.  Shown: an adapter over a client that does what S3 documents meets the
  contract \<open>store_laws\<close> that the theories on files, deletions and uploads rest on, it stays in its
  bucket, and what is uploaded has the size that is reported and can be downloaded.
\<close>

record s3_settings =
  S3_BUCKET :: string
  S3_REGION :: string
  S3_ENDPOINT_URL :: string
  S3_ACCESS_KEY_ID :: string
  S3_SECRET_ACCESS_KEY :: string

type_synonym kwargs = "(string \<times> string) list"
type_synonym filesystem = "string \<rightharpoonup> bytes"
type_synonym s3_objects = "string \<times> string \<rightharpoonup> bytes"

text \<open>The arguments the client is made with: an endpoint and credentials only when they are set.\<close>

definition s3_client_kwargs :: "s3_settings \<Rightarrow> kwargs" where
  "s3_client_kwargs S =
     [(''service_name'', ''s3''), (''region_name'', S3_REGION S)] @
     (if S3_ENDPOINT_URL S = [] then [] else [(''endpoint_url'', S3_ENDPOINT_URL S)]) @
     (if S3_ACCESS_KEY_ID S = [] then []
      else [(''aws_access_key_id'', S3_ACCESS_KEY_ID S), (''aws_secret_access_key'', S3_SECRET_ACCESS_KEY S)])"

lemma s3_credentials_iff:
  "''aws_secret_access_key'' \<in> fst ` set (s3_client_kwargs S) \<longleftrightarrow> S3_ACCESS_KEY_ID S \<noteq> []"
  by (simp add: s3_client_kwargs_def)

text \<open>The three calls of the client, made with the arguments of the code.\<close>

record s3_client =
  s3_upload_file :: "bytes \<Rightarrow> string \<Rightarrow> string \<Rightarrow> kwargs \<Rightarrow> s3_objects \<Rightarrow> unit res \<times> s3_objects"
  s3_download_file :: "string \<Rightarrow> string \<Rightarrow> s3_objects \<Rightarrow> bytes res"
  s3_delete_object :: "string \<Rightarrow> string \<Rightarrow> s3_objects \<Rightarrow> unit res \<times> s3_objects"

text \<open>A call that returns has had its effect on the one object it names, a call that fails may have had it.\<close>

definition does_or_fails :: "unit res \<times> 's \<Rightarrow> 's \<Rightarrow> 's \<Rightarrow> bool" where
  "does_or_fails r s s' \<longleftrightarrow> r = (Inr (), s') \<or> (\<exists>e. r = (Inl e, s) \<or> r = (Inl e, s'))"

definition s3_laws :: "s3_client \<Rightarrow> bool" where
  "s3_laws C \<longleftrightarrow>
     (\<forall>b bucket k args st. does_or_fails (s3_upload_file C b bucket k args st) st (st((bucket, k) \<mapsto> b))) \<and>
     (\<forall>bucket k st b. s3_download_file C bucket k st = Inr b \<longrightarrow> st (bucket, k) = Some b) \<and>
     (\<forall>bucket k st. does_or_fails (s3_delete_object C bucket k st) st (st((bucket, k) := None)))"

definition storage_upload ::
  "s3_settings \<Rightarrow> s3_client \<Rightarrow> filesystem \<Rightarrow> string \<Rightarrow> string \<Rightarrow> s3_objects \<Rightarrow> nat res \<times> s3_objects" where
  "storage_upload S C fs path object_key st =
     (case fs path of
        None \<Rightarrow> (Inl ServiceError, st)   \<comment> \<open>\<open>path.stat()\<close>\<close>
      | Some content \<Rightarrow>
          (case s3_upload_file C content (S3_BUCKET S) object_key [(''ServerSideEncryption'', ''AES256'')] st of
             (Inl e, st') \<Rightarrow> (Inl e, st')
           | (Inr _, st') \<Rightarrow> (Inr (length content), st')))"

definition storage_download ::
  "s3_settings \<Rightarrow> s3_client \<Rightarrow> string \<Rightarrow> string \<Rightarrow> s3_objects \<Rightarrow> filesystem \<Rightarrow> unit res \<times> filesystem" where
  "storage_download S C object_key destination st fs =
     (case s3_download_file C (S3_BUCKET S) object_key st of
        Inl e \<Rightarrow> (Inl e, fs)
      | Inr content \<Rightarrow> (Inr (), fs(destination \<mapsto> content)))"

definition storage_delete :: "s3_settings \<Rightarrow> s3_client \<Rightarrow> string \<Rightarrow> s3_objects \<Rightarrow> unit res \<times> s3_objects" where
  "storage_delete S C object_key st = s3_delete_object C (S3_BUCKET S) object_key st"

section \<open>The adapter as the store of the other theories\<close>

text \<open>What the service sees of the objects, and a world in which it has a bucket to itself.\<close>

definition bucket_view :: "s3_settings \<Rightarrow> s3_objects \<Rightarrow> objects" where
  "bucket_view S st = (\<lambda>k. st (S3_BUCKET S, k))"

definition bucket_of :: "s3_settings \<Rightarrow> objects \<Rightarrow> s3_objects" where
  "bucket_of S os = (\<lambda>(b, k). if b = S3_BUCKET S then os k else None)"

lemma bucket_view_of [simp]: "bucket_view S (bucket_of S os) = os"
  by (simp add: bucket_view_def bucket_of_def)

lemma bucket_view_upd [simp]: "bucket_view S (st((S3_BUCKET S, k) := v)) = (bucket_view S st)(k := v)"
  by (auto simp: bucket_view_def)

lemma storage_upload_spec:
  assumes "s3_laws C" and "fs path = Some b"
  shows "storage_upload S C fs path k st = (Inr (length b), st((S3_BUCKET S, k) \<mapsto> b)) \<or>
    (\<exists>e. storage_upload S C fs path k st = (Inl e, st) \<or>
         storage_upload S C fs path k st = (Inl e, st((S3_BUCKET S, k) \<mapsto> b)))"
proof -
  let ?r = "s3_upload_file C b (S3_BUCKET S) k [(''ServerSideEncryption'', ''AES256'')] st"
  have "does_or_fails ?r st (st((S3_BUCKET S, k) \<mapsto> b))" using assms(1) by (simp add: s3_laws_def)
  then show ?thesis by (auto simp: does_or_fails_def storage_upload_def assms(2))
qed

lemma storage_upload_missing: "fs path = None \<Longrightarrow> storage_upload S C fs path k st = (Inl ServiceError, st)"
  by (simp add: storage_upload_def)

lemma storage_delete_spec:
  assumes "s3_laws C"
  shows "does_or_fails (storage_delete S C k st) st (st((S3_BUCKET S, k) := None))"
  using assms by (simp add: s3_laws_def storage_delete_def)

lemma storage_stays_in_bucket:
  assumes "s3_laws C" and "b \<noteq> S3_BUCKET S"
  shows "snd (storage_upload S C fs path k st) (b, k') = st (b, k')"
    and "snd (storage_delete S C k st) (b, k') = st (b, k')"
  subgoal using storage_upload_spec [OF assms(1), of fs path _ S k st] storage_upload_missing [of fs path S C k st] assms(2)
    by (cases "fs path") auto
  subgoal using storage_delete_spec [OF assms(1), of S k st] assms(2) by (auto simp: does_or_fails_def)
  done

theorem upload_then_download:
  assumes "s3_laws C" and "storage_upload S C fs path k st = (Inr n, st')"
    and "storage_download S C k dest st' fs' = (Inr (), fs'')"
  shows "fs'' dest = fs path \<and> fs path \<noteq> None \<and> n = length (the (fs path))"
proof -
  obtain b where b: "fs path = Some b" using assms(2) by (cases "fs path") (auto simp: storage_upload_missing)
  from storage_upload_spec [of C fs path b S k st, OF assms(1) b] assms(2)
  have st': "st' (S3_BUCKET S, k) = Some b" and "n = length b" by auto
  moreover obtain b' where "s3_download_file C (S3_BUCKET S) k st' = Inr b'" and "fs'' dest = Some b'"
    using assms(3) by (auto simp: storage_download_def split: sum.splits)
  moreover from this(1) assms(1) have "st' (S3_BUCKET S, k) = Some b'" by (simp add: s3_laws_def)
  ultimately show ?thesis using b by simp
qed

text \<open>The library of the file handlers with its three calls made through the adapter; the file is at one path.\<close>

definition storage_lib :: "s3_settings \<Rightarrow> s3_client \<Rightarrow> string \<Rightarrow> file_lib \<Rightarrow> file_lib" where
  "storage_lib S C path F = F\<lparr>
     fl_put := \<lambda>k b os. case storage_upload S C [path \<mapsto> b] path k (bucket_of S os) of
       (r, st) \<Rightarrow> (bind_res r (\<lambda>_. Inr ()), bucket_view S st),
     fl_get := \<lambda>k os. case storage_download S C k path (bucket_of S os) Map.empty of
       (r, fs) \<Rightarrow> bind_res r (\<lambda>_. Inr (the (fs path))),
     fl_del := \<lambda>k os. case storage_delete S C k (bucket_of S os) of (r, st) \<Rightarrow> (r, bucket_view S st)\<rparr>"

theorem storage_lib_meets_laws:
  assumes "s3_laws C" shows "store_laws (storage_lib S C path F)"
  unfolding store_laws_def
proof (intro conjI allI impI)
  fix k b os
  let ?F = "storage_lib S C path F"
  show "fl_put ?F k b os = (Inr (), os(k \<mapsto> b)) \<or>
      (\<exists>e. fl_put ?F k b os = (Inl e, os) \<or> fl_put ?F k b os = (Inl e, os(k \<mapsto> b)))"
    using storage_upload_spec [OF assms, of "[path \<mapsto> b]" path b S k "bucket_of S os"]
    by (auto simp: storage_lib_def)
  show "fl_del ?F k os = (Inr (), os(k := None)) \<or>
      (\<exists>e. fl_del ?F k os = (Inl e, os) \<or> fl_del ?F k os = (Inl e, os(k := None)))"
    using storage_delete_spec [OF assms, of S k "bucket_of S os"]
    by (auto simp: storage_lib_def does_or_fails_def)
next
  fix k b os
  assume "fl_get (storage_lib S C path F) k os = Inr b"
  then have "s3_download_file C (S3_BUCKET S) k (bucket_of S os) = Inr b"
    by (auto simp: storage_lib_def storage_download_def split: sum.splits)
  with assms have "bucket_of S os (S3_BUCKET S, k) = Some b" by (simp add: s3_laws_def)
  then show "os k = Some b" by (simp add: bucket_of_def)
qed

section \<open>A client that meets the laws\<close>

definition demo_s3 :: s3_client where
  "demo_s3 = \<lparr>s3_upload_file = \<lambda>b bucket k args st. (Inr (), st((bucket, k) \<mapsto> b)),
     s3_download_file = \<lambda>bucket k st. case st (bucket, k) of None \<Rightarrow> Inl ServiceError | Some b \<Rightarrow> Inr b,
     s3_delete_object = \<lambda>bucket k st. (Inr (), st((bucket, k) := None))\<rparr>"

definition demo_s3_settings :: s3_settings where
  "demo_s3_settings = \<lparr>S3_BUCKET = ''phantom-share'', S3_REGION = ''us-east-1'', S3_ENDPOINT_URL = [],
     S3_ACCESS_KEY_ID = [], S3_SECRET_ACCESS_KEY = []\<rparr>"

lemma demo_s3_laws: "s3_laws demo_s3"
  by (auto simp: s3_laws_def demo_s3_def does_or_fails_def split: option.splits)

end
