(* ===== verification/Tracing.thy ===== *)
theory Tracing
  imports Complex_Main Middleware Notification_Worker
begin

text \<open>
  app/core/tracing.py and app/core/amqp_tracing.py: the bootstrap of OpenTelemetry, the identifier
  of the current trace, and the headers a message carries over the broker.  The OpenTelemetry
  library is a parameter: its constructors and instrumentors may raise, its propagator adds fields to
  the headers.  Shown: the bootstrap runs once and never fails the application, the trace identifier
  is 32 hexadecimal digits that read back, and the headers of a retried message keep the count of its
  attempts, as the model of the worker takes for granted.
\<close>

section \<open>Bootstrap\<close>

record otel_settings =
  APP_NAME :: string
  APP_VERSION :: string
  OTEL_ENABLED :: bool
  OTEL_SERVICE_NAME :: string
  OTEL_DEPLOYMENT_ENVIRONMENT :: string
  OTEL_TRACES_EXPORTER :: string
  OTEL_EXPORTER_OTLP_ENDPOINT :: string
  OTEL_EXPORTER_OTLP_INSECURE :: bool
  OTEL_TRACE_SAMPLE_RATIO :: rat
  OTEL_EXCLUDED_URLS :: string

datatype exporter = ConsoleSpanExporter | OTLPSpanExporter string bool

text \<open>
  The calls of the library, in the order of the code.  A provider is known by its resource and the
  ratio of its sampler; an instrumentor by its name and the arguments besides the provider.
\<close>

type_synonym attributes = "(string \<times> string) list"

record otel_lib =
  ol_hostname :: "string res"                    \<comment> \<open>\<open>socket.gethostname()\<close>\<close>
  ol_resource :: "attributes \<Rightarrow> unit res"
  ol_provider :: "attributes \<Rightarrow> rat \<Rightarrow> unit res"
  ol_exporter :: "exporter \<Rightarrow> unit res"
  ol_install :: "exporter \<Rightarrow> unit res"         \<comment> \<open>\<open>add_span_processor\<close>, \<open>set_tracer_provider\<close>\<close>
  ol_instrument :: "string \<Rightarrow> attributes \<Rightarrow> unit res"

text \<open>The two globals of the module, and what the library has been told.\<close>

record tracing =
  tr_configured :: bool
  tr_provider :: "(attributes \<times> exporter) option"
  tr_instrumented :: "string list"
  tr_shutdowns :: nat

definition initial_tracing :: tracing where
  "initial_tracing = \<lparr>tr_configured = False, tr_provider = None, tr_instrumented = [], tr_shutdowns = 0\<rparr>"

text \<open>\<open>settings.OTEL_SERVICE_NAME or settings.APP_NAME\<close>.\<close>

definition service_name :: "otel_settings \<Rightarrow> string" where
  "service_name ot = (if OTEL_SERVICE_NAME ot = [] then APP_NAME ot else OTEL_SERVICE_NAME ot)"

definition resource_attributes :: "otel_settings \<Rightarrow> string \<Rightarrow> attributes" where
  "resource_attributes ot hostname =
     [(''service.name'', service_name ot),
      (''service.version'', APP_VERSION ot),
      (''service.instance.id'', hostname),
      (''deployment.environment.name'', OTEL_DEPLOYMENT_ENVIRONMENT ot)]"

definition choose_exporter :: "otel_settings \<Rightarrow> exporter res" where
  "choose_exporter ot =
     (let exporter_name = str_lower (OTEL_TRACES_EXPORTER ot) in
      if exporter_name = ''console'' then Inr ConsoleSpanExporter
      else if exporter_name = ''otlp''
      then Inr (OTLPSpanExporter (OTEL_EXPORTER_OTLP_ENDPOINT ot) (OTEL_EXPORTER_OTLP_INSECURE ot))
      else Inl (ValueError ''OTEL_TRACES_EXPORTER must be one of: otlp, console, none''))"

text \<open>The body of the first \<open>try\<close>.\<close>

definition setup_provider :: "otel_settings \<Rightarrow> otel_lib \<Rightarrow> (attributes \<times> exporter) res" where
  "setup_provider ot L =
     bind_res (ol_hostname L) (\<lambda>hostname.
     let resource = resource_attributes ot hostname in
     bind_res (ol_resource L resource) (\<lambda>_.
     bind_res (ol_provider L resource (OTEL_TRACE_SAMPLE_RATIO ot)) (\<lambda>_.
     bind_res (choose_exporter ot) (\<lambda>x.
     bind_res (ol_exporter L x) (\<lambda>_.
     bind_res (ol_install L x) (\<lambda>_. Inr (resource, x)))))))"

definition instrumentors :: "otel_settings \<Rightarrow> (string \<times> attributes) list" where
  "instrumentors ot = [(''FastAPI'', [(''excluded_urls'', OTEL_EXCLUDED_URLS ot)]), (''psycopg'', []), (''Redis'', []),
     (''HTTPX'', []), (''botocore'', [])]"

text \<open>The loop over the instrumentors: one that raises is logged and skipped.\<close>

fun instrument_all :: "otel_lib \<Rightarrow> (string \<times> attributes) list \<Rightarrow> tracing \<Rightarrow> tracing" where
  "instrument_all L [] t = t"
| "instrument_all L ((name, args) # rest) t =
     (case ol_instrument L name args of
        Inl _ \<Rightarrow> instrument_all L rest t
      | Inr _ \<Rightarrow> instrument_all L rest (t\<lparr>tr_instrumented := tr_instrumented t @ [name]\<rparr>))"

definition configure_tracing :: "otel_settings \<Rightarrow> otel_lib \<Rightarrow> tracing \<Rightarrow> tracing" where
  "configure_tracing ot L t =
     (if tr_configured t then t
      else
        (let t1 = t\<lparr>tr_configured := True\<rparr> in
         if \<not> OTEL_ENABLED ot \<or> str_lower (OTEL_TRACES_EXPORTER ot) = ''none'' then t1
         else (case setup_provider ot L of
                 Inl _ \<Rightarrow> t1\<lparr>tr_provider := None\<rparr>
               | Inr p \<Rightarrow> instrument_all L (instrumentors ot) (t1\<lparr>tr_provider := Some p\<rparr>))))"

definition shutdown_tracing :: "tracing \<Rightarrow> tracing" where
  "shutdown_tracing t =
     (case tr_provider t of None \<Rightarrow> t | Some _ \<Rightarrow> t\<lparr>tr_shutdowns := tr_shutdowns t + 1\<rparr>)"

definition instrumented :: "otel_lib \<Rightarrow> (string \<times> attributes) list \<Rightarrow> string list" where
  "instrumented L is = map fst (filter (\<lambda>(name, args). ok (ol_instrument L name args)) is)"

lemma instrument_all_eq: "instrument_all L is t = t\<lparr>tr_instrumented := tr_instrumented t @ instrumented L is\<rparr>"
  by (induction L "is" t rule: instrument_all.induct) (auto simp: ok_def instrumented_def split: sum.split)

text \<open>
  Telemetry is no startup dependency: configuring once or again is the same, everything that is
  instrumented is instrumented once and under an installed provider, and when any call of the set-up
  raises, or tracing is off, nothing is instrumented and the shutdown has nothing to flush.
\<close>

lemma configure_tracing_idem [simp]:
  "configure_tracing ot' L' (configure_tracing ot L t) = configure_tracing ot L t"
  by (simp add: configure_tracing_def instrument_all_eq Let_def split: sum.split)

theorem configure_tracing_outcome:
  "configure_tracing ot L initial_tracing =
     (let on = OTEL_ENABLED ot \<and> str_lower (OTEL_TRACES_EXPORTER ot) \<noteq> ''none'';
          p = (if on then (case setup_provider ot L of Inl _ \<Rightarrow> None | Inr p \<Rightarrow> Some p) else None) in
      \<lparr>tr_configured = True, tr_provider = p,
       tr_instrumented = (if p = None then [] else instrumented L (instrumentors ot)),
       tr_shutdowns = 0\<rparr>)"
  by (auto simp: configure_tracing_def initial_tracing_def instrument_all_eq Let_def split: sum.split)

lemma unknown_exporter_disables:
  assumes "str_lower (OTEL_TRACES_EXPORTER ot) \<notin> {''console'', ''otlp''}"
  shows "tr_provider (configure_tracing ot L initial_tracing) = None"
    and "shutdown_tracing (configure_tracing ot L initial_tracing) = configure_tracing ot L initial_tracing"
proof -
  have "\<exists>e. setup_provider ot L = Inl e"
    using assms by (auto simp: setup_provider_def choose_exporter_def bind_res_def Let_def split: sum.split)
  then show *: "tr_provider (configure_tracing ot L initial_tracing) = None"
    by (auto simp: configure_tracing_outcome Let_def)
  show "shutdown_tracing (configure_tracing ot L initial_tracing) = configure_tracing ot L initial_tracing"
    using * by (simp add: shutdown_tracing_def)
qed

section \<open>The identifier of the trace\<close>

text \<open>The context of the current span: its trace and span identifiers, 128 and 64 bits wide.\<close>

record span_context =
  sc_trace :: "128 word"
  sc_span :: "64 word"

definition sc_is_valid :: "span_context \<Rightarrow> bool" where
  "sc_is_valid c \<longleftrightarrow> sc_trace c \<noteq> 0 \<and> sc_span c \<noteq> 0"

definition current_trace_id :: "span_context \<Rightarrow> string option" where
  "current_trace_id c = (if \<not> sc_is_valid c then None else Some (hex_fixed 32 (unat (sc_trace c))))"

lemma trace_id_bound: "unat (t :: 128 word) < 16 ^ 32"
  using unsigned_less [of t] by simp

lemma current_trace_id_reads_back:
  assumes "current_trace_id c = Some s"
  shows "length s = 32" and "py_int 16 s = Some (int (unat (sc_trace c)))" and "sc_trace c \<noteq> 0"
  using assms trace_id_bound [of "sc_trace c"]
  by (auto simp: current_trace_id_def sc_is_valid_def py_int16_hex split: if_splits)

lemma current_trace_id_truthy: "truthy (current_trace_id c) \<longleftrightarrow> sc_is_valid c"
  using current_trace_id_reads_back(1) [of c] by (auto simp: truthy_def current_trace_id_def split: option.split)

section \<open>Trace headers of a message\<close>

text \<open>A header of AMQP: its key is text or bytes; its value is text, bytes, or something with a \<open>str()\<close>.\<close>

datatype header_text = HStr string | HBytes bytes | HInt int | HOther string

definition normalized :: "header_text \<Rightarrow> string res" where
  "normalized h =
     (case h of HStr s \<Rightarrow> Inr s
      | HBytes b \<Rightarrow> (case py_decode b of None \<Rightarrow> Inl (ValueError ''UnicodeDecodeError'') | Some s \<Rightarrow> Inr s)
      | HInt i \<Rightarrow> Inr (py_str_int i)
      | HOther s \<Rightarrow> Inr s)"

fun carrier_loop :: "(header_text \<times> header_text) list \<Rightarrow> (string \<rightharpoonup> string) \<Rightarrow> (string \<rightharpoonup> string) res" where
  "carrier_loop [] carrier = Inr carrier"
| "carrier_loop ((key, v) # rest) carrier =
     bind_res (normalized key) (\<lambda>k. bind_res (normalized v) (\<lambda>x. carrier_loop rest (carrier(k \<mapsto> x))))"

definition carrier_of :: "(header_text \<times> header_text) list option \<Rightarrow> (string \<rightharpoonup> string) res" where
  "carrier_of headers = carrier_loop (case headers of None \<Rightarrow> [] | Some hs \<Rightarrow> hs) Map.empty"

text \<open>The propagator writes fields of its own and leaves the others.\<close>

type_synonym propagator = "(string \<rightharpoonup> string) \<Rightarrow> (string \<rightharpoonup> string)"

definition injects_only :: "string set \<Rightarrow> propagator \<Rightarrow> bool" where
  "injects_only names inject \<longleftrightarrow> (\<forall>c k. k \<notin> names \<longrightarrow> inject c k = c k)"

definition inject_trace_headers ::
  "propagator \<Rightarrow> (header_text \<times> header_text) list option \<Rightarrow> (string \<rightharpoonup> string) res" where
  "inject_trace_headers inject headers = bind_res (carrier_of headers) (\<lambda>carrier. Inr (inject carrier))"

text \<open>\<open>message_span\<close> reads the remote parent before the body of the \<open>with\<close> runs.\<close>

definition message_span ::
  "((string \<rightharpoonup> string) \<Rightarrow> 'p) \<Rightarrow> (header_text \<times> header_text) list option \<Rightarrow> ('p option \<Rightarrow> 'a res) \<Rightarrow> 'a res" where
  "message_span extract headers body =
     bind_res (case headers of
                 Some (h # hs) \<Rightarrow> bind_res (carrier_of headers) (\<lambda>carrier. Inr (Some (extract carrier)))
               | _ \<Rightarrow> Inr None) body"

text \<open>\<open>{**headers, key: v}\<close>: a key that is there keeps its place.\<close>

definition dict_set :: "'k \<Rightarrow> 'v \<Rightarrow> ('k \<times> 'v) list \<Rightarrow> ('k \<times> 'v) list" where
  "dict_set k v d =
     (if k \<in> fst ` set d then map (\<lambda>(k', v'). (k', if k' = k then v else v')) d else d @ [(k, v)])"

definition retry_headers :: "propagator \<Rightarrow> (header_text \<times> header_text) list \<Rightarrow> int \<Rightarrow> (string \<rightharpoonup> string) res" where
  "retry_headers inject headers attempt =
     inject_trace_headers inject (Some (dict_set (HStr ''x-retry-attempt'') (HInt attempt) headers))"

lemma map_of_replace:
  "map_of (map (\<lambda>(k', v'). (k', if k' = k then v else v')) d) x =
     (if x = k then (if map_of d k = None then None else Some v) else map_of d x)"
  by (induction d) auto

lemma map_of_dict_set: "map_of (dict_set k v d) = (map_of d)(k \<mapsto> v)"
proof (cases "map_of d k")
  case None
  then have "k \<notin> fst ` set d" by (simp add: map_of_eq_None_iff)
  with None show ?thesis by (auto simp: dict_set_def map_add_def fun_eq_iff simp del: image_iff split: option.split)
next
  case (Some v')
  then have "k \<in> fst ` set d" by (force dest: map_of_SomeD)
  with Some show ?thesis by (simp add: dict_set_def map_of_replace fun_eq_iff)
qed

lemma distinct_dict_set: "distinct (map fst d) \<Longrightarrow> distinct (map fst (dict_set k v d))"
  by (auto simp: dict_set_def comp_def case_prod_beta)

lemma dict_set_map:
  "dict_set (HStr k) v (map (\<lambda>(k, v). (HStr k, v)) d) = map (\<lambda>(k, v). (HStr k, v)) (dict_set k v d)"
  by (force simp: dict_set_def comp_def case_prod_beta)

text \<open>Headers whose keys are text become the map of their values as text; of equal keys the later wins.\<close>

fun header_str :: "header_text \<Rightarrow> string" where
  "header_str (HStr s) = s"
| "header_str (HBytes b) = b"
| "header_str (HInt i) = py_str_int i"
| "header_str (HOther s) = s"

definition text_values :: "(string \<times> header_text) list \<Rightarrow> bool" where
  "text_values d \<longleftrightarrow> (\<forall>(k, v) \<in> set d. normalized v = Inr (header_str v))"

definition text_map :: "(string \<times> header_text) list \<Rightarrow> (string \<rightharpoonup> string)" where
  "text_map d = map_option header_str \<circ> map_of d"

lemma carrier_loop_text:
  "text_values d \<Longrightarrow> carrier_loop (map (\<lambda>(k, v). (HStr k, v)) d) c = Inr (c ++ text_map (rev d))"
proof (induction d arbitrary: c)
  case (Cons kv d)
  then show ?case
    by (cases kv)
      (auto simp: text_values_def text_map_def map_add_def fun_eq_iff normalized_def split: option.split)
qed (simp add: text_map_def fun_eq_iff map_add_def)

lemma carrier_of_text:
  assumes "text_values d" and "distinct (map fst d)"
  shows "carrier_of (Some (map (\<lambda>(k, v). (HStr k, v)) d)) = Inr (text_map d)"
proof -
  have "map_of (rev d) = map_of d"
    using assms(2) by (simp add: map_of_inject_set flip: rev_map)
  then show ?thesis by (simp add: carrier_of_def carrier_loop_text [OF assms(1)] text_map_def)
qed

text \<open>
  What a retry sends: the text of the old headers with the new count of attempts, and the fields of
  the propagator.  The model of the worker (\<open>republish\<close>, \<open>attempt_of\<close>) has exactly this map outside
  those fields, so the count that the next round reads is the one that was written.
\<close>

theorem retry_headers_text:
  assumes "injects_only names inject" and "text_values d" and "distinct (map fst d)"
  obtains h where "retry_headers inject (map (\<lambda>(k, v). (HStr k, v)) d) attempt = Inr h"
    and "\<And>k. k \<notin> names \<Longrightarrow> h k = ((text_map d)(''x-retry-attempt'' \<mapsto> py_str_int attempt)) k"
proof -
  let ?d = "dict_set ''x-retry-attempt'' (HInt attempt) d"
  have "text_values ?d"
    using assms(2) by (auto simp: text_values_def dict_set_def normalized_def)
  from carrier_of_text [OF this distinct_dict_set [OF assms(3)]]
  have "retry_headers inject (map (\<lambda>(k, v). (HStr k, v)) d) attempt = Inr (inject (text_map ?d))"
    by (simp add: retry_headers_def inject_trace_headers_def dict_set_map)
  moreover have "text_map ?d = (text_map d)(''x-retry-attempt'' \<mapsto> py_str_int attempt)"
    by (simp add: text_map_def map_of_dict_set fun_eq_iff)
  ultimately show thesis using that assms(1) by (simp add: injects_only_def)
qed

lemma retry_count_survives:
  assumes "injects_only names inject" and "text_values d" and "distinct (map fst d)"
    and "''x-retry-attempt'' \<notin> names"
  shows "\<exists>h. retry_headers inject (map (\<lambda>(k, v). (HStr k, v)) d) attempt = Inr h \<and>
     attempt_of \<lparr>ms_body = b, ms_headers = h\<rparr> = Some (attempt + 1)"
proof -
  obtain h where h: "retry_headers inject (map (\<lambda>(k, v). (HStr k, v)) d) attempt = Inr h"
      "\<And>k. k \<notin> names \<Longrightarrow> h k = ((text_map d)(''x-retry-attempt'' \<mapsto> py_str_int attempt)) k"
    using retry_headers_text [OF assms(1-3), of attempt] by blast
  from h(2) [OF assms(4)] have "attempt_of \<lparr>ms_body = b, ms_headers = h\<rparr> = Some (attempt + 1)"
    by (simp add: attempt_of_def py_int_str)
  with h(1) show ?thesis by blast
qed

text \<open>A message span runs its body unless a header is bytes that are no UTF-8.\<close>

lemma message_span_Inr:
  assumes "carrier_of headers = Inr c"
  shows "message_span extract headers body =
    body (case headers of Some (h # hs) \<Rightarrow> Some (extract c) | _ \<Rightarrow> None)"
  using assms by (cases headers; cases "the headers") (simp_all add: message_span_def)

lemma message_span_runs:
  assumes "text_values d"
  shows "\<exists>p. message_span extract (Some (map (\<lambda>(k, v). (HStr k, v)) d)) body = body p"
  by (rule exI, rule message_span_Inr) (simp add: carrier_of_def carrier_loop_text [OF assms])

end
