(* ===== verification/Config.thy ===== *)
theory Config
  imports Storage_Service Tracing
begin

text \<open>
  app/core/config.py: the declaration of every setting (type, bounds, default), the process-wide
  cache of \<open>get_settings\<close>, and the reading of the loaded settings as the records the other theories
  use.  How pydantic-settings finds and parses values is a parameter: what is relied on is that
  a settings object has every declared field, set to its default or to a value of its declaration.
\<close>

datatype setting = VInt int | VStr string | VBool bool | VFloat rat | VList "string list"

datatype setting_type = TInt "int option" "int option" | TStr | TBool | TFloat rat rat | TList

text \<open>\<open>Field(ge=..., le=...)\<close>: the bounds of an integer are optional.\<close>

fun conforms :: "setting_type \<Rightarrow> setting \<Rightarrow> bool" where
  "conforms (TInt ge le) (VInt i) \<longleftrightarrow>
     (case ge of None \<Rightarrow> True | Some a \<Rightarrow> a \<le> i) \<and> (case le of None \<Rightarrow> True | Some b \<Rightarrow> i \<le> b)"
| "conforms TStr (VStr s) \<longleftrightarrow> True"
| "conforms TBool (VBool b) \<longleftrightarrow> True"
| "conforms (TFloat a b) (VFloat x) \<longleftrightarrow> a \<le> x \<and> x \<le> b"
| "conforms TList (VList l) \<longleftrightarrow> True"
| "conforms _ _ \<longleftrightarrow> False"

abbreviation any_int :: setting_type where "any_int \<equiv> TInt None None"
abbreviation int_from :: "int \<Rightarrow> setting_type" where "int_from a \<equiv> TInt (Some a) None"
abbreviation int_in :: "int \<Rightarrow> int \<Rightarrow> setting_type" where "int_in a b \<equiv> TInt (Some a) (Some b)"

text \<open>The fields of \<open>class Settings\<close>, in order: name, type, default.\<close>

definition Settings_fields :: "(string \<times> setting_type \<times> setting option) list" where
  "Settings_fields =
    [(''APP_NAME'', TStr, None),
     (''APP_VERSION'', TStr, None),
     (''DEBUG'', TBool, None),
     (''DATABASE_URL'', TStr, None),
     (''DB_MIN_POOL'', any_int, None),
     (''DB_MAX_POOL'', any_int, None),
     (''VIEW_HISTORY_RETENTION_DAYS'', int_in 1 365, Some (VInt 30)),
     (''MAX_SECRET_VERSIONS'', int_in 1 1000, Some (VInt 100)),
     (''MAX_FILE_BYTES'', int_from 1, Some (VInt 52428800)),
     (''DEFAULT_MAX_ACTIVE_SECRETS'', int_from 1, Some (VInt 100)),
     (''DEFAULT_MAX_FILE_STORAGE_BYTES'', int_from 1, Some (VInt 1073741824)),
     (''UPLOAD_TEMP_DIR'', TStr, Some (VStr ''/tmp/phantom-uploads'')),
     (''REDIS_URL'', TStr, None),
     (''S3_BUCKET'', TStr, Some (VStr ''phantom-share'')),
     (''S3_REGION'', TStr, Some (VStr ''us-east-1'')),
     (''S3_ENDPOINT_URL'', TStr, Some (VStr '''')),
     (''S3_ACCESS_KEY_ID'', TStr, Some (VStr '''')),
     (''S3_SECRET_ACCESS_KEY'', TStr, Some (VStr '''')),
     (''CLAMAV_HOST'', TStr, Some (VStr ''clamav'')),
     (''CLAMAV_PORT'', any_int, Some (VInt 3310)),
     (''CLAMAV_TIMEOUT_SECONDS'', any_int, Some (VInt 60)),
     (''TRUSTED_PROXY_CIDRS'', TList, Some (VList [])),
     (''GEOIP_DATABASE_PATH'', TStr, Some (VStr '''')),
     (''OTEL_ENABLED'', TBool, Some (VBool True)),
     (''OTEL_SERVICE_NAME'', TStr, Some (VStr ''phantom-share'')),
     (''OTEL_DEPLOYMENT_ENVIRONMENT'', TStr, Some (VStr ''development'')),
     (''OTEL_TRACES_EXPORTER'', TStr, Some (VStr ''otlp'')),
     (''OTEL_EXPORTER_OTLP_ENDPOINT'', TStr, Some (VStr ''http://localhost:4317'')),
     (''OTEL_EXPORTER_OTLP_INSECURE'', TBool, Some (VBool True)),
     (''OTEL_TRACE_SAMPLE_RATIO'', TFloat 0 1, Some (VFloat 1)),
     (''OTEL_EXCLUDED_URLS'', TStr, Some (VStr ''/health'')),
     (''CHACHA_KEY_BYTES'', any_int, None),
     (''SECRET_ENCRYPTION_KEY'', TStr, None),
     (''JWT_SECRET_KEY'', TStr, None),
     (''JWT_ALGORITHM'', TStr, None),
     (''JWT_ACCESS_TOKEN_EXPIRE_MINUTES'', any_int, None),
     (''JWT_REFRESH_TOKEN_EXPIRE_DAYS'', any_int, None),
     (''SIGNED_URL_SECRET'', TStr, None),
     (''BASE_URL'', TStr, None),
     (''SMTP_HOST'', TStr, None),
     (''SMTP_PORT'', any_int, None),
     (''SMTP_USERNAME'', TStr, None),
     (''SMTP_PASSWORD'', TStr, None),
     (''SMTP_FROM'', TStr, None),
     (''RABBITMQ_URL'', TStr, None),
     (''CORS_ORIGINS'', TList, None)]"

type_synonym settings_object = "string \<rightharpoonup> setting"

text \<open>What is relied on in \<open>BaseSettings\<close>: \<open>Settings()\<close> raises, or every field is its default or conforms.\<close>

definition settings_law :: "settings_object res \<Rightarrow> bool" where
  "settings_law r \<longleftrightarrow>
     (\<forall>v. r = Inr v \<longrightarrow>
        (\<forall>(n, ty, d) \<in> set Settings_fields. \<exists>x. v n = Some x \<and> (d = Some x \<or> conforms ty x)))"

text \<open>\<open>@lru_cache\<close>: a result is kept, an exception is not.\<close>

definition get_settings :: "settings_object res \<Rightarrow> settings_object option \<Rightarrow> settings_object res \<times> settings_object option" where
  "get_settings load cache =
     (case cache of
        Some v \<Rightarrow> (Inr v, cache)
      | None \<Rightarrow> (case load of Inl e \<Rightarrow> (Inl e, None) | Inr v \<Rightarrow> (Inr v, Some v)))"

fun get_settings_calls :: "settings_object res list \<Rightarrow> settings_object option \<Rightarrow> settings_object res list" where
  "get_settings_calls [] cache = []"
| "get_settings_calls (load # loads) cache =
     (case get_settings load cache of (r, cache') \<Rightarrow> r # get_settings_calls loads cache')"

text \<open>Every module reads one settings object: once a call has returned, all later calls return the same.\<close>

lemma get_settings_cached: "get_settings_calls loads (Some v) = replicate (length loads) (Inr v)"
  by (induction loads) (simp_all add: get_settings_def)

theorem one_settings_object:
  assumes "get_settings_calls (l1 @ l2) None ! i = Inr v" and "i < length l1"
  shows "i \<le> j \<Longrightarrow> j < length (l1 @ l2) \<Longrightarrow> get_settings_calls (l1 @ l2) None ! j = Inr v"
  using assms
proof (induction l1 arbitrary: i j)
  case (Cons l l1)
  show ?case
  proof (cases l)
    case (Inl e)
    then show ?thesis using Cons by (cases i; cases j) (simp_all add: get_settings_def)
  next
    case (Inr w)
    then show ?thesis using Cons.prems
      by (cases i; cases j) (simp_all add: get_settings_def get_settings_cached)
  qed
qed simp

section \<open>The records of the other theories\<close>

fun v_int :: "setting option \<Rightarrow> int" where "v_int (Some (VInt i)) = i" | "v_int _ = 0"
fun v_str :: "setting option \<Rightarrow> string" where "v_str (Some (VStr s)) = s" | "v_str _ = []"
fun v_bool :: "setting option \<Rightarrow> bool" where "v_bool (Some (VBool b)) = b" | "v_bool _ = False"
fun v_rat :: "setting option \<Rightarrow> rat" where "v_rat (Some (VFloat x)) = x" | "v_rat _ = 0"
fun v_list :: "setting option \<Rightarrow> string list" where "v_list (Some (VList l)) = l" | "v_list _ = []"

definition settings_of :: "settings_object \<Rightarrow> settings" where
  "settings_of v = \<lparr>
     VIEW_HISTORY_RETENTION_DAYS = v_int (v ''VIEW_HISTORY_RETENTION_DAYS''),
     MAX_SECRET_VERSIONS = v_int (v ''MAX_SECRET_VERSIONS''),
     MAX_FILE_BYTES = nat (v_int (v ''MAX_FILE_BYTES'')),
     DEFAULT_MAX_ACTIVE_SECRETS = v_int (v ''DEFAULT_MAX_ACTIVE_SECRETS''),
     DEFAULT_MAX_FILE_STORAGE_BYTES = v_int (v ''DEFAULT_MAX_FILE_STORAGE_BYTES''),
     SIGNED_URL_SECRET = v_str (v ''SIGNED_URL_SECRET''),
     BASE_URL = v_str (v ''BASE_URL''),
     TRUSTED_PROXY_CIDRS = v_list (v ''TRUSTED_PROXY_CIDRS''),
     GEOIP_DATABASE_PATH = v_str (v ''GEOIP_DATABASE_PATH''),
     JWT_SECRET_KEY = v_str (v ''JWT_SECRET_KEY''),
     JWT_ACCESS_TOKEN_EXPIRE_MINUTES = v_int (v ''JWT_ACCESS_TOKEN_EXPIRE_MINUTES''),
     JWT_REFRESH_TOKEN_EXPIRE_DAYS = v_int (v ''JWT_REFRESH_TOKEN_EXPIRE_DAYS''),
     SMTP_USERNAME = v_str (v ''SMTP_USERNAME''),
     SMTP_PASSWORD = v_str (v ''SMTP_PASSWORD''),
     SMTP_FROM = v_str (v ''SMTP_FROM'')\<rparr>"

definition s3_settings_of :: "settings_object \<Rightarrow> s3_settings" where
  "s3_settings_of v = \<lparr>S3_BUCKET = v_str (v ''S3_BUCKET''), S3_REGION = v_str (v ''S3_REGION''),
     S3_ENDPOINT_URL = v_str (v ''S3_ENDPOINT_URL''), S3_ACCESS_KEY_ID = v_str (v ''S3_ACCESS_KEY_ID''),
     S3_SECRET_ACCESS_KEY = v_str (v ''S3_SECRET_ACCESS_KEY'')\<rparr>"

definition otel_settings_of :: "settings_object \<Rightarrow> otel_settings" where
  "otel_settings_of v = \<lparr>
     APP_NAME = v_str (v ''APP_NAME''),
     APP_VERSION = v_str (v ''APP_VERSION''),
     OTEL_ENABLED = v_bool (v ''OTEL_ENABLED''),
     OTEL_SERVICE_NAME = v_str (v ''OTEL_SERVICE_NAME''),
     OTEL_DEPLOYMENT_ENVIRONMENT = v_str (v ''OTEL_DEPLOYMENT_ENVIRONMENT''),
     OTEL_TRACES_EXPORTER = v_str (v ''OTEL_TRACES_EXPORTER''),
     OTEL_EXPORTER_OTLP_ENDPOINT = v_str (v ''OTEL_EXPORTER_OTLP_ENDPOINT''),
     OTEL_EXPORTER_OTLP_INSECURE = v_bool (v ''OTEL_EXPORTER_OTLP_INSECURE''),
     OTEL_TRACE_SAMPLE_RATIO = v_rat (v ''OTEL_TRACE_SAMPLE_RATIO''),
     OTEL_EXCLUDED_URLS = v_str (v ''OTEL_EXCLUDED_URLS'')\<rparr>"

text \<open>The defaults, which pydantic does not check, are values of their declarations.\<close>

lemma defaults_conform: "(n, ty, Some x) \<in> set Settings_fields \<Longrightarrow> conforms ty x"
  by (auto simp: Settings_fields_def)

lemma setting_conforms:
  assumes "settings_law (Inr v)" and "(n, ty, d) \<in> set Settings_fields"
  obtains x where "v n = Some x" and "conforms ty x"
  using assms defaults_conform [of n ty] by (fastforce simp: settings_law_def)

lemma int_setting:
  assumes "settings_law (Inr v)" and "(n, TInt (Some a) b, d) \<in> set Settings_fields"
  shows "a \<le> v_int (v n)" and "b = Some c \<Longrightarrow> v_int (v n) \<le> c"
proof -
  obtain x where x: "v n = Some x" "conforms (TInt (Some a) b) x"
    by (rule setting_conforms [OF assms])
  from x(2) obtain i where "x = VInt i" by (cases x) simp_all
  with x show "a \<le> v_int (v n)" and "b = Some c \<Longrightarrow> v_int (v n) \<le> c" by simp_all
qed

text \<open>
  The bounds that the service runs with: retention between a day and a year, between one and a
  thousand versions, and no limit of zero.
\<close>

theorem settings_bounds:
  assumes "settings_law (Inr v)"
  shows "1 \<le> VIEW_HISTORY_RETENTION_DAYS (settings_of v)" and "VIEW_HISTORY_RETENTION_DAYS (settings_of v) \<le> 365"
    and "1 \<le> MAX_SECRET_VERSIONS (settings_of v)" and "MAX_SECRET_VERSIONS (settings_of v) \<le> 1000"
    and "1 \<le> MAX_FILE_BYTES (settings_of v)"
    and "1 \<le> DEFAULT_MAX_ACTIVE_SECRETS (settings_of v)" and "1 \<le> DEFAULT_MAX_FILE_STORAGE_BYTES (settings_of v)"
proof -
  note int = int_setting [OF assms]
  show "1 \<le> VIEW_HISTORY_RETENTION_DAYS (settings_of v)" "VIEW_HISTORY_RETENTION_DAYS (settings_of v) \<le> 365"
    using int [of "''VIEW_HISTORY_RETENTION_DAYS''" 1 "Some 365"] by (simp_all add: settings_of_def Settings_fields_def)
  show "1 \<le> MAX_SECRET_VERSIONS (settings_of v)" "MAX_SECRET_VERSIONS (settings_of v) \<le> 1000"
    using int [of "''MAX_SECRET_VERSIONS''" 1 "Some 1000"] by (simp_all add: settings_of_def Settings_fields_def)
  show "1 \<le> MAX_FILE_BYTES (settings_of v)"
    using int(1) [of "''MAX_FILE_BYTES''" 1 None] by (simp add: settings_of_def Settings_fields_def)
  show "1 \<le> DEFAULT_MAX_ACTIVE_SECRETS (settings_of v)"
    using int(1) [of "''DEFAULT_MAX_ACTIVE_SECRETS''" 1 None] by (simp add: settings_of_def Settings_fields_def)
  show "1 \<le> DEFAULT_MAX_FILE_STORAGE_BYTES (settings_of v)"
    using int(1) [of "''DEFAULT_MAX_FILE_STORAGE_BYTES''" 1 None] by (simp add: settings_of_def Settings_fields_def)
qed

end
