(* ===== verification/Spec2Isabelle.thy ===== *)
theory Spec2Isabelle
  imports Secret_Versions Quota_Life Temp_Files Responses Routes View_Page Signed_Token File_Crypto Middleware Clamav Admin Expiry_Worker Notification_Worker Lifespan Config
begin

text \<open>
  Phantom Share: a service for secrets (texts and files) that are encrypted at rest, expire, and are
  deleted after a number of views.  FastAPI handlers (app/routers) work on PostgreSQL, Redis, an
  S3 store, ClamAV and RabbitMQ; workers (app/services) clean up and notify.  This development
  translates the Python sources, the SQL they embed, the schema with its triggers
  (database/migrations) and the Lua scripts into HOL functions, and proves what they promise.

  \<^bold>\<open>Conventions.\<close>  A handler is a function from its inputs and the state to a result and a new state.
  A result is \<open>exc + 'a\<close>: every \<open>raise\<close> is an \<open>Inl\<close>.  A table is the list of its rows (\<open>Prelude\<close>: SELECT is filter,
  UPDATE map, DELETE filter, INSERT at the end); constraints are explicit failures; triggers and foreign-key
  actions are part of the statement that fires them (\<open>Database\<close>).  A transaction that raises gives
  back the state it started from; one whose statement failed and was swallowed is aborted and its COMMIT
  rolls back (\<open>Audit_Log\<close>).  A Python str is its UTF-8 bytes.  Times are microseconds; a handler reads
  each clock once (\<open>request\<close>).  Random values are arguments.

  \<^bold>\<open>Parameters.\<close>  Code that is not under src/ is an argument: ChaCha20-Poly1305, SHA-256 and HMAC (\<open>crypto\<close>, laws
  \<open>aead_dec\<close>, \<open>aead_exact\<close>, \<open>aead_len\<close>), PostgreSQL's inet, ipaddress and GeoIP (\<open>platform\<close>), bcrypt, the
  JWT codec and SMTP (\<open>auth_lib\<close>, laws \<open>jwt_ok\<close> and \<open>bcrypt_ok\<close>), the object store, the scanner daemon and
  e-mail validation (\<open>file_lib\<close>, laws \<open>store_laws\<close>), and the outcome of publications, mail sessions and webhook
  calls, the router of the web framework (\<open>framework\<close>, law \<open>routing_ok\<close>), the S3 client (law \<open>s3_laws\<close>), the disk (law \<open>disk_laws\<close>), the loading of
  settings (law \<open>settings_law\<close>), the OpenTelemetry library, the renderer of QR codes, and what the connections and
  background tasks of the process do.  Each law is a named hypothesis, and the witnesses discharge it for a concrete instance.

  \<^bold>\<open>Theories.\<close>
  \<^item> \<open>Prelude\<close>, \<open>Py_Lib\<close>, \<open>Platform\<close>, \<open>Database\<close>, \<open>World\<close>: results, tables, Python's library functions
    (int, str, uuid, base64, struct, UTF-8), settings, rows and triggers, the shared state.  The locale
    \<open>stepwise\<close> carries an invariant and a promise along the runs of a step relation.
  \<^item> \<open>Crypto\<close> (app/helper.py), \<open>Key_Service\<close>: envelope encryption; keys of a secret by number, with the locale
    \<open>key_store\<close> as their contract.
  \<^item> \<open>File_Crypto\<close>: the chunked file format.  Decryption inverts encryption; what decrypts is a sequence of
    authentic frames in order; a file cut at a frame decrypts to a prefix.
  \<^item> \<open>Signed_Token\<close>, \<open>Permissions\<close>, \<open>Client_IP\<close>, \<open>Location_Policy\<close>, \<open>Rate_Limit\<close>, \<open>Schemas\<close>, \<open>Middleware\<close>: what a request
    passes: share links, roles, the address behind trusted proxies, location rules, the sliding window, the
    validators, and the headers of the answer.
  \<^item> \<open>Routes\<close>: every route with its limit and its authentication dependency, in the order of registration, and the
    way of a request from the address to the handler.  No route hides another, no handler runs for a caller
    its gate refuses, and the limits hold over any mixture of requests.
  \<^item> \<open>Responses\<close>: the response models as JSON.  What the endpoints about secrets, versions, views, accounts and quotas
    answer does not depend on any stored content, key, digest or token.
  \<^item> \<open>View_Page\<close>, \<open>Lifespan\<close>: the HTML page that asks for a password; startup and shutdown (app/main.py) with the
    pool, the Redis client and the exchange reference.
  \<^item> \<open>Config\<close>, \<open>Storage_Service\<close>, \<open>Tracing\<close>: the declaration of the settings with the bounds they run with; the
    adapter to the S3 client, shown to meet the contract \<open>store_laws\<close>; the bootstrap of OpenTelemetry, which
    runs once and never fails the application, and the headers of messages, which keep the retry count.
  \<^item> \<open>Quota\<close>: the Lua scripts and the reservation protocol.  The counters are exact in every reachable state.
  \<^item> \<open>Secrets\<close>, \<open>Secret_Access\<close>, \<open>Secret_Versions\<close>: text secrets.  Round trip of creation and retrieval, soundness of
    retrieval, the view budget over any sequence of requests, atomicity of failures; every handler refines
    an append-only document (locale \<open>version_store\<close>).
  \<^item> \<open>Secret_Life\<close>: the life of one secret when requests overlap.  Every transaction that touches it is a step, an
    authorisation and the locked part it precedes being two; the views stay within the limit, the terms of
    the secret do not change, and replaced location rules never let anyone in again.
  \<^item> \<open>Quota_Life\<close>: the limit on active secrets, for any number of users and requests that overlap.  Reading the usage,
    reserving, publishing and committing are separate steps on PostgreSQL and Redis, between which every other
    transaction, the reaper and reconciliations may run; nobody gets past his limit, and the handlers are
    sequences of these steps.
  \<^item> \<open>Clamav\<close>, \<open>Files\<close>, \<open>File_Secrets\<close>, \<open>File_Uploads\<close>, \<open>Objects\<close>, \<open>File_Store\<close>: file secrets.  \<open>Files\<close> holds the
    handlers; the others their round trip, soundness, failures, and the life of objects: the handlers
    are sequences of the atomic steps of \<open>store_step\<close>, whose invariant says that no interleaving loses an
    object or forgets one.
  \<^item> \<open>Temp_Files\<close>: the same handlers on a directory of temporary files.  They do what \<open>Files\<close> says of values, and
    leave no plaintext behind, whatever else fails.
  \<^item> \<open>Sessions\<close>: accounts and sessions.  The tables stay well formed, authentication is characterised exactly, a
    refresh token works once.
  \<^item> \<open>Audit_Log\<close>, \<open>Admin\<close>: the audit log; administration, statistics and quota limits.  While
    requests are served one after the other, an administrator remains and none appears from nowhere.
  \<^item> \<open>Cleanup\<close>, \<open>Expiry_Worker\<close>: the Redis lock as a lease (locale \<open>lease\<close>), expiry, the sweep, the storage worker,
    and the loops around them as sequences of rounds.
  \<^item> \<open>Notifications\<close>, \<open>Notification_Worker\<close>: publication, queues and dead-letter queues, consumers, retries.  In
    every interleaving nothing is lost or duplicated and nothing is tried more than four times; under a fair
    schedule every notification is delivered or reported.

  \<^bold>\<open>Bounds and fuel.\<close>  The health-check loop of the startup is a partial function, shown to end within 51 rounds.  No
  other model can fail to return: loops over chunks, frames, rows and tokens are structural or decrease
  a length.  Endless loops (workers) are functions of one round, or of a list of events.  The
  schedule \<open>serve\<close> takes a number of steps, and \<open>notifications_resolved\<close> gives a number that is enough
  (three times \<open>work\<close>, plus two).  Chunk indices are packed into 32 bits, so files have at most 2^32 chunks.

  \<^bold>\<open>Assumptions on timing.\<close>  \<open>file_inv\<close> needs that an upload is published while its pending row
  exists (15 minutes), and the sweep step that the users it removes have no pending upload; the code checks
  neither.  \<open>quota_step\<close> takes it that a secret is published while its reservation is open and committed before
  the reaper comes (10 minutes), and that no creation is published between the reading and the writing of a
  reconciliation; the lemmas at its end show what happens otherwise.  A lock protects for its lease only.

  \<^bold>\<open>Not modelled.\<close>  The parsing of settings, what a span records, logging and CORS (calls of libraries
  without logic of their own); e-mail and URL syntax (pydantic); the parsing of query and form parameters by the
  framework; the items of the audit log as JSON (their metadata is a free-form dictionary); crashes and cancellations
  between the steps of a file handler; the reconnections of the broker's client library; indexes and the data
  migrations; the command-line client, which is in Go.
  PostgreSQL is taken to read every spelling of a uuid that Python reads.
\<close>

end
